(* ===== verification/Prelude.thy ===== *)
theory Prelude
  imports Complex_Main "HOL-Library.Sublist"
begin

text \<open>
  What the component theories share: the collections of simplification rules, the lookup in a
  Python list and the successor of an element in a path, lemmas on maps used as dictionaries,
  and the two contracts that most stateful components of Karma promise about their steps
  (an invariant that every step keeps, and a log that every step only extends).
\<close>

section \<open>Collections\<close>

named_theorems op_defs \<open>definitions of operations, to be unfolded when an operation is analysed\<close>
named_theorems frame_simps \<open>fields that an operation leaves alone\<close>

section \<open>Python lists\<close>

text \<open>\<open>index_of x xs\<close> is \<open>xs.index(x)\<close>: the first position, \<open>None\<close> for a \<open>ValueError\<close>.\<close>

primrec index_of :: "'a \<Rightarrow> 'a list \<Rightarrow> nat option" where
  "index_of x [] = None"
| "index_of x (y # ys) = (if x = y then Some 0 else map_option Suc (index_of x ys))"

text \<open>The element that follows the first occurrence of \<open>x\<close>.\<close>

definition next_after :: "'a \<Rightarrow> 'a list \<Rightarrow> 'a option" where
  "next_after x xs =
     (case index_of x xs of
        None \<Rightarrow> None
      | Some i \<Rightarrow> if i + 1 < length xs then Some (xs ! (i + 1)) else None)"

text \<open>Neighbouring elements of a path.\<close>

definition path_edges :: "'a list \<Rightarrow> ('a \<times> 'a) list" where
  "path_edges xs = zip xs (tl xs)"

lemma index_of_None: "index_of x xs = None \<longleftrightarrow> x \<notin> set xs"
  by (induction xs) auto

lemma index_of_nth: "index_of x xs = Some i \<Longrightarrow> i < length xs \<and> xs ! i = x"
  by (induction xs arbitrary: i) (auto split: if_splits)

lemma index_of_distinct:
  "distinct xs \<Longrightarrow> i < length xs \<Longrightarrow> xs ! i = x \<Longrightarrow> index_of x xs = Some i"
proof (induction xs arbitrary: i)
  case Nil
  then show ?case by simp
next
  case (Cons y ys)
  then show ?case by (cases i) auto
qed

lemma path_edges_iff:
  "(a, b) \<in> set (path_edges xs) \<longleftrightarrow> (\<exists>i. i + 1 < length xs \<and> xs ! i = a \<and> xs ! (i + 1) = b)"
  by (cases xs) (auto simp: path_edges_def in_set_conv_nth nth_tl)

lemma next_after_edge: "next_after a xs = Some b \<Longrightarrow> (a, b) \<in> set (path_edges xs)"
  by (auto simp: next_after_def path_edges_iff dest!: index_of_nth split: option.splits if_splits)

lemma next_after_iff:
  assumes "distinct xs"
  shows "next_after a xs = Some b \<longleftrightarrow> (a, b) \<in> set (path_edges xs)"
proof
  assume "(a, b) \<in> set (path_edges xs)"
  then obtain i where "i + 1 < length xs" "xs ! i = a" "xs ! (i + 1) = b"
    by (auto simp: path_edges_iff)
  with assms show "next_after a xs = Some b"
    by (simp add: next_after_def index_of_distinct [of xs i])
qed (rule next_after_edge)

lemma path_edges_append_single:
  "xs \<noteq> [] \<Longrightarrow> path_edges (xs @ [y]) = path_edges xs @ [(last xs, y)]"
  by (induction xs) (auto simp: path_edges_def neq_Nil_conv)

section \<open>Contracts of stateful components\<close>

text \<open>A property of states that every step keeps holds along every run.\<close>

locale step_invariant =
  fixes step :: "'s \<Rightarrow> 's \<Rightarrow> bool"
    and inv :: "'s \<Rightarrow> bool"
  assumes inv_step: "step s t \<Longrightarrow> inv s \<Longrightarrow> inv t"
begin

lemma inv_run: "step\<^sup>*\<^sup>* s t \<Longrightarrow> inv s \<Longrightarrow> inv t"
  by (induction rule: rtranclp_induct) (auto intro: inv_step)

end

text \<open>A log that every step only extends: no run removes or rewrites an entry.\<close>

locale append_only =
  fixes step :: "'s \<Rightarrow> 's \<Rightarrow> bool"
    and log :: "'s \<Rightarrow> 'e list"
  assumes log_step: "step s t \<Longrightarrow> prefix (log s) (log t)"
begin

lemma log_run: "step\<^sup>*\<^sup>* s t \<Longrightarrow> prefix (log s) (log t)"
  by (induction rule: rtranclp_induct) (auto dest: log_step intro: prefix_order.trans)

lemma log_entry_kept:
  assumes "step\<^sup>*\<^sup>* s t" and "i < length (log s)"
  shows "i < length (log t) \<and> log t ! i = log s ! i"
  using log_run [OF assms(1)] assms(2) by (auto simp: prefix_def nth_append)

end

end
