(* ===== verification/Py_Std.thy ===== *)
theory Py_Std
  imports Prelude "HOL-Library.Char_ord" "HOL-Library.List_Lexorder" "HOL-Library.Multiset"
begin

text \<open>
  The parts of the Python standard library that several components use: the decimal printing of
  integers, \<open>str.join\<close>, hexadecimal printing of byte strings and \<open>json.dumps\<close> with
  \<open>sort_keys=True\<close>. A Python \<open>str\<close> is modelled as an ASCII \<^typ>\<open>string\<close>, on which
  UTF-8 encoding is the identity, so a byte string has the same type. JSON numbers are integers
  (the hashed payloads of the model carry no floating point value). The main result is that the
  sorted serialisation depends on the logical content of a document only, not on the order in
  which its keys were inserted.
\<close>

section \<open>Printing\<close>

type_synonym bytes = string

definition digit_char :: "nat \<Rightarrow> char" where
  "digit_char d = ''0123456789abcdef'' ! d"

fun show_nat :: "nat \<Rightarrow> string" where
  "show_nat n = (if n < 10 then [digit_char n] else show_nat (n div 10) @ [digit_char (n mod 10)])"

declare show_nat.simps [simp del]

definition show_int :: "int \<Rightarrow> string" where
  "show_int i = (if i < 0 then CHR ''-'' # show_nat (nat (- i)) else show_nat (nat i))"

fun join :: "string \<Rightarrow> string list \<Rightarrow> string" where
  "join sep [] = []"
| "join sep [x] = x"
| "join sep (x # y # ys) = x @ sep @ join sep (y # ys)"

definition char_code :: "char \<Rightarrow> nat" where
  "char_code c = of_char c"

definition hex_byte :: "char \<Rightarrow> string" where
  "hex_byte c = [digit_char (char_code c div 16), digit_char (char_code c mod 16)]"

definition hex :: "bytes \<Rightarrow> string" where
  "hex bs = concat (map hex_byte bs)"

text \<open>\<open>s.lower()\<close> and \<open>s.strip()\<close> on ASCII strings.\<close>

definition lower_char :: "char \<Rightarrow> char" where
  "lower_char c = (if 65 \<le> char_code c \<and> char_code c \<le> 90 then char_of (char_code c + 32) else c)"

definition lower :: "string \<Rightarrow> string" where
  "lower s = map lower_char s"

definition is_space :: "char \<Rightarrow> bool" where
  "is_space c \<longleftrightarrow> char_code c = 32 \<or> (9 \<le> char_code c \<and> char_code c \<le> 13) \<or> (28 \<le> char_code c \<and> char_code c \<le> 31)"

definition strip :: "string \<Rightarrow> string" where
  "strip s = rev (dropWhile is_space (rev (dropWhile is_space s)))"

text \<open>The slice \<open>xs[:k]\<close>; a negative bound counts from the end.\<close>

definition py_take :: "int \<Rightarrow> 'a list \<Rightarrow> 'a list" where
  "py_take k xs = (if 0 \<le> k then take (nat k) xs else take (length xs - nat (- k)) xs)"

text \<open>
  \<open>round(x, n)\<close>: Python rounds ties to the even neighbour. Floating point numbers are modelled as
  exact rationals throughout, so the rounding of the binary representation is not modelled.
\<close>

definition round_half_even :: "rat \<Rightarrow> int" where
  "round_half_even x =
     (let f = \<lfloor>x\<rfloor>; d = x - of_int f in
      if d < 1 / 2 then f else if 1 / 2 < d then f + 1 else if even f then f else f + 1)"

definition py_round :: "rat \<Rightarrow> nat \<Rightarrow> rat" where
  "py_round x n = of_int (round_half_even (x * 10 ^ n)) / 10 ^ n"

section \<open>JSON\<close>

datatype json =
    JNull
  | JBool bool
  | JInt int
  | JStr string
  | JList "json list"
  | JObj "(string \<times> json) list"

text \<open>\<open>json.encoder.py_encode_basestring_ascii\<close>: what lies outside space to tilde is escaped.\<close>

definition escape_char :: "char \<Rightarrow> string" where
  "escape_char c =
     (let n = char_code c in
      if n = 34 then [char_of (92::nat), c]
      else if n = 92 then [c, c]
      else if n = 10 then [char_of (92::nat), CHR ''n'']
      else if n = 13 then [char_of (92::nat), CHR ''r'']
      else if n = 9 then [char_of (92::nat), CHR ''t'']
      else if n = 12 then [char_of (92::nat), CHR ''f'']
      else if n = 8 then [char_of (92::nat), CHR ''b'']
      else if 32 \<le> n \<and> n \<le> 126 then [c]
      else char_of (92::nat) # ''u00'' @ hex_byte c)"

definition quote_str :: "string \<Rightarrow> string" where
  "quote_str s = CHR 34 # concat (map escape_char s) @ [CHR 34]"

fun dumps :: "string \<Rightarrow> string \<Rightarrow> json \<Rightarrow> string" where
  "dumps isep ksep JNull = ''null''"
| "dumps isep ksep (JBool b) = (if b then ''true'' else ''false'')"
| "dumps isep ksep (JInt i) = show_int i"
| "dumps isep ksep (JStr s) = quote_str s"
| "dumps isep ksep (JList xs) = ''['' @ join isep (map (dumps isep ksep) xs) @ '']''"
| "dumps isep ksep (JObj kvs) =
     ''{'' @ join isep (map (\<lambda>(k, v). quote_str k @ ksep @ v)
                         (sort_key fst (map (\<lambda>(k, v). (k, dumps isep ksep v)) kvs))) @ ''}''"

text \<open>\<open>json.dumps(obj, sort_keys=True, separators=(",", ":"))\<close>\<close>

definition canonical_json :: "json \<Rightarrow> string" where
  "canonical_json j = dumps '','' '':'' j"

text \<open>A Python dictionary has distinct keys; \<open>same_json\<close> relates documents with the same content.\<close>

inductive same_json :: "json \<Rightarrow> json \<Rightarrow> bool" where
  same_refl: "same_json j j"
| same_list: "list_all2 same_json xs ys \<Longrightarrow> same_json (JList xs) (JList ys)"
| same_obj: "distinct (map fst kvs) \<Longrightarrow>
    list_all2 (\<lambda>p q. fst p = fst q \<and> same_json (snd p) (snd q)) kvs kvs' \<Longrightarrow>
    mset kvs' = mset kvs'' \<Longrightarrow> same_json (JObj kvs) (JObj kvs'')"

section \<open>Printing is unambiguous\<close>

text \<open>Reading a decimal back; \<open>show_nat\<close> is its inverse.\<close>

definition read_nat :: "string \<Rightarrow> nat" where
  "read_nat s = foldl (\<lambda>acc c. 10 * acc + (char_code c - 48)) 0 s"

lemma digit_value: "d < 10 \<Longrightarrow> char_code (digit_char d) = 48 + d"
  by (auto simp: digit_char_def char_code_def less_Suc_eq numeral_eq_Suc)

lemma read_show_nat [simp]: "read_nat (show_nat n) = n"
proof (induction n rule: show_nat.induct)
  case (1 n)
  show ?case
  proof (cases "n < 10")
    case True
    then show ?thesis by (subst show_nat.simps) (simp add: read_nat_def digit_value)
  next
    case False
    with "1" have "read_nat (show_nat (n div 10)) = n div 10" by simp
    with False show ?thesis
      by (subst show_nat.simps) (simp add: read_nat_def digit_value)
  qed
qed

lemma show_nat_inj [simp]: "show_nat m = show_nat n \<longleftrightarrow> m = n"
  by (metis read_show_nat)

text \<open>Hexadecimal printing is injective.\<close>

lemma digit_char_inj: "i < 16 \<Longrightarrow> j < 16 \<Longrightarrow> digit_char i = digit_char j \<Longrightarrow> i = j"
  by (auto simp: digit_char_def less_Suc_eq numeral_eq_Suc)

lemma hex_byte_inj [simp]: "hex_byte c = hex_byte d \<longleftrightarrow> c = d"
proof
  assume eq: "hex_byte c = hex_byte d"
  have less: "char_code c < 256" "char_code d < 256"
    by (simp_all add: char_code_def)
  then have "char_code c div 16 < 16" "char_code d div 16 < 16" by simp_all
  with eq have "char_code c div 16 = char_code d div 16" "char_code c mod 16 = char_code d mod 16"
    by (auto simp: hex_byte_def intro: digit_char_inj)
  then have "char_code c = char_code d" by (metis div_mult_mod_eq)
  then show "c = d" by (simp add: char_code_def)
qed simp

lemma hex_inj [simp]: "hex xs = hex ys \<longleftrightarrow> xs = ys"
proof
  assume "hex xs = hex ys"
  then show "xs = ys"
  proof (induction xs arbitrary: ys)
    case Nil
    then show ?case by (cases ys) (auto simp: hex_def hex_byte_def)
  next
    case (Cons x xs)
    then obtain y ys' where "ys = y # ys'" by (cases ys) (auto simp: hex_def hex_byte_def)
    with Cons show ?case using hex_byte_inj [of x y] by (auto simp: hex_def hex_byte_def simp del: hex_byte_inj)
  qed
qed simp

text \<open>
  Joining on a separator character is injective on lists of the same length whose elements do
  not contain that character.
\<close>

lemma append_char_inj:
  "x @ c # xs = y @ c # ys \<Longrightarrow> c \<notin> set x \<Longrightarrow> c \<notin> set y \<Longrightarrow> x = y \<and> xs = ys"
  by (induction x arbitrary: y) (auto simp: Cons_eq_append_conv)

lemma join_char_inj:
  assumes "length xs = length ys" and "join [c] xs = join [c] ys"
    and "\<forall>x \<in> set xs. c \<notin> set x" and "\<forall>y \<in> set ys. c \<notin> set y"
  shows "xs = ys"
  using assms
proof (induction xs ys rule: list_induct2)
  case Nil
  show ?case ..
next
  case (Cons x xs y ys)
  show ?case
  proof (cases xs)
    case Nil
    with Cons.prems Cons.hyps show ?thesis by simp
  next
    case (Cons a as)
    with Cons.hyps obtain b bs where ys: "ys = b # bs" by (cases ys) auto
    with Cons have "x @ c # join [c] xs = y @ c # join [c] ys"
      using Cons.prems(1) by simp
    then have "x = y \<and> join [c] xs = join [c] ys"
      by (rule append_char_inj) (use Cons.prems in auto)
    with Cons.IH Cons.prems show ?thesis by simp
  qed
qed

section \<open>Slices\<close>

lemma py_take_split: "\<exists>n. py_take k xs = take n xs"
  unfolding py_take_def by (cases "0 \<le> k") auto

lemma length_py_take: "0 \<le> k \<Longrightarrow> length (py_take k xs) = min (length xs) (nat k)"
  by (simp add: py_take_def)

section \<open>Rounding stays between integers\<close>

lemma round_half_even_ge: "of_int k \<le> x \<Longrightarrow> k \<le> round_half_even x"
proof -
  assume "of_int k \<le> x"
  then have "k \<le> \<lfloor>x\<rfloor>" by (simp add: le_floor_iff)
  then show ?thesis by (auto simp: round_half_even_def Let_def)
qed

lemma round_half_even_le: "x \<le> of_int k \<Longrightarrow> round_half_even x \<le> k"
proof (cases "x = of_int k")
  case True
  then show ?thesis by (simp add: round_half_even_def)
next
  case False
  assume "x \<le> of_int k"
  with False have "x < of_int k" by simp
  then have "\<lfloor>x\<rfloor> < k" by (simp add: floor_less_iff)
  then show ?thesis by (auto simp: round_half_even_def Let_def)
qed

lemma py_round_ge:
  assumes "of_int k \<le> x"
  shows "of_int k \<le> py_round x n"
proof -
  have "of_int (k * 10 ^ n) \<le> x * 10 ^ n" using assms by simp
  then have "k * 10 ^ n \<le> round_half_even (x * 10 ^ n)" by (rule round_half_even_ge)
  then have "(of_int (k * 10 ^ n) :: rat) \<le> of_int (round_half_even (x * 10 ^ n))" by (simp only: of_int_le_iff)
  then show ?thesis by (simp add: py_round_def field_simps)
qed

lemma py_round_le:
  assumes "x \<le> of_int k"
  shows "py_round x n \<le> of_int k"
proof -
  have "x * 10 ^ n \<le> of_int (k * 10 ^ n)" using assms by simp
  then have "round_half_even (x * 10 ^ n) \<le> k * 10 ^ n" by (rule round_half_even_le)
  then have "(of_int (round_half_even (x * 10 ^ n)) :: rat) \<le> of_int (k * 10 ^ n)" by (simp only: of_int_le_iff)
  then show ?thesis by (simp add: py_round_def field_simps)
qed

text \<open>The rounding error is at most half a unit of the last place.\<close>

lemma round_half_even_error: "\<bar>of_int (round_half_even x) - x\<bar> \<le> 1 / 2"
proof -
  have "of_int \<lfloor>x\<rfloor> \<le> x" "x < of_int \<lfloor>x\<rfloor> + 1" using floor_correct [of x] by simp_all
  then show ?thesis by (auto simp: round_half_even_def Let_def abs_le_iff)
qed

lemma py_round_error: "\<bar>py_round x n - x\<bar> \<le> 1 / (2 * 10 ^ n)"
proof -
  have "py_round x n - x = (of_int (round_half_even (x * 10 ^ n)) - x * 10 ^ n) / 10 ^ n"
    by (simp add: py_round_def field_simps)
  then have "\<bar>py_round x n - x\<bar> = \<bar>of_int (round_half_even (x * 10 ^ n)) - x * 10 ^ n\<bar> / 10 ^ n"
    by (simp add: abs_divide)
  also have "\<dots> \<le> (1 / 2) / 10 ^ n" by (rule divide_right_mono [OF round_half_even_error]) simp
  finally show ?thesis by simp
qed

lemma round_half_even_of_int [simp]: "round_half_even (of_int k) = k"
  by (simp add: round_half_even_def)

lemma round_half_even_mono:
  assumes "x \<le> y"
  shows "round_half_even x \<le> round_half_even y"
proof (cases "\<lfloor>x\<rfloor> = \<lfloor>y\<rfloor>")
  case True
  with assms show ?thesis by (auto simp: round_half_even_def Let_def)
next
  case False
  with floor_mono [OF assms] have "\<lfloor>x\<rfloor> + 1 \<le> \<lfloor>y\<rfloor>" by simp
  moreover have "round_half_even x \<le> \<lfloor>x\<rfloor> + 1" "\<lfloor>y\<rfloor> \<le> round_half_even y"
    by (auto simp: round_half_even_def Let_def)
  ultimately show ?thesis by simp
qed

lemma py_round_mono: "x \<le> y \<Longrightarrow> py_round x n \<le> py_round y n"
  unfolding py_round_def by (intro divide_right_mono) (auto intro: round_half_even_mono)

section \<open>Key order does not matter\<close>

lemma map_fst_values: "map fst (map (\<lambda>(k, v). (k, f v)) kvs) = map fst kvs"
  by (induction kvs) auto

lemma list_all2_same_values:
  "list_all2 (\<lambda>p q. fst p = fst q \<and> f (snd p) = f (snd q)) kvs kvs' \<Longrightarrow>
   map (\<lambda>(k, v). (k, f v)) kvs = map (\<lambda>(k, v). (k, f v)) kvs'"
  by (induction rule: list_all2_induct) auto

lemma filter_key_unique:
  "distinct (map f zs) \<Longrightarrow> k \<in> set zs \<Longrightarrow> filter (\<lambda>x. f k = f x) zs = [k]"
  by (induction zs) (auto simp: filter_empty_conv rev_image_eqI)

lemma distinct_keys_perm: "mset xs = mset ys \<Longrightarrow> distinct (map f xs) = distinct (map f ys)"
  by (metis mset_map mset_eq_imp_distinct_iff)

text \<open>With distinct keys, the sorted list depends on the multiset of the elements only.\<close>

lemma sort_key_perm:
  assumes "mset xs = mset ys" and "distinct (map f xs)"
  shows "sort_key f xs = sort_key f ys"
proof (rule properties_for_sort_key)
  show m: "mset (sort_key f ys) = mset xs" using assms(1) by simp
  fix k assume "k \<in> set (sort_key f ys)"
  with assms m show "filter (\<lambda>x. f k = f x) (sort_key f ys) = filter (\<lambda>x. f k = f x) xs"
    by (metis distinct_keys_perm filter_key_unique set_mset_mset)
qed simp

text \<open>One more entry makes the serialisation of a dictionary longer.\<close>

lemma length_join: "length (join sep xs) = sum_list (map length xs) + (length xs - 1) * length sep"
  by (induction sep xs rule: join.induct) auto

lemma sum_list_sort: "sum_list (map h (sort_key f xs)) = (sum_list (map h xs) :: nat)"
  by (metis mset_map mset_sort sum_mset_sum_list)

lemma length_dumps_obj:
  "length (dumps isep ksep (JObj kvs)) =
     2 + sum_list (map (\<lambda>(k, v). length (quote_str k) + length ksep + length (dumps isep ksep v)) kvs) +
     (length kvs - 1) * length isep"
proof -
  let ?h = "\<lambda>(k, v). length (quote_str k @ ksep @ v)"
  have "sum_list (map (length \<circ> (\<lambda>(k, v). quote_str k @ ksep @ v)) (sort_key fst (map (\<lambda>(k, v). (k, dumps isep ksep v)) kvs)))
      = sum_list (map ?h (sort_key fst (map (\<lambda>(k, v). (k, dumps isep ksep v)) kvs)))"
    by (rule arg_cong [of _ _ sum_list]) auto
  also have "\<dots> = sum_list (map ?h (map (\<lambda>(k, v). (k, dumps isep ksep v)) kvs))" by (rule sum_list_sort)
  finally show ?thesis by (simp add: length_join comp_def case_prod_unfold add.assoc)
qed

lemma length_dumps_more:
  "length (dumps isep ksep (JObj kvs)) < length (dumps isep ksep (JObj (kv # kvs)))"
  by (cases kv; cases kvs) (simp_all only: length_dumps_obj, simp_all add: quote_str_def)

lemma dumps_same_json: "same_json j j' \<Longrightarrow> dumps isep ksep j = dumps isep ksep j'"
proof (induction rule: same_json.induct)
  case (same_refl j)
  show ?case ..
next
  case (same_list xs ys)
  then have "map (dumps isep ksep) xs = map (dumps isep ksep) ys"
    by (auto simp: list_all2_conv_all_nth intro: nth_equalityI)
  then show ?case by simp
next
  case (same_obj kvs kvs' kvs'')
  let ?f = "\<lambda>(k, v). (k, dumps isep ksep v)"
  have "list_all2 (\<lambda>p q. fst p = fst q \<and> dumps isep ksep (snd p) = dumps isep ksep (snd q)) kvs kvs'"
    using same_obj.IH by (rule list_all2_mono) auto
  then have eq: "map ?f kvs = map ?f kvs'" by (rule list_all2_same_values)
  have "mset (map ?f kvs) = mset (map ?f kvs'')"
    unfolding eq mset_map using same_obj.hyps(2) by simp
  then have "sort_key fst (map ?f kvs) = sort_key fst (map ?f kvs'')"
    using same_obj.hyps(1) by (intro sort_key_perm) (simp_all only: map_fst_values)
  then show ?case by simp
qed

end
