(* ===== verification/Billing_Schema.thy ===== *)
theory Billing_Schema
  imports Py_Std
begin

text \<open>
  The data of the billing package (\<^verbatim>\<open>packages/karma_billing/schema.py\<close>): the enumerations
  with the source's constants, the universal receipt, the snapshot and the transition record,
  and the payload and leaf hashes. SHA-256 is an argument \<open>sha\<close> of the hash functions: what is
  shown here holds for every digest function.
\<close>

section \<open>Enumerations\<close>

datatype scenario_type =
    S1_DELEGATION | S2_BIDDING | S3_PIPELINE | S4_MULTI_DELEGATION | S5_DATA | S6_CONDITIONAL |
    S7_RECURRING | S8_DISPUTE | S9_INTENT | S10_CROSS_CHAIN

datatype receipt_status =
    GENERATED | ANCHORING | ANCHORED | VERIFIED

datatype (plugins only: code) receipt_type =
    S1_INTENT_CREATED | S1_INTENT_SIGNED | S1_DELEGATION_ACCEPTED | S1_TASK_STARTED |
    S1_STEP_EXECUTED | S1_TASK_COMPLETED | S1_INVOICE_GENERATED | S1_PAYMENT_AUTHORIZED |
    S1_PAYMENT_SETTLED | S1_RECEIPT_FINAL | S2_BID_OPENED | S2_BID_PLACED | S2_BID_EVALUATED |
    S2_BID_ACCEPTED | S2_TASK_EXECUTED | S2_INVOICE_GENERATED | S2_PAYMENT_SETTLED |
    S3_PIPELINE_CREATED | S3_STAGE_STARTED | S3_STAGE_COMPLETED | S3_PIPELINE_COMPLETED |
    S3_INVOICE_AGGREGATED | S3_PAYMENT_SETTLED | S4_SUBTASK_CREATED | S4_SUBTASK_ASSIGNED |
    S4_SUBTASK_COMPLETED | S4_AGGREGATE_INVOICE | S4_PAYMENT_SETTLED | S5_DATA_REQUESTED |
    S5_DATA_DELIVERED | S5_DATA_VERIFIED | S5_ROYALTY_CALCULATED | S5_PAYMENT_SETTLED |
    S6_CONDITION_SET | S6_CONDITION_MET | S6_TASK_EXECUTED | S6_ESCROW_RELEASED |
    S7_SUBSCRIPTION_CREATED | S7_PERIOD_STARTED | S7_USAGE_REPORTED | S7_PERIOD_INVOICE |
    S7_PAYMENT_SETTLED | S8_DISPUTE_FILED | S8_EVIDENCE_SUBMITTED | S8_ARBITRATION_STARTED |
    S8_RESOLUTION_PROPOSED | S8_RESOLUTION_ACCEPTED | S8_REFUND_ISSUED | S9_INTENT_EXPRESSED |
    S9_SOLVER_MATCHED | S9_SOLUTION_EXECUTED | S9_PAYMENT_SETTLED | S10_SOURCE_LOCKED |
    S10_BRIDGE_PROOF | S10_DESTINATION_MINTED | S10_PAYMENT_SETTLED

datatype billing_state =
    INITIATED | INTENT_RECEIVED | INTENT_VALIDATED | DELEGATION_ACCEPTED | TASK_STARTED |
    STEP_IN_PROGRESS | STEP_COMPLETED | TASK_COMPLETED | BID_EVALUATING | BID_ACCEPTED |
    PIPELINE_STAGING | INVOICE_GENERATED | PAYMENT_AUTHORIZED | PAYMENT_PENDING |
    PAYMENT_SETTLING | REFUND_PENDING | SETTLED

text \<open>The string values (\<open>.value\<close>) of the constants.\<close>

primrec scenario_type_value :: "scenario_type \<Rightarrow> string" where
  "scenario_type_value S1_DELEGATION = ''S1_DELEGATION''"
| "scenario_type_value S2_BIDDING = ''S2_BIDDING''"
| "scenario_type_value S3_PIPELINE = ''S3_PIPELINE''"
| "scenario_type_value S4_MULTI_DELEGATION = ''S4_MULTI_DELEGATION''"
| "scenario_type_value S5_DATA = ''S5_DATA''"
| "scenario_type_value S6_CONDITIONAL = ''S6_CONDITIONAL''"
| "scenario_type_value S7_RECURRING = ''S7_RECURRING''"
| "scenario_type_value S8_DISPUTE = ''S8_DISPUTE''"
| "scenario_type_value S9_INTENT = ''S9_INTENT''"
| "scenario_type_value S10_CROSS_CHAIN = ''S10_CROSS_CHAIN''"

primrec billing_state_value :: "billing_state \<Rightarrow> string" where
  "billing_state_value INITIATED = ''INITIATED''"
| "billing_state_value INTENT_RECEIVED = ''INTENT_RECEIVED''"
| "billing_state_value INTENT_VALIDATED = ''INTENT_VALIDATED''"
| "billing_state_value DELEGATION_ACCEPTED = ''DELEGATION_ACCEPTED''"
| "billing_state_value TASK_STARTED = ''TASK_STARTED''"
| "billing_state_value STEP_IN_PROGRESS = ''STEP_IN_PROGRESS''"
| "billing_state_value STEP_COMPLETED = ''STEP_COMPLETED''"
| "billing_state_value TASK_COMPLETED = ''TASK_COMPLETED''"
| "billing_state_value BID_EVALUATING = ''BID_EVALUATING''"
| "billing_state_value BID_ACCEPTED = ''BID_ACCEPTED''"
| "billing_state_value PIPELINE_STAGING = ''PIPELINE_STAGING''"
| "billing_state_value INVOICE_GENERATED = ''INVOICE_GENERATED''"
| "billing_state_value PAYMENT_AUTHORIZED = ''PAYMENT_AUTHORIZED''"
| "billing_state_value PAYMENT_PENDING = ''PAYMENT_PENDING''"
| "billing_state_value PAYMENT_SETTLING = ''PAYMENT_SETTLING''"
| "billing_state_value REFUND_PENDING = ''REFUND_PENDING''"
| "billing_state_value SETTLED = ''SETTLED''"

text \<open>The finite enumerations are executable: statements over all constants can be evaluated.\<close>

instantiation scenario_type :: enum
begin

definition enum_scenario_type :: "scenario_type list" where
  "enum_scenario_type =
      [S1_DELEGATION, S2_BIDDING, S3_PIPELINE, S4_MULTI_DELEGATION, S5_DATA, S6_CONDITIONAL,
       S7_RECURRING, S8_DISPUTE, S9_INTENT, S10_CROSS_CHAIN]"

definition enum_all_scenario_type :: "(scenario_type \<Rightarrow> bool) \<Rightarrow> bool" where
  "enum_all_scenario_type P \<longleftrightarrow> list_all P Enum.enum"

definition enum_ex_scenario_type :: "(scenario_type \<Rightarrow> bool) \<Rightarrow> bool" where
  "enum_ex_scenario_type P \<longleftrightarrow> list_ex P Enum.enum"

instance
proof
  show univ: "(UNIV :: scenario_type set) = set Enum.enum"
  proof (intro equalityI subsetI)
    fix x :: scenario_type
    show "x \<in> set Enum.enum" by (cases x) (simp_all add: enum_scenario_type_def)
  qed simp
  show "distinct (Enum.enum :: scenario_type list)" by (simp add: enum_scenario_type_def)
  fix P :: "scenario_type \<Rightarrow> bool"
  show "Enum.enum_all P \<longleftrightarrow> Ball UNIV P" by (simp add: enum_all_scenario_type_def univ list_all_iff)
  show "Enum.enum_ex P \<longleftrightarrow> Bex UNIV P" by (simp add: enum_ex_scenario_type_def univ list_ex_iff)
qed

end

instantiation billing_state :: enum
begin

definition enum_billing_state :: "billing_state list" where
  "enum_billing_state =
      [INITIATED, INTENT_RECEIVED, INTENT_VALIDATED, DELEGATION_ACCEPTED, TASK_STARTED,
       STEP_IN_PROGRESS, STEP_COMPLETED, TASK_COMPLETED, BID_EVALUATING, BID_ACCEPTED,
       PIPELINE_STAGING, INVOICE_GENERATED, PAYMENT_AUTHORIZED, PAYMENT_PENDING,
       PAYMENT_SETTLING, REFUND_PENDING, SETTLED]"

definition enum_all_billing_state :: "(billing_state \<Rightarrow> bool) \<Rightarrow> bool" where
  "enum_all_billing_state P \<longleftrightarrow> list_all P Enum.enum"

definition enum_ex_billing_state :: "(billing_state \<Rightarrow> bool) \<Rightarrow> bool" where
  "enum_ex_billing_state P \<longleftrightarrow> list_ex P Enum.enum"

instance
proof
  show univ: "(UNIV :: billing_state set) = set Enum.enum"
  proof (intro equalityI subsetI)
    fix x :: billing_state
    show "x \<in> set Enum.enum" by (cases x) (simp_all add: enum_billing_state_def)
  qed simp
  show "distinct (Enum.enum :: billing_state list)" by (simp add: enum_billing_state_def)
  fix P :: "billing_state \<Rightarrow> bool"
  show "Enum.enum_all P \<longleftrightarrow> Ball UNIV P" by (simp add: enum_all_billing_state_def univ list_all_iff)
  show "Enum.enum_ex P \<longleftrightarrow> Bex UNIV P" by (simp add: enum_ex_billing_state_def univ list_ex_iff)
qed

end

section \<open>Hashes\<close>

type_synonym py_dict = "(string \<times> json) list"

definition compute_payload_hash :: "(bytes \<Rightarrow> bytes) \<Rightarrow> py_dict \<Rightarrow> string" where
  "compute_payload_hash sha data = hex (sha (canonical_json (JObj data)))"

definition compute_leaf_hash ::
    "(bytes \<Rightarrow> bytes) \<Rightarrow> string \<Rightarrow> string \<Rightarrow> nat \<Rightarrow> string \<Rightarrow> string \<Rightarrow> bytes" where
  "compute_leaf_hash sha receipt_id task_id step_index payload_hash timestamp =
     sha (join ''|'' [receipt_id, task_id, show_nat step_index, payload_hash, timestamp])"

section \<open>Receipts, snapshots, transition records\<close>

text \<open>
  Time stamps are kept in their ISO-8601 form.
\<close>

record universal_receipt =
  receipt_id :: string
  task_id :: string
  scenario :: scenario_type
  step_index :: nat
  generator_did :: string
  buyer_did :: string
  seller_did :: string
  receipt_type :: receipt_type
  input_hash :: string
  output_hash :: string
  payload_hash :: string
  created_at :: string
  execution_duration_ms :: nat
  parent_receipt_id :: "string option"
  previous_payload_hash :: "string option"
  scenario_data :: "py_dict option"
  status :: receipt_status
  signature :: string
  signature_algorithm :: string
  anchor_tx :: "string option"
  anchor_leaf_index :: "nat option"
  anchor_root :: "string option"

text \<open>The validator that runs after construction of a receipt.\<close>

definition auto_compute_payload_hash :: "(bytes \<Rightarrow> bytes) \<Rightarrow> universal_receipt \<Rightarrow> universal_receipt" where
  "auto_compute_payload_hash sha r =
     (case scenario_data r of
        Some d \<Rightarrow> if payload_hash r = [] then r\<lparr>payload_hash := compute_payload_hash sha d\<rparr> else r
      | None \<Rightarrow> r)"

definition compute_leaf :: "(bytes \<Rightarrow> bytes) \<Rightarrow> universal_receipt \<Rightarrow> bytes" where
  "compute_leaf sha r =
     compute_leaf_hash sha (receipt_id r) (task_id r) (step_index r)
       (if payload_hash r \<noteq> [] then payload_hash r
        else compute_payload_hash sha (case scenario_data r of Some d \<Rightarrow> d | None \<Rightarrow> []))
       (created_at r)"

record billing_snapshot =
  snap_task_id :: string
  snap_scenario :: scenario_type
  billing_state :: billing_state
  current_step :: nat
  total_steps_estimated :: nat
  cost_accrued_usdc :: rat
  total_budget_usdc :: rat
  progress_percent :: rat
  anchored_receipts :: nat
  latest_merkle_root :: "string option"
  last_anchor_tx :: "string option"

record state_transition_record =
  record_id :: string
  str_task_id :: string
  from_state :: billing_state
  to_state :: billing_state
  triggered_by_receipt_id :: string
  triggered_by_did :: string
  timestamp :: string

section \<open>Facts about the hashes\<close>

text \<open>The payload hash is a function of the logical content of the payload.\<close>

lemma compute_payload_hash_same:
  "same_json (JObj d) (JObj d') \<Longrightarrow> compute_payload_hash sha d = compute_payload_hash sha d'"
  by (simp only: compute_payload_hash_def canonical_json_def dumps_same_json)

text \<open>The string a leaf hash is computed from, and the fields that enter it.\<close>

definition leaf_fields :: "(bytes \<Rightarrow> bytes) \<Rightarrow> universal_receipt \<Rightarrow> string list" where
  "leaf_fields sha r =
     [receipt_id r, task_id r, show_nat (step_index r),
      (if payload_hash r \<noteq> [] then payload_hash r
       else compute_payload_hash sha (case scenario_data r of Some d \<Rightarrow> d | None \<Rightarrow> [])),
      created_at r]"

definition leaf_preimage :: "(bytes \<Rightarrow> bytes) \<Rightarrow> universal_receipt \<Rightarrow> string" where
  "leaf_preimage sha r = join ''|'' (leaf_fields sha r)"

lemma compute_leaf_preimage: "compute_leaf sha r = sha (leaf_preimage sha r)"
  by (simp add: compute_leaf_def compute_leaf_hash_def leaf_preimage_def leaf_fields_def)

lemma leaf_preimage_inj:
  assumes "leaf_preimage sha r = leaf_preimage sha r'"
    and "\<forall>x \<in> set (leaf_fields sha r) \<union> set (leaf_fields sha r'). CHR ''|'' \<notin> set x"
  shows "leaf_fields sha r = leaf_fields sha r'"
proof (rule join_char_inj [where c = "CHR ''|''"])
  show "length (leaf_fields sha r) = length (leaf_fields sha r')" by (simp add: leaf_fields_def)
qed (use assms in \<open>auto simp: leaf_preimage_def\<close>)

end
