(* ===== verification/Billing_Transitions.thy ===== *)
theory Billing_Transitions
  imports Billing_Schema
begin

text \<open>
  The transition tables of the billing life cycle
  (\<^verbatim>\<open>packages/karma_billing/state_transitions.py\<close>): the global map, the states that need an
  immediate on-chain anchor, the allowed paths of each scenario, and the check that combines
  them. The lemmas show what the check accepts: exactly the neighbours on a path of the scenario.
\<close>

section \<open>The tables\<close>

primrec BILLING_STATE_TRANSITIONS :: "billing_state \<rightharpoonup> billing_state set" where
  "BILLING_STATE_TRANSITIONS INITIATED = Some {INTENT_RECEIVED}"
| "BILLING_STATE_TRANSITIONS INTENT_RECEIVED = Some {INTENT_VALIDATED}"
| "BILLING_STATE_TRANSITIONS INTENT_VALIDATED = Some {DELEGATION_ACCEPTED, BID_EVALUATING, PIPELINE_STAGING}"
| "BILLING_STATE_TRANSITIONS DELEGATION_ACCEPTED = Some {TASK_STARTED}"
| "BILLING_STATE_TRANSITIONS TASK_STARTED = Some {STEP_IN_PROGRESS, TASK_COMPLETED}"
| "BILLING_STATE_TRANSITIONS STEP_IN_PROGRESS = Some {STEP_COMPLETED, TASK_COMPLETED}"
| "BILLING_STATE_TRANSITIONS STEP_COMPLETED = Some {STEP_IN_PROGRESS, TASK_COMPLETED}"
| "BILLING_STATE_TRANSITIONS TASK_COMPLETED = Some {INVOICE_GENERATED}"
| "BILLING_STATE_TRANSITIONS BID_EVALUATING = Some {BID_ACCEPTED, INVOICE_GENERATED}"
| "BILLING_STATE_TRANSITIONS BID_ACCEPTED = Some {TASK_STARTED}"
| "BILLING_STATE_TRANSITIONS PIPELINE_STAGING = Some {TASK_STARTED, STEP_IN_PROGRESS, TASK_COMPLETED}"
| "BILLING_STATE_TRANSITIONS INVOICE_GENERATED = Some {PAYMENT_AUTHORIZED, PAYMENT_SETTLING}"
| "BILLING_STATE_TRANSITIONS PAYMENT_AUTHORIZED = Some {PAYMENT_PENDING, PAYMENT_SETTLING}"
| "BILLING_STATE_TRANSITIONS PAYMENT_PENDING = Some {PAYMENT_SETTLING}"
| "BILLING_STATE_TRANSITIONS PAYMENT_SETTLING = Some {SETTLED, REFUND_PENDING}"
| "BILLING_STATE_TRANSITIONS REFUND_PENDING = Some {SETTLED}"
| "BILLING_STATE_TRANSITIONS SETTLED = Some {}"

definition REQUIRE_IMMEDIATE_ANCHOR :: "billing_state set" where
  "REQUIRE_IMMEDIATE_ANCHOR =
     {INTENT_VALIDATED, TASK_COMPLETED, INVOICE_GENERATED, PAYMENT_AUTHORIZED, SETTLED,
      REFUND_PENDING}"

primrec ALLOWED_STATE_PATHS :: "scenario_type \<rightharpoonup> billing_state list list" where
  "ALLOWED_STATE_PATHS S1_DELEGATION = Some
     [[INITIATED, INTENT_RECEIVED, INTENT_VALIDATED, DELEGATION_ACCEPTED, TASK_STARTED,
       STEP_IN_PROGRESS, STEP_COMPLETED, TASK_COMPLETED, INVOICE_GENERATED, PAYMENT_AUTHORIZED,
       PAYMENT_PENDING, PAYMENT_SETTLING, SETTLED],
      [STEP_COMPLETED, STEP_IN_PROGRESS],
      [STEP_IN_PROGRESS, TASK_COMPLETED],
      [STEP_COMPLETED, TASK_COMPLETED],
      [PAYMENT_AUTHORIZED, PAYMENT_SETTLING]]"
| "ALLOWED_STATE_PATHS S2_BIDDING = Some
     [[INITIATED, INTENT_RECEIVED, INTENT_VALIDATED, BID_EVALUATING, BID_ACCEPTED, TASK_STARTED,
       STEP_IN_PROGRESS, STEP_COMPLETED, TASK_COMPLETED, INVOICE_GENERATED, PAYMENT_AUTHORIZED,
       PAYMENT_SETTLING, SETTLED],
      [INITIATED, INTENT_RECEIVED, INTENT_VALIDATED, BID_EVALUATING, INVOICE_GENERATED,
       PAYMENT_SETTLING, SETTLED]]"
| "ALLOWED_STATE_PATHS S3_PIPELINE = Some
     [[INITIATED, INTENT_RECEIVED, INTENT_VALIDATED, PIPELINE_STAGING, STEP_IN_PROGRESS,
       STEP_COMPLETED, TASK_COMPLETED, INVOICE_GENERATED, PAYMENT_AUTHORIZED, PAYMENT_SETTLING,
       SETTLED]]"
| "ALLOWED_STATE_PATHS S4_MULTI_DELEGATION = Some
     [[INITIATED, INTENT_RECEIVED, INTENT_VALIDATED, DELEGATION_ACCEPTED, TASK_STARTED,
       STEP_IN_PROGRESS, STEP_COMPLETED, TASK_COMPLETED, INVOICE_GENERATED, PAYMENT_AUTHORIZED,
       PAYMENT_SETTLING, SETTLED]]"
| "ALLOWED_STATE_PATHS S5_DATA = Some
     [[INITIATED, INTENT_RECEIVED, INTENT_VALIDATED, DELEGATION_ACCEPTED, TASK_STARTED,
       TASK_COMPLETED, INVOICE_GENERATED, PAYMENT_AUTHORIZED, PAYMENT_SETTLING, SETTLED]]"
| "ALLOWED_STATE_PATHS S6_CONDITIONAL = Some
     [[INITIATED, INTENT_RECEIVED, INTENT_VALIDATED, DELEGATION_ACCEPTED, TASK_STARTED,
       TASK_COMPLETED, INVOICE_GENERATED, PAYMENT_AUTHORIZED, PAYMENT_SETTLING, SETTLED]]"
| "ALLOWED_STATE_PATHS S7_RECURRING = Some
     [[INITIATED, INTENT_RECEIVED, INTENT_VALIDATED, DELEGATION_ACCEPTED, TASK_STARTED,
       TASK_COMPLETED, INVOICE_GENERATED, PAYMENT_AUTHORIZED, PAYMENT_SETTLING, SETTLED]]"
| "ALLOWED_STATE_PATHS S8_DISPUTE = Some
     [[INITIATED, INTENT_RECEIVED, INTENT_VALIDATED, DELEGATION_ACCEPTED, TASK_STARTED,
       TASK_COMPLETED, INVOICE_GENERATED, PAYMENT_AUTHORIZED, PAYMENT_SETTLING, SETTLED],
      [PAYMENT_SETTLING, REFUND_PENDING, SETTLED]]"
| "ALLOWED_STATE_PATHS S9_INTENT = Some
     [[INITIATED, INTENT_RECEIVED, INTENT_VALIDATED, DELEGATION_ACCEPTED, TASK_STARTED,
       TASK_COMPLETED, INVOICE_GENERATED, PAYMENT_AUTHORIZED, PAYMENT_SETTLING, SETTLED]]"
| "ALLOWED_STATE_PATHS S10_CROSS_CHAIN = Some
     [[INITIATED, INTENT_RECEIVED, INTENT_VALIDATED, DELEGATION_ACCEPTED, TASK_STARTED,
       TASK_COMPLETED, INVOICE_GENERATED, PAYMENT_AUTHORIZED, PAYMENT_SETTLING, SETTLED]]"

section \<open>The checks\<close>

definition get_legal_targets :: "billing_state \<Rightarrow> billing_state set" where
  "get_legal_targets from_st =
     (case BILLING_STATE_TRANSITIONS from_st of None \<Rightarrow> {} | Some ts \<Rightarrow> ts)"

text \<open>
  The loop over the paths: a path without \<open>from_st\<close> raises \<open>ValueError\<close> and is skipped; otherwise
  the element after its first occurrence decides, and the loop goes on if it does not match.
\<close>

fun scan_paths :: "billing_state \<Rightarrow> billing_state \<Rightarrow> billing_state list list \<Rightarrow> bool" where
  "scan_paths from_st to_st [] = False"
| "scan_paths from_st to_st (path # paths) =
     (case index_of from_st path of
        None \<Rightarrow> scan_paths from_st to_st paths
      | Some idx \<Rightarrow>
          if idx + 1 < length path \<and> path ! (idx + 1) = to_st then True
          else scan_paths from_st to_st paths)"

definition is_transition_allowed :: "scenario_type \<Rightarrow> billing_state \<Rightarrow> billing_state \<Rightarrow> bool" where
  "is_transition_allowed scen from_st to_st =
     (case BILLING_STATE_TRANSITIONS from_st of
        None \<Rightarrow> False
      | Some legal_targets \<Rightarrow>
          if to_st \<notin> legal_targets then False
          else (case ALLOWED_STATE_PATHS scen of
                  None \<Rightarrow> False
                | Some paths \<Rightarrow> scan_paths from_st to_st paths))"

section \<open>What the check accepts\<close>

text \<open>The paths of a scenario, its states and its edges.\<close>

definition scenario_paths :: "scenario_type \<Rightarrow> billing_state list list" where
  "scenario_paths scen = (case ALLOWED_STATE_PATHS scen of None \<Rightarrow> [] | Some ps \<Rightarrow> ps)"

definition scenario_states :: "scenario_type \<Rightarrow> billing_state set" where
  "scenario_states scen = set (concat (scenario_paths scen))"

definition scenario_edges :: "scenario_type \<Rightarrow> (billing_state \<times> billing_state) set" where
  "scenario_edges scen = set (concat (map path_edges (scenario_paths scen)))"

text \<open>
  Facts about the tables, by evaluation over all scenarios: no path repeats a state, and every
  step of every path is in the global map.
\<close>

lemma paths_distinct: "\<forall>scen. \<forall>path \<in> set (scenario_paths scen). distinct path"
  by code_simp

lemma paths_in_global_map:
  "\<forall>scen. \<forall>(a, b) \<in> scenario_edges scen. b \<in> get_legal_targets a"
  by code_simp

lemma transitions_total: "BILLING_STATE_TRANSITIONS a = Some (get_legal_targets a)"
  by (cases a) (simp_all add: get_legal_targets_def)

lemma paths_total: "ALLOWED_STATE_PATHS scen = Some (scenario_paths scen)"
  by (cases scen) (simp_all add: scenario_paths_def)

lemma scan_paths_next_after:
  "scan_paths a b paths \<longleftrightarrow> (\<exists>path \<in> set paths. next_after a path = Some b)"
proof (induction paths)
  case (Cons path paths)
  then show ?case
    by (cases "index_of a path") (auto simp: next_after_def [of a path])
qed simp

lemma scan_paths_edges:
  "\<forall>path \<in> set paths. distinct path \<Longrightarrow>
   scan_paths a b paths \<longleftrightarrow> (a, b) \<in> set (concat (map path_edges paths))"
  by (auto simp: scan_paths_next_after next_after_iff)

lemma is_transition_allowed_edges:
  "is_transition_allowed scen a b \<longleftrightarrow> (a, b) \<in> scenario_edges scen"
proof -
  have "is_transition_allowed scen a b \<longleftrightarrow> b \<in> get_legal_targets a \<and> (a, b) \<in> scenario_edges scen"
    by (simp add: is_transition_allowed_def transitions_total paths_total scenario_edges_def
        scan_paths_edges paths_distinct [rule_format])
  then show ?thesis using paths_in_global_map by blast
qed

lemma is_transition_allowed_legal: "is_transition_allowed scen a b \<Longrightarrow> b \<in> get_legal_targets a"
  using paths_in_global_map by (auto simp: is_transition_allowed_edges)

section \<open>Progress of the tables\<close>

text \<open>A distance to the terminal state; from every state of a scenario some step decreases it.\<close>

primrec settle_rank :: "billing_state \<Rightarrow> nat" where
  "settle_rank SETTLED = 0"
| "settle_rank REFUND_PENDING = 1"
| "settle_rank PAYMENT_SETTLING = 2"
| "settle_rank PAYMENT_PENDING = 3"
| "settle_rank PAYMENT_AUTHORIZED = 4"
| "settle_rank INVOICE_GENERATED = 5"
| "settle_rank TASK_COMPLETED = 6"
| "settle_rank STEP_COMPLETED = 7"
| "settle_rank STEP_IN_PROGRESS = 8"
| "settle_rank TASK_STARTED = 9"
| "settle_rank DELEGATION_ACCEPTED = 10"
| "settle_rank BID_ACCEPTED = 10"
| "settle_rank PIPELINE_STAGING = 10"
| "settle_rank BID_EVALUATING = 11"
| "settle_rank INTENT_VALIDATED = 12"
| "settle_rank INTENT_RECEIVED = 13"
| "settle_rank INITIATED = 14"

lemma initiated_in_scenario: "INITIATED \<in> scenario_states scen"
  by (cases scen) (simp_all add: scenario_states_def scenario_paths_def)

lemma path_edges_states: "(a, b) \<in> set (path_edges p) \<Longrightarrow> a \<in> set p \<and> b \<in> set p"
  by (auto simp: path_edges_iff)

lemma allowed_stays_in_scenario: "is_transition_allowed scen a b \<Longrightarrow> b \<in> scenario_states scen"
  by (auto simp: is_transition_allowed_edges scenario_edges_def scenario_states_def dest: path_edges_states)

lemma settle_progress_table:
  "\<forall>scen. \<forall>a \<in> scenario_states scen.
     a = SETTLED \<or> (\<exists>(x, b) \<in> scenario_edges scen. x = a \<and> settle_rank b < settle_rank a)"
  by code_simp

lemma settle_progress:
  assumes "a \<in> scenario_states scen" and "a \<noteq> SETTLED"
  obtains b where "is_transition_allowed scen a b" and "settle_rank b < settle_rank a"
  using settle_progress_table assms by (fastforce simp: is_transition_allowed_edges)

lemma settled_terminal: "get_legal_targets SETTLED = {}"
  by (simp add: get_legal_targets_def)

section \<open>Properties\<close>

text \<open>
  The optimised check agrees with its specification: a step is allowed in a scenario exactly
  when its two states are neighbours, in this order, on one of the scenario's paths. (The scan
  stops at the first occurrence of a state on a path, and the global map is checked first; neither
  excludes a step of a path.)
\<close>

theorem transition_check_is_path_adjacency:
  "is_transition_allowed scen a b \<longleftrightarrow>
     (\<exists>path \<in> set (scenario_paths scen). \<exists>i. i + 1 < length path \<and> path ! i = a \<and> path ! (i + 1) = b)"
  by (auto simp: is_transition_allowed_edges scenario_edges_def path_edges_iff)

end
