(* ===== verification/Billing_Machine.thy ===== *)
theory Billing_Machine
  imports Billing_Transitions
begin

text \<open>
  The immutable billing state machine (\<^verbatim>\<open>packages/karma_billing/state_machine.py\<close>) with its
  in-memory audit log. Every operation is a function on the machine's state; an operation that
  raises returns the state it leaves behind together with the error, since a rejected transition
  is logged and a first call registers the task before it is validated. The generated record id
  and the clock are arguments. Each operation runs under the lock of its task, so operations on a
  task are atomic; \<open>locks\<close> is the set of tasks whose lock object exists.
\<close>

section \<open>State\<close>

datatype billing_error =
    IllegalStateTransitionError string billing_state billing_state scenario_type
  | ConcurrentTransitionError string billing_state billing_state

record security_event =
  event_type :: string
  severity :: string
  ev_task_id :: string
  details :: "(string \<times> string) list"

record audit_log =
  transitions :: "state_transition_record list"
  security_events :: "security_event list"

record billing_machine =
  audit_log :: audit_log
  task_states :: "string \<rightharpoonup> billing_state"
  task_scenarios :: "string \<rightharpoonup> scenario_type"
  task_receipts :: "string \<rightharpoonup> string set"
  locks :: "string set"

definition new_audit_log :: audit_log where
  "new_audit_log = \<lparr>transitions = [], security_events = []\<rparr>"

definition create_state_machine :: billing_machine where
  "create_state_machine =
     \<lparr>audit_log = new_audit_log, task_states = Map.empty, task_scenarios = Map.empty,
      task_receipts = Map.empty, locks = {}\<rparr>"

section \<open>Operations\<close>

definition log_security_event ::
    "string \<Rightarrow> string \<Rightarrow> string \<Rightarrow> (string \<times> string) list \<Rightarrow> audit_log \<Rightarrow> audit_log" where
  "log_security_event typ sev tid det al =
     al\<lparr>security_events := security_events al @
          [\<lparr>event_type = typ, severity = sev, ev_task_id = tid, details = det\<rparr>]\<rparr>"

definition log_transition :: "state_transition_record \<Rightarrow> audit_log \<Rightarrow> audit_log" where
  "log_transition r al = al\<lparr>transitions := transitions al @ [r]\<rparr>"

definition is_receipt_valid :: "billing_machine \<Rightarrow> string \<Rightarrow> string \<Rightarrow> bool" where
  "is_receipt_valid m tid rid \<longleftrightarrow>
     rid \<in> (case task_receipts m tid of None \<Rightarrow> {} | Some rs \<Rightarrow> rs)"

definition validate_transition ::
    "string \<Rightarrow> scenario_type \<Rightarrow> billing_state \<Rightarrow> billing_state \<Rightarrow> string \<Rightarrow> string \<Rightarrow>
     billing_machine \<Rightarrow> billing_machine \<times> bool" where
  "validate_transition tid scen from_st to_st rid did m =
     (if (case BILLING_STATE_TRANSITIONS from_st of None \<Rightarrow> True | Some ts \<Rightarrow> to_st \<notin> ts)
      then (m\<lparr>audit_log := log_security_event ''ILLEGAL_TRANSITION_ATTEMPT'' ''CRITICAL'' tid
               [(''from_state'', billing_state_value from_st), (''to_state'', billing_state_value to_st),
                (''triggered_by_receipt_id'', rid), (''triggered_by_did'', did),
                (''reason'', ''Transition not in global transition map'')] (audit_log m)\<rparr>, False)
      else if \<not> is_transition_allowed scen from_st to_st
      then (m\<lparr>audit_log := log_security_event ''ILLEGAL_TRANSITION_ATTEMPT'' ''CRITICAL'' tid
               [(''from_state'', billing_state_value from_st), (''to_state'', billing_state_value to_st),
                (''scenario'', scenario_type_value scen),
                (''triggered_by_receipt_id'', rid), (''triggered_by_did'', did),
                (''reason'', ''Transition not on any allowed path for scenario'')] (audit_log m)\<rparr>, False)
      else if \<not> is_receipt_valid m tid rid
      then (m\<lparr>audit_log := log_security_event ''INVALID_RECEIPT'' ''CRITICAL'' tid
               [(''receipt_id'', rid),
                (''reason'', ''Receipt not found or not associated with this task'')] (audit_log m)\<rparr>, False)
      else (m, True))"

definition get_lock :: "string \<Rightarrow> billing_machine \<Rightarrow> billing_machine" where
  "get_lock tid m = (if tid \<in> locks m then m else m\<lparr>locks := insert tid (locks m)\<rparr>)"

text \<open>The first transition of a task registers it in state \<open>INITIATED\<close>.\<close>

definition read_or_init :: "string \<Rightarrow> scenario_type \<Rightarrow> billing_machine \<Rightarrow> billing_machine \<times> billing_state" where
  "read_or_init tid scen m =
     (case task_states m tid of
        Some st \<Rightarrow> (m, st)
      | None \<Rightarrow>
          (m\<lparr>task_states := (task_states m)(tid \<mapsto> INITIATED),
             task_scenarios := (task_scenarios m)(tid \<mapsto> scen),
             task_receipts := (case task_receipts m tid of
                                 None \<Rightarrow> (task_receipts m)(tid \<mapsto> {}) | Some _ \<Rightarrow> task_receipts m)\<rparr>,
           INITIATED))"

definition execute_transition ::
    "string \<Rightarrow> scenario_type \<Rightarrow> billing_state \<Rightarrow> string \<Rightarrow> string \<Rightarrow> string \<Rightarrow> string \<Rightarrow>
     billing_machine \<Rightarrow> billing_machine \<times> (billing_error + state_transition_record)" where
  "execute_transition tid scen to_st rid did new_id now m =
     (let (m1, from_st) = read_or_init tid scen (get_lock tid m);
          (m2, is_valid) = validate_transition tid scen from_st to_st rid did m1
      in if \<not> is_valid then (m2, Inl (IllegalStateTransitionError tid from_st to_st scen))
         else
           let rec = \<lparr>record_id = new_id, str_task_id = tid, from_state = from_st, to_state = to_st,
                      triggered_by_receipt_id = rid, triggered_by_did = did, timestamp = now\<rparr>;
               m3 = m2\<lparr>audit_log := log_transition rec (audit_log m2)\<rparr>;
               m4 = m3\<lparr>task_states := (task_states m3)(tid \<mapsto> to_st)\<rparr>;
               m5 = (if to_st \<in> REQUIRE_IMMEDIATE_ANCHOR
                     then m4\<lparr>audit_log := log_security_event ''ANCHOR_REQUIRED'' ''INFO'' tid
                              [(''state'', billing_state_value to_st),
                               (''reason'', ''State requires immediate on-chain anchoring'')] (audit_log m4)\<rparr>
                     else m4)
           in (m5, Inr rec))"

definition get_current_state :: "billing_machine \<Rightarrow> string \<Rightarrow> billing_state option" where
  "get_current_state m tid = task_states m tid"

definition get_scenario :: "billing_machine \<Rightarrow> string \<Rightarrow> scenario_type option" where
  "get_scenario m tid = task_scenarios m tid"

text \<open>Progress from the position of the state on the scenario's first path.\<close>

definition estimate_progress :: "scenario_type \<Rightarrow> billing_state \<Rightarrow> nat \<times> nat \<times> rat" where
  "estimate_progress scen st =
     (let paths = (case ALLOWED_STATE_PATHS scen of None \<Rightarrow> [[]] | Some ps \<Rightarrow> ps);
          primary_path = (case paths of [] \<Rightarrow> [] | p # _ \<Rightarrow> p);
          cur = (case index_of st primary_path of Some i \<Rightarrow> i + 1 | None \<Rightarrow> 0);
          total = length primary_path;
          progress = (if 0 < total then of_nat cur / of_nat total * 100 else 0)
      in (cur, total, py_round progress 2))"

definition get_snapshot :: "billing_machine \<Rightarrow> string \<Rightarrow> billing_snapshot option" where
  "get_snapshot m tid =
     (case task_states m tid of
        None \<Rightarrow> None
      | Some st \<Rightarrow>
          let scen = (case task_scenarios m tid of None \<Rightarrow> S1_DELEGATION | Some sc \<Rightarrow> sc);
              receipt_ids = (case task_receipts m tid of None \<Rightarrow> {} | Some rs \<Rightarrow> rs);
              (cur, total, progress) = estimate_progress scen st
          in Some \<lparr>snap_task_id = tid, snap_scenario = scen, billing_state = st,
                   current_step = cur, total_steps_estimated = total,
                   cost_accrued_usdc = 0, total_budget_usdc = 0,
                   progress_percent = progress,
                   anchored_receipts = card receipt_ids,
                   latest_merkle_root = None, last_anchor_tx = None\<rparr>)"

definition register_receipt :: "string \<Rightarrow> string \<Rightarrow> billing_machine \<Rightarrow> billing_machine" where
  "register_receipt tid rid m =
     m\<lparr>task_receipts := (task_receipts m)(tid \<mapsto>
          insert rid (case task_receipts m tid of None \<Rightarrow> {} | Some rs \<Rightarrow> rs))\<rparr>"

section \<open>Steps\<close>

text \<open>Any caller may run any operation with any arguments, in any order.\<close>

inductive billing_step :: "billing_machine \<Rightarrow> billing_machine \<Rightarrow> bool" where
  step_execute: "execute_transition tid scen to_st rid did new_id now m = (m', res) \<Longrightarrow> billing_step m m'"
| step_validate: "validate_transition tid scen from_st to_st rid did m = (m', ok) \<Longrightarrow> billing_step m m'"
| step_register: "billing_step m (register_receipt tid rid m)"

inductive_cases billing_stepE: "billing_step m m'"

section \<open>Behaviour of the operations\<close>

text \<open>The state a transition of a task starts from.\<close>

definition current_or_initial :: "billing_machine \<Rightarrow> string \<Rightarrow> billing_state" where
  "current_or_initial m tid = (case task_states m tid of None \<Rightarrow> INITIATED | Some st \<Rightarrow> st)"

lemmas audit_defs = log_security_event_def log_transition_def

declare get_lock_def [op_defs] read_or_init_def [op_defs] register_receipt_def [op_defs]
declare log_security_event_def [op_defs] log_transition_def [op_defs]

text \<open>What is logged for a rejected transition.\<close>

definition rejection_event :: "string \<Rightarrow> security_event \<Rightarrow> bool" where
  "rejection_event tid e \<longleftrightarrow>
     severity e = ''CRITICAL'' \<and> ev_task_id e = tid \<and>
     event_type e \<in> {''ILLEGAL_TRANSITION_ATTEMPT'', ''INVALID_RECEIPT''}"

lemma validate_transition_ok:
  "snd (validate_transition tid scen a b rid did m) \<longleftrightarrow>
     is_transition_allowed scen a b \<and> is_receipt_valid m tid rid"
  using is_transition_allowed_legal [of scen a b]
  by (auto simp: validate_transition_def transitions_total)

lemma validate_transition_accepts:
  assumes "is_transition_allowed scen a b" and "is_receipt_valid m tid rid"
  shows "validate_transition tid scen a b rid did m = (m, True)"
  using assms is_transition_allowed_legal [of scen a b]
  by (simp add: validate_transition_def transitions_total)

lemma validate_transition_rejects:
  assumes "\<not> (is_transition_allowed scen a b \<and> is_receipt_valid m tid rid)"
  shows "\<exists>e. rejection_event tid e \<and>
         validate_transition tid scen a b rid did m =
         (m\<lparr>audit_log := (audit_log m)\<lparr>security_events := security_events (audit_log m) @ [e]\<rparr>\<rparr>, False)"
proof -
  consider "b \<notin> get_legal_targets a"
    | "b \<in> get_legal_targets a" "\<not> is_transition_allowed scen a b"
    | "b \<in> get_legal_targets a" "is_transition_allowed scen a b" "\<not> is_receipt_valid m tid rid"
    using assms by blast
  then show ?thesis
    by cases (simp add: validate_transition_def transitions_total audit_defs, rule exI,
        rule conjI [rotated], rule refl, simp add: rejection_event_def)+
qed

lemma is_receipt_valid_read_or_init [simp]:
  "is_receipt_valid (fst (read_or_init tid scen (get_lock tid m))) tid rid = is_receipt_valid m tid rid"
  by (auto simp: is_receipt_valid_def op_defs split: option.splits)

lemma snd_read_or_init [simp]:
  "snd (read_or_init tid scen (get_lock tid m)) = current_or_initial m tid"
  by (auto simp: op_defs current_or_initial_def split: option.splits)

text \<open>Registration of a task does not touch the audit log and fixes the current state.\<close>

lemma read_or_init_frame [frame_simps]:
  "audit_log (fst (read_or_init tid scen (get_lock tid m))) = audit_log m"
  "task_states (fst (read_or_init tid scen (get_lock tid m))) =
     (task_states m)(tid \<mapsto> current_or_initial m tid)"
  "t \<noteq> tid \<Longrightarrow> task_scenarios (fst (read_or_init tid scen (get_lock tid m))) t = task_scenarios m t"
  "t \<noteq> tid \<Longrightarrow> task_receipts (fst (read_or_init tid scen (get_lock tid m))) t = task_receipts m t"
  by (auto simp: op_defs current_or_initial_def split: option.splits)

lemma task_scenarios_read_or_init [frame_simps]:
  "task_scenarios (fst (read_or_init tid scen (get_lock tid m))) tid =
     (if task_states m tid = None then Some scen else task_scenarios m tid)"
  by (auto simp: op_defs split: option.splits)

text \<open>The record and the events of a successful transition.\<close>

definition transition_record ::
    "string \<Rightarrow> billing_state \<Rightarrow> billing_state \<Rightarrow> string \<Rightarrow> string \<Rightarrow> string \<Rightarrow> string \<Rightarrow> state_transition_record" where
  "transition_record tid a b rid did new_id now =
     \<lparr>record_id = new_id, str_task_id = tid, from_state = a, to_state = b,
      triggered_by_receipt_id = rid, triggered_by_did = did, timestamp = now\<rparr>"

definition anchor_events :: "string \<Rightarrow> billing_state \<Rightarrow> security_event list" where
  "anchor_events tid b =
     (if b \<in> REQUIRE_IMMEDIATE_ANCHOR
      then [\<lparr>event_type = ''ANCHOR_REQUIRED'', severity = ''INFO'', ev_task_id = tid,
             details = [(''state'', billing_state_value b),
                        (''reason'', ''State requires immediate on-chain anchoring'')]\<rparr>]
      else [])"

lemma execute_transition_accepted:
  assumes "is_transition_allowed scen (current_or_initial m tid) b" and "is_receipt_valid m tid rid"
  shows "\<exists>m'. execute_transition tid scen b rid did new_id now m =
              (m', Inr (transition_record tid (current_or_initial m tid) b rid did new_id now)) \<and>
           task_states m' = (task_states m)(tid \<mapsto> b) \<and>
           transitions (audit_log m') = transitions (audit_log m) @
             [transition_record tid (current_or_initial m tid) b rid did new_id now] \<and>
           security_events (audit_log m') = security_events (audit_log m) @ anchor_events tid b \<and>
           task_scenarios m' = task_scenarios (fst (read_or_init tid scen (get_lock tid m))) \<and>
           task_receipts m' = task_receipts (fst (read_or_init tid scen (get_lock tid m)))"
proof -
  let ?m1 = "fst (read_or_init tid scen (get_lock tid m))"
  have "validate_transition tid scen (current_or_initial m tid) b rid did ?m1 = (?m1, True)"
    using assms by (intro validate_transition_accepts) simp_all
  then show ?thesis
    by (simp add: execute_transition_def case_prod_beta Let_def frame_simps audit_defs
        transition_record_def anchor_events_def)
qed

lemma execute_transition_rejected:
  assumes "\<not> (is_transition_allowed scen (current_or_initial m tid) b \<and> is_receipt_valid m tid rid)"
  shows "\<exists>e m'. execute_transition tid scen b rid did new_id now m =
              (m', Inl (IllegalStateTransitionError tid (current_or_initial m tid) b scen)) \<and>
           rejection_event tid e \<and>
           task_states m' = (task_states m)(tid \<mapsto> current_or_initial m tid) \<and>
           transitions (audit_log m') = transitions (audit_log m) \<and>
           security_events (audit_log m') = security_events (audit_log m) @ [e] \<and>
           task_scenarios m' = task_scenarios (fst (read_or_init tid scen (get_lock tid m))) \<and>
           task_receipts m' = task_receipts (fst (read_or_init tid scen (get_lock tid m)))"
proof -
  let ?m1 = "fst (read_or_init tid scen (get_lock tid m))"
  obtain e where "rejection_event tid e"
    and "validate_transition tid scen (current_or_initial m tid) b rid did ?m1 =
         (?m1\<lparr>audit_log := (audit_log ?m1)\<lparr>security_events := security_events (audit_log ?m1) @ [e]\<rparr>\<rparr>, False)"
    using validate_transition_rejects [of scen "current_or_initial m tid" b ?m1 tid rid did] assms by auto
  then show ?thesis
    by (intro exI [of _ e]) (simp add: execute_transition_def case_prod_beta Let_def frame_simps)
qed

text \<open>The two outcomes as one case rule.\<close>

lemma execute_transition_cases [consumes 1, case_names accepted rejected]:
  assumes "execute_transition tid scen b rid did new_id now m = (m', res)"
  obtains (accepted) "is_transition_allowed scen (current_or_initial m tid) b" "is_receipt_valid m tid rid"
      "res = Inr (transition_record tid (current_or_initial m tid) b rid did new_id now)"
      "task_states m' = (task_states m)(tid \<mapsto> b)"
      "transitions (audit_log m') = transitions (audit_log m) @
         [transition_record tid (current_or_initial m tid) b rid did new_id now]"
      "security_events (audit_log m') = security_events (audit_log m) @ anchor_events tid b"
      "task_scenarios m' = task_scenarios (fst (read_or_init tid scen (get_lock tid m)))"
      "task_receipts m' = task_receipts (fst (read_or_init tid scen (get_lock tid m)))"
  | (rejected) e where "\<not> (is_transition_allowed scen (current_or_initial m tid) b \<and> is_receipt_valid m tid rid)"
      "res = Inl (IllegalStateTransitionError tid (current_or_initial m tid) b scen)"
      "rejection_event tid e"
      "task_states m' = (task_states m)(tid \<mapsto> current_or_initial m tid)"
      "transitions (audit_log m') = transitions (audit_log m)"
      "security_events (audit_log m') = security_events (audit_log m) @ [e]"
      "task_scenarios m' = task_scenarios (fst (read_or_init tid scen (get_lock tid m)))"
      "task_receipts m' = task_receipts (fst (read_or_init tid scen (get_lock tid m)))"
  using execute_transition_accepted [of scen m tid b rid did new_id now]
    execute_transition_rejected [of scen m tid b rid did new_id now] assms
  by fastforce

section \<open>The audit log is append-only\<close>

lemma validate_transition_logs:
  "validate_transition tid scen a b rid did m = (m', ok) \<Longrightarrow>
   transitions (audit_log m') = transitions (audit_log m) \<and>
   prefix (security_events (audit_log m)) (security_events (audit_log m')) \<and>
   task_states m' = task_states m \<and> task_scenarios m' = task_scenarios m \<and>
   task_receipts m' = task_receipts m"
  by (auto simp: validate_transition_def audit_defs split: if_splits option.splits)

lemma billing_step_transitions:
  "billing_step m m' \<Longrightarrow> prefix (transitions (audit_log m)) (transitions (audit_log m'))"
  by (auto simp: register_receipt_def elim!: billing_stepE execute_transition_cases
      dest: validate_transition_logs)

lemma billing_step_events:
  "billing_step m m' \<Longrightarrow> prefix (security_events (audit_log m)) (security_events (audit_log m'))"
  by (auto simp: register_receipt_def elim!: billing_stepE execute_transition_cases
      dest: validate_transition_logs)

interpretation history: append_only billing_step "\<lambda>m. transitions (audit_log m)"
  by unfold_locales (rule billing_step_transitions)

interpretation events: append_only billing_step "\<lambda>m. security_events (audit_log m)"
  by unfold_locales (rule billing_step_events)

section \<open>The audit log explains every state\<close>

text \<open>Replaying records from a state; \<open>None\<close> when a record does not fit.\<close>

fun replay :: "billing_state \<Rightarrow> state_transition_record list \<Rightarrow> billing_state option" where
  "replay st [] = Some st"
| "replay st (r # rs) =
     (if from_state r = st \<and> to_state r \<in> get_legal_targets st then replay (to_state r) rs else None)"

definition task_history :: "string \<Rightarrow> billing_machine \<Rightarrow> state_transition_record list" where
  "task_history tid m = filter (\<lambda>r. str_task_id r = tid) (transitions (audit_log m))"

text \<open>
  The invariant: the records of a task replay to its state, an unknown task has no record, and
  every record was triggered by a receipt that is registered for its task.
\<close>

definition audit_inv :: "billing_machine \<Rightarrow> bool" where
  "audit_inv m \<longleftrightarrow>
     (\<forall>tid. replay INITIATED (task_history tid m) = Some (current_or_initial m tid) \<and>
            (task_states m tid = None \<longrightarrow> task_history tid m = [])) \<and>
     (\<forall>r \<in> set (transitions (audit_log m)). is_receipt_valid m (str_task_id r) (triggered_by_receipt_id r))"

lemma replay_append: "replay st (rs @ rs') = Option.bind (replay st rs) (\<lambda>st'. replay st' rs')"
  by (induction rs arbitrary: st) auto

lemma task_history_append:
  "transitions (audit_log m') = transitions (audit_log m) @ [r] \<Longrightarrow>
   task_history tid m' = task_history tid m @ (if str_task_id r = tid then [r] else [])"
  by (simp add: task_history_def)

lemma task_history_same:
  "transitions (audit_log m') = transitions (audit_log m) \<Longrightarrow> task_history tid m' = task_history tid m"
  by (simp add: task_history_def)

lemma current_or_initial_upd:
  "task_states m' = (task_states m)(tid \<mapsto> st) \<Longrightarrow>
   current_or_initial m' t = (if t = tid then st else current_or_initial m t)"
  by (simp add: current_or_initial_def)

lemma is_receipt_valid_cong:
  "task_receipts m' = task_receipts m \<Longrightarrow> is_receipt_valid m' tid rid = is_receipt_valid m tid rid"
  by (simp add: is_receipt_valid_def)

lemma is_receipt_valid_init [simp]:
  "is_receipt_valid (fst (read_or_init t scen (get_lock t m))) tid rid = is_receipt_valid m tid rid"
  by (cases "t = tid") (auto simp: is_receipt_valid_def frame_simps op_defs split: option.splits)

lemma is_receipt_valid_execute:
  "execute_transition tid scen b rid did new_id now m = (m', res) \<Longrightarrow>
   is_receipt_valid m' t r = is_receipt_valid m t r"
  by (erule execute_transition_cases) (metis is_receipt_valid_cong is_receipt_valid_init)+

lemma audit_inv_init: "audit_inv create_state_machine"
  by (simp add: audit_inv_def create_state_machine_def new_audit_log_def task_history_def current_or_initial_def)

lemma audit_inv_execute:
  assumes "execute_transition tid scen b rid did new_id now m = (m', res)" and inv: "audit_inv m"
  shows "audit_inv m'"
  using assms(1)
proof (cases rule: execute_transition_cases)
  case accepted
  let ?r = "transition_record tid (current_or_initial m tid) b rid did new_id now"
  have legal: "b \<in> get_legal_targets (current_or_initial m tid)"
    using accepted(1) by (rule is_transition_allowed_legal)
  have hist: "task_history t m' = task_history t m @ (if tid = t then [?r] else [])" for t
    using task_history_append [OF accepted(5)] by (simp add: transition_record_def)
  have cur: "current_or_initial m' t = (if t = tid then b else current_or_initial m t)" for t
    using accepted(4) by (rule current_or_initial_upd)
  have valid: "is_receipt_valid m' t x = is_receipt_valid m t x" for t x
    using assms(1) by (rule is_receipt_valid_execute)
  show ?thesis
    using inv legal accepted(2)
    by (auto simp: audit_inv_def hist cur valid accepted(4,5) replay_append transition_record_def)
next
  case (rejected e)
  have hist: "task_history t m' = task_history t m" for t
    using rejected(5) by (rule task_history_same)
  have cur: "current_or_initial m' t = current_or_initial m t" for t
    using current_or_initial_upd [OF rejected(4)] by simp
  have valid: "is_receipt_valid m' t x = is_receipt_valid m t x" for t x
    using assms(1) by (rule is_receipt_valid_execute)
  show ?thesis
    using inv by (auto simp: audit_inv_def hist cur valid rejected(4,5))
qed

lemma audit_inv_validate:
  assumes "validate_transition tid scen a b rid did m = (m', ok)" and "audit_inv m"
  shows "audit_inv m'"
proof -
  from validate_transition_logs [OF assms(1)]
  have "transitions (audit_log m') = transitions (audit_log m)" "task_states m' = task_states m"
    "task_receipts m' = task_receipts m" by simp_all
  with assms(2) show ?thesis
    by (simp add: audit_inv_def task_history_def current_or_initial_def is_receipt_valid_def)
qed

lemma audit_inv_register: "audit_inv m \<Longrightarrow> audit_inv (register_receipt tid rid m)"
  by (auto simp: audit_inv_def register_receipt_def task_history_def current_or_initial_def
      is_receipt_valid_def split: option.splits)

interpretation audit: step_invariant billing_step audit_inv
  by unfold_locales
    (auto elim!: billing_stepE intro: audit_inv_execute audit_inv_validate audit_inv_register)

section \<open>Runs of calls\<close>

text \<open>A sequence of calls for one task, stopping at the first error.\<close>

fun execute_all ::
    "string \<Rightarrow> string \<Rightarrow> (scenario_type \<times> billing_state) list \<Rightarrow> billing_machine \<Rightarrow> billing_error + billing_machine" where
  "execute_all tid rid [] m = Inr m"
| "execute_all tid rid ((scen, b) # calls) m =
     (case execute_transition tid scen b rid ''did'' ''record'' ''now'' m of
        (m', Inl e) \<Rightarrow> Inl e
      | (m', Inr _) \<Rightarrow> execute_all tid rid calls m')"

lemma execute_all_steps: "execute_all tid rid calls m = Inr m' \<Longrightarrow> billing_step\<^sup>*\<^sup>* m m'"
proof (induction calls arbitrary: m)
  case (Cons c calls)
  obtain scen b where c: "c = (scen, b)" by (cases c)
  with Cons.prems obtain m1 r where
    ex: "execute_transition tid scen b rid ''did'' ''record'' ''now'' m = (m1, Inr r)"
    and rest: "execute_all tid rid calls m1 = Inr m'"
    by (auto split: prod.splits sum.splits)
  from ex have "billing_step m m1" by (rule step_execute)
  then show ?case using Cons.IH [OF rest] by (rule converse_rtranclp_into_rtranclp)
qed simp

text \<open>From every state of a scenario there is a sequence of accepted calls that settles the task.\<close>

lemma execute_all_settles:
  assumes "current_or_initial m tid \<in> scenario_states scen" and "is_receipt_valid m tid rid"
  shows "\<exists>tos m'. execute_all tid rid (map (Pair scen) tos) m = Inr m' \<and> task_states m' tid = Some SETTLED"
  using assms
proof (induction "settle_rank (current_or_initial m tid)" arbitrary: m rule: less_induct)
  case less
  show ?case
  proof (cases "current_or_initial m tid = SETTLED")
    case True
    then have "task_states m tid = Some SETTLED"
      by (auto simp: current_or_initial_def split: option.splits)
    then show ?thesis by (intro exI [of _ "[]"]) simp
  next
    case False
    with less.prems(1) obtain b where b: "is_transition_allowed scen (current_or_initial m tid) b"
      and rank: "settle_rank b < settle_rank (current_or_initial m tid)"
      by (rule settle_progress)
    from execute_transition_accepted [OF b less.prems(2), of "''did''" "''record''" "''now''"]
    obtain m1 r where ex: "execute_transition tid scen b rid ''did'' ''record'' ''now'' m = (m1, Inr r)"
      and st: "task_states m1 = (task_states m)(tid \<mapsto> b)" by blast
    have cur: "current_or_initial m1 tid = b" using st by (simp add: current_or_initial_def)
    have "is_receipt_valid m1 tid rid" using less.prems(2) is_receipt_valid_execute [OF ex] by simp
    with less.hyps [of m1] rank cur st allowed_stays_in_scenario [OF b]
    obtain tos m' where "execute_all tid rid (map (Pair scen) tos) m1 = Inr m'" "task_states m' tid = Some SETTLED"
      by auto
    with ex show ?thesis by (intro exI [of _ "b # tos"]) simp
  qed
qed

text \<open>A settled task stays settled.\<close>

definition settled_inv :: "string \<Rightarrow> billing_machine \<Rightarrow> bool" where
  "settled_inv tid m \<longleftrightarrow> task_states m tid = Some SETTLED"

lemma settled_execute:
  assumes "execute_transition tid scen b rid did new_id now m = (m', res)" and "settled_inv t m"
  shows "settled_inv t m'"
  using assms(1)
proof (cases rule: execute_transition_cases)
  case accepted
  with assms(2) show ?thesis
    using is_transition_allowed_legal [OF accepted(1)]
    by (auto simp: settled_inv_def current_or_initial_def settled_terminal)
next
  case (rejected e)
  with assms(2) show ?thesis by (auto simp: settled_inv_def current_or_initial_def)
qed

lemma settled_validate:
  "validate_transition tid scen a b rid did m = (m', ok) \<Longrightarrow> settled_inv t m \<Longrightarrow> settled_inv t m'"
  by (auto simp: settled_inv_def dest: validate_transition_logs)

lemma settled_register: "settled_inv t m \<Longrightarrow> settled_inv t (register_receipt tid rid m)"
  by (simp add: settled_inv_def register_receipt_def)

interpretation settled: step_invariant billing_step "settled_inv tid" for tid
  by unfold_locales
    (auto elim!: billing_stepE intro: settled_execute settled_validate settled_register)

text \<open>
  If every call for a task names the scenario the task was registered with, the task stays on the
  states of that scenario.
\<close>

inductive disciplined_step :: "billing_machine \<Rightarrow> billing_machine \<Rightarrow> bool" where
  disc_execute: "execute_transition tid scen b rid did new_id now m = (m', res) \<Longrightarrow>
     task_scenarios m tid \<in> {None, Some scen} \<Longrightarrow> disciplined_step m m'"
| disc_validate: "validate_transition tid scen a b rid did m = (m', ok) \<Longrightarrow> disciplined_step m m'"
| disc_register: "disciplined_step m (register_receipt tid rid m)"

inductive_cases disciplined_stepE: "disciplined_step m m'"

definition scenario_inv :: "billing_machine \<Rightarrow> bool" where
  "scenario_inv m \<longleftrightarrow>
     (\<forall>tid. (task_scenarios m tid = None \<longleftrightarrow> task_states m tid = None) \<and>
            (\<forall>sc. task_scenarios m tid = Some sc \<longrightarrow> current_or_initial m tid \<in> scenario_states sc))"

lemma scenario_inv_execute:
  assumes "execute_transition tid scen b rid did new_id now m = (m', res)"
    and disc: "task_scenarios m tid \<in> {None, Some scen}" and inv: "scenario_inv m"
  shows "scenario_inv m'"
proof -
  have sc: "task_scenarios m' t = (if t = tid then Some scen else task_scenarios m t)"
    if "task_scenarios m' = task_scenarios (fst (read_or_init tid scen (get_lock tid m)))" for t
    using that disc inv by (auto simp: frame_simps scenario_inv_def)
  from assms(1) show ?thesis
  proof (cases rule: execute_transition_cases)
    case accepted
    from inv allowed_stays_in_scenario [OF accepted(1)] show ?thesis
      by (auto simp: scenario_inv_def sc [OF accepted(7)] accepted(4) current_or_initial_upd [OF accepted(4)])
  next
    case (rejected e)
    have "current_or_initial m tid \<in> scenario_states scen"
      using inv disc by (auto simp: scenario_inv_def current_or_initial_def initiated_in_scenario)
    with inv show ?thesis
      by (auto simp: scenario_inv_def sc [OF rejected(7)] rejected(4) current_or_initial_upd [OF rejected(4)])
  qed
qed

lemma scenario_inv_validate:
  "validate_transition tid scen a b rid did m = (m', ok) \<Longrightarrow> scenario_inv m \<Longrightarrow> scenario_inv m'"
  by (auto simp: scenario_inv_def current_or_initial_def dest!: validate_transition_logs)

lemma scenario_inv_register: "scenario_inv m \<Longrightarrow> scenario_inv (register_receipt tid rid m)"
  by (simp add: scenario_inv_def register_receipt_def current_or_initial_def)

interpretation scenario: step_invariant disciplined_step scenario_inv
  by unfold_locales
    (erule disciplined_stepE; blast intro: scenario_inv_execute scenario_inv_validate scenario_inv_register)

section \<open>Progress of a snapshot\<close>

lemma primary_path_position:
  "\<forall>scen st. case estimate_progress scen st of (cur, tot, _) \<Rightarrow>
     cur \<le> tot \<and> 0 < tot \<and> tot \<le> 100 \<and> (cur = tot \<longleftrightarrow> st = SETTLED)"
  unfolding estimate_progress_def Let_def prod.case by code_simp

lemma progress_percent_bounds:
  fixes cur tot :: nat
  assumes "cur \<le> tot" and "0 < tot" and "tot \<le> 100"
  defines "p \<equiv> py_round (of_nat cur / of_nat tot * 100) 2"
  shows "0 \<le> p \<and> p \<le> 100 \<and> (p = 100 \<longleftrightarrow> cur = tot)"
proof -
  let ?x = "of_nat cur / of_nat tot * 100 :: rat"
  have "?x \<le> 99" if "cur \<noteq> tot"
  proof -
    have "100 * cur \<le> 99 * tot" using assms(1,3) that by linarith
    then have "(of_nat (100 * cur) :: rat) \<le> of_nat (99 * tot)" by (simp only: of_nat_le_iff)
    then show ?thesis using assms(2) by (simp add: field_simps)
  qed
  then have "p \<le> 99" if "cur \<noteq> tot"
    using py_round_le [of ?x 99 2] that by (simp add: p_def)
  moreover have "p = 100" if "cur = tot"
    using py_round_le [of ?x 100 2] py_round_ge [of 100 ?x 2] assms(2) that by (simp add: p_def)
  moreover have "0 \<le> p" using py_round_ge [of 0 ?x 2] by (simp add: p_def)
  ultimately show ?thesis by (cases "cur = tot") auto
qed

lemma estimate_progress_bounds:
  "case estimate_progress scen st of (cur, tot, p) \<Rightarrow>
     0 \<le> p \<and> p \<le> 100 \<and> cur \<le> tot \<and> (p = 100 \<longleftrightarrow> st = SETTLED)"
proof -
  obtain cur tot p where e: "estimate_progress scen st = (cur, tot, p)" by (cases "estimate_progress scen st")
  with primary_path_position [rule_format, where scen = scen and st = st]
  have b: "cur \<le> tot" "0 < tot" "tot \<le> 100" "cur = tot \<longleftrightarrow> st = SETTLED" by simp_all
  from e b(2) have "p = py_round (of_nat cur / of_nat tot * 100) 2"
    by (auto simp: estimate_progress_def Let_def split: if_splits)
  with progress_percent_bounds [OF b(1,2,3)] b e show ?thesis by simp
qed

section \<open>Properties\<close>

text \<open>A concrete run used by the witnesses: one receipt, one transition.\<close>

definition demo_start :: billing_machine where
  "demo_start = register_receipt ''t'' ''r'' create_state_machine"

definition demo_machine :: billing_machine where
  "demo_machine = fst (execute_transition ''t'' S1_DELEGATION INTENT_RECEIVED ''r'' ''d'' ''id'' ''now'' demo_start)"

lemma demo_start_reachable: "billing_step\<^sup>*\<^sup>* create_state_machine demo_start"
  unfolding demo_start_def by (rule r_into_rtranclp, rule step_register)

lemma demo_step: "billing_step demo_start demo_machine"
  unfolding demo_machine_def by (metis step_execute prod.collapse)

lemma demo_reachable: "billing_step\<^sup>*\<^sup>* create_state_machine demo_machine"
  using demo_start_reachable demo_step by (rule rtranclp.rtrancl_into_rtrancl)

text \<open>
  C1. Audit completeness. In every state the machine can reach, replaying the audit records of a
  task from \<open>INITIATED\<close> succeeds, step by step through the global transition map, and ends in the
  task's current state; and every record was triggered by a receipt registered for its task.
\<close>

theorem billing_history_replays:
  assumes "billing_step\<^sup>*\<^sup>* create_state_machine m"
  shows "replay INITIATED (task_history tid m) = Some (current_or_initial m tid) \<and>
         (\<forall>r \<in> set (transitions (audit_log m)). is_receipt_valid m (str_task_id r) (triggered_by_receipt_id r))"
  using audit.inv_run [OF assms audit_inv_init] by (simp add: audit_inv_def)

theorem billing_history_replays_witness:
  "replay INITIATED (task_history ''t'' demo_machine) = Some INTENT_RECEIVED \<and>
   length (task_history ''t'' demo_machine) = 1"
proof -
  have "current_or_initial demo_machine ''t'' = INTENT_RECEIVED" by code_simp
  moreover have "length (task_history ''t'' demo_machine) = 1" by code_simp
  ultimately show ?thesis
    using billing_history_replays [OF demo_reachable, of "''t''"] by simp
qed

text \<open>
  The audit log is append-only: along any run of operations, from any state, no transition
  record and no security event is removed, changed or reordered.
\<close>

theorem billing_logs_append_only:
  assumes "billing_step\<^sup>*\<^sup>* m m'"
  shows "prefix (transitions (audit_log m)) (transitions (audit_log m')) \<and>
         prefix (security_events (audit_log m)) (security_events (audit_log m'))"
  using history.log_run [OF assms] events.log_run [OF assms] by simp

theorem billing_logs_append_only_witness:
  "prefix (transitions (audit_log demo_start)) (transitions (audit_log demo_machine)) \<and>
   transitions (audit_log demo_start) \<noteq> transitions (audit_log demo_machine)"
proof -
  have "length (transitions (audit_log demo_start)) \<noteq> length (transitions (audit_log demo_machine))"
    by code_simp
  then show ?thesis
    using billing_logs_append_only [OF r_into_rtranclp [of billing_step, OF demo_step]] by auto
qed



text \<open>
  Settlement is reachable: whatever state a task is in, if that state belongs to the scenario
  and one receipt is registered for the task, there is a sequence of calls, all accepted, that
  brings the task to \<open>SETTLED\<close>.
\<close>

theorem billing_task_can_settle:
  assumes "current_or_initial m tid \<in> scenario_states scen" and "is_receipt_valid m tid rid"
  shows "\<exists>tos m'. execute_all tid rid (map (Pair scen) tos) m = Inr m' \<and>
           billing_step\<^sup>*\<^sup>* m m' \<and> get_current_state m' tid = Some SETTLED"
proof -
  obtain tos m' where run: "execute_all tid rid (map (Pair scen) tos) m = Inr m'"
    and "task_states m' tid = Some SETTLED"
    using execute_all_settles [OF assms] by blast
  with execute_all_steps [OF run] show ?thesis by (auto simp: get_current_state_def)
qed

theorem billing_task_can_settle_witness:
  "\<exists>tos m'. execute_all ''t'' ''r'' (map (Pair S8_DISPUTE) tos) demo_start = Inr m' \<and>
     billing_step\<^sup>*\<^sup>* demo_start m' \<and> get_current_state m' ''t'' = Some SETTLED"
  by (rule billing_task_can_settle) code_simp+

text \<open>
  \<open>SETTLED\<close> is terminal: once a task is settled no operation, with any arguments, moves it.
\<close>

theorem settled_is_terminal:
  assumes "billing_step\<^sup>*\<^sup>* m m'" and "get_current_state m tid = Some SETTLED"
  shows "get_current_state m' tid = Some SETTLED"
  using settled.inv_run [OF assms(1), of tid] assms(2) by (simp add: settled_inv_def get_current_state_def)

definition demo_settled :: billing_machine where
  "demo_settled = demo_machine\<lparr>task_states := [''t'' \<mapsto> SETTLED]\<rparr>"

theorem settled_is_terminal_witness:
  "get_current_state (register_receipt ''t'' ''x'' demo_settled) ''t'' = Some SETTLED"
proof (rule settled_is_terminal)
  show "billing_step\<^sup>*\<^sup>* demo_settled (register_receipt ''t'' ''x'' demo_settled)"
    by (rule r_into_rtranclp, rule step_register)
qed code_simp

text \<open>
  The scenario check trusts the caller: the scenario a task was registered with is stored but
  not consulted, so a task registered as a single delegation can be driven into
  \<open>REFUND_PENDING\<close>, a state that no path of its scenario contains, by naming another scenario
  in later calls.
\<close>

theorem scenario_paths_can_be_left:
  "\<exists>m. billing_step\<^sup>*\<^sup>* create_state_machine m \<and>
       get_scenario m ''t'' = Some S1_DELEGATION \<and>
       get_current_state m ''t'' = Some REFUND_PENDING \<and>
       REFUND_PENDING \<notin> scenario_states S1_DELEGATION"
proof -
  let ?calls = "map (Pair S1_DELEGATION) [INTENT_RECEIVED, INTENT_VALIDATED, DELEGATION_ACCEPTED,
      TASK_STARTED, STEP_IN_PROGRESS, TASK_COMPLETED, INVOICE_GENERATED, PAYMENT_AUTHORIZED,
      PAYMENT_SETTLING] @ [(S8_DISPUTE, REFUND_PENDING)]"
  have "case execute_all ''t'' ''r'' ?calls demo_start of
          Inl _ \<Rightarrow> False
        | Inr m \<Rightarrow> get_scenario m ''t'' = Some S1_DELEGATION \<and> get_current_state m ''t'' = Some REFUND_PENDING"
    by code_simp
  then obtain m where run: "execute_all ''t'' ''r'' ?calls demo_start = Inr m"
    and "get_scenario m ''t'' = Some S1_DELEGATION" "get_current_state m ''t'' = Some REFUND_PENDING"
    by (auto split: sum.splits)
  moreover have "billing_step\<^sup>*\<^sup>* create_state_machine m"
    using demo_start_reachable execute_all_steps [OF run] by (rule rtranclp_trans)
  moreover have "REFUND_PENDING \<notin> scenario_states S1_DELEGATION" by code_simp
  ultimately show ?thesis by blast
qed

text \<open>
  If every call for a task names the scenario under which the task was registered, the task
  never leaves the states of that scenario.
\<close>

theorem disciplined_tasks_stay_on_scenario:
  assumes "disciplined_step\<^sup>*\<^sup>* create_state_machine m" and "get_scenario m tid = Some scen"
  shows "\<exists>st. get_current_state m tid = Some st \<and> st \<in> scenario_states scen"
proof -
  have "scenario_inv create_state_machine"
    by (simp add: scenario_inv_def create_state_machine_def)
  from scenario.inv_run [OF assms(1) this] assms(2) show ?thesis
    by (fastforce simp: scenario_inv_def get_scenario_def get_current_state_def current_or_initial_def)
qed

theorem disciplined_tasks_stay_on_scenario_witness:
  "\<exists>st. get_current_state demo_machine ''t'' = Some st \<and> st \<in> scenario_states S1_DELEGATION"
proof (rule disciplined_tasks_stay_on_scenario)
  have "disciplined_step create_state_machine demo_start"
    unfolding demo_start_def by (rule disc_register)
  moreover have "disciplined_step demo_start demo_machine"
    unfolding demo_machine_def
    by (rule disc_execute [OF prod.collapse [symmetric]]) (simp add: demo_start_def register_receipt_def create_state_machine_def)
  ultimately show "disciplined_step\<^sup>*\<^sup>* create_state_machine demo_machine" by simp
  show "get_scenario demo_machine ''t'' = Some S1_DELEGATION" by code_simp
qed

text \<open>
  A snapshot reports progress between 0 and 100 percent, never more steps than the primary
  path has, and 100 percent exactly when the task is settled.
\<close>

theorem snapshot_progress_bounds:
  assumes "get_snapshot m tid = Some s"
  shows "0 \<le> progress_percent s \<and> progress_percent s \<le> 100 \<and>
         current_step s \<le> total_steps_estimated s \<and>
         (progress_percent s = 100 \<longleftrightarrow> billing_state s = SETTLED)"
proof -
  obtain st where "task_states m tid = Some st" "billing_state s = st"
    and "(current_step s, total_steps_estimated s, progress_percent s) = estimate_progress (snap_scenario s) st"
    using assms by (auto simp: get_snapshot_def Let_def split: option.splits prod.splits)
  with estimate_progress_bounds [where scen = "snap_scenario s" and st = st] show ?thesis by (auto split: prod.splits)
qed

theorem snapshot_progress_bounds_witness:
  "\<exists>s. get_snapshot demo_machine ''t'' = Some s \<and> 0 \<le> progress_percent s \<and> progress_percent s \<le> 100"
proof -
  have "get_snapshot demo_machine ''t'' \<noteq> None" by code_simp
  then obtain s where "get_snapshot demo_machine ''t'' = Some s" by blast
  with snapshot_progress_bounds [OF this] show ?thesis by blast
qed

end
