(* ===== verification/Billing_Scenarios.thy ===== *)
theory Billing_Scenarios
  imports Billing_Machine
begin

text \<open>
  The scenario registry and the five registered scenarios
  (\<^verbatim>\<open>packages/karma_billing/scenarios\<close>). The registry is an insertion-ordered dictionary; the
  package registers S1, S2, S3, S5 and S8, in this order, when it is imported. The lemmas compare
  the transitions a scenario declares here with those the state machine accepts for it.
\<close>

section \<open>Registry\<close>

record anchoring_overrides =
  anchoring_threshold :: nat
  mandatory_anchor_states :: "string list"

record scenario_config =
  config_scenario :: scenario_type
  receipt_types :: "receipt_type set"
  state_path :: "billing_state list"
  allowed_transitions :: "(billing_state \<times> billing_state) list"
  anchoring_policy_overrides :: "anchoring_overrides option"

type_synonym scenario_registry = "(scenario_type \<times> scenario_config) list"

datatype registry_error = AlreadyRegistered scenario_type | NotRegistered scenario_type

definition start_state :: "scenario_config \<Rightarrow> billing_state" where
  "start_state c = (case state_path c of [] \<Rightarrow> INITIATED | st # _ \<Rightarrow> st)"

definition terminal_state :: "scenario_config \<Rightarrow> billing_state" where
  "terminal_state c = (if state_path c = [] then SETTLED else last (state_path c))"

definition register ::
    "scenario_type \<Rightarrow> scenario_config \<Rightarrow> scenario_registry \<Rightarrow> registry_error + scenario_registry" where
  "register scen config reg =
     (if scen \<in> fst ` set reg then Inl (AlreadyRegistered scen) else Inr (reg @ [(scen, config)]))"

definition get_config :: "scenario_registry \<Rightarrow> scenario_type \<Rightarrow> registry_error + scenario_config" where
  "get_config reg scen =
     (case map_of reg scen of None \<Rightarrow> Inl (NotRegistered scen) | Some c \<Rightarrow> Inr c)"

definition list_all_configs :: "scenario_registry \<Rightarrow> scenario_config list" where
  "list_all_configs reg = map snd reg"

definition is_registered :: "scenario_registry \<Rightarrow> scenario_type \<Rightarrow> bool" where
  "is_registered reg scen \<longleftrightarrow> scen \<in> fst ` set reg"

definition registry_count :: "scenario_registry \<Rightarrow> nat" where
  "registry_count reg = length reg"

section \<open>The registered scenarios\<close>

definition S1_RECEIPT_TYPES :: "receipt_type set" where
  "S1_RECEIPT_TYPES =
     {S1_INTENT_CREATED, S1_INTENT_SIGNED, S1_DELEGATION_ACCEPTED, S1_TASK_STARTED,
      S1_STEP_EXECUTED, S1_TASK_COMPLETED, S1_INVOICE_GENERATED, S1_PAYMENT_AUTHORIZED,
      S1_PAYMENT_SETTLED, S1_RECEIPT_FINAL}"

definition S1_STATE_PATH :: "billing_state list" where
  "S1_STATE_PATH =
     [INITIATED, INTENT_RECEIVED, INTENT_VALIDATED, DELEGATION_ACCEPTED, TASK_STARTED,
      STEP_IN_PROGRESS, STEP_COMPLETED, TASK_COMPLETED, INVOICE_GENERATED, PAYMENT_AUTHORIZED,
      PAYMENT_PENDING, PAYMENT_SETTLING, SETTLED]"

definition S1_ALLOWED_TRANSITIONS :: "(billing_state \<times> billing_state) list" where
  "S1_ALLOWED_TRANSITIONS =
     [(INITIATED, INTENT_RECEIVED), (INTENT_RECEIVED, INTENT_VALIDATED),
      (INTENT_VALIDATED, DELEGATION_ACCEPTED), (DELEGATION_ACCEPTED, TASK_STARTED),
      (TASK_STARTED, STEP_IN_PROGRESS), (STEP_IN_PROGRESS, STEP_COMPLETED),
      (STEP_COMPLETED, STEP_IN_PROGRESS), (STEP_IN_PROGRESS, TASK_COMPLETED),
      (STEP_COMPLETED, TASK_COMPLETED), (TASK_COMPLETED, INVOICE_GENERATED),
      (INVOICE_GENERATED, PAYMENT_AUTHORIZED), (PAYMENT_AUTHORIZED, PAYMENT_PENDING),
      (PAYMENT_PENDING, PAYMENT_SETTLING), (PAYMENT_SETTLING, SETTLED)]"

definition S1_ANCHORING_POLICY :: anchoring_overrides where
  "S1_ANCHORING_POLICY =
     \<lparr>anchoring_threshold = 3,
      mandatory_anchor_states = map billing_state_value [INTENT_VALIDATED, TASK_COMPLETED, INVOICE_GENERATED, SETTLED]\<rparr>"

definition S1_RECEIPT_TO_STATE_MAP :: "receipt_type \<rightharpoonup> billing_state" where
  "S1_RECEIPT_TO_STATE_MAP =
     [S1_INTENT_CREATED \<mapsto> INTENT_RECEIVED, S1_INTENT_SIGNED \<mapsto> INTENT_VALIDATED,
      S1_DELEGATION_ACCEPTED \<mapsto> DELEGATION_ACCEPTED,
      S1_TASK_STARTED \<mapsto> TASK_STARTED, S1_STEP_EXECUTED \<mapsto> STEP_IN_PROGRESS,
      S1_TASK_COMPLETED \<mapsto> TASK_COMPLETED,
      S1_INVOICE_GENERATED \<mapsto> INVOICE_GENERATED,
      S1_PAYMENT_AUTHORIZED \<mapsto> PAYMENT_AUTHORIZED,
      S1_PAYMENT_SETTLED \<mapsto> PAYMENT_SETTLING, S1_RECEIPT_FINAL \<mapsto> SETTLED]"

definition register_s1 :: "scenario_registry \<Rightarrow> registry_error + scenario_registry" where
  "register_s1 reg = register S1_DELEGATION
     \<lparr>config_scenario = S1_DELEGATION, receipt_types = S1_RECEIPT_TYPES, state_path = S1_STATE_PATH,
      allowed_transitions = S1_ALLOWED_TRANSITIONS,
      anchoring_policy_overrides = Some S1_ANCHORING_POLICY\<rparr> reg"

definition S2_RECEIPT_TYPES :: "receipt_type set" where
  "S2_RECEIPT_TYPES =
     {S2_BID_OPENED, S2_BID_PLACED, S2_BID_EVALUATED, S2_BID_ACCEPTED, S2_TASK_EXECUTED,
      S2_INVOICE_GENERATED, S2_PAYMENT_SETTLED}"

definition S2_STATE_PATH :: "billing_state list" where
  "S2_STATE_PATH =
     [INITIATED, INTENT_RECEIVED, INTENT_VALIDATED, BID_EVALUATING, BID_ACCEPTED, TASK_STARTED,
      STEP_IN_PROGRESS, STEP_COMPLETED, TASK_COMPLETED, INVOICE_GENERATED, PAYMENT_AUTHORIZED,
      PAYMENT_SETTLING, SETTLED]"

definition S2_ALLOWED_TRANSITIONS :: "(billing_state \<times> billing_state) list" where
  "S2_ALLOWED_TRANSITIONS =
     [(INITIATED, INTENT_RECEIVED), (INTENT_RECEIVED, INTENT_VALIDATED),
      (INTENT_VALIDATED, BID_EVALUATING), (BID_EVALUATING, BID_ACCEPTED),
      (BID_EVALUATING, INVOICE_GENERATED), (BID_ACCEPTED, TASK_STARTED),
      (TASK_STARTED, STEP_IN_PROGRESS), (STEP_IN_PROGRESS, STEP_COMPLETED),
      (STEP_COMPLETED, TASK_COMPLETED), (TASK_COMPLETED, INVOICE_GENERATED),
      (INVOICE_GENERATED, PAYMENT_AUTHORIZED), (PAYMENT_AUTHORIZED, PAYMENT_SETTLING),
      (PAYMENT_SETTLING, SETTLED)]"

definition S2_ANCHORING_POLICY :: anchoring_overrides where
  "S2_ANCHORING_POLICY =
     \<lparr>anchoring_threshold = 5,
      mandatory_anchor_states = map billing_state_value [BID_ACCEPTED, INVOICE_GENERATED, SETTLED]\<rparr>"

definition S2_RECEIPT_TO_STATE_MAP :: "receipt_type \<rightharpoonup> billing_state" where
  "S2_RECEIPT_TO_STATE_MAP =
     [S2_BID_OPENED \<mapsto> BID_EVALUATING, S2_BID_PLACED \<mapsto> BID_EVALUATING,
      S2_BID_EVALUATED \<mapsto> BID_EVALUATING, S2_BID_ACCEPTED \<mapsto> BID_ACCEPTED,
      S2_TASK_EXECUTED \<mapsto> TASK_COMPLETED,
      S2_INVOICE_GENERATED \<mapsto> INVOICE_GENERATED, S2_PAYMENT_SETTLED \<mapsto> SETTLED]"

definition register_s2 :: "scenario_registry \<Rightarrow> registry_error + scenario_registry" where
  "register_s2 reg = register S2_BIDDING
     \<lparr>config_scenario = S2_BIDDING, receipt_types = S2_RECEIPT_TYPES, state_path = S2_STATE_PATH,
      allowed_transitions = S2_ALLOWED_TRANSITIONS,
      anchoring_policy_overrides = Some S2_ANCHORING_POLICY\<rparr> reg"

definition S3_RECEIPT_TYPES :: "receipt_type set" where
  "S3_RECEIPT_TYPES =
     {S3_PIPELINE_CREATED, S3_STAGE_STARTED, S3_STAGE_COMPLETED, S3_PIPELINE_COMPLETED,
      S3_INVOICE_AGGREGATED, S3_PAYMENT_SETTLED}"

definition S3_STATE_PATH :: "billing_state list" where
  "S3_STATE_PATH =
     [INITIATED, INTENT_RECEIVED, INTENT_VALIDATED, PIPELINE_STAGING, STEP_IN_PROGRESS,
      STEP_COMPLETED, TASK_COMPLETED, INVOICE_GENERATED, PAYMENT_AUTHORIZED, PAYMENT_SETTLING,
      SETTLED]"

definition S3_ALLOWED_TRANSITIONS :: "(billing_state \<times> billing_state) list" where
  "S3_ALLOWED_TRANSITIONS =
     [(INITIATED, INTENT_RECEIVED), (INTENT_RECEIVED, INTENT_VALIDATED),
      (INTENT_VALIDATED, PIPELINE_STAGING), (PIPELINE_STAGING, STEP_IN_PROGRESS),
      (PIPELINE_STAGING, TASK_COMPLETED), (STEP_IN_PROGRESS, STEP_COMPLETED),
      (STEP_COMPLETED, STEP_IN_PROGRESS), (STEP_COMPLETED, TASK_COMPLETED),
      (TASK_COMPLETED, INVOICE_GENERATED), (INVOICE_GENERATED, PAYMENT_AUTHORIZED),
      (PAYMENT_AUTHORIZED, PAYMENT_SETTLING), (PAYMENT_SETTLING, SETTLED)]"

definition S3_ANCHORING_POLICY :: anchoring_overrides where
  "S3_ANCHORING_POLICY =
     \<lparr>anchoring_threshold = 5,
      mandatory_anchor_states = map billing_state_value [TASK_COMPLETED, INVOICE_GENERATED, SETTLED]\<rparr>"

definition S3_RECEIPT_TO_STATE_MAP :: "receipt_type \<rightharpoonup> billing_state" where
  "S3_RECEIPT_TO_STATE_MAP =
     [S3_PIPELINE_CREATED \<mapsto> PIPELINE_STAGING,
      S3_STAGE_STARTED \<mapsto> STEP_IN_PROGRESS, S3_STAGE_COMPLETED \<mapsto> STEP_COMPLETED,
      S3_PIPELINE_COMPLETED \<mapsto> TASK_COMPLETED,
      S3_INVOICE_AGGREGATED \<mapsto> INVOICE_GENERATED, S3_PAYMENT_SETTLED \<mapsto> SETTLED]"

definition register_s3 :: "scenario_registry \<Rightarrow> registry_error + scenario_registry" where
  "register_s3 reg = register S3_PIPELINE
     \<lparr>config_scenario = S3_PIPELINE, receipt_types = S3_RECEIPT_TYPES, state_path = S3_STATE_PATH,
      allowed_transitions = S3_ALLOWED_TRANSITIONS,
      anchoring_policy_overrides = Some S3_ANCHORING_POLICY\<rparr> reg"

definition S5_RECEIPT_TYPES :: "receipt_type set" where
  "S5_RECEIPT_TYPES =
     {S5_DATA_REQUESTED, S5_DATA_DELIVERED, S5_DATA_VERIFIED, S5_ROYALTY_CALCULATED,
      S5_PAYMENT_SETTLED}"

definition S5_STATE_PATH :: "billing_state list" where
  "S5_STATE_PATH =
     [INITIATED, INTENT_RECEIVED, INTENT_VALIDATED, DELEGATION_ACCEPTED, TASK_STARTED,
      TASK_COMPLETED, INVOICE_GENERATED, PAYMENT_AUTHORIZED, PAYMENT_SETTLING, SETTLED]"

definition S5_ALLOWED_TRANSITIONS :: "(billing_state \<times> billing_state) list" where
  "S5_ALLOWED_TRANSITIONS =
     [(INITIATED, INTENT_RECEIVED), (INTENT_RECEIVED, INTENT_VALIDATED),
      (INTENT_VALIDATED, DELEGATION_ACCEPTED), (DELEGATION_ACCEPTED, TASK_STARTED),
      (TASK_STARTED, TASK_COMPLETED), (TASK_COMPLETED, INVOICE_GENERATED),
      (INVOICE_GENERATED, PAYMENT_AUTHORIZED), (PAYMENT_AUTHORIZED, PAYMENT_SETTLING),
      (PAYMENT_SETTLING, SETTLED)]"

definition S5_ANCHORING_POLICY :: anchoring_overrides where
  "S5_ANCHORING_POLICY =
     \<lparr>anchoring_threshold = 5,
      mandatory_anchor_states = map billing_state_value [INVOICE_GENERATED, SETTLED]\<rparr>"

definition S5_RECEIPT_TO_STATE_MAP :: "receipt_type \<rightharpoonup> billing_state" where
  "S5_RECEIPT_TO_STATE_MAP =
     [S5_DATA_REQUESTED \<mapsto> INTENT_VALIDATED, S5_DATA_DELIVERED \<mapsto> TASK_COMPLETED,
      S5_DATA_VERIFIED \<mapsto> TASK_COMPLETED,
      S5_ROYALTY_CALCULATED \<mapsto> INVOICE_GENERATED, S5_PAYMENT_SETTLED \<mapsto> SETTLED]"

definition register_s5 :: "scenario_registry \<Rightarrow> registry_error + scenario_registry" where
  "register_s5 reg = register S5_DATA
     \<lparr>config_scenario = S5_DATA, receipt_types = S5_RECEIPT_TYPES, state_path = S5_STATE_PATH,
      allowed_transitions = S5_ALLOWED_TRANSITIONS,
      anchoring_policy_overrides = Some S5_ANCHORING_POLICY\<rparr> reg"

definition S8_RECEIPT_TYPES :: "receipt_type set" where
  "S8_RECEIPT_TYPES =
     {S8_DISPUTE_FILED, S8_EVIDENCE_SUBMITTED, S8_ARBITRATION_STARTED, S8_RESOLUTION_PROPOSED,
      S8_RESOLUTION_ACCEPTED, S8_REFUND_ISSUED}"

definition S8_STATE_PATH :: "billing_state list" where
  "S8_STATE_PATH =
     [INITIATED, INTENT_RECEIVED, INTENT_VALIDATED, DELEGATION_ACCEPTED, TASK_STARTED,
      TASK_COMPLETED, INVOICE_GENERATED, PAYMENT_AUTHORIZED, PAYMENT_SETTLING, REFUND_PENDING,
      SETTLED]"

definition S8_ALLOWED_TRANSITIONS :: "(billing_state \<times> billing_state) list" where
  "S8_ALLOWED_TRANSITIONS =
     [(INITIATED, INTENT_RECEIVED), (INTENT_RECEIVED, INTENT_VALIDATED),
      (INTENT_VALIDATED, DELEGATION_ACCEPTED), (DELEGATION_ACCEPTED, TASK_STARTED),
      (TASK_STARTED, TASK_COMPLETED), (TASK_COMPLETED, INVOICE_GENERATED),
      (INVOICE_GENERATED, PAYMENT_AUTHORIZED), (PAYMENT_AUTHORIZED, PAYMENT_SETTLING),
      (PAYMENT_SETTLING, REFUND_PENDING), (REFUND_PENDING, SETTLED), (PAYMENT_SETTLING, SETTLED)]"

definition S8_ANCHORING_POLICY :: anchoring_overrides where
  "S8_ANCHORING_POLICY =
     \<lparr>anchoring_threshold = 2,
      mandatory_anchor_states = map billing_state_value [REFUND_PENDING, SETTLED]\<rparr>"

definition S8_RECEIPT_TO_STATE_MAP :: "receipt_type \<rightharpoonup> billing_state" where
  "S8_RECEIPT_TO_STATE_MAP =
     [S8_DISPUTE_FILED \<mapsto> PAYMENT_SETTLING,
      S8_EVIDENCE_SUBMITTED \<mapsto> PAYMENT_SETTLING,
      S8_ARBITRATION_STARTED \<mapsto> PAYMENT_SETTLING,
      S8_RESOLUTION_PROPOSED \<mapsto> REFUND_PENDING,
      S8_RESOLUTION_ACCEPTED \<mapsto> REFUND_PENDING, S8_REFUND_ISSUED \<mapsto> SETTLED]"

definition register_s8 :: "scenario_registry \<Rightarrow> registry_error + scenario_registry" where
  "register_s8 reg = register S8_DISPUTE
     \<lparr>config_scenario = S8_DISPUTE, receipt_types = S8_RECEIPT_TYPES, state_path = S8_STATE_PATH,
      allowed_transitions = S8_ALLOWED_TRANSITIONS,
      anchoring_policy_overrides = Some S8_ANCHORING_POLICY\<rparr> reg"

text \<open>Importing the package runs the registrations in this order on the empty registry.\<close>

definition import_scenarios :: "registry_error + scenario_registry" where
  "import_scenarios =
     (case register_s1 [] of Inl e \<Rightarrow> Inl e | Inr r1 \<Rightarrow>
      case register_s2 r1 of Inl e \<Rightarrow> Inl e | Inr r2 \<Rightarrow>
      case register_s3 r2 of Inl e \<Rightarrow> Inl e | Inr r3 \<Rightarrow>
      case register_s5 r3 of Inl e \<Rightarrow> Inl e | Inr r5 \<Rightarrow>
      register_s8 r5)"

section \<open>Facts about the registry\<close>

lemma get_config_register:
  assumes "register scen c reg = Inr reg'"
  shows "get_config reg' s = (if s = scen then Inr c else get_config reg s)"
proof -
  have "map_of reg' = (map_of reg)(scen \<mapsto> c)"
    using assms map_of_eq_None_iff [of reg scen]
    by (auto simp: register_def map_add_def fun_eq_iff split: if_splits option.splits)
  then show ?thesis by (simp add: get_config_def)
qed

text \<open>The edges a registered scenario declares.\<close>

definition declared_edges :: "scenario_type \<Rightarrow> (billing_state \<times> billing_state) set" where
  "declared_edges scen =
     (case import_scenarios of
        Inl _ \<Rightarrow> {}
      | Inr reg \<Rightarrow> (case get_config reg scen of Inl _ \<Rightarrow> {} | Inr c \<Rightarrow> set (allowed_transitions c)))"

text \<open>Every receipt type of a scenario is mapped to a state of its path.\<close>

lemma receipt_maps_cover:
  "dom S1_RECEIPT_TO_STATE_MAP = S1_RECEIPT_TYPES \<and> ran S1_RECEIPT_TO_STATE_MAP \<subseteq> set S1_STATE_PATH"
  "dom S2_RECEIPT_TO_STATE_MAP = S2_RECEIPT_TYPES \<and> ran S2_RECEIPT_TO_STATE_MAP \<subseteq> set S2_STATE_PATH"
  "dom S3_RECEIPT_TO_STATE_MAP = S3_RECEIPT_TYPES \<and> ran S3_RECEIPT_TO_STATE_MAP \<subseteq> set S3_STATE_PATH"
  "dom S5_RECEIPT_TO_STATE_MAP = S5_RECEIPT_TYPES \<and> ran S5_RECEIPT_TO_STATE_MAP \<subseteq> set S5_STATE_PATH"
  "dom S8_RECEIPT_TO_STATE_MAP = S8_RECEIPT_TYPES \<and> ran S8_RECEIPT_TO_STATE_MAP \<subseteq> set S8_STATE_PATH"
  by (auto simp: S1_RECEIPT_TO_STATE_MAP_def S1_RECEIPT_TYPES_def S1_STATE_PATH_def
      S2_RECEIPT_TO_STATE_MAP_def S2_RECEIPT_TYPES_def S2_STATE_PATH_def
      S3_RECEIPT_TO_STATE_MAP_def S3_RECEIPT_TYPES_def S3_STATE_PATH_def
      S5_RECEIPT_TO_STATE_MAP_def S5_RECEIPT_TYPES_def S5_STATE_PATH_def
      S8_RECEIPT_TO_STATE_MAP_def S8_RECEIPT_TYPES_def S8_STATE_PATH_def ran_def split: if_splits)

text \<open>A path whose neighbours are all allowed can be executed from its first state.\<close>

lemma execute_all_path:
  assumes "set (path_edges (a # path)) \<subseteq> scenario_edges scen"
    and "current_or_initial m tid = a" and "is_receipt_valid m tid rid"
  shows "\<exists>m'. execute_all tid rid (map (Pair scen) path) m = Inr m' \<and>
              current_or_initial m' tid = last (a # path) \<and>
              (path \<noteq> [] \<longrightarrow> task_states m' tid = Some (last path))"
  using assms
proof (induction path arbitrary: a m)
  case (Cons b path)
  have "is_transition_allowed scen (current_or_initial m tid) b"
    using Cons.prems(1,2) by (auto simp: is_transition_allowed_edges path_edges_def)
  from execute_transition_accepted [OF this Cons.prems(3), of "''did''" "''record''" "''now''"]
  obtain m1 r where ex: "execute_transition tid scen b rid ''did'' ''record'' ''now'' m = (m1, Inr r)"
    and st: "task_states m1 = (task_states m)(tid \<mapsto> b)" by blast
  have "current_or_initial m1 tid = b" using st by (simp add: current_or_initial_def)
  moreover have "is_receipt_valid m1 tid rid" using Cons.prems(3) is_receipt_valid_execute [OF ex] by simp
  moreover have "set (path_edges (b # path)) \<subseteq> scenario_edges scen"
    using Cons.prems(1) by (auto simp: path_edges_def)
  ultimately obtain m' where "execute_all tid rid (map (Pair scen) path) m1 = Inr m'"
    "current_or_initial m' tid = last (b # path)" "path \<noteq> [] \<longrightarrow> task_states m' tid = Some (last path)"
    using Cons.IH by blast
  with ex st show ?case by (cases path) auto
qed simp

lemma registered_paths_allowed:
  "case import_scenarios of Inl _ \<Rightarrow> False
   | Inr reg \<Rightarrow> (\<forall>(scen, c) \<in> set reg. start_state c = INITIATED \<and> terminal_state c = SETTLED \<and>
                   1 < length (state_path c) \<and> set (path_edges (state_path c)) \<subseteq> scenario_edges scen)"
  by code_simp

section \<open>Properties\<close>

text \<open>
  The registry keeps what was registered: a lookup returns the registered configuration, other
  scenarios are unaffected, and a second registration of the same scenario is refused.
\<close>

theorem registry_register_get:
  assumes "register scen c reg = Inr reg'"
  shows "get_config reg' scen = Inr c \<and> (\<forall>s. s \<noteq> scen \<longrightarrow> get_config reg' s = get_config reg s) \<and>
         register scen c' reg' = Inl (AlreadyRegistered scen)"
  using get_config_register [OF assms] assms by (auto simp: register_def split: if_splits)

definition demo_config :: scenario_config where
  "demo_config = \<lparr>config_scenario = S5_DATA, receipt_types = {}, state_path = [], allowed_transitions = [],
     anchoring_policy_overrides = None\<rparr>"

theorem registry_register_get_witness:
  "get_config [(S5_DATA, demo_config)] S5_DATA = Inr demo_config \<and>
   register S5_DATA demo_config [(S5_DATA, demo_config)] = Inl (AlreadyRegistered S5_DATA)"
  using registry_register_get [of S5_DATA demo_config "[]" "[(S5_DATA, demo_config)]" demo_config]
  by (simp add: register_def)

text \<open>
  The declared state path of every registered scenario runs through the state machine: from a
  new task with one registered receipt, the calls along the path are all accepted and the task
  ends in \<open>SETTLED\<close>.
\<close>

theorem registered_paths_execute:
  assumes "import_scenarios = Inr reg" and "(scen, c) \<in> set reg"
    and "current_or_initial m tid = INITIATED" and "is_receipt_valid m tid rid"
  shows "\<exists>m'. execute_all tid rid (map (Pair scen) (tl (state_path c))) m = Inr m' \<and>
              get_current_state m' tid = Some SETTLED"
proof -
  have p: "start_state c = INITIATED" "terminal_state c = SETTLED" "1 < length (state_path c)"
    "set (path_edges (state_path c)) \<subseteq> scenario_edges scen"
    using bspec [OF registered_paths_allowed [unfolded assms(1) sum.case] assms(2)] by simp_all
  then obtain b path where path: "state_path c = INITIATED # b # path"
    by (cases "state_path c"; cases "tl (state_path c)") (auto simp: start_state_def)
  with p(4) obtain m' where "execute_all tid rid (map (Pair scen) (b # path)) m = Inr m'"
    "task_states m' tid = Some (last (b # path))"
    using execute_all_path [of INITIATED "b # path" scen m tid rid] assms(3,4) by auto
  with path p(2) show ?thesis by (auto simp: terminal_state_def get_current_state_def)
qed

theorem registered_paths_execute_witness:
  "\<exists>reg c m'. import_scenarios = Inr reg \<and> (S3_PIPELINE, c) \<in> set reg \<and>
     execute_all ''t'' ''r'' (map (Pair S3_PIPELINE) (tl (state_path c))) demo_start = Inr m' \<and>
     get_current_state m' ''t'' = Some SETTLED"
proof -
  have "case import_scenarios of Inl _ \<Rightarrow> False | Inr reg \<Rightarrow> S3_PIPELINE \<in> fst ` set reg"
    by code_simp
  then obtain reg c where reg: "import_scenarios = Inr reg" "(S3_PIPELINE, c) \<in> set reg"
    by (auto split: sum.splits)
  have "current_or_initial demo_start ''t'' = INITIATED" "is_receipt_valid demo_start ''t'' ''r''"
    by code_simp+
  from registered_paths_execute [OF reg this] reg show ?thesis by blast
qed

text \<open>
  Where the registry and the machine disagree. For S5 and S8 the declared transitions are
  exactly those the machine accepts. For S1 and S2 the machine accepts one step more each (skipping
  \<open>PAYMENT_PENDING\<close>, skipping the authorisation). For S3 the registry declares two steps the
  machine refuses, among them the loop to the next stage of a pipeline.
\<close>

theorem registry_and_machine_edges:
  "declared_edges S5_DATA = scenario_edges S5_DATA \<and>
   declared_edges S8_DISPUTE = scenario_edges S8_DISPUTE \<and>
   scenario_edges S1_DELEGATION = insert (PAYMENT_AUTHORIZED, PAYMENT_SETTLING) (declared_edges S1_DELEGATION) \<and>
   (PAYMENT_AUTHORIZED, PAYMENT_SETTLING) \<notin> declared_edges S1_DELEGATION \<and>
   scenario_edges S2_BIDDING = insert (INVOICE_GENERATED, PAYMENT_SETTLING) (declared_edges S2_BIDDING) \<and>
   (INVOICE_GENERATED, PAYMENT_SETTLING) \<notin> declared_edges S2_BIDDING \<and>
   declared_edges S3_PIPELINE - scenario_edges S3_PIPELINE =
     {(PIPELINE_STAGING, TASK_COMPLETED), (STEP_COMPLETED, STEP_IN_PROGRESS)} \<and>
   scenario_edges S3_PIPELINE \<subseteq> declared_edges S3_PIPELINE"
  by (intro conjI; code_simp)

end
