(* ===== verification/Billing_Sync.thy ===== *)
theory Billing_Sync
  imports Billing_Schema
begin

text \<open>
  The receipt synchronisation service (\<^verbatim>\<open>packages/karma_billing/sync_service.py\<close>): the in-memory
  publish/subscribe channels, the incremental Merkle accumulator and the fan-out of a receipt
  through the three routes. The insert hook of the database and the JSON dump of a receipt
  (Pydantic) are arguments that may fail with an error text; a subscriber is known by an
  identifier, and what a publication does is the list of the callbacks it calls. The lemmas show
  that the routes are independent, how the anchoring counter behaves, and what the Merkle root
  commits to.
\<close>

section \<open>Publish and subscribe\<close>

type_synonym callback = string
type_synonym message = py_dict

type_synonym pub_sub = "string \<rightharpoonup> callback list"

definition new_pub_sub :: pub_sub where
  "new_pub_sub = Map.empty"

definition subscribe :: "string \<Rightarrow> callback \<Rightarrow> pub_sub \<Rightarrow> pub_sub" where
  "subscribe channel cb ps =
     ps(channel \<mapsto> (case ps channel of None \<Rightarrow> [] | Some cbs \<Rightarrow> cbs) @ [cb])"

definition unsubscribe :: "string \<Rightarrow> callback \<Rightarrow> pub_sub \<Rightarrow> pub_sub" where
  "unsubscribe channel cb ps =
     (case ps channel of
        None \<Rightarrow> ps
      | Some cbs \<Rightarrow>
          (let kept = filter (\<lambda>c. c \<noteq> cb) cbs
           in if kept = [] then ps(channel := None) else ps(channel \<mapsto> kept)))"

text \<open>
  A callback that raises does not keep the later ones from being called: the calls made are those
  of all subscribers of the channel, in order.
\<close>

definition publish :: "string \<Rightarrow> message \<Rightarrow> pub_sub \<Rightarrow> (callback \<times> message) list" where
  "publish channel msg ps =
     (case ps channel of None \<Rightarrow> [] | Some cbs \<Rightarrow> map (\<lambda>cb. (cb, msg)) cbs)"

definition publish_async :: "string \<Rightarrow> message \<Rightarrow> pub_sub \<Rightarrow> (callback \<times> message) list" where
  "publish_async channel msg ps = publish channel msg ps"

definition subscriber_count :: "pub_sub \<Rightarrow> string \<rightharpoonup> nat" where
  "subscriber_count ps = (\<lambda>ch. map_option length (ps ch))"

section \<open>The Merkle accumulator\<close>

record merkle_accumulator =
  leaves :: "bytes list"
  anchor_count :: nat

definition new_merkle :: merkle_accumulator where
  "new_merkle = \<lparr>leaves = [], anchor_count = 0\<rparr>"

definition append_leaf :: "bytes \<Rightarrow> merkle_accumulator \<Rightarrow> merkle_accumulator \<times> nat" where
  "append_leaf leaf_hash acc = (acc\<lparr>leaves := leaves acc @ [leaf_hash]\<rparr>, length (leaves acc))"

text \<open>One pass of the inner loop: consecutive pairs, the last element paired with itself.\<close>

fun next_level :: "(bytes \<Rightarrow> bytes) \<Rightarrow> bytes list \<Rightarrow> bytes list" where
  "next_level sha [] = []"
| "next_level sha [left] = [sha (left @ left)]"
| "next_level sha (left # right # rest) = sha (left @ right) # next_level sha rest"

lemma length_next_level [simp]: "length (next_level sha ls) = (length ls + 1) div 2"
  by (induction sha ls rule: next_level.induct) auto

text \<open>The outer loop; it ends because a level of more than one hash gets shorter.\<close>

function merkle_levels :: "(bytes \<Rightarrow> bytes) \<Rightarrow> bytes list \<Rightarrow> bytes list" where
  "merkle_levels sha level = (if 1 < length level then merkle_levels sha (next_level sha level) else level)"
  by pat_completeness auto
termination by (relation "measure (\<lambda>(sha, level). length level)") auto

declare merkle_levels.simps [simp del]

definition compute_root :: "(bytes \<Rightarrow> bytes) \<Rightarrow> merkle_accumulator \<Rightarrow> string option" where
  "compute_root sha acc =
     (if leaves acc = [] then None
      else case merkle_levels sha (leaves acc) of [] \<Rightarrow> None | h # _ \<Rightarrow> Some (hex h))"

definition leaf_count :: "merkle_accumulator \<Rightarrow> nat" where
  "leaf_count acc = length (leaves acc)"

definition mark_anchored :: "(bytes \<Rightarrow> bytes) \<Rightarrow> merkle_accumulator \<Rightarrow> merkle_accumulator \<times> string" where
  "mark_anchored sha acc =
     (acc\<lparr>anchor_count := anchor_count acc + 1\<rparr>,
      case compute_root sha acc of None \<Rightarrow> [] | Some h \<Rightarrow> h)"

section \<open>The service\<close>

datatype sync_route_status = SUCCESS | FAILED | SKIPPED

record sync_result =
  result_receipt_id :: string
  pg_status :: sync_route_status
  pubsub_status :: sync_route_status
  merkle_status :: sync_route_status
  anchoring_triggered :: bool
  errors :: "string list"

definition all_succeeded :: "sync_result \<Rightarrow> bool" where
  "all_succeeded r \<longleftrightarrow>
     list_all (\<lambda>s. s = SUCCESS \<or> s = SKIPPED) [pg_status r, pubsub_status r, merkle_status r]"

type_synonym insert_hook = "universal_receipt \<Rightarrow> string + unit"

record sync_service =
  pubsub :: pub_sub
  merkle :: merkle_accumulator
  sync_threshold :: int
  pg_insert_hook :: "insert_hook option"
  task_receipt_count :: "string \<rightharpoonup> int"

datatype sync_error = ZeroDivisionError

definition new_sync_service :: "int \<Rightarrow> sync_service" where
  "new_sync_service threshold =
     \<lparr>pubsub = new_pub_sub, merkle = new_merkle, sync_threshold = threshold, pg_insert_hook = None,
      task_receipt_count = Map.empty\<rparr>"

definition set_pg_insert_hook :: "insert_hook \<Rightarrow> sync_service \<Rightarrow> sync_service" where
  "set_pg_insert_hook hook svc = svc\<lparr>pg_insert_hook := Some hook\<rparr>"

text \<open>Route 1: a missing hook skips the insert, a failing one is recorded.\<close>

definition pg_route :: "universal_receipt \<Rightarrow> sync_service \<Rightarrow> sync_result \<Rightarrow> sync_result" where
  "pg_route receipt svc result =
     (case pg_insert_hook svc of
        None \<Rightarrow> result\<lparr>pg_status := SKIPPED\<rparr>
      | Some hook \<Rightarrow>
          (case hook receipt of
             Inl e \<Rightarrow> result\<lparr>pg_status := FAILED, errors := errors result @ [''PG: '' @ e]\<rparr>
           | Inr _ \<Rightarrow> result\<lparr>pg_status := SUCCESS\<rparr>))"

text \<open>Route 2: the dump of the receipt is published on the channel of its task.\<close>

definition pubsub_route ::
    "(universal_receipt \<Rightarrow> string + message) \<Rightarrow> universal_receipt \<Rightarrow> sync_service \<Rightarrow> sync_result \<Rightarrow>
     sync_result \<times> (callback \<times> message) list" where
  "pubsub_route model_dump receipt svc result =
     (case model_dump receipt of
        Inl e \<Rightarrow> (result\<lparr>pubsub_status := FAILED, errors := errors result @ [''PubSub: '' @ e]\<rparr>, [])
      | Inr msg \<Rightarrow>
          (result\<lparr>pubsub_status := SUCCESS\<rparr>,
           publish (''karma:billing:receipts:'' @ task_id receipt) msg (pubsub svc)))"

text \<open>
  The whole fan-out. On a well-typed receipt the leaf hash cannot fail, so route 3 always appends.
  A threshold of zero makes the policy check raise after the three routes and the count.
\<close>

definition sync ::
    "(bytes \<Rightarrow> bytes) \<Rightarrow> (universal_receipt \<Rightarrow> string + message) \<Rightarrow> universal_receipt \<Rightarrow> sync_service \<Rightarrow>
     sync_service \<times> (callback \<times> message) list \<times> (sync_error + sync_result)" where
  "sync sha model_dump receipt svc =
     (let r0 = \<lparr>result_receipt_id = receipt_id receipt, pg_status = SUCCESS, pubsub_status = SUCCESS,
                merkle_status = SUCCESS, anchoring_triggered = False, errors = []\<rparr>;
          r1 = pg_route receipt svc r0;
          (r2, calls) = pubsub_route model_dump receipt svc r1;
          r3 = r2\<lparr>merkle_status := SUCCESS\<rparr>;
          count = (case task_receipt_count svc (task_id receipt) of None \<Rightarrow> 0 | Some n \<Rightarrow> n) + 1;
          svc' = svc\<lparr>merkle := fst (append_leaf (compute_leaf sha receipt) (merkle svc)),
                     task_receipt_count := (task_receipt_count svc)(task_id receipt \<mapsto> count)\<rparr>
      in (svc', calls,
          if sync_threshold svc = 0 then Inl ZeroDivisionError
          else if count mod sync_threshold svc = 0 then Inr (r3\<lparr>anchoring_triggered := True\<rparr>)
          else Inr r3))"

definition get_merkle_root :: "(bytes \<Rightarrow> bytes) \<Rightarrow> sync_service \<Rightarrow> string option" where
  "get_merkle_root sha svc = compute_root sha (merkle svc)"

text \<open>Several receipts one after the other, with the outcome of each.\<close>

fun sync_all ::
    "(bytes \<Rightarrow> bytes) \<Rightarrow> (universal_receipt \<Rightarrow> string + message) \<Rightarrow> universal_receipt list \<Rightarrow> sync_service \<Rightarrow>
     sync_service \<times> (sync_error + sync_result) list" where
  "sync_all sha model_dump [] svc = (svc, [])"
| "sync_all sha model_dump (r # rs) svc =
     (let (svc1, _, out) = sync sha model_dump r svc; (svc2, outs) = sync_all sha model_dump rs svc1
      in (svc2, out # outs))"

section \<open>What the Merkle root commits to\<close>

text \<open>The byte strings that one level hashes, and all that the computation of a root hashes.\<close>

fun level_inputs :: "bytes list \<Rightarrow> bytes list" where
  "level_inputs [] = []"
| "level_inputs [l] = [l @ l]"
| "level_inputs (l # r # rest) = (l @ r) # level_inputs rest"

function merkle_inputs :: "(bytes \<Rightarrow> bytes) \<Rightarrow> bytes list \<Rightarrow> bytes set" where
  "merkle_inputs sha level =
     (if 1 < length level then set (level_inputs level) \<union> merkle_inputs sha (next_level sha level) else {})"
  by pat_completeness auto
termination by (relation "measure (\<lambda>(sha, level). length level)") auto

declare merkle_inputs.simps [simp del]

lemma next_level_inputs: "next_level sha ls = map sha (level_inputs ls)"
  by (induction ls rule: level_inputs.induct) auto

lemma length_level_inputs: "length ls = length ls' \<Longrightarrow> length (level_inputs ls) = length (level_inputs ls')"
  using length_next_level [of id] by (simp add: next_level_inputs)

lemma level_inputs_inj:
  assumes "length ls = length ls'" and "\<forall>l \<in> set ls \<union> set ls'. length l = n"
    and "level_inputs ls = level_inputs ls'"
  shows "ls = ls'"
  using assms
proof (induction ls arbitrary: ls' rule: level_inputs.induct)
  case (2 l)
  then obtain l' where "ls' = [l']" by (cases ls') auto
  with 2 show ?case by auto
next
  case (3 l r rest)
  then obtain l' r' rest' where "ls' = l' # r' # rest'" by (cases ls'; cases "tl ls'") auto
  with 3 show ?case by auto
qed simp

lemma merkle_levels_single: "ls \<noteq> [] \<Longrightarrow> \<exists>h. merkle_levels sha ls = [h]"
proof (induction sha ls rule: merkle_levels.induct)
  case (1 sha level)
  show ?case
  proof (cases "1 < length level")
    case True
    then have "next_level sha level \<noteq> []" by (cases "(sha, level)" rule: next_level.cases) auto
    with 1 True show ?thesis by (simp add: merkle_levels.simps [of sha level])
  next
    case False
    with 1(2) show ?thesis by (cases level) (auto simp: merkle_levels.simps)
  qed
qed

lemma merkle_binding:
  assumes "length ls = length ls'" and "\<forall>l \<in> set ls \<union> set ls'. length l = n"
    and "\<And>x. length (sha x) = n" and "merkle_levels sha ls = merkle_levels sha ls'" and "ls \<noteq> ls'"
  shows "\<exists>x \<in> merkle_inputs sha ls. \<exists>y \<in> merkle_inputs sha ls'. x \<noteq> y \<and> sha x = sha y"
  using assms
proof (induction sha ls arbitrary: ls' rule: merkle_levels.induct)
  case (1 sha ls)
  have long: "1 < length ls"
    using 1(2,5,6) by (auto simp: merkle_levels.simps [of sha ls] merkle_levels.simps [of sha ls'] split: if_splits)
  have eq: "merkle_levels sha (next_level sha ls) = merkle_levels sha (next_level sha ls')"
    using 1(2,5) long by (simp add: merkle_levels.simps [of sha ls] merkle_levels.simps [of sha ls'])
  have ins: "merkle_inputs sha ls = set (level_inputs ls) \<union> merkle_inputs sha (next_level sha ls)"
    "merkle_inputs sha ls' = set (level_inputs ls') \<union> merkle_inputs sha (next_level sha ls')"
    using long 1(2) by (simp_all add: merkle_inputs.simps [of sha ls] merkle_inputs.simps [of sha ls'])
  show ?case
  proof (cases "next_level sha ls = next_level sha ls'")
    case True
    have "level_inputs ls \<noteq> level_inputs ls'" using level_inputs_inj 1(2,3,6) by blast
    then obtain i where i: "i < length (level_inputs ls)" "level_inputs ls ! i \<noteq> level_inputs ls' ! i"
      using length_level_inputs [OF 1(2)] nth_equalityI by metis
    moreover have "sha (level_inputs ls ! i) = sha (level_inputs ls' ! i)"
      using arg_cong [OF True, of "\<lambda>l. l ! i"] i length_level_inputs [OF 1(2)] by (simp add: next_level_inputs)
    ultimately show ?thesis using length_level_inputs [OF 1(2)] by (auto simp: ins intro!: bexI nth_mem)
  next
    case False
    have "\<forall>l \<in> set (next_level sha ls) \<union> set (next_level sha ls'). length l = n"
      using 1(4) by (auto simp: next_level_inputs)
    with 1(1) [OF long _ _ _ eq False] 1(2,4) show ?thesis by (auto simp: ins)
  qed
qed

lemma next_level_duplicate: "odd (length ls) \<Longrightarrow> next_level sha (ls @ [last ls]) = next_level sha ls"
  by (induction sha ls rule: next_level.induct) auto

section \<open>Runs of the service\<close>

lemma sync_state:
  "fst (sync sha d r svc) =
     svc\<lparr>merkle := (merkle svc)\<lparr>leaves := leaves (merkle svc) @ [compute_leaf sha r]\<rparr>,
         task_receipt_count := (task_receipt_count svc)(task_id r \<mapsto>
           (case task_receipt_count svc (task_id r) of None \<Rightarrow> 0 | Some n \<Rightarrow> n) + 1)\<rparr>"
  by (simp add: sync_def append_leaf_def Let_def split: prod.splits)

lemma sync_result_anchoring:
  assumes "sync_threshold svc \<noteq> 0"
  shows "\<exists>res. snd (snd (sync sha d r svc)) = Inr res \<and> merkle_status res = SUCCESS \<and>
               result_receipt_id res = receipt_id r \<and>
               (anchoring_triggered res \<longleftrightarrow>
                  sync_threshold svc dvd (case task_receipt_count svc (task_id r) of None \<Rightarrow> 0 | Some n \<Rightarrow> n) + 1)"
  using assms
  by (auto simp: sync_def pg_route_def pubsub_route_def Let_def mod_eq_0_iff_dvd
      split: option.splits sum.splits prod.splits)

text \<open>The number of receipts of a task in a list.\<close>

definition receipts_of :: "string \<Rightarrow> universal_receipt list \<Rightarrow> nat" where
  "receipts_of tid rs = length (filter (\<lambda>r. task_id r = tid) rs)"

definition count_of :: "sync_service \<Rightarrow> string \<Rightarrow> int" where
  "count_of svc tid = (case task_receipt_count svc tid of None \<Rightarrow> 0 | Some n \<Rightarrow> n)"

lemma sync_all_state:
  "sync_all sha d rs svc = (svc', outs) \<Longrightarrow>
     leaves (merkle svc') = leaves (merkle svc) @ map (compute_leaf sha) rs \<and>
     anchor_count (merkle svc') = anchor_count (merkle svc) \<and>
     sync_threshold svc' = sync_threshold svc \<and> pubsub svc' = pubsub svc \<and>
     count_of svc' tid = count_of svc tid + int (receipts_of tid rs) \<and> length outs = length rs"
proof (induction rs arbitrary: svc svc' outs)
  case (Cons r rs)
  obtain svc1 c out where s: "sync sha d r svc = (svc1, c, out)" by (cases "sync sha d r svc") auto
  obtain outs' where "sync_all sha d rs svc1 = (svc', outs')" "outs = out # outs'"
    using Cons.prems s by (auto simp: Let_def split: prod.splits)
  moreover have "svc1 = fst (sync sha d r svc)" by (simp add: s)
  ultimately show ?case using Cons.IH [of svc1 svc' outs']
    by (auto simp: sync_state count_of_def receipts_of_def)
qed (simp add: receipts_of_def)

lemma sync_all_results:
  assumes "sync_threshold svc \<noteq> 0" and "sync_all sha d rs svc = (svc', outs)" and "i < length rs"
  shows "\<exists>res. outs ! i = Inr res \<and> merkle_status res = SUCCESS \<and> result_receipt_id res = receipt_id (rs ! i) \<and>
           (anchoring_triggered res \<longleftrightarrow>
              sync_threshold svc dvd count_of svc (task_id (rs ! i)) + int (receipts_of (task_id (rs ! i)) (take (Suc i) rs)))"
  using assms
proof (induction rs arbitrary: svc outs i)
  case (Cons r rs)
  obtain svc1 c out where s: "sync sha d r svc = (svc1, c, out)" by (cases "sync sha d r svc") auto
  obtain outs' where rest: "sync_all sha d rs svc1 = (svc', outs')" "outs = out # outs'"
    using Cons.prems s by (auto simp: Let_def split: prod.splits)
  have svc1: "svc1 = fst (sync sha d r svc)" by (simp add: s)
  show ?case
  proof (cases i)
    case 0
    with sync_result_anchoring [OF Cons.prems(1), of sha d r] s rest show ?thesis
      by (auto simp: count_of_def receipts_of_def)
  next
    case (Suc j)
    have "sync_threshold svc1 \<noteq> 0" "sync_threshold svc1 = sync_threshold svc"
      using Cons.prems(1) by (simp_all add: svc1 sync_state)
    moreover have "count_of svc1 t + int (receipts_of t (take (Suc j) rs)) =
        count_of svc t + int (receipts_of t (take (Suc i) (r # rs)))" for t
      by (auto simp: svc1 sync_state count_of_def receipts_of_def Suc)
    ultimately show ?thesis
      using Cons.IH [of svc1 outs' j] rest Cons.prems(3) Suc by simp
  qed
qed simp

section \<open>Properties\<close>

text \<open>
  Three-route fan-out over a run. From a new service with a non-zero threshold, whatever the
  insert hook and the dump do: every receipt's leaf is in the accumulator in the order of arrival,
  each call returns a result whose Merkle route succeeded, and the anchoring flag of a call is set
  exactly when the number of receipts of that task so far is a multiple of the threshold.
\<close>

theorem sync_run_anchoring:
  assumes "threshold \<noteq> 0"
    and "sync_all sha model_dump rs (new_sync_service threshold\<lparr>pg_insert_hook := hook, pubsub := ps\<rparr>) = (svc, outs)"
  shows "leaves (merkle svc) = map (compute_leaf sha) rs \<and> length outs = length rs \<and>
         (\<forall>i < length rs. \<exists>res. outs ! i = Inr res \<and> merkle_status res = SUCCESS \<and>
            result_receipt_id res = receipt_id (rs ! i) \<and>
            (anchoring_triggered res \<longleftrightarrow>
               threshold dvd int (receipts_of (task_id (rs ! i)) (take (Suc i) rs))))"
  using sync_all_state [OF assms(2)] sync_all_results [OF _ assms(2)] assms(1)
  by (auto simp: new_sync_service_def new_merkle_def count_of_def)

definition demo_receipt :: "string \<Rightarrow> string \<Rightarrow> universal_receipt" where
  "demo_receipt rid tid =
     \<lparr>receipt_id = rid, task_id = tid, scenario = S1_DELEGATION, step_index = 0, generator_did = ''g'',
      buyer_did = ''b'', seller_did = ''s'', receipt_type = S1_INTENT_CREATED, input_hash = [],
      output_hash = [], payload_hash = ''p'', created_at = ''2024-01-01T00:00:00'', execution_duration_ms = 0,
      parent_receipt_id = None, previous_payload_hash = None, scenario_data = None, status = GENERATED,
      signature = [], signature_algorithm = ''ed25519'', anchor_tx = None, anchor_leaf_index = None,
      anchor_root = None\<rparr>"

theorem sync_run_anchoring_witness:
  "\<exists>svc outs res. sync_all id (\<lambda>_. Inl ''dump'') [demo_receipt ''r1'' ''t'', demo_receipt ''r2'' ''t'']
       (new_sync_service 2\<lparr>pg_insert_hook := Some (\<lambda>_. Inl ''down''), pubsub := Map.empty\<rparr>) = (svc, outs) \<and>
     outs ! 1 = Inr res \<and> anchoring_triggered res"
proof -
  obtain svc outs where run: "sync_all id (\<lambda>_. Inl ''dump'') [demo_receipt ''r1'' ''t'', demo_receipt ''r2'' ''t'']
       (new_sync_service 2\<lparr>pg_insert_hook := Some (\<lambda>_. Inl ''down''), pubsub := Map.empty\<rparr>) = (svc, outs)"
    by (meson surj_pair)
  from sync_run_anchoring [OF _ run] run show ?thesis
    by (fastforce simp: receipts_of_def demo_receipt_def)
qed

text \<open>
  C27. The Merkle root is binding. For a digest with outputs of a fixed length and two non-empty
  leaf lists of the same length whose leaves have that length: if the computed roots are equal and
  the leaves are not, then the two computations hashed two different byte strings to the same
  digest.
\<close>

theorem merkle_root_binding:
  assumes "\<And>x. length (sha x) = n" and "length (leaves a) = length (leaves b)" and "leaves a \<noteq> []"
    and "\<forall>l \<in> set (leaves a) \<union> set (leaves b). length l = n"
    and "compute_root sha a = compute_root sha b" and "leaves a \<noteq> leaves b"
  shows "\<exists>x \<in> merkle_inputs sha (leaves a). \<exists>y \<in> merkle_inputs sha (leaves b). x \<noteq> y \<and> sha x = sha y"
proof -
  have "leaves b \<noteq> []" using assms(2,3) by auto
  with assms(3) obtain h h' where "merkle_levels sha (leaves a) = [h]" "merkle_levels sha (leaves b) = [h']"
    using merkle_levels_single by meson
  with assms(3,5) \<open>leaves b \<noteq> []\<close> have "merkle_levels sha (leaves a) = merkle_levels sha (leaves b)"
    by (simp add: compute_root_def)
  from merkle_binding [OF assms(2,4,1) this assms(6)] show ?thesis .
qed

theorem merkle_root_binding_witness:
  "\<exists>x \<in> merkle_inputs (\<lambda>_. ''z'') [''a'', ''b'']. \<exists>y \<in> merkle_inputs (\<lambda>_. ''z'') [''a'', ''c'']. x \<noteq> y"
  using merkle_root_binding [of "\<lambda>_. ''z''" 1 "\<lparr>leaves = [''a'', ''b''], anchor_count = 0\<rparr>"
      "\<lparr>leaves = [''a'', ''c''], anchor_count = 0\<rparr>"]
  by (simp add: compute_root_def merkle_levels.simps)

text \<open>
  The root does not determine the number of leaves: appending the last leaf once more to an odd
  number of leaves (more than one) leaves the root as it was, because the last hash of a level of
  odd length is paired with itself.
\<close>

theorem merkle_root_duplicate_leaf:
  assumes "odd (length (leaves acc))" and "1 < length (leaves acc)"
  shows "compute_root sha (fst (append_leaf (last (leaves acc)) acc)) = compute_root sha acc \<and>
         leaf_count (fst (append_leaf (last (leaves acc)) acc)) = leaf_count acc + 1"
  using assms next_level_duplicate [OF assms(1), of sha]
  by (auto simp: append_leaf_def compute_root_def leaf_count_def merkle_levels.simps [of sha "leaves acc"]
      merkle_levels.simps [of sha "leaves acc @ [last (leaves acc)]"])

theorem merkle_root_duplicate_leaf_witness:
  "compute_root id (fst (append_leaf ''c'' \<lparr>leaves = [''a'', ''b'', ''c''], anchor_count = 0\<rparr>)) =
     compute_root id \<lparr>leaves = [''a'', ''b'', ''c''], anchor_count = 0\<rparr>"
  using merkle_root_duplicate_leaf [of "\<lparr>leaves = [''a'', ''b'', ''c''], anchor_count = 0\<rparr>" id] by simp

text \<open>
  A subscriber is called once for each of its subscriptions to the channel, no other channel is
  affected, and after \<open>unsubscribe\<close> it is not called on that channel at all while the others still
  are, in the same order.
\<close>

theorem pubsub_delivery:
  "publish ch msg (subscribe ch cb ps) = publish ch msg ps @ [(cb, msg)] \<and>
   publish ch msg (unsubscribe ch cb ps) = filter (\<lambda>(c, _). c \<noteq> cb) (publish ch msg ps) \<and>
   (other \<noteq> ch \<longrightarrow> publish other msg (subscribe ch cb ps) = publish other msg ps \<and>
                   publish other msg (unsubscribe ch cb ps) = publish other msg ps)"
  by (auto simp: publish_def subscribe_def unsubscribe_def filter_map comp_def Let_def split: option.splits)

theorem pubsub_delivery_witness:
  "publish ''other'' [] (subscribe ''ch'' ''cb'' Map.empty) = publish ''other'' [] Map.empty"
  using pubsub_delivery [of "''ch''" "[]" "''cb''" Map.empty "''other''"] by simp

end
