(* ===== verification/Billing_Bridge.thy ===== *)
theory Billing_Bridge
  imports Billing_Schema
begin

text \<open>
  The anchoring bridge (\<^verbatim>\<open>packages/karma_billing/bridge.py\<close>): the policy, the interface of a
  receipt source, its in-memory implementation and the bridge that decides when a batch of receipts
  is handed to the anchor client. The client (outside the repository) is the argument
  \<open>append_batch\<close>, which may fail; the clock readings are arguments. The contract of a receipt source
  is a locale; the in-memory source is shown to meet it, and the lemmas about the bridge follow
  from the contract.
\<close>

section \<open>Policy and state\<close>

record anchoring_policy =
  anchor_every_n_receipts :: int
  anchor_every_n_seconds :: int
  anchor_on_state_change :: bool
  anchor_on_milestone :: bool
  force_anchor_states :: "string list"
  max_batch_size :: int
  min_batch_size :: int

definition default_policy :: anchoring_policy where
  "default_policy =
     \<lparr>anchor_every_n_receipts = 3, anchor_every_n_seconds = 30, anchor_on_state_change = True,
      anchor_on_milestone = True,
      force_anchor_states = [''funded'', ''delivered'', ''verified'', ''settled'', ''disputed'', ''frozen''],
      max_batch_size = 10, min_batch_size = 1\<rparr>"

record 'r anchoring_state =
  anchor_task_id :: string
  unanchored_count :: int
  last_anchor_time :: rat
  last_state :: string
  total_anchored :: int
  last_result :: "'r option"

definition new_anchoring_state :: "string \<Rightarrow> 'r anchoring_state" where
  "new_anchoring_state tid =
     \<lparr>anchor_task_id = tid, unanchored_count = 0, last_anchor_time = 0, last_state = [], total_anchored = 0,
      last_result = None\<rparr>"

section \<open>Receipt sources\<close>

type_synonym receipt_dict = py_dict

text \<open>The three methods of the abstract class, over the state of an implementation.\<close>

record 's receipt_sync =
  get_unanchored_receipts :: "string \<Rightarrow> int \<Rightarrow> 's \<Rightarrow> receipt_dict list"
  get_task_state :: "string \<Rightarrow> 's \<Rightarrow> string"
  mark_receipts_anchored :: "string \<Rightarrow> json list \<Rightarrow> 's \<Rightarrow> 's"

record mem_receipt_sync =
  mem_receipts :: "string \<rightharpoonup> receipt_dict list"
  mem_states :: "string \<rightharpoonup> string"
  mem_anchored :: "string \<rightharpoonup> json set"

definition new_mem_sync :: mem_receipt_sync where
  "new_mem_sync = \<lparr>mem_receipts = Map.empty, mem_states = Map.empty, mem_anchored = Map.empty\<rparr>"

definition add_receipt :: "string \<Rightarrow> receipt_dict \<Rightarrow> mem_receipt_sync \<Rightarrow> mem_receipt_sync" where
  "add_receipt tid receipt s =
     s\<lparr>mem_receipts := (mem_receipts s)(tid \<mapsto>
         (case mem_receipts s tid of None \<Rightarrow> [] | Some rs \<Rightarrow> rs) @ [receipt])\<rparr>"

definition set_state :: "string \<Rightarrow> string \<Rightarrow> mem_receipt_sync \<Rightarrow> mem_receipt_sync" where
  "set_state tid st s = s\<lparr>mem_states := (mem_states s)(tid \<mapsto> st)\<rparr>"

text \<open>\<open>r.get("id", default)\<close>\<close>

definition get_id :: "receipt_dict \<Rightarrow> string \<Rightarrow> json" where
  "get_id r dflt = (case map_of r ''id'' of None \<Rightarrow> JStr dflt | Some v \<Rightarrow> v)"

definition mem_receipts_of :: "mem_receipt_sync \<Rightarrow> string \<Rightarrow> receipt_dict list" where
  "mem_receipts_of s tid = (case mem_receipts s tid of None \<Rightarrow> [] | Some rs \<Rightarrow> rs)"

definition mem_unanchored :: "string \<Rightarrow> mem_receipt_sync \<Rightarrow> receipt_dict list" where
  "mem_unanchored tid s =
     (let anchored = (case mem_anchored s tid of None \<Rightarrow> {} | Some a \<Rightarrow> a)
      in map snd (filter (\<lambda>(i, r). get_id r (''rec-'' @ show_nat i) \<notin> anchored)
                    (enumerate 0 (mem_receipts_of s tid))))"

definition mem_get_unanchored_receipts :: "string \<Rightarrow> int \<Rightarrow> mem_receipt_sync \<Rightarrow> receipt_dict list" where
  "mem_get_unanchored_receipts tid lmt s = py_take lmt (mem_unanchored tid s)"

definition mem_get_task_state :: "string \<Rightarrow> mem_receipt_sync \<Rightarrow> string" where
  "mem_get_task_state tid s = (case mem_states s tid of None \<Rightarrow> ''unknown'' | Some st \<Rightarrow> st)"

definition mem_mark_anchored :: "string \<Rightarrow> json list \<Rightarrow> mem_receipt_sync \<Rightarrow> mem_receipt_sync" where
  "mem_mark_anchored tid ids s =
     s\<lparr>mem_anchored := (mem_anchored s)(tid \<mapsto>
         (case mem_anchored s tid of None \<Rightarrow> {} | Some a \<Rightarrow> a) \<union> set ids)\<rparr>"

definition mem_sync_ops :: "mem_receipt_sync receipt_sync" where
  "mem_sync_ops =
     \<lparr>get_unanchored_receipts = mem_get_unanchored_receipts, get_task_state = mem_get_task_state,
      mark_receipts_anchored = mem_mark_anchored\<rparr>"

section \<open>The bridge\<close>

type_synonym 'r bridge_states = "string \<rightharpoonup> 'r anchoring_state"
type_synonym 'r append_batch = "receipt_dict list \<Rightarrow> string + 'r"

text \<open>
  \<open>_do_anchor\<close>: a failing client raises before anything is marked or counted; the ids marked are
  the \<open>id\<close> entries of the receipts, the empty string where there is none.
\<close>

definition do_anchor ::
    "'s receipt_sync \<Rightarrow> 'r append_batch \<Rightarrow> rat \<Rightarrow> string \<Rightarrow> receipt_dict list \<Rightarrow> 's \<Rightarrow> 'r bridge_states \<Rightarrow>
     's \<times> 'r bridge_states \<times> (string + 'r option)" where
  "do_anchor sync append_batch now tid receipts s b =
     (if receipts = [] then (s, b, Inr None)
      else case append_batch receipts of
        Inl e \<Rightarrow> (s, b, Inl e)
      | Inr result \<Rightarrow>
          (let st = (case b tid of None \<Rightarrow> new_anchoring_state tid | Some st \<Rightarrow> st);
               ids = map (\<lambda>r. get_id r []) receipts
           in (mark_receipts_anchored sync tid ids s,
               b(tid \<mapsto> st\<lparr>last_anchor_time := now, total_anchored := total_anchored st + int (length receipts),
                           unanchored_count := 0, last_result := Some result\<rparr>),
               Inr (Some result))))"

definition force_anchor ::
    "'s receipt_sync \<Rightarrow> anchoring_policy \<Rightarrow> 'r append_batch \<Rightarrow> rat \<Rightarrow> string \<Rightarrow> 's \<Rightarrow> 'r bridge_states \<Rightarrow>
     's \<times> 'r bridge_states \<times> (string + 'r option)" where
  "force_anchor sync pol append_batch now tid s b =
     (let receipts = get_unanchored_receipts sync tid (max_batch_size pol) s
      in if receipts = [] then (s, b, Inr None) else do_anchor sync append_batch now tid receipts s b)"

text \<open>The checks in the order of the source; \<open>now\<close> is read for the time check, \<open>now'\<close> on anchoring.\<close>

definition check_and_anchor ::
    "'s receipt_sync \<Rightarrow> anchoring_policy \<Rightarrow> 'r append_batch \<Rightarrow> rat \<Rightarrow> rat \<Rightarrow> string \<Rightarrow> 's \<Rightarrow> 'r bridge_states \<Rightarrow>
     's \<times> 'r bridge_states \<times> (string + 'r option)" where
  "check_and_anchor sync pol append_batch now now' tid s b0 =
     (let b = (case b0 tid of None \<Rightarrow> b0(tid \<mapsto> new_anchoring_state tid) | Some _ \<Rightarrow> b0);
          st = the (b tid);
          current_state = get_task_state sync tid s;
          state_changed = (current_state \<noteq> last_state st)
      in if state_changed \<and> current_state \<in> set (force_anchor_states pol)
         then force_anchor sync pol append_batch now' tid s b
         else if anchor_on_milestone pol \<and> state_changed \<and> current_state \<in> set (force_anchor_states pol)
         then force_anchor sync pol append_batch now' tid s b
         else
           (let receipts = get_unanchored_receipts sync tid (max_batch_size pol) s;
                n = int (length receipts);
                b1 = b(tid \<mapsto> st\<lparr>unanchored_count := n, last_state := current_state\<rparr>)
            in if 0 < anchor_every_n_receipts pol \<and> anchor_every_n_receipts pol \<le> n
               then do_anchor sync append_batch now' tid receipts s b1
               else if 0 < anchor_every_n_seconds pol \<and> 0 < last_anchor_time st \<and>
                       of_int (anchor_every_n_seconds pol) \<le> now - last_anchor_time st \<and> min_batch_size pol \<le> n
               then do_anchor sync append_batch now' tid receipts s b1
               else if anchor_on_state_change pol \<and> state_changed
               then do_anchor sync append_batch now' tid receipts s b1
               else (s, b1, Inr None)))"

definition get_bridge_state :: "'r bridge_states \<Rightarrow> string \<Rightarrow> 'r anchoring_state option" where
  "get_bridge_state b tid = b tid"

section \<open>The contract of a receipt source\<close>

text \<open>
  A client that records what it is given: a successful call returns the batch itself. With it the
  value of an anchoring call is the batch that was submitted.
\<close>

definition recording :: "bool \<Rightarrow> receipt_dict list append_batch" where
  "recording ok rs = (if ok then Inr rs else Inl ''rpc error'')"

definition submitted :: "string + receipt_dict list option \<Rightarrow> receipt_dict list" where
  "submitted out = (case out of Inr (Some rs) \<Rightarrow> rs | _ \<Rightarrow> [])"

locale receipt_source =
  fixes sync :: "'s receipt_sync"
    and pending :: "string \<Rightarrow> 's \<Rightarrow> receipt_dict list"
    and wf :: "'s \<Rightarrow> bool"
  assumes get_pending: "get_unanchored_receipts sync tid k s = py_take k (pending tid s)"
    and pending_mark: "wf s \<Longrightarrow> pending t (mark_receipts_anchored sync tid ids s) =
      (if t = tid then filter (\<lambda>r. get_id r [] \<notin> set ids) (pending t s) else pending t s)"
    and wf_mark: "wf s \<Longrightarrow> set ids \<subseteq> (\<lambda>r. get_id r []) ` set (pending tid s) \<Longrightarrow> wf (mark_receipts_anchored sync tid ids s)"
    and ids_distinct: "wf s \<Longrightarrow> distinct (map (\<lambda>r. get_id r []) (pending t s))"
begin

lemma pending_after_batch:
  assumes "wf s"
  shows "pending tid (mark_receipts_anchored sync tid (map (\<lambda>r. get_id r []) (take n (pending tid s))) s) =
         drop n (pending tid s)"
proof -
  let ?p = "pending tid s" and ?id = "\<lambda>r. get_id r []"
  have "distinct (map ?id (take n ?p) @ map ?id (drop n ?p))"
    using ids_distinct [OF assms, of tid] by (simp flip: map_append)
  then have "set (map ?id (take n ?p)) \<inter> set (map ?id (drop n ?p)) = {}" by simp
  then have "filter (\<lambda>r. ?id r \<notin> set (map ?id (take n ?p))) (drop n ?p) = drop n ?p"
    by (subst filter_id_conv) auto
  moreover have "filter (\<lambda>r. ?id r \<notin> set (map ?id (take n ?p))) (take n ?p) = []"
    by (simp add: filter_empty_conv)
  ultimately have "filter (\<lambda>r. ?id r \<notin> set (map ?id (take n ?p))) (take n ?p @ drop n ?p) = drop n ?p"
    unfolding filter_append by simp
  with pending_mark [OF assms] show ?thesis by simp
qed

text \<open>Submitting a prefix of the pending receipts takes exactly this prefix off.\<close>

lemma do_anchor_pending:
  assumes "wf s" and "do_anchor sync (recording ok) now tid (take n (pending tid s)) s b = (s', b', out)"
  shows "wf s' \<and> submitted out @ pending tid s' = pending tid s \<and> (t \<noteq> tid \<longrightarrow> pending t s' = pending t s)"
  using assms(2) pending_after_batch [OF assms(1), of tid n] pending_mark [OF assms(1), of t tid]
    wf_mark [OF assms(1), of "map (\<lambda>r. get_id r []) (take n (pending tid s))" tid] assms(1)
  by (auto simp: do_anchor_def recording_def submitted_def Let_def image_mono set_take_subset
      simp del: take_map split: if_splits)

lemma do_anchor_batch_pending:
  assumes "wf s" and "do_anchor sync (recording ok) now tid (get_unanchored_receipts sync tid k s) s b = (s', b', out)"
  shows "wf s' \<and> submitted out @ pending tid s' = pending tid s \<and> (t \<noteq> tid \<longrightarrow> pending t s' = pending t s)"
proof -
  obtain n where n: "get_unanchored_receipts sync tid k s = take n (pending tid s)"
    using get_pending py_take_split by metis
  show ?thesis by (rule do_anchor_pending [OF assms(1) assms(2) [unfolded n]])
qed

lemma force_anchor_pending:
  assumes "wf s" and "force_anchor sync pol (recording ok) now tid s b = (s', b', out)"
  shows "wf s' \<and> submitted out @ pending tid s' = pending tid s \<and> (t \<noteq> tid \<longrightarrow> pending t s' = pending t s)"
proof (cases "get_unanchored_receipts sync tid (max_batch_size pol) s = []")
  case True
  with assms show ?thesis by (auto simp: force_anchor_def submitted_def)
next
  case False
  with assms(2) show ?thesis by (intro do_anchor_batch_pending [OF assms(1)]) (simp add: force_anchor_def)
qed

lemma check_and_anchor_pending:
  assumes "wf s" and "check_and_anchor sync pol (recording ok) now now' tid s b = (s', b', out)"
  shows "wf s' \<and> submitted out @ pending tid s' = pending tid s \<and> (t \<noteq> tid \<longrightarrow> pending t s' = pending t s)"
  using assms(2) force_anchor_pending [OF assms(1), of pol ok now' tid _ s' b' out t]
    do_anchor_batch_pending [OF assms(1), of ok now' tid "max_batch_size pol" _ s' b' out t] assms(1)
  by (auto simp: check_and_anchor_def Let_def submitted_def split: if_splits)

end

section \<open>The in-memory source\<close>

text \<open>
  All receipts carry an id, no id occurs twice within a task, and only ids of receipts are anchored.
\<close>

definition mem_anchored_of :: "mem_receipt_sync \<Rightarrow> string \<Rightarrow> json set" where
  "mem_anchored_of s tid = (case mem_anchored s tid of None \<Rightarrow> {} | Some a \<Rightarrow> a)"

definition mem_wf :: "mem_receipt_sync \<Rightarrow> bool" where
  "mem_wf s \<longleftrightarrow> (\<forall>t. (\<forall>r \<in> set (mem_receipts_of s t). map_of r ''id'' \<noteq> None) \<and>
                     distinct (map (\<lambda>r. get_id r []) (mem_receipts_of s t)) \<and>
                     mem_anchored_of s t \<subseteq> (\<lambda>r. get_id r []) ` set (mem_receipts_of s t))"

lemma map_snd_filter_enumerate:
  assumes "\<And>i r. r \<in> set rs \<Longrightarrow> P i r = Q r"
  shows "map snd (filter (\<lambda>(i, r). P i r) (enumerate k rs)) = filter Q rs"
  using assms by (induction rs arbitrary: k) auto

lemma mem_unanchored_ids:
  assumes "\<forall>r \<in> set (mem_receipts_of s tid). map_of r ''id'' \<noteq> None"
  shows "mem_unanchored tid s = filter (\<lambda>r. get_id r [] \<notin> mem_anchored_of s tid) (mem_receipts_of s tid)"
  unfolding mem_unanchored_def Let_def mem_anchored_of_def
proof (rule map_snd_filter_enumerate)
  fix i r assume "r \<in> set (mem_receipts_of s tid)"
  with assms have "get_id r (''rec-'' @ show_nat i) = get_id r []"
    by (auto simp: get_id_def)
  then show "(get_id r (''rec-'' @ show_nat i) \<notin> (case mem_anchored s tid of None \<Rightarrow> {} | Some a \<Rightarrow> a)) =
             (get_id r [] \<notin> (case mem_anchored s tid of None \<Rightarrow> {} | Some a \<Rightarrow> a))" by simp
qed

lemma mem_unanchored_wf:
  "mem_wf s \<Longrightarrow> mem_unanchored tid s = filter (\<lambda>r. get_id r [] \<notin> mem_anchored_of s tid) (mem_receipts_of s tid)"
  by (rule mem_unanchored_ids) (simp add: mem_wf_def)

lemma mem_receipts_mark [simp]: "mem_receipts_of (mem_mark_anchored tid ids s) = mem_receipts_of s"
  by (simp add: mem_receipts_of_def mem_mark_anchored_def fun_eq_iff)

lemma mem_anchored_mark:
  "mem_anchored_of (mem_mark_anchored tid ids s) t = mem_anchored_of s t \<union> (if t = tid then set ids else {})"
  by (simp add: mem_mark_anchored_def mem_anchored_of_def)

lemma mem_wf_mark:
  assumes "mem_wf s" and "set ids \<subseteq> (\<lambda>r. get_id r []) ` set (mem_unanchored tid s)"
  shows "mem_wf (mem_mark_anchored tid ids s)"
proof -
  have "(\<lambda>r. get_id r []) ` set (mem_unanchored tid s) \<subseteq> (\<lambda>r. get_id r []) ` set (mem_receipts_of s tid)"
    using assms(1) by (auto simp: mem_unanchored_wf)
  with assms(2) have "set ids \<subseteq> (\<lambda>r. get_id r []) ` set (mem_receipts_of s tid)" by (rule subset_trans)
  with assms(1) show ?thesis by (simp add: mem_wf_def mem_anchored_mark)
qed

interpretation mem: receipt_source mem_sync_ops mem_unanchored mem_wf
proof
  fix tid t k ids and s :: mem_receipt_sync
  show "get_unanchored_receipts mem_sync_ops tid k s = py_take k (mem_unanchored tid s)"
    by (simp add: mem_sync_ops_def mem_get_unanchored_receipts_def)
  assume wf: "mem_wf s"
  then show "set ids \<subseteq> (\<lambda>r. get_id r []) ` set (mem_unanchored tid s) \<Longrightarrow>
      mem_wf (mark_receipts_anchored mem_sync_ops tid ids s)" by (simp add: mem_sync_ops_def mem_wf_mark)
  have "mem_unanchored t (mem_mark_anchored tid ids s) =
      filter (\<lambda>r. get_id r [] \<notin> mem_anchored_of (mem_mark_anchored tid ids s) t) (mem_receipts_of s t)"
    using wf by (subst mem_unanchored_ids) (simp_all add: mem_wf_def)
  then show "mem_unanchored t (mark_receipts_anchored mem_sync_ops tid ids s) =
    (if t = tid then filter (\<lambda>r. get_id r [] \<notin> set ids) (mem_unanchored t s) else mem_unanchored t s)"
    using wf by (auto simp: mem_sync_ops_def mem_unanchored_wf mem_anchored_mark intro!: filter_cong)
  show "distinct (map (\<lambda>r. get_id r []) (mem_unanchored t s))"
    using wf by (auto simp: mem_unanchored_wf mem_wf_def intro: distinct_map_filter)
qed

section \<open>Runs\<close>

datatype bridge_op =
    AddReceipt string receipt_dict
  | SetState string string
  | Check string rat rat bool
  | Force string rat bool

type_synonym bridge_sys = "mem_receipt_sync \<times> receipt_dict list bridge_states"

text \<open>One operation, and the batch it submitted for the task it was called for.\<close>

fun bridge_do :: "anchoring_policy \<Rightarrow> bridge_op \<Rightarrow> bridge_sys \<Rightarrow> bridge_sys \<times> (string \<times> receipt_dict list)" where
  "bridge_do pol (AddReceipt t r) (s, b) = ((add_receipt t r s, b), t, [])"
| "bridge_do pol (SetState t st) (s, b) = ((set_state t st s, b), t, [])"
| "bridge_do pol (Check t now now' ok) (s, b) =
     (let (s', b', out) = check_and_anchor mem_sync_ops pol (recording ok) now now' t s b in ((s', b'), t, submitted out))"
| "bridge_do pol (Force t now ok) (s, b) =
     (let (s', b', out) = force_anchor mem_sync_ops pol (recording ok) now t s b in ((s', b'), t, submitted out))"

fun bridge_run :: "anchoring_policy \<Rightarrow> bridge_op list \<Rightarrow> bridge_sys \<Rightarrow> bridge_sys \<times> (string \<times> receipt_dict list) list" where
  "bridge_run pol [] sys = (sys, [])"
| "bridge_run pol (op # ops) sys =
     (let (sys1, batch) = bridge_do pol op sys; (sys2, batches) = bridge_run pol ops sys1
      in (sys2, batch # batches))"

fun added :: "bridge_op \<Rightarrow> (string \<times> receipt_dict) list" where
  "added (AddReceipt t r) = [(t, r)]"
| "added _ = []"

definition of_task :: "string \<Rightarrow> (string \<times> 'a) list \<Rightarrow> 'a list" where
  "of_task t ps = map snd (filter (\<lambda>p. fst p = t) ps)"

lemma of_task_simps [simp]:
  "of_task t [] = []" "of_task t ((t', x) # ps) = (if t' = t then x # of_task t ps else of_task t ps)"
  "of_task t (ps @ qs) = of_task t ps @ of_task t qs"
  by (auto simp: of_task_def)

lemma mem_receipts_add: "mem_receipts_of (add_receipt t r s) t' = mem_receipts_of s t' @ of_task t' [(t, r)]"
  by (simp add: add_receipt_def mem_receipts_of_def of_task_def)

lemma mem_anchored_add [simp]: "mem_anchored_of (add_receipt t r s) = mem_anchored_of s"
  by (simp add: add_receipt_def mem_anchored_of_def fun_eq_iff)

lemma mem_set_state [simp]:
  "mem_receipts_of (set_state t st s) = mem_receipts_of s" "mem_anchored_of (set_state t st s) = mem_anchored_of s"
  "mem_wf (set_state t st s) = mem_wf s" "mem_unanchored t' (set_state t st s) = mem_unanchored t' s"
  by (simp_all add: set_state_def mem_receipts_of_def mem_anchored_of_def mem_wf_def mem_unanchored_def fun_eq_iff)

text \<open>A receipt with a fresh id becomes the last pending one of its task.\<close>

lemma add_receipt_pending:
  assumes "mem_wf s" and "map_of r ''id'' \<noteq> None" and "get_id r [] \<notin> (\<lambda>r. get_id r []) ` set (mem_receipts_of s t)"
  shows "mem_wf (add_receipt t r s) \<and> mem_unanchored t' (add_receipt t r s) = mem_unanchored t' s @ of_task t' [(t, r)]"
proof -
  have wf: "mem_wf (add_receipt t r s)" using assms by (auto simp: mem_wf_def mem_receipts_add of_task_def)
  have "get_id r [] \<notin> mem_anchored_of s t" using assms(1,3) by (auto simp: mem_wf_def)
  with wf assms(1) show ?thesis by (auto simp: mem_unanchored_wf mem_receipts_add of_task_def)
qed

lemma mem_receipts_do_anchor:
  "mem_receipts_of (fst (do_anchor mem_sync_ops ab now tid rs s b)) = mem_receipts_of s"
  by (simp add: do_anchor_def mem_sync_ops_def Let_def split: sum.splits)

lemma mem_receipts_check:
  "mem_receipts_of (fst (force_anchor mem_sync_ops pol ab now tid s b)) = mem_receipts_of s"
  "mem_receipts_of (fst (check_and_anchor mem_sync_ops pol ab now now' tid s b)) = mem_receipts_of s"
  by (simp_all add: force_anchor_def check_and_anchor_def Let_def mem_receipts_do_anchor)

text \<open>What one operation does to the queue of pending receipts of every task.\<close>

lemma bridge_do_pending:
  assumes "mem_wf s" and "bridge_do pol op (s, b) = ((s', b'), batch)"
    and "\<forall>(t, r) \<in> set (added op). map_of r ''id'' \<noteq> None \<and>
           get_id r [] \<notin> (\<lambda>r. get_id r []) ` set (mem_receipts_of s t)"
  shows "mem_wf s' \<and> concat (of_task t [batch]) @ mem_unanchored t s' = mem_unanchored t s @ of_task t (added op) \<and>
         mem_receipts_of s' t = mem_receipts_of s t @ of_task t (added op)"
proof (cases op)
  case (AddReceipt t' r)
  with assms add_receipt_pending [OF assms(1), of r t' t] show ?thesis by (auto simp: mem_receipts_add)
next
  case (SetState t' st)
  with assms show ?thesis by auto
next
  case (Check t' now now' ok)
  with assms obtain out where "check_and_anchor mem_sync_ops pol (recording ok) now now' t' s b = (s', b', out)"
    "batch = (t', submitted out)" by (auto split: prod.splits)
  with mem.check_and_anchor_pending [OF assms(1) this(1), of t]
    mem_receipts_check(2) [of pol "recording ok" now now' t' s b] Check show ?thesis by auto
next
  case (Force t' now ok)
  with assms obtain out where "force_anchor mem_sync_ops pol (recording ok) now t' s b = (s', b', out)"
    "batch = (t', submitted out)" by (auto split: prod.splits)
  with mem.force_anchor_pending [OF assms(1) this(1), of t]
    mem_receipts_check(1) [of pol "recording ok" now t' s b] Force show ?thesis by auto
qed

text \<open>The receipts added along a run all carry an id, and no two of a task have the same.\<close>

definition adds_fresh :: "(string \<times> receipt_dict) list \<Rightarrow> bool" where
  "adds_fresh ads \<longleftrightarrow> list_all (\<lambda>(t, r). map_of r ''id'' \<noteq> None) ads \<and>
                      distinct (map (\<lambda>(t, r). (t, get_id r [])) ads)"

lemma bridge_run_pending:
  assumes "mem_wf s" and "bridge_run pol ops (s, b) = ((s', b'), batches)"
    and "adds_fresh (concat (map added ops))"
    and "\<forall>(t, r) \<in> set (concat (map added ops)). get_id r [] \<notin> (\<lambda>r. get_id r []) ` set (mem_receipts_of s t)"
  shows "mem_wf s' \<and>
         concat (of_task t batches) @ mem_unanchored t s' = mem_unanchored t s @ of_task t (concat (map added ops)) \<and>
         mem_receipts_of s' t = mem_receipts_of s t @ of_task t (concat (map added ops))"
  using assms
proof (induction ops arbitrary: s b batches)
  case (Cons op ops)
  obtain s1 b1 batch where step: "bridge_do pol op (s, b) = ((s1, b1), batch)"
    by (metis surj_pair)
  then obtain batches' where rest: "bridge_run pol ops (s1, b1) = ((s', b'), batches')" "batches = batch # batches'"
    using Cons.prems(2) by (auto split: prod.splits)
  have fresh: "\<forall>(t, r) \<in> set (added op). map_of r ''id'' \<noteq> None \<and>
      get_id r [] \<notin> (\<lambda>r. get_id r []) ` set (mem_receipts_of s t)"
  proof
    fix p assume "p \<in> set (added op)"
    then have p: "p \<in> set (concat (map added (op # ops)))" by simp
    have "\<forall>p \<in> set (concat (map added (op # ops))). map_of (snd p) ''id'' \<noteq> None"
      using Cons.prems(3) by (simp add: adds_fresh_def list_all_iff case_prod_unfold)
    with bspec [OF Cons.prems(4) p] p show "case p of (t, r) \<Rightarrow> map_of r ''id'' \<noteq> None \<and>
        get_id r [] \<notin> (\<lambda>r. get_id r []) ` set (mem_receipts_of s t)" by (auto simp: case_prod_unfold)
  qed
  note one = bridge_do_pending [OF Cons.prems(1) step fresh]
  have "\<forall>(t, r) \<in> set (concat (map added ops)). get_id r [] \<notin> (\<lambda>r. get_id r []) ` set (mem_receipts_of s1 t)"
  proof clarify
    fix t r x
    assume r: "(t, r) \<in> set (concat (map added ops))" and x: "x \<in> set (mem_receipts_of s1 t)" "get_id r [] = get_id x []"
    have "get_id r [] \<notin> (\<lambda>r. get_id r []) ` set (mem_receipts_of s t)"
      using bspec [OF Cons.prems(4), of "(t, r)"] r by simp
    with x one have "x \<in> set (of_task t (added op))" by auto
    then have "(t, x) \<in> set (added op)" by (auto simp: of_task_def)
    with r x(2) Cons.prems(3) show False by (force simp: adds_fresh_def)
  qed
  moreover have "adds_fresh (concat (map added ops))" using Cons.prems(3) by (auto simp: adds_fresh_def)
  ultimately have "mem_wf s' \<and>
      concat (of_task t batches') @ mem_unanchored t s' = mem_unanchored t s1 @ of_task t (concat (map added ops)) \<and>
      mem_receipts_of s' t = mem_receipts_of s1 t @ of_task t (concat (map added ops))"
    using Cons.IH [OF _ rest(1)] one by blast
  with one [of t] rest(2) show ?case by (cases batch) (auto split: if_splits)
qed simp

section \<open>Properties\<close>

text \<open>
  C20. Exactly once, in order. Along every run of the bridge over the in-memory source in which the
  added receipts carry distinct ids, whatever the policy, the clock and the failures of the anchor
  client are: the batches submitted for a task, one after the other, followed by the receipts still
  pending, are exactly the receipts added for the task, in the order they were added. So no receipt
  is lost, anchored twice or anchored out of order.
\<close>

theorem anchoring_exactly_once:
  assumes "bridge_run pol ops (new_mem_sync, Map.empty) = ((s, b), batches)"
    and "adds_fresh (concat (map added ops))"
  shows "concat (of_task t batches) @ mem_unanchored t s = of_task t (concat (map added ops)) \<and>
         mem_receipts_of s t = of_task t (concat (map added ops))"
proof -
  have new: "mem_wf new_mem_sync" "mem_receipts_of new_mem_sync t' = []" "mem_unanchored t' new_mem_sync = []" for t'
    by (simp_all add: new_mem_sync_def mem_wf_def mem_receipts_of_def mem_anchored_of_def mem_unanchored_def)
  show ?thesis using bridge_run_pending [OF new(1) assms] new(2,3) by auto
qed

definition demo_receipts :: "bridge_op list" where
  "demo_receipts =
     [AddReceipt ''t'' [(''id'', JStr ''a'')], AddReceipt ''t'' [(''id'', JStr ''b'')], Force ''t'' 1 False,
      Force ''t'' 2 True, AddReceipt ''t'' [(''id'', JStr ''c'')], Force ''t'' 3 True]"

theorem anchoring_exactly_once_witness:
  "\<exists>s b batches. bridge_run default_policy demo_receipts (new_mem_sync, Map.empty) = ((s, b), batches) \<and>
     concat (of_task ''t'' batches) @ mem_unanchored ''t'' s =
       [[(''id'', JStr ''a'')], [(''id'', JStr ''b'')], [(''id'', JStr ''c'')]]"
proof -
  obtain s b batches where run: "bridge_run default_policy demo_receipts (new_mem_sync, Map.empty) = ((s, b), batches)"
    by (metis surj_pair)
  moreover have "adds_fresh (concat (map added demo_receipts))"
    by (simp add: demo_receipts_def adds_fresh_def get_id_def)
  ultimately show ?thesis
    using anchoring_exactly_once [OF run, of "''t''"] by (simp add: demo_receipts_def)
qed

text \<open>
  Receipts without an id are anchored again and again: they are marked under the empty string
  but looked up under \<open>rec-<index>\<close>, so after a successful submission the pending receipts of the
  task are the same as before.
\<close>

theorem receipts_without_id_stay_pending:
  assumes "\<forall>r \<in> set (mem_receipts_of s tid). map_of r ''id'' = None"
    and "mem_anchored_of s tid \<subseteq> {JStr []}"
    and "force_anchor mem_sync_ops pol append_batch now tid s b = (s', b', out)"
  shows "mem_unanchored tid s' = mem_receipts_of s tid \<and> mem_unanchored tid s = mem_receipts_of s tid \<and>
         mem_anchored_of s' tid \<subseteq> {JStr []}"
proof -
  have pending: "mem_unanchored tid x = mem_receipts_of x tid"
    if "\<forall>r \<in> set (mem_receipts_of x tid). map_of r ''id'' = None" "mem_anchored_of x tid \<subseteq> {JStr []}" for x
  proof -
    have "mem_unanchored tid x = filter (\<lambda>_. True) (mem_receipts_of x tid)"
      unfolding mem_unanchored_def Let_def
      by (rule map_snd_filter_enumerate) (use that in \<open>auto simp: get_id_def mem_anchored_of_def\<close>)
    then show ?thesis by simp
  qed
  have "set (get_unanchored_receipts mem_sync_ops tid k s) \<subseteq> set (mem_receipts_of s tid)" for k
    using py_take_split [of k "mem_unanchored tid s"] pending [OF assms(1,2)]
    by (auto simp: mem_sync_ops_def mem_get_unanchored_receipts_def dest: in_set_takeD)
  then have ids: "set (map (\<lambda>r. get_id r []) (get_unanchored_receipts mem_sync_ops tid k s)) \<subseteq> {JStr []}" for k
    using assms(1) by (fastforce simp: get_id_def)
  have "mem_receipts_of s' = mem_receipts_of s" using mem_receipts_check(1) assms(3) by (metis fst_conv)
  moreover have "s' = s \<or>
      s' = mem_mark_anchored tid (map (\<lambda>r. get_id r []) (get_unanchored_receipts mem_sync_ops tid (max_batch_size pol) s)) s"
    using assms(3) by (auto simp: force_anchor_def do_anchor_def mem_sync_ops_def Let_def split: if_splits sum.splits)
  then have "mem_anchored_of s' tid \<subseteq> {JStr []}"
    using assms(2) ids [of "max_batch_size pol"] by (elim disjE) (simp_all add: mem_anchored_mark)
  ultimately show ?thesis using pending assms(1,2) by simp
qed

theorem receipts_without_id_stay_pending_witness:
  "\<exists>s' b' out. force_anchor mem_sync_ops default_policy Inr 5 ''t'' (add_receipt ''t'' [] new_mem_sync) Map.empty
       = (s', b', out) \<and> mem_unanchored ''t'' s' = [[]]"
proof -
  obtain s' b' and out :: "string + receipt_dict list option" where
    run: "force_anchor mem_sync_ops default_policy Inr 5 ''t'' (add_receipt ''t'' [] new_mem_sync) Map.empty = (s', b', out)"
    by (metis surj_pair)
  have "mem_receipts_of (add_receipt ''t'' [] new_mem_sync) ''t'' = [[]]"
    "mem_anchored_of (add_receipt ''t'' [] new_mem_sync) ''t'' = {}"
    by (simp_all add: mem_receipts_of_def mem_anchored_of_def add_receipt_def new_mem_sync_def)
  with receipts_without_id_stay_pending [OF _ _ run] run show ?thesis by simp
qed

text \<open>
  A check that finds the task in a force state different from the recorded state only forces an
  anchoring and leaves the recorded state as it is; so the next check in the same billing state
  again sees a change of state and forces again, whatever the count and time thresholds say.
\<close>

theorem force_state_is_not_recorded:
  assumes "b tid = Some st" and "get_task_state sync tid s \<noteq> last_state st"
    and "get_task_state sync tid s \<in> set (force_anchor_states pol)"
    and "check_and_anchor sync pol append_batch now now' tid s b = (s', b', out)"
  shows "force_anchor sync pol append_batch now' tid s b = (s', b', out) \<and>
         (\<exists>st'. b' tid = Some st' \<and> last_state st' = last_state st)"
  using assms
  by (auto simp: check_and_anchor_def force_anchor_def do_anchor_def Let_def split: if_splits sum.splits)

theorem force_state_is_not_recorded_witness:
  "\<exists>s' b' out. check_and_anchor mem_sync_ops default_policy Inr 1 1 ''t'' (set_state ''t'' ''funded'' new_mem_sync)
       [''t'' \<mapsto> new_anchoring_state ''t''] = (s', b', out) \<and>
     (\<exists>st'. b' ''t'' = Some st' \<and> last_state st' = [])"
proof -
  obtain s' b' out where run: "check_and_anchor mem_sync_ops default_policy Inr 1 1 ''t''
      (set_state ''t'' ''funded'' new_mem_sync) [''t'' \<mapsto> new_anchoring_state ''t''] = (s', b', out)"
    by (metis surj_pair)
  have "get_task_state mem_sync_ops ''t'' (set_state ''t'' ''funded'' new_mem_sync) = ''funded''"
    by (simp add: mem_sync_ops_def mem_get_task_state_def set_state_def)
  with force_state_is_not_recorded [OF _ _ _ run, of "new_anchoring_state ''t''"] run show ?thesis
    by (simp add: new_anchoring_state_def default_policy_def)
qed

text \<open>
  When a check submits. With a working client, a check submits the first \<open>max_batch_size\<close>
  pending receipts when there are any and one of the four triggers holds (a force state entered,
  the count reached, the time passed with the minimal batch, a changed state), and submits nothing
  otherwise.
\<close>

theorem check_submits_iff_triggered:
  assumes "b tid = Some st"
    and "check_and_anchor mem_sync_ops pol (recording True) now now' tid s b = (s', b', out)"
  shows "submitted out =
    (let batch = py_take (max_batch_size pol) (mem_unanchored tid s);
         n = int (length batch);
         changed = (mem_get_task_state tid s \<noteq> last_state st)
     in if changed \<and> mem_get_task_state tid s \<in> set (force_anchor_states pol) \<or>
           0 < anchor_every_n_receipts pol \<and> anchor_every_n_receipts pol \<le> n \<or>
           0 < anchor_every_n_seconds pol \<and> 0 < last_anchor_time st \<and>
             of_int (anchor_every_n_seconds pol) \<le> now - last_anchor_time st \<and> min_batch_size pol \<le> n \<or>
           anchor_on_state_change pol \<and> changed
        then batch else [])"
  using assms
  by (auto simp: check_and_anchor_def force_anchor_def do_anchor_def Let_def recording_def submitted_def
      mem_sync_ops_def mem_get_unanchored_receipts_def split: if_splits)

theorem check_submits_iff_triggered_witness:
  "\<exists>s' b' out. check_and_anchor mem_sync_ops default_policy (recording True) 1 1 ''t''
       (add_receipt ''t'' [(''id'', JStr ''a'')] new_mem_sync) [''t'' \<mapsto> new_anchoring_state ''t''] = (s', b', out) \<and>
     submitted out = [[(''id'', JStr ''a'')]]"
proof -
  obtain s' b' out where run: "check_and_anchor mem_sync_ops default_policy (recording True) 1 1 ''t''
       (add_receipt ''t'' [(''id'', JStr ''a'')] new_mem_sync) [''t'' \<mapsto> new_anchoring_state ''t''] = (s', b', out)"
    by (metis surj_pair)
  have "mem_unanchored ''t'' (add_receipt ''t'' [(''id'', JStr ''a'')] new_mem_sync) = [[(''id'', JStr ''a'')]]"
    "mem_get_task_state ''t'' (add_receipt ''t'' [(''id'', JStr ''a'')] new_mem_sync) = ''unknown''"
    by (simp_all add: mem_unanchored_def mem_receipts_of_def mem_get_task_state_def add_receipt_def new_mem_sync_def)
  with check_submits_iff_triggered [OF _ run, of "new_anchoring_state ''t''"] run show ?thesis
    by (simp add: new_anchoring_state_def default_policy_def py_take_def Let_def)
qed

end
