(* ===== verification/Verifier_Rules.thy ===== *)
theory Verifier_Rules
  imports Py_Std "HOL-Library.Product_Lexorder"
begin

text \<open>
  The public verification rules that every verifier node runs
  (\<^verbatim>\<open>decentralized_verifier/rules\<close>): canonical hashing, the structural rule and the evidence
  integrity rule. Tasks, bundles and receipts are JSON dictionaries. A value of a type the rules
  are not written for (a step index that is not an integer, a receipt id, start time or output hash
  that is not a string) is the error \<open>IllTyped\<close>, which stands for Python's \<open>TypeError\<close>. SHA-256 is
  the argument \<open>sha\<close>.
\<close>

section \<open>Dictionaries and hashing\<close>

type_synonym dict = "(string \<times> json) list"

text \<open>\<open>d.get(k)\<close>, where a missing key and an explicit \<open>null\<close> are both \<open>None\<close>, and \<open>d.get(k, default)\<close>.\<close>

definition dict_get :: "dict \<Rightarrow> string \<Rightarrow> json" where
  "dict_get d k = (case map_of d k of None \<Rightarrow> JNull | Some v \<Rightarrow> v)"

definition dict_get_or :: "dict \<Rightarrow> string \<Rightarrow> json \<Rightarrow> json" where
  "dict_get_or d k dflt = (case map_of d k of None \<Rightarrow> dflt | Some v \<Rightarrow> v)"

definition truthy :: "json \<Rightarrow> bool" where
  "truthy j = (case j of JNull \<Rightarrow> False | JBool b \<Rightarrow> b | JInt i \<Rightarrow> i \<noteq> 0 | JStr s \<Rightarrow> s \<noteq> []
                       | JList xs \<Rightarrow> xs \<noteq> [] | JObj kvs \<Rightarrow> kvs \<noteq> [])"

definition canonical_json_bytes :: "dict \<Rightarrow> bytes" where
  "canonical_json_bytes d = canonical_json (JObj d)"

definition sha256_hex :: "(bytes \<Rightarrow> bytes) \<Rightarrow> bytes \<Rightarrow> string" where
  "sha256_hex sha bs = hex (sha bs)"

definition evidence_hash :: "(bytes \<Rightarrow> bytes) \<Rightarrow> dict \<Rightarrow> string" where
  "evidence_hash sha bundle = sha256_hex sha (canonical_json_bytes bundle)"

definition receipt_hash :: "(bytes \<Rightarrow> bytes) \<Rightarrow> dict \<Rightarrow> string" where
  "receipt_hash sha receipt = sha256_hex sha (canonical_json_bytes receipt)"

definition task_contract_hash :: "(bytes \<Rightarrow> bytes) \<Rightarrow> dict \<Rightarrow> string" where
  "task_contract_hash sha task = sha256_hex sha (canonical_json_bytes task)"

definition karma_proof_hash_pointer :: "string \<Rightarrow> string" where
  "karma_proof_hash_pointer digest = ''karma-ta:v1/sha256/'' @ lower digest"

section \<open>The structural rule\<close>

datatype rule_error = IllTyped

datatype rule_decision = STRUCT_OK | STRUCT_FAIL

type_synonym rule_result = "rule_decision \<times> string list"

text \<open>The key by which receipts are sorted, \<open>(step_index, receipt_id)\<close> with the defaults of the source.\<close>

definition sort_fields :: "dict \<Rightarrow> (int \<times> string) option" where
  "sort_fields r =
     (case (dict_get_or r ''step_index'' (JInt 0), dict_get_or r ''receipt_id'' (JStr [])) of
        (JInt i, JStr s) \<Rightarrow> Some (i, s)
      | _ \<Rightarrow> None)"

definition sort_step :: "dict \<Rightarrow> int" where
  "sort_step r = (case sort_fields r of None \<Rightarrow> 0 | Some (i, s) \<Rightarrow> i)"

definition sort_id :: "dict \<Rightarrow> string" where
  "sort_id r = (case sort_fields r of None \<Rightarrow> [] | Some (i, s) \<Rightarrow> s)"

definition sort_receipts :: "dict list \<Rightarrow> dict list" where
  "sort_receipts rs = sort_key (\<lambda>r. (sort_step r, sort_id r)) rs"

text \<open>Check 5: \<open>Inr False\<close> is the violation; empty start times are skipped.\<close>

fun chronological :: "string \<Rightarrow> dict list \<Rightarrow> rule_error + bool" where
  "chronological prev [] = Inr True"
| "chronological prev (r # rs) =
     (let v = dict_get_or r ''started_at'' (JStr []) in
      if \<not> truthy v then chronological prev rs
      else case v of
        JStr started_at \<Rightarrow> if started_at < prev then Inr False else chronological started_at rs
      | _ \<Rightarrow> Inl IllTyped)"

definition receipt_trace_ok :: "json \<Rightarrow> dict \<Rightarrow> bool" where
  "receipt_trace_ok task_trace r \<longleftrightarrow>
     \<not> (truthy (dict_get r ''trace_id'') \<and> dict_get r ''trace_id'' \<noteq> task_trace)"

fun first_missing_output :: "nat \<Rightarrow> dict list \<Rightarrow> nat option" where
  "first_missing_output i [] = None"
| "first_missing_output i (r # rs) =
     (if \<not> truthy (dict_get r ''output_hash'') then Some i else first_missing_output (i + 1) rs)"

fun first_step_gap :: "nat \<Rightarrow> dict list \<Rightarrow> (nat \<times> json) option" where
  "first_step_gap i [] = None"
| "first_step_gap i (r # rs) =
     (if dict_get r ''step_index'' \<noteq> JInt (int i) then Some (i, dict_get r ''step_index'')
      else first_step_gap (i + 1) rs)"

text \<open>How a format string prints the step index it found.\<close>

definition show_step :: "json \<Rightarrow> string" where
  "show_step j = (case j of JInt i \<Rightarrow> show_int i | _ \<Rightarrow> ''None'')"

definition structural_verify ::
    "(bytes \<Rightarrow> bytes) \<Rightarrow> dict \<Rightarrow> dict \<Rightarrow> dict list \<Rightarrow> rule_error + rule_result" where
  "structural_verify sha task bundle receipts =
     (if dict_get bundle ''task_id'' \<noteq> dict_get task ''task_id'' then Inr (STRUCT_FAIL, [''task_id_mismatch''])
      else if dict_get bundle ''task_contract_hash'' \<noteq> JStr (task_contract_hash sha task)
      then Inr (STRUCT_FAIL, [''task_contract_hash_mismatch''])
      else if receipts = [] then Inr (STRUCT_FAIL, [''receipt_chain_empty''])
      else if \<not> list_all (\<lambda>r. sort_fields r \<noteq> None) receipts then Inl IllTyped
      else
        (let sorted = sort_receipts receipts;
             expected = JList (map (\<lambda>r. JStr (receipt_hash sha r)) sorted);
             bundle_hashes = (if truthy (dict_get bundle ''receipt_hashes'') then dict_get bundle ''receipt_hashes'' else JList [])
         in if expected \<noteq> bundle_hashes then Inr (STRUCT_FAIL, [''receipt_hash_mismatch''])
            else case chronological [] sorted of
              Inl e \<Rightarrow> Inl e
            | Inr False \<Rightarrow> Inr (STRUCT_FAIL, [''chronological_order_violation''])
            | Inr True \<Rightarrow>
              (let trace = dict_get task ''trace_id'' in
               if truthy trace \<and> dict_get bundle ''trace_id'' \<noteq> trace
               then Inr (STRUCT_FAIL, [''bundle_trace_id_mismatch''])
               else if truthy trace \<and> \<not> list_all (receipt_trace_ok trace) sorted
               then Inr (STRUCT_FAIL, [''receipt_trace_id_mismatch''])
               else case first_missing_output 0 sorted of
                 Some i \<Rightarrow> Inr (STRUCT_FAIL, [''missing_output_hash_step_'' @ show_nat i])
               | None \<Rightarrow>
                 (case first_step_gap 0 sorted of
                    Some (i, got) \<Rightarrow>
                      Inr (STRUCT_FAIL, [''step_index_gap_at_'' @ show_nat i @ ''_expected_'' @ show_nat i @ ''_got_'' @ show_step got])
                  | None \<Rightarrow> Inr (STRUCT_OK, [''all_structural_checks_passed''])))))"

section \<open>The evidence integrity rule\<close>

definition missing_keys :: "string list \<Rightarrow> dict \<Rightarrow> string list" where
  "missing_keys required d = filter (\<lambda>k. k \<notin> fst ` set d) required"

fun first_duplicate_id :: "json list \<Rightarrow> dict list \<Rightarrow> json option" where
  "first_duplicate_id seen [] = None"
| "first_duplicate_id seen (r # rs) =
     (let rid = dict_get_or r ''receipt_id'' (JStr []) in
      if rid \<in> set seen then Some rid else first_duplicate_id (rid # seen) rs)"

definition json_len :: "json \<Rightarrow> nat option" where
  "json_len j = (case j of JStr s \<Rightarrow> Some (length s) | JList xs \<Rightarrow> Some (length xs) | JObj kvs \<Rightarrow> Some (length kvs) | _ \<Rightarrow> None)"

fun first_task_mismatch :: "json \<Rightarrow> nat \<Rightarrow> dict list \<Rightarrow> nat option" where
  "first_task_mismatch tid i [] = None"
| "first_task_mismatch tid i (r # rs) =
     (if dict_get r ''task_id'' \<noteq> tid then Some i else first_task_mismatch tid (i + 1) rs)"

definition is_hex64 :: "string \<Rightarrow> bool" where
  "is_hex64 s \<longleftrightarrow> length s = 64 \<and> list_all (\<lambda>c. c \<in> set ''0123456789abcdef'') s"

fun first_bad_output :: "nat \<Rightarrow> dict list \<Rightarrow> rule_error + nat option" where
  "first_bad_output i [] = Inr None"
| "first_bad_output i (r # rs) =
     (case dict_get_or r ''output_hash'' (JStr []) of
        JStr s \<Rightarrow> if \<not> is_hex64 s then Inr (Some i) else first_bad_output (i + 1) rs
      | _ \<Rightarrow> Inl IllTyped)"

definition show_id :: "json \<Rightarrow> string" where
  "show_id j = (case j of JStr s \<Rightarrow> s | JInt i \<Rightarrow> show_int i | _ \<Rightarrow> ''None'')"

definition verify_evidence_integrity ::
    "(bytes \<Rightarrow> bytes) \<Rightarrow> dict \<Rightarrow> dict list \<Rightarrow> dict \<Rightarrow> rule_error + rule_result" where
  "verify_evidence_integrity sha bundle receipts task =
     (let missing = missing_keys [''receipt_hashes'', ''task_contract_hash'', ''task_id''] bundle;
          missing_task = missing_keys [''agent_id'', ''runtime_id'', ''task_id''] task;
          bundle_hashes = (if truthy (dict_get bundle ''receipt_hashes'') then dict_get bundle ''receipt_hashes'' else JList [])
      in if missing \<noteq> [] then Inr (STRUCT_FAIL, [''bundle_missing_keys:'' @ join '','' missing])
         else if missing_task \<noteq> [] then Inr (STRUCT_FAIL, [''task_missing_keys:'' @ join '','' missing_task])
         else case first_duplicate_id [] receipts of
           Some rid \<Rightarrow> Inr (STRUCT_FAIL, [''duplicate_receipt_id:'' @ show_id rid])
         | None \<Rightarrow>
           (case json_len bundle_hashes of
              None \<Rightarrow> Inl IllTyped
            | Some n \<Rightarrow>
              if n \<noteq> length receipts
              then Inr (STRUCT_FAIL, [''receipt_count_mismatch:bundle='' @ show_nat n @ ''_actual='' @ show_nat (length receipts)])
              else case first_task_mismatch (dict_get task ''task_id'') 0 receipts of
                Some i \<Rightarrow> Inr (STRUCT_FAIL, [''receipt_'' @ show_nat i @ ''_task_id_mismatch''])
              | None \<Rightarrow>
                (case first_bad_output 0 receipts of
                   Inl e \<Rightarrow> Inl e
                 | Inr (Some i) \<Rightarrow> Inr (STRUCT_FAIL, [''receipt_'' @ show_nat i @ ''_output_hash_not_valid_sha256''])
                 | Inr None \<Rightarrow>
                   (let stored = dict_get bundle ''evidence_hash'' in
                    if truthy stored \<and> stored \<noteq> JStr (evidence_hash sha bundle)
                    then Inr (STRUCT_FAIL, [''evidence_hash_mismatch''])
                    else Inr (STRUCT_OK, [''all_evidence_integrity_checks_passed'']))))) "

section \<open>What the checks establish\<close>

lemma first_missing_output_None:
  "first_missing_output i rs = None \<longleftrightarrow> (\<forall>r \<in> set rs. truthy (dict_get r ''output_hash''))"
  by (induction i rs rule: first_missing_output.induct) auto

lemma upt_step: "[i..<Suc (i + n)] = i # [Suc i..<Suc (i + n)]"
  by (rule upt_conv_Cons) simp

lemma first_step_gap_None:
  "first_step_gap i rs = None \<longleftrightarrow> map (\<lambda>r. dict_get r ''step_index'') rs = map (\<lambda>k. JInt (int k)) [i..<i + length rs]"
  by (induction i rs rule: first_step_gap.induct) (auto simp: upt_step simp del: upt_Suc)

text \<open>The non-empty start times, and the condition under which the order check passes.\<close>

fun start_times :: "dict list \<Rightarrow> string list" where
  "start_times [] = []"
| "start_times (r # rs) =
     (case dict_get_or r ''started_at'' (JStr []) of JStr s \<Rightarrow> if s = [] then start_times rs else s # start_times rs
      | _ \<Rightarrow> start_times rs)"

definition start_typed :: "dict \<Rightarrow> bool" where
  "start_typed r \<longleftrightarrow> \<not> truthy (dict_get_or r ''started_at'' (JStr [])) \<or>
                     (\<exists>s. dict_get_or r ''started_at'' (JStr []) = JStr s)"

lemma chronological_True:
  "chronological prev rs = Inr True \<longleftrightarrow> (\<forall>r \<in> set rs. start_typed r) \<and> sorted (prev # start_times rs)"
proof (induction rs arbitrary: prev)
  case (Cons r rs)
  show ?case
  proof (cases "dict_get_or r ''started_at'' (JStr [])")
    case (JStr s)
    with Cons.IH [of s] Cons.IH [of prev] show ?thesis
      by (cases "s = []") (auto simp: truthy_def start_typed_def not_less intro: order_trans)
  qed (use Cons.IH [of prev] in \<open>auto simp: truthy_def start_typed_def Let_def\<close>)
qed simp

definition structural_spec :: "(bytes \<Rightarrow> bytes) \<Rightarrow> dict \<Rightarrow> dict \<Rightarrow> dict list \<Rightarrow> bool" where
  "structural_spec sha task bundle receipts \<longleftrightarrow>
     dict_get bundle ''task_id'' = dict_get task ''task_id'' \<and>
     dict_get bundle ''task_contract_hash'' = JStr (task_contract_hash sha task) \<and>
     receipts \<noteq> [] \<and> (\<forall>r \<in> set receipts. sort_fields r \<noteq> None \<and> start_typed r) \<and>
     dict_get bundle ''receipt_hashes'' = JList (map (\<lambda>r. JStr (receipt_hash sha r)) (sort_receipts receipts)) \<and>
     sorted (start_times (sort_receipts receipts)) \<and>
     (truthy (dict_get task ''trace_id'') \<longrightarrow>
        dict_get bundle ''trace_id'' = dict_get task ''trace_id'' \<and>
        (\<forall>r \<in> set receipts. truthy (dict_get r ''trace_id'') \<longrightarrow> dict_get r ''trace_id'' = dict_get task ''trace_id'')) \<and>
     (\<forall>r \<in> set receipts. truthy (dict_get r ''output_hash'')) \<and>
     map (\<lambda>r. dict_get r ''step_index'') (sort_receipts receipts) = map (\<lambda>k. JInt (int k)) [0..<length receipts]"

lemma sort_receipts_set [simp]: "set (sort_receipts rs) = set rs" "length (sort_receipts rs) = length rs"
  "mset (sort_receipts rs) = mset rs"
  by (simp_all add: sort_receipts_def)

lemma sorted_Nil_string: "sorted (([] :: string) # xs) = sorted xs"
  by simp

lemma structural_verify_ok_iff:
  "structural_verify sha task bundle receipts = Inr (STRUCT_OK, reasons) \<longleftrightarrow>
     reasons = [''all_structural_checks_passed''] \<and> structural_spec sha task bundle receipts"
proof (cases "receipts = [] \<or> \<not> list_all (\<lambda>r. sort_fields r \<noteq> None) receipts")
  case True
  then have "\<not> structural_spec sha task bundle receipts" by (auto simp: structural_spec_def list_all_iff)
  moreover have "structural_verify sha task bundle receipts \<noteq> Inr (STRUCT_OK, reasons)"
    using True by (auto simp: structural_verify_def)
  ultimately show ?thesis by simp
next
  case False
  then have typed: "\<forall>r \<in> set receipts. sort_fields r \<noteq> None" and ne: "receipts \<noteq> []" by (auto simp: list_all_iff)
  let ?s = "sort_receipts receipts"
  let ?h = "JList (map (\<lambda>r. JStr (receipt_hash sha r)) ?s)"
  have "?s \<noteq> []" using ne by (metis length_0_conv sort_receipts_set(2))
  have h: "?h = (if truthy (dict_get bundle ''receipt_hashes'') then dict_get bundle ''receipt_hashes'' else JList []) \<longleftrightarrow>
      dict_get bundle ''receipt_hashes'' = ?h"
    using \<open>?s \<noteq> []\<close> by (auto simp: truthy_def)
  have c: "chronological [] ?s = Inr True \<longleftrightarrow> (\<forall>r \<in> set receipts. start_typed r) \<and> sorted (start_times ?s)"
    by (simp add: chronological_True)
  have t: "list_all (receipt_trace_ok tr) ?s \<longleftrightarrow>
      (\<forall>r \<in> set receipts. truthy (dict_get r ''trace_id'') \<longrightarrow> dict_get r ''trace_id'' = tr)" for tr
    by (auto simp: list_all_iff receipt_trace_ok_def)
  let ?tr = "dict_get task ''trace_id''"
  let ?bh = "if truthy (dict_get bundle ''receipt_hashes'') then dict_get bundle ''receipt_hashes'' else JList []"
  have "structural_verify sha task bundle receipts = Inr (STRUCT_OK, reasons) \<longleftrightarrow>
      reasons = [''all_structural_checks_passed''] \<and>
      dict_get bundle ''task_id'' = dict_get task ''task_id'' \<and>
      dict_get bundle ''task_contract_hash'' = JStr (task_contract_hash sha task) \<and>
      ?h = ?bh \<and> chronological [] ?s = Inr True \<and>
      (truthy ?tr \<longrightarrow> dict_get bundle ''trace_id'' = ?tr \<and> list_all (receipt_trace_ok ?tr) ?s) \<and>
      first_missing_output 0 ?s = None \<and> first_step_gap 0 ?s = None"
    using False unfolding structural_verify_def Let_def by (simp split: sum.split bool.split option.split) blast
  also have "\<dots> \<longleftrightarrow> reasons = [''all_structural_checks_passed''] \<and> structural_spec sha task bundle receipts"
    unfolding h c t first_missing_output_None first_step_gap_None structural_spec_def sort_receipts_set
    using typed ne by auto
  finally show ?thesis .
qed

section \<open>What the integrity checks establish\<close>

lemma first_duplicate_id_None:
  "first_duplicate_id seen rs = None \<longleftrightarrow>
     distinct (map (\<lambda>r. dict_get_or r ''receipt_id'' (JStr [])) rs) \<and>
     (\<forall>r \<in> set rs. dict_get_or r ''receipt_id'' (JStr []) \<notin> set seen)"
proof (induction seen rs rule: first_duplicate_id.induct)
  case (2 seen r rs)
  have "(\<forall>x \<in> set rs. dict_get_or x ''receipt_id'' (JStr []) \<noteq> dict_get_or r ''receipt_id'' (JStr [])) \<longleftrightarrow>
      dict_get_or r ''receipt_id'' (JStr []) \<notin> (\<lambda>x. dict_get_or x ''receipt_id'' (JStr [])) ` set rs"
    unfolding image_iff by metis
  with 2 show ?case by (auto simp: Let_def)
qed simp

lemma first_task_mismatch_None:
  "first_task_mismatch tid i rs = None \<longleftrightarrow> (\<forall>r \<in> set rs. dict_get r ''task_id'' = tid)"
  by (induction tid i rs rule: first_task_mismatch.induct) auto

definition output_hash_ok :: "dict \<Rightarrow> bool" where
  "output_hash_ok r \<longleftrightarrow> (\<exists>s. dict_get_or r ''output_hash'' (JStr []) = JStr s \<and> is_hex64 s)"

lemma first_bad_output_None: "first_bad_output i rs = Inr None \<longleftrightarrow> (\<forall>r \<in> set rs. output_hash_ok r)"
  by (induction i rs rule: first_bad_output.induct) (auto simp: output_hash_ok_def split: json.splits)

definition integrity_spec :: "(bytes \<Rightarrow> bytes) \<Rightarrow> dict \<Rightarrow> dict list \<Rightarrow> dict \<Rightarrow> bool" where
  "integrity_spec sha bundle receipts task \<longleftrightarrow>
     {''receipt_hashes'', ''task_contract_hash'', ''task_id''} \<subseteq> fst ` set bundle \<and>
     {''agent_id'', ''runtime_id'', ''task_id''} \<subseteq> fst ` set task \<and>
     distinct (map (\<lambda>r. dict_get_or r ''receipt_id'' (JStr [])) receipts) \<and>
     json_len (if truthy (dict_get bundle ''receipt_hashes'') then dict_get bundle ''receipt_hashes'' else JList []) =
       Some (length receipts) \<and>
     (\<forall>r \<in> set receipts. dict_get r ''task_id'' = dict_get task ''task_id'' \<and> output_hash_ok r) \<and>
     (truthy (dict_get bundle ''evidence_hash'') \<longrightarrow> dict_get bundle ''evidence_hash'' = JStr (evidence_hash sha bundle))"

lemma missing_keys_Nil: "missing_keys ks d = [] \<longleftrightarrow> set ks \<subseteq> fst ` set d"
  by (auto simp: missing_keys_def filter_empty_conv)

lemma verify_evidence_integrity_ok_iff:
  "verify_evidence_integrity sha bundle receipts task = Inr (STRUCT_OK, reasons) \<longleftrightarrow>
     reasons = [''all_evidence_integrity_checks_passed''] \<and> integrity_spec sha bundle receipts task"
proof -
  let ?bh = "if truthy (dict_get bundle ''receipt_hashes'') then dict_get bundle ''receipt_hashes'' else JList []"
  have "verify_evidence_integrity sha bundle receipts task = Inr (STRUCT_OK, reasons) \<longleftrightarrow>
      reasons = [''all_evidence_integrity_checks_passed''] \<and>
      missing_keys [''receipt_hashes'', ''task_contract_hash'', ''task_id''] bundle = [] \<and>
      missing_keys [''agent_id'', ''runtime_id'', ''task_id''] task = [] \<and>
      first_duplicate_id [] receipts = None \<and> json_len ?bh = Some (length receipts) \<and>
      first_task_mismatch (dict_get task ''task_id'') 0 receipts = None \<and> first_bad_output 0 receipts = Inr None \<and>
      (truthy (dict_get bundle ''evidence_hash'') \<longrightarrow> dict_get bundle ''evidence_hash'' = JStr (evidence_hash sha bundle))"
    unfolding verify_evidence_integrity_def Let_def
    by (simp split: sum.split option.split) blast
  also have "\<dots> \<longleftrightarrow> reasons = [''all_evidence_integrity_checks_passed''] \<and> integrity_spec sha bundle receipts task"
    unfolding missing_keys_Nil first_duplicate_id_None first_task_mismatch_None first_bad_output_None integrity_spec_def
    by auto
  finally show ?thesis .
qed

lemma sort_receipts_perm:
  assumes "mset rs = mset rs'" and "distinct (map (\<lambda>r. (sort_step r, sort_id r)) rs)"
  shows "sort_receipts rs = sort_receipts rs'"
  unfolding sort_receipts_def by (rule sort_key_perm [OF assms])

section \<open>Properties\<close>



text \<open>
  The verdict of the structural rule does not depend on the order in which a node received the
  receipts, as long as no two share step index and receipt id: every node reaches the same result,
  with the same reasons.
\<close>

theorem structural_rule_order_independent:
  assumes "mset receipts = mset receipts'" and "distinct (map (\<lambda>r. (sort_step r, sort_id r)) receipts)"
  shows "structural_verify sha task bundle receipts = structural_verify sha task bundle receipts'"
proof -
  have "receipts = [] \<longleftrightarrow> receipts' = []" using assms(1) by (metis mset_zero_iff)
  moreover have "list_all P receipts \<longleftrightarrow> list_all P receipts'" for P
    using mset_eq_setD [OF assms(1)] by (simp add: list_all_iff)
  ultimately show ?thesis
    unfolding structural_verify_def by (simp add: sort_receipts_perm [OF assms])
qed

definition demo_step :: "nat \<Rightarrow> dict" where
  "demo_step i = [(''receipt_id'', JStr (show_nat i)), (''step_index'', JInt (int i)), (''output_hash'', JStr ''0'')]"

theorem structural_rule_order_independent_witness:
  "structural_verify id [] [] [demo_step 0, demo_step 1] = structural_verify id [] [] [demo_step 1, demo_step 0]"
  using structural_rule_order_independent [of "[demo_step 0, demo_step 1]" "[demo_step 1, demo_step 0]" id "[]" "[]"]
  by (simp add: add_mset_commute demo_step_def sort_step_def sort_fields_def dict_get_or_def)

text \<open>
  Tampering is detected. If two lists of receipts are both accepted for the same bundle and task,
  and SHA-256 has no collision on their serialisations, then they are the same receipts: the same
  serialised receipts, each as often, in whatever order.
\<close>

theorem accepted_receipts_unique:
  assumes "structural_verify sha task bundle receipts = Inr (STRUCT_OK, reasons)"
    and "structural_verify sha task bundle receipts' = Inr (STRUCT_OK, reasons')"
    and "inj_on sha (canonical_json_bytes ` (set receipts \<union> set receipts'))"
  shows "mset (map canonical_json_bytes receipts) = mset (map canonical_json_bytes receipts')"
proof -
  let ?c = canonical_json_bytes and ?s = "sort_receipts receipts" and ?s' = "sort_receipts receipts'"
  have "map (\<lambda>r. JStr (receipt_hash sha r)) ?s = map (\<lambda>r. JStr (receipt_hash sha r)) ?s'"
    using assms(1,2) unfolding structural_verify_ok_iff structural_spec_def by (metis json.inject(4))
  then have "map (JStr \<circ> hex) (map sha (map ?c ?s)) = map (JStr \<circ> hex) (map sha (map ?c ?s'))"
    by (simp add: receipt_hash_def sha256_hex_def comp_def)
  moreover have "inj (JStr \<circ> hex)" by (simp add: inj_def)
  ultimately have "map sha (map ?c ?s) = map sha (map ?c ?s')" by (simp only: inj_map_eq_map)
  moreover have "inj_on sha (set (map ?c ?s) \<union> set (map ?c ?s'))"
    using assms(3) by (simp add: image_Un)
  ultimately have "map ?c ?s = map ?c ?s'" by (rule map_inj_on)
  then have "mset (map ?c ?s) = mset (map ?c ?s')" by (rule arg_cong)
  then show ?thesis by simp
qed

definition demo_task :: dict where
  "demo_task = [(''task_id'', JStr ''t''), (''agent_id'', JStr ''a''), (''runtime_id'', JStr ''r'')]"

definition demo_bundle :: "dict list \<Rightarrow> dict" where
  "demo_bundle rs = [(''task_id'', JStr ''t''), (''task_contract_hash'', JStr (task_contract_hash id demo_task)),
     (''receipt_hashes'', JList (map (\<lambda>r. JStr (receipt_hash id r)) rs))]"

theorem accepted_receipts_unique_witness:
  "mset (map canonical_json_bytes [demo_step 1, demo_step 0]) = mset (map canonical_json_bytes [demo_step 0, demo_step 1])"
proof (rule accepted_receipts_unique)
  show "structural_verify id demo_task (demo_bundle [demo_step 0, demo_step 1]) [demo_step 1, demo_step 0] =
      Inr (STRUCT_OK, [''all_structural_checks_passed''])" by code_simp
  show "structural_verify id demo_task (demo_bundle [demo_step 0, demo_step 1]) [demo_step 0, demo_step 1] =
      Inr (STRUCT_OK, [''all_structural_checks_passed''])" by code_simp
qed simp

text \<open>
  The stored evidence hash is compared with the hash of the bundle that contains it. So a bundle
  that is accepted without the field is refused as soon as its own evidence hash is stored in it,
  unless SHA-256 collides on the two serialisations.
\<close>

theorem stored_evidence_hash_is_refused:
  assumes "verify_evidence_integrity sha bundle receipts task = Inr (STRUCT_OK, reasons)"
    and "''evidence_hash'' \<notin> fst ` set bundle" and "sha (canonical_json_bytes bundle) \<noteq> []"
    and "inj_on sha {canonical_json_bytes bundle,
                     canonical_json_bytes ((''evidence_hash'', JStr (evidence_hash sha bundle)) # bundle)}"
  shows "verify_evidence_integrity sha ((''evidence_hash'', JStr (evidence_hash sha bundle)) # bundle) receipts task =
         Inr (STRUCT_FAIL, [''evidence_hash_mismatch''])"
proof -
  let ?b = "(''evidence_hash'', JStr (evidence_hash sha bundle)) # bundle"
  have get: "dict_get ?b k = (if k = ''evidence_hash'' then JStr (evidence_hash sha bundle) else dict_get bundle k)" for k
    by (simp add: dict_get_def)
  have "canonical_json_bytes ?b \<noteq> canonical_json_bytes bundle"
    using length_dumps_more [of "'',''" "'':''" "bundle" "(''evidence_hash'', JStr (evidence_hash sha bundle))"]
    unfolding canonical_json_bytes_def canonical_json_def by (metis less_irrefl)
  then have neq: "evidence_hash sha bundle \<noteq> evidence_hash sha ?b"
    using assms(4) by (auto simp: evidence_hash_def sha256_hex_def inj_on_def)
  have "evidence_hash sha bundle \<noteq> []"
    using assms(3) hex_inj [of _ "[]"] by (auto simp: evidence_hash_def sha256_hex_def hex_def hex_byte_def)
  moreover have "missing_keys ks ?b = []" if "missing_keys ks bundle = []" for ks
    using that by (auto simp: missing_keys_Nil)
  ultimately show ?thesis
    using assms(1) neq unfolding verify_evidence_integrity_def Let_def get
    by (auto simp: truthy_def split: sum.splits option.splits if_splits)
qed

theorem stored_evidence_hash_is_refused_witness:
  "verify_evidence_integrity id ((''evidence_hash'', JStr (evidence_hash id (demo_bundle []))) # demo_bundle []) [] demo_task =
     Inr (STRUCT_FAIL, [''evidence_hash_mismatch''])"
proof (rule stored_evidence_hash_is_refused)
  show "verify_evidence_integrity id (demo_bundle []) [] demo_task =
      Inr (STRUCT_OK, [''all_evidence_integrity_checks_passed''])" by code_simp
  show "''evidence_hash'' \<notin> fst ` set (demo_bundle [])" by code_simp
  show "id (canonical_json_bytes (demo_bundle [])) \<noteq> []" by code_simp
qed simp

end
