(* ===== verification/Verifier_Attestation.thy ===== *)
theory Verifier_Attestation
  imports Verifier_Rules
begin

text \<open>
  Attestations of the verifier network: the data types of \<^verbatim>\<open>decentralized_verifier/__init__.py\<close>, the
  verifier node (\<^verbatim>\<open>node/verifier.py\<close>), the EIP-712 payload, its pure-Python struct hash and the
  verification of a signature (\<^verbatim>\<open>attestation/signer.py\<close>), and the aggregation of attestations into
  an N-of-M quorum (\<^verbatim>\<open>attestation/aggregator.py\<close>). Keccak-256, the recovery function of
  \<^verbatim>\<open>eth_account\<close> and the curve arithmetic of \<^verbatim>\<open>ecdsa\<close> are arguments.
\<close>

section \<open>Data\<close>

record verifier_attestation =
  attestation_version :: string
  att_task_id :: string
  att_bundle_id :: string
  att_evidence_hash :: string
  att_cid :: string
  att_verifier_id :: string
  verifier_wallet :: string
  att_decision :: string
  reason_codes :: "string list"
  verified_at :: string
  chain_id :: int
  contract_address :: string
  att_signature :: string

datatype quorum_status = COLLECTING | ATTESTED_OK | ATTESTED_FAIL | INSUFFICIENT_SIGNATURES

record attestation_quorum =
  quorum_id :: string
  quorum_task_id :: string
  quorum_evidence_hash :: string
  quorum_threshold :: int
  quorum_total :: int
  valid_signatures :: nat
  quorum_decision :: string
  attestation_ids :: "string list"
  verifier_ids :: "string list"
  quorum_status :: quorum_status
  quorum_created_at :: string

datatype verifier_status = ACTIVE | SUSPENDED | SLASHED | PENDING

record verifier_node_info =
  node_verifier_id :: string
  wallet_address :: string
  public_key :: string
  endpoint_url :: string
  node_status :: verifier_status
  stake_amount :: int

section \<open>The verifier node\<close>

record verifier_node =
  verifier_id :: string
  node_wallet :: string
  verifier_registry_url :: string
  rpc_url :: string

datatype verifier_error = ValueError string | TypeError

definition new_verifier_node :: "string \<Rightarrow> string \<Rightarrow> string \<Rightarrow> string \<Rightarrow> verifier_error + verifier_node" where
  "new_verifier_node vid wallet url rpc =
     (if vid = [] then Inl (ValueError ''verifier_id is required'')
      else if wallet = [] \<or> take 2 wallet \<noteq> ''0x''
      then Inl (ValueError ''wallet_address must be a valid 0x-prefixed Ethereum address'')
      else Inr \<lparr>verifier_id = vid, node_wallet = lower wallet, verifier_registry_url = url, rpc_url = rpc\<rparr>)"

definition dict_str :: "dict \<Rightarrow> string \<Rightarrow> string" where
  "dict_str d k = (case dict_get_or d k (JStr []) of JStr s \<Rightarrow> s | _ \<Rightarrow> [])"

text \<open>
  \<open>verify\<close>; the time stamp is the argument \<open>now\<close>. Task and bundle ids are strings.
\<close>

definition verify ::
    "(bytes \<Rightarrow> bytes) \<Rightarrow> verifier_node \<Rightarrow> string \<Rightarrow> dict \<Rightarrow> dict \<Rightarrow> dict list \<Rightarrow> string \<Rightarrow>
     verifier_error + verifier_attestation" where
  "verify sha node now task bndl receipts cid =
     (case structural_verify sha task bndl receipts of
        Inl _ \<Rightarrow> Inl TypeError
      | Inr (struct_decision, struct_reasons) \<Rightarrow>
        (case verify_evidence_integrity sha bndl receipts task of
           Inl _ \<Rightarrow> Inl TypeError
         | Inr (integrity_decision, integrity_reasons) \<Rightarrow>
           Inr \<lparr>attestation_version = ''karma-attestation-v1'', att_task_id = dict_str task ''task_id'',
                att_bundle_id = dict_str bndl ''bundle_id'', att_evidence_hash = evidence_hash sha bndl,
                att_cid = cid, att_verifier_id = verifier_id node, verifier_wallet = node_wallet node,
                att_decision = (if struct_decision = STRUCT_OK \<and> integrity_decision = STRUCT_OK
                                then ''STRUCT_OK'' else ''STRUCT_FAIL''),
                reason_codes = struct_reasons @ integrity_reasons, verified_at = now, chain_id = 0,
                contract_address = [], att_signature = []\<rparr>))"

section \<open>Byte strings\<close>

fun remove_0x :: "string \<Rightarrow> string" where
  "remove_0x (c # d # cs) =
     (if c = CHR ''0'' \<and> d = CHR ''x'' then remove_0x cs else c # remove_0x (d # cs))"
| "remove_0x s = s"

definition hex_val :: "char \<Rightarrow> nat option" where
  "hex_val c =
     (let n = char_code c in
      if 48 \<le> n \<and> n \<le> 57 then Some (n - 48)
      else if 97 \<le> n \<and> n \<le> 102 then Some (n - 87)
      else if 65 \<le> n \<and> n \<le> 70 then Some (n - 55)
      else None)"

definition ascii_space :: "char \<Rightarrow> bool" where
  "ascii_space c \<longleftrightarrow> char_code c = 32 \<or> (9 \<le> char_code c \<and> char_code c \<le> 13)"

text \<open>\<open>bytes.fromhex\<close>: white space between bytes is skipped, anything else that is not a pair of digits is an error.\<close>

fun from_hex :: "string \<Rightarrow> bytes option" where
  "from_hex [] = Some []"
| "from_hex [c] = (if ascii_space c then Some [] else None)"
| "from_hex (c # d # cs) =
     (if ascii_space c then from_hex (d # cs)
      else case (hex_val c, hex_val d) of
        (Some a, Some b) \<Rightarrow> map_option ((#) (char_of (16 * a + b))) (from_hex cs)
      | _ \<Rightarrow> None)"

definition rjust32 :: "bytes \<Rightarrow> bytes" where
  "rjust32 bs = replicate (32 - length bs) (char_of (0::nat)) @ bs"

definition ljust32 :: "bytes \<Rightarrow> bytes" where
  "ljust32 bs = bs @ replicate (32 - length bs) (char_of (0::nat))"

definition to_bytes32 :: "string \<Rightarrow> bytes option" where
  "to_bytes32 s = (if s = [] then Some (replicate 32 (char_of (0::nat))) else map_option rjust32 (from_hex (remove_0x s)))"

text \<open>\<open>n.to_bytes(k, "big")\<close> of a number that fits, and \<open>int.from_bytes(bs, "big")\<close>.\<close>

primrec be_bytes :: "nat \<Rightarrow> nat \<Rightarrow> bytes" where
  "be_bytes 0 n = []"
| "be_bytes (Suc k) n = be_bytes k (n div 256) @ [char_of (n mod 256)]"

definition be_value :: "bytes \<Rightarrow> nat" where
  "be_value bs = foldl (\<lambda>acc c. 256 * acc + char_code c) 0 bs"

definition uint256_bytes :: "int \<Rightarrow> bytes option" where
  "uint256_bytes n = (if 0 \<le> n \<and> n < 2 ^ 256 then Some (be_bytes 32 (nat n)) else None)"

section \<open>EIP-712\<close>

datatype eip_value = EStr string | EBytes bytes | EInt int

type_synonym eip_types = "(string \<times> (string \<times> string) list) list"

record eip712_payload =
  eip_domain :: "(string \<times> eip_value) list"
  primary_type :: string
  eip_types :: eip_types
  eip_message :: "(string \<times> eip_value) list"

text \<open>The payload; a malformed evidence hash makes the builder raise (\<open>None\<close>).\<close>

definition build_attestation_eip712_payload :: "verifier_attestation \<Rightarrow> eip712_payload option" where
  "build_attestation_eip712_payload a =
     (let contract_addr = (if contract_address a = [] then ''0x0000000000000000000000000000000000000000''
                           else contract_address a)
      in case to_bytes32 (att_evidence_hash a) of
           None \<Rightarrow> None
         | Some eh \<Rightarrow> Some
             \<lparr>eip_domain = [(''name'', EStr ''KarmaAttestation''), (''version'', EStr ''1''),
                            (''chainId'', EInt (chain_id a)), (''verifyingContract'', EStr contract_addr)],
              primary_type = ''Attestation'',
              eip_types =
                [(''EIP712Domain'', [(''name'', ''string''), (''version'', ''string''), (''chainId'', ''uint256''),
                                     (''verifyingContract'', ''address'')]),
                 (''Attestation'', [(''evidenceHash'', ''bytes32''), (''cid'', ''string''), (''decision'', ''string''),
                                    (''verifierId'', ''string''), (''chainId'', ''uint256'')])],
              eip_message = [(''evidenceHash'', EBytes eh), (''cid'', EStr (att_cid a)), (''decision'', EStr (att_decision a)),
                             (''verifierId'', EStr (att_verifier_id a)), (''chainId'', EInt (chain_id a))]\<rparr>)"

definition show_fields :: "(string \<times> string) list \<Rightarrow> string" where
  "show_fields fs = join '','' (map (\<lambda>(name, ftype). ftype @ '' '' @ name) fs)"

text \<open>\<open>encode_type\<close>; \<open>None\<close> is the \<open>KeyError\<close> of a type that is not declared.\<close>

definition encode_type :: "string \<Rightarrow> eip_types \<Rightarrow> string option" where
  "encode_type primary types =
     (case map_of types primary of
        None \<Rightarrow> None
      | Some fs \<Rightarrow>
        (let used = filter (\<lambda>t. t \<notin> {''string'', ''bytes32'', ''uint256'', ''address''}) (map snd fs);
             names = sort (remdups (primary # used));
             others = filter (\<lambda>t. t \<noteq> primary \<and> t \<noteq> ''EIP712Domain'') names
         in if list_all (\<lambda>t. map_of types t \<noteq> None) others
            then Some (primary @ ''('' @ show_fields fs @ '')'' @
                       concat (map (\<lambda>t. t @ ''('' @ show_fields (the (map_of types t)) @ '')'') others))
            else None))"

definition encode_field :: "(bytes \<Rightarrow> bytes) \<Rightarrow> string \<Rightarrow> eip_value \<Rightarrow> bytes option" where
  "encode_field keccak ftype v =
     (if ftype = ''string'' then
        (case v of EStr s \<Rightarrow> Some (keccak s) | EInt i \<Rightarrow> Some (keccak (show_int i)) | EBytes _ \<Rightarrow> None)
      else if ftype = ''bytes32'' then
        (case v of EBytes b \<Rightarrow> Some (take 32 (ljust32 b)) | EStr s \<Rightarrow> map_option rjust32 (from_hex (remove_0x s)) | EInt _ \<Rightarrow> None)
      else if ftype = ''uint256'' then (case v of EInt i \<Rightarrow> uint256_bytes i | _ \<Rightarrow> None)
      else if ftype = ''address'' then
        (case v of EStr s \<Rightarrow> map_option rjust32 (from_hex (remove_0x (lower s))) | _ \<Rightarrow> None)
      else Some [])"

fun encode_fields ::
    "(bytes \<Rightarrow> bytes) \<Rightarrow> (string \<times> string) list \<Rightarrow> (string \<times> eip_value) list \<Rightarrow> bytes option" where
  "encode_fields keccak [] vals = Some []"
| "encode_fields keccak ((name, ftype) # fs) vals =
     (case map_of vals name of
        None \<Rightarrow> None
      | Some v \<Rightarrow>
        (case (encode_field keccak ftype v, encode_fields keccak fs vals) of
           (Some b, Some bs) \<Rightarrow> Some (b @ bs)
         | _ \<Rightarrow> None))"

definition encode_data ::
    "(bytes \<Rightarrow> bytes) \<Rightarrow> string \<Rightarrow> eip_types \<Rightarrow> (string \<times> eip_value) list \<Rightarrow> bytes option" where
  "encode_data keccak primary types vals =
     (case (encode_type primary types, map_of types primary) of
        (Some t, Some fs) \<Rightarrow> map_option (\<lambda>bs. keccak t @ bs) (encode_fields keccak fs vals)
      | _ \<Rightarrow> None)"

definition eip712_struct_hash :: "(bytes \<Rightarrow> bytes) \<Rightarrow> eip712_payload \<Rightarrow> bytes option" where
  "eip712_struct_hash keccak payload =
     (let domain_types = filter (\<lambda>(t, _). t = ''EIP712Domain'') (eip_types payload)
      in case (encode_data keccak ''EIP712Domain'' domain_types (eip_domain payload),
               encode_data keccak (primary_type payload) (eip_types payload) (eip_message payload)) of
           (Some d, Some m) \<Rightarrow> Some (keccak (char_of (25::nat) # char_of (1::nat) # keccak d @ keccak m))
         | _ \<Rightarrow> None)"

section \<open>Signature verification\<close>

definition SECP256k1_curve_p :: int where
  "SECP256k1_curve_p = 0xFFFFFFFFFFFFFFFFFFFFFFFFFFFFFFFFFFFFFFFFFFFFFFFFFFFFFFFEFFFFFC2F"
definition SECP256k1_curve_a :: int where "SECP256k1_curve_a = 0"
definition SECP256k1_curve_b :: int where "SECP256k1_curve_b = 7"
definition SECP256k1_curve_order :: int where
  "SECP256k1_curve_order = 0xFFFFFFFFFFFFFFFFFFFFFFFFFFFFFFFEBAAEDCE6AF48A03BBFD25E8CD0364141"
definition SECP256k1_generator_x :: int where
  "SECP256k1_generator_x = 0x79BE667EF9DCBBAC55A06295CE870B07029BFCDB2DCE28D959F2815B16CF81798"
definition SECP256k1_generator_y :: int where
  "SECP256k1_generator_y = 0x483ADA7726A3C4655DA4FBFC0E1108A8FD17B448A68554199C47D08FFB10D4B8"

text \<open>
  The curve arithmetic of the \<^verbatim>\<open>ecdsa\<close> package over the curve \<open>y * y = x * x * x + a * x + b\<close> modulo \<open>p\<close>:
  the constructor of a point, which asserts that the point is on the curve (\<open>None\<close> when the
  assertion fails), and the operations used.
\<close>

record 'pt ec_lib =
  ec_point :: "int \<Rightarrow> int \<Rightarrow> int \<Rightarrow> int \<Rightarrow> int \<Rightarrow> int \<Rightarrow> 'pt option"
  ec_mul :: "'pt \<Rightarrow> int \<Rightarrow> 'pt"
  ec_add :: "'pt \<Rightarrow> 'pt \<Rightarrow> 'pt"
  ec_neg :: "'pt \<Rightarrow> 'pt"
  ec_x :: "'pt \<Rightarrow> int"
  ec_y :: "'pt \<Rightarrow> int"
  inverse_mod :: "int \<Rightarrow> int \<Rightarrow> int option"

definition on_curve :: "int \<Rightarrow> int \<Rightarrow> int \<Rightarrow> int \<Rightarrow> int \<Rightarrow> bool" where
  "on_curve p a b x y \<longleftrightarrow> (y * y - (x * x * x + a * x + b)) mod p = 0"

text \<open>\<open>pow(b, e, m)\<close>\<close>

function pow_mod :: "int \<Rightarrow> nat \<Rightarrow> int \<Rightarrow> int" where
  "pow_mod b e m =
     (if e = 0 then 1 mod m
      else if even e then pow_mod (b * b mod m) (e div 2) m
      else b * pow_mod (b * b mod m) (e div 2) m mod m)"
  by pat_completeness auto
termination by (relation "measure (\<lambda>(b, e, m). e)") auto

declare pow_mod.simps [simp del]

definition recover_address_from_signature ::
    "'pt ec_lib \<Rightarrow> (bytes \<Rightarrow> bytes) \<Rightarrow> bytes \<Rightarrow> int \<Rightarrow> int \<Rightarrow> int \<Rightarrow> string option" where
  "recover_address_from_signature ec keccak digest r s v =
     (let p = SECP256k1_curve_p; a = SECP256k1_curve_a; b = SECP256k1_curve_b; n = SECP256k1_curve_order in
      case ec_point ec p a b SECP256k1_generator_x SECP256k1_generator_y n of
        None \<Rightarrow> None
      | Some generator \<Rightarrow>
        (let y_sq = (pow_mod r 3 p + 7) mod p;
             y0 = pow_mod y_sq (nat ((p + 1) div 4)) p;
             y = (if v mod 2 \<noteq> y0 mod 2 then p - y0 else y0)
         in case (ec_point ec p a b r y n, inverse_mod ec r n) of
              (Some R, Some r_inv) \<Rightarrow>
                (let z = int (be_value digest) mod n;
                     Q = ec_mul ec (ec_add ec (ec_mul ec R s) (ec_neg ec (ec_mul ec generator z))) r_inv
                 in case (uint256_bytes (ec_x ec Q), uint256_bytes (ec_y ec Q)) of
                      (Some qx, Some qy) \<Rightarrow>
                        (let h = keccak (qx @ qy) in Some (''0x'' @ hex (drop (length h - 20) h)))
                    | _ \<Rightarrow> None)
            | _ \<Rightarrow> None))"

text \<open>The pure-Python fallback; every exception makes it return \<open>False\<close>.\<close>

definition verify_attestation_pure_python ::
    "'pt ec_lib \<Rightarrow> (bytes \<Rightarrow> bytes) \<Rightarrow> verifier_attestation \<Rightarrow> eip712_payload \<Rightarrow> bool" where
  "verify_attestation_pure_python ec keccak a payload =
     (case (eip712_struct_hash keccak payload, from_hex (remove_0x (att_signature a))) of
        (Some digest, Some sig_bytes) \<Rightarrow>
          if length sig_bytes \<noteq> 65 then False
          else (case recover_address_from_signature ec keccak digest (int (be_value (take 32 sig_bytes)))
                      (int (be_value (take 32 (drop 32 sig_bytes)))) (int (char_code (sig_bytes ! 64))) of
                 None \<Rightarrow> False
               | Some addr \<Rightarrow> lower addr = lower (verifier_wallet a))
      | _ \<Rightarrow> False)"

text \<open>
  \<open>eth\<close> is \<^verbatim>\<open>Account.recover_message(encode_typed_data(payload), signature)\<close>; its value is \<open>None\<close> when
  the package is missing or raises, and then the fallback decides. The result is the error of the
  payload builder, or the verdict.
\<close>

definition verify_attestation ::
    "(eip712_payload \<Rightarrow> string \<Rightarrow> string option) \<Rightarrow> 'pt ec_lib \<Rightarrow> (bytes \<Rightarrow> bytes) \<Rightarrow> verifier_attestation \<Rightarrow>
     verifier_error + bool" where
  "verify_attestation eth ec keccak a =
     (if att_signature a = [] \<or> take 2 (att_signature a) \<noteq> ''0x'' then Inr False
      else case build_attestation_eip712_payload a of
        None \<Rightarrow> Inl (ValueError ''non-hexadecimal number found in fromhex()'')
      | Some payload \<Rightarrow>
        (case eth payload (att_signature a) of
           Some recovered \<Rightarrow> Inr (lower recovered = lower (verifier_wallet a))
         | None \<Rightarrow> Inr (verify_attestation_pure_python ec keccak a payload)))"

section \<open>The aggregator\<close>

record attestation_aggregator =
  agg_threshold :: int
  total_verifiers :: int
  verifier_registry :: "(string \<times> verifier_node_info) list"

definition new_aggregator ::
    "int \<Rightarrow> int \<Rightarrow> (string \<times> verifier_node_info) list \<Rightarrow> verifier_error + attestation_aggregator" where
  "new_aggregator threshold total_v registry =
     (if threshold < 1 then Inl (ValueError ''threshold must be at least 1'')
      else if total_v < threshold
      then Inl (ValueError (''total_verifiers ('' @ show_int total_v @ '') must be >= threshold ('' @ show_int threshold @ '')''))
      else Inr \<lparr>agg_threshold = threshold, total_verifiers = total_v, verifier_registry = registry\<rparr>)"

text \<open>Step 1: the first attestation of every verifier id.\<close>

fun dedup :: "string list \<Rightarrow> verifier_attestation list \<Rightarrow> verifier_attestation list" where
  "dedup seen [] = []"
| "dedup seen (a # rest) =
     (if att_verifier_id a \<notin> set seen then a # dedup (att_verifier_id a # seen) rest else dedup seen rest)"

text \<open>Step 2: with a registry, only active registered verifiers count.\<close>

definition registered_active :: "attestation_aggregator \<Rightarrow> verifier_attestation \<Rightarrow> bool" where
  "registered_active agg a \<longleftrightarrow>
     (case map_of (verifier_registry agg) (att_verifier_id a) of
        None \<Rightarrow> False | Some info \<Rightarrow> node_status info = ACTIVE)"

definition registry_filter :: "attestation_aggregator \<Rightarrow> verifier_attestation list \<Rightarrow> verifier_attestation list" where
  "registry_filter agg as = (if verifier_registry agg = [] then as else filter (registered_active agg) as)"

text \<open>Steps 4 and 5; an error of the verification ends the collection.\<close>

fun filter_valid ::
    "(verifier_attestation \<Rightarrow> verifier_error + bool) \<Rightarrow> verifier_attestation list \<Rightarrow>
     verifier_error + verifier_attestation list" where
  "filter_valid check [] = Inr []"
| "filter_valid check (a # rest) =
     (case check a of
        Inl e \<Rightarrow> Inl e
      | Inr ok \<Rightarrow>
        (case filter_valid check rest of Inl e \<Rightarrow> Inl e | Inr valid \<Rightarrow> Inr (if ok then a # valid else valid)))"

definition compute_verdict :: "verifier_attestation list \<Rightarrow> string" where
  "compute_verdict valid =
     (if valid = [] then ''ATTESTED_FAIL''
      else let ok_count = length (filter (\<lambda>a. att_decision a = ''STRUCT_OK'') valid);
               fail_count = length valid - ok_count
           in if fail_count \<le> ok_count then ''ATTESTED_OK'' else ''ATTESTED_FAIL'')"

definition empty_quorum :: "attestation_aggregator \<Rightarrow> string \<Rightarrow> string \<Rightarrow> attestation_quorum" where
  "empty_quorum agg qid now =
     \<lparr>quorum_id = qid, quorum_task_id = [], quorum_evidence_hash = [], quorum_threshold = agg_threshold agg,
      quorum_total = total_verifiers agg, valid_signatures = 0, quorum_decision = ''ATTESTED_FAIL'',
      attestation_ids = [], verifier_ids = [], quorum_status = INSUFFICIENT_SIGNATURES, quorum_created_at = now\<rparr>"

definition collect ::
    "(verifier_attestation \<Rightarrow> verifier_error + bool) \<Rightarrow> string \<Rightarrow> string \<Rightarrow> attestation_aggregator \<Rightarrow>
     verifier_attestation list \<Rightarrow> verifier_error + attestation_quorum" where
  "collect check qid now agg attestations =
     (if attestations = [] then Inr (empty_quorum agg qid now)
      else
        let deduped = registry_filter agg (dedup [] attestations)
        in if deduped = [] then Inr (empty_quorum agg qid now)
           else
             let canonical_hash = att_evidence_hash (hd deduped);
                 consistent = filter (\<lambda>a. att_evidence_hash a = canonical_hash) deduped
             in if consistent = [] then Inr (empty_quorum agg qid now)
                else case filter_valid check consistent of
                  Inl e \<Rightarrow> Inl e
                | Inr valid \<Rightarrow> Inr
                    \<lparr>quorum_id = qid, quorum_task_id = (if valid = [] then [] else att_task_id (hd valid)),
                     quorum_evidence_hash = canonical_hash, quorum_threshold = agg_threshold agg,
                     quorum_total = total_verifiers agg, valid_signatures = length valid,
                     quorum_decision = compute_verdict valid, attestation_ids = map att_verifier_id valid,
                     verifier_ids = map att_verifier_id valid,
                     quorum_status = (if agg_threshold agg \<le> int (length valid) then ATTESTED_OK else INSUFFICIENT_SIGNATURES),
                     quorum_created_at = now\<rparr>)"

definition is_quorum_reached :: "attestation_quorum \<Rightarrow> bool" where
  "is_quorum_reached q \<longleftrightarrow> quorum_status q = ATTESTED_OK"

definition get_verdict :: "attestation_quorum \<Rightarrow> string" where
  "get_verdict q = (if \<not> is_quorum_reached q then ''insufficient'' else quorum_decision q)"

section \<open>Reading back what was printed\<close>

lemma hex_digit_facts:
  "d < 16 \<Longrightarrow> hex_val (digit_char d) = Some d \<and> \<not> ascii_space (digit_char d) \<and> digit_char d \<noteq> CHR ''x''"
  by (auto simp: less_Suc_eq numeral_eq_Suc digit_char_def hex_val_def ascii_space_def char_code_def)

lemma from_hex_hex: "from_hex (hex bs) = Some bs"
proof (induction bs)
  case (Cons b bs)
  have "char_code b < 256" by (simp add: char_code_def)
  then have "char_code b div 16 < 16" "char_code b mod 16 < 16" by simp_all
  note d = this [THEN hex_digit_facts]
  have "char_of (16 * (char_code b div 16) + char_code b mod 16) = b" by (simp add: char_code_def)
  with Cons d show ?case by (simp add: hex_def hex_byte_def)
qed (simp add: hex_def)

lemma x_not_in_hex: "CHR ''x'' \<notin> set (hex bs)"
proof -
  have "CHR ''x'' \<notin> set (hex_byte b)" for b
  proof -
    have "char_code b < 256" by (simp add: char_code_def)
    then have "char_code b div 16 < 16" "char_code b mod 16 < 16" by simp_all
    note this [THEN hex_digit_facts]
    then show ?thesis by (auto simp: hex_byte_def)
  qed
  then show ?thesis by (auto simp: hex_def)
qed

lemma remove_0x_id: "CHR ''x'' \<notin> set s \<Longrightarrow> remove_0x s = s"
  by (induction s rule: remove_0x.induct) auto

lemma to_bytes32_hex: "bs \<noteq> [] \<Longrightarrow> to_bytes32 (hex bs) = Some (rjust32 bs)"
  using hex_inj [of bs "[]"] by (simp add: to_bytes32_def remove_0x_id x_not_in_hex from_hex_hex hex_def [of "[]"])

lemma be_value_append: "be_value (xs @ [c]) = 256 * be_value xs + char_code c"
  by (simp add: be_value_def)

lemma be_value_bytes: "n < 256 ^ k \<Longrightarrow> be_value (be_bytes k n) = n"
proof (induction k arbitrary: n)
  case (Suc k)
  then have "n div 256 < 256 ^ k" by (simp add: less_mult_imp_div_less mult.commute)
  with Suc.IH show ?case by (simp add: be_value_append char_code_def)
qed (simp add: be_value_def)

section \<open>Facts about the collection\<close>

lemma dedup_facts:
  "set (dedup seen as) \<subseteq> set as \<and> distinct (map att_verifier_id (dedup seen as)) \<and>
   att_verifier_id ` set (dedup seen as) = att_verifier_id ` set as - set seen"
  by (induction seen as rule: dedup.induct) auto

lemma filter_valid_Inr:
  "filter_valid check as = Inr valid \<Longrightarrow> valid = filter (\<lambda>a. check a = Inr True) as"
  by (induction check as arbitrary: valid rule: filter_valid.induct) (auto split: sum.splits if_splits)

text \<open>The attestations that count: deduplicated, registered, of one evidence hash, with a valid signature.\<close>

definition counted ::
    "(verifier_attestation \<Rightarrow> verifier_error + bool) \<Rightarrow> attestation_aggregator \<Rightarrow> verifier_attestation list \<Rightarrow>
     verifier_attestation list" where
  "counted check agg as =
     (case registry_filter agg (dedup [] as) of
        [] \<Rightarrow> []
      | first # _ \<Rightarrow> filter (\<lambda>a. check a = Inr True)
                      (filter (\<lambda>a. att_evidence_hash a = att_evidence_hash first) (registry_filter agg (dedup [] as))))"

lemma registry_filter_facts:
  "set (registry_filter agg as) \<subseteq> set as"
  "verifier_registry agg \<noteq> [] \<Longrightarrow> a \<in> set (registry_filter agg as) \<Longrightarrow> registered_active agg a"
  "distinct (map att_verifier_id as) \<Longrightarrow> distinct (map att_verifier_id (registry_filter agg as))"
  by (auto simp: registry_filter_def distinct_map_filter)

lemma collect_counted:
  assumes "collect check qid now agg as = Inr q" and "1 \<le> agg_threshold agg"
  defines "V \<equiv> counted check agg as"
  shows "verifier_ids q = map att_verifier_id V \<and> valid_signatures q = length V \<and>
         (is_quorum_reached q \<longleftrightarrow> agg_threshold agg \<le> int (length V)) \<and>
         quorum_decision q = compute_verdict V \<and>
         (\<forall>a \<in> set V. att_evidence_hash a = quorum_evidence_hash q \<and> check a = Inr True)"
proof (cases "registry_filter agg (dedup [] as)")
  case Nil
  then have "V = []" by (simp add: V_def counted_def)
  moreover have "q = empty_quorum agg qid now"
    using assms(1) Nil by (auto simp: collect_def split: if_splits)
  ultimately show ?thesis
    using assms(2) by (simp add: empty_quorum_def is_quorum_reached_def compute_verdict_def)
next
  case (Cons first rest)
  then have "as \<noteq> []" by (auto simp: registry_filter_def split: if_splits)
  with assms(1) Cons obtain valid where
    v: "filter_valid check (filter (\<lambda>a. att_evidence_hash a = att_evidence_hash first) (registry_filter agg (dedup [] as))) = Inr valid"
    and q: "verifier_ids q = map att_verifier_id valid" "valid_signatures q = length valid"
      "quorum_decision q = compute_verdict valid" "quorum_evidence_hash q = att_evidence_hash first"
      "quorum_status q = (if agg_threshold agg \<le> int (length valid) then ATTESTED_OK else INSUFFICIENT_SIGNATURES)"
    by (auto simp: collect_def Let_def split: sum.splits if_splits)
  have "valid = V" using filter_valid_Inr [OF v] Cons by (simp add: V_def counted_def)
  moreover have "\<forall>a \<in> set V. att_evidence_hash a = att_evidence_hash first \<and> check a = Inr True"
    by (auto simp: V_def counted_def Cons)
  ultimately show ?thesis using q by (simp add: is_quorum_reached_def)
qed

lemma counted_facts:
  "set (counted check agg as) \<subseteq> set as \<and> distinct (map att_verifier_id (counted check agg as)) \<and>
   (verifier_registry agg \<noteq> [] \<longrightarrow> (\<forall>a \<in> set (counted check agg as). registered_active agg a))"
proof -
  have "set (counted check agg as) \<subseteq> set (registry_filter agg (dedup [] as))"
    by (auto simp: counted_def split: list.splits)
  moreover have "distinct (map att_verifier_id (counted check agg as))"
    using registry_filter_facts(3) [of "dedup [] as" agg] dedup_facts [of "[]" as]
    by (auto simp: counted_def intro!: distinct_map_filter split: list.splits)
  ultimately show ?thesis
    using registry_filter_facts(1) [of agg "dedup [] as"] registry_filter_facts(2) dedup_facts [of "[]" as]
    by (meson subset_iff)
qed

section \<open>Properties\<close>


definition demo_attestation :: "string \<Rightarrow> string \<Rightarrow> verifier_attestation" where
  "demo_attestation vid eh =
     \<lparr>attestation_version = ''karma-attestation-v1'', att_task_id = ''t'', att_bundle_id = ''b'', att_evidence_hash = eh,
      att_cid = ''cid'', att_verifier_id = vid, verifier_wallet = ''0xw'', att_decision = ''STRUCT_OK'', reason_codes = [],
      verified_at = ''now'', chain_id = 0, contract_address = [], att_signature = ''0xs''\<rparr>"

definition demo_aggregator :: attestation_aggregator where
  "demo_aggregator = \<lparr>agg_threshold = 2, total_verifiers = 3, verifier_registry = []\<rparr>"


text \<open>
  One attestation can block a quorum. With no registry and a threshold above one, an attestation
  that comes first and names another evidence hash (its signature may be invalid) makes the
  aggregation drop all the others, however many valid ones follow: the first attestation fixes the
  canonical hash before any signature is checked.
\<close>

theorem first_attestation_blocks_quorum:
  assumes "verifier_registry agg = []" and "1 < agg_threshold agg"
    and "\<forall>a \<in> set honest. att_evidence_hash a \<noteq> att_evidence_hash bad"
    and "collect check qid now agg (bad # honest) = Inr q"
  shows "\<not> is_quorum_reached q"
proof -
  have "set (dedup [att_verifier_id bad] honest) \<subseteq> set honest" using dedup_facts by blast
  then have "filter (\<lambda>a. att_evidence_hash a = att_evidence_hash bad) (dedup [att_verifier_id bad] honest) = []"
    using assms(3) by (auto simp: filter_empty_conv)
  then have "length (counted check agg (bad # honest)) \<le> 1"
    using assms(1) by (simp add: counted_def registry_filter_def)
  with collect_counted [OF assms(4)] assms(2) show ?thesis by auto
qed

theorem first_attestation_blocks_quorum_witness:
  "\<exists>q. collect (\<lambda>a. Inr (att_verifier_id a \<noteq> ''x'')) ''q'' ''now'' demo_aggregator
         [demo_attestation ''x'' ''bb'', demo_attestation ''v1'' ''aa'', demo_attestation ''v2'' ''aa''] = Inr q \<and>
       \<not> is_quorum_reached q"
proof -
  let ?c = "\<lambda>a. Inr (att_verifier_id a \<noteq> ''x'')"
  let ?h = "[demo_attestation ''v1'' ''aa'', demo_attestation ''v2'' ''aa'']"
  have "case collect ?c ''q'' ''now'' demo_aggregator (demo_attestation ''x'' ''bb'' # ?h) of Inl _ \<Rightarrow> False | Inr q \<Rightarrow> True"
    by code_simp
  then obtain q where "collect ?c ''q'' ''now'' demo_aggregator (demo_attestation ''x'' ''bb'' # ?h) = Inr q"
    by (auto split: sum.splits)
  with first_attestation_blocks_quorum [OF _ _ _ this] show ?thesis
    by (simp add: demo_aggregator_def demo_attestation_def)
qed

text \<open>
  The registered wallet of a verifier plays no part in the aggregation: replacing the wallet
  addresses in the registry by any others changes nothing. A signature is only compared with the
  wallet that the attestation itself claims.
\<close>

theorem registered_wallets_are_ignored:
  "collect check qid now
     (agg\<lparr>verifier_registry := map (\<lambda>(vid, info). (vid, info\<lparr>wallet_address := w vid\<rparr>)) (verifier_registry agg)\<rparr>) as =
   collect check qid now agg as"
proof -
  let ?agg = "agg\<lparr>verifier_registry := map (\<lambda>(vid, info). (vid, info\<lparr>wallet_address := w vid\<rparr>)) (verifier_registry agg)\<rparr>"
  have m: "map_of (map (\<lambda>(vid, info). (vid, info\<lparr>wallet_address := w vid\<rparr>)) reg) k =
      map_option (\<lambda>info. info\<lparr>wallet_address := w k\<rparr>) (map_of reg k)" for k reg
    by (induction reg) auto
  then have "registered_active ?agg = registered_active agg"
    by (auto simp: registered_active_def fun_eq_iff m split: option.splits)
  then have "registry_filter ?agg = registry_filter agg" by (intro ext) (simp add: registry_filter_def)
  moreover have "empty_quorum ?agg = empty_quorum agg" by (intro ext) (simp add: empty_quorum_def)
  ultimately show ?thesis unfolding collect_def Let_def by (simp cong: sum.case_cong)
qed

text \<open>
  What a signature covers: the verdict about a signature does not change when the task id, the
  bundle id, the reason codes or the time of an attestation are replaced, so none of these is signed.
\<close>

theorem signature_leaves_out_task_id:
  "verify_attestation eth ec keccak
     (a\<lparr>att_task_id := t, att_bundle_id := b, reason_codes := rs, verified_at := v, attestation_version := ver\<rparr>) =
   verify_attestation eth ec keccak a"
  by (simp add: verify_attestation_def build_attestation_eip712_payload_def verify_attestation_pure_python_def
      Let_def cong: option.case_cong)

text \<open>
  The pure-Python fallback accepts nothing. The generator point it uses has an x coordinate of 65
  hexadecimal digits and does not lie on the curve; since the constructor of a curve point refuses
  such points, every verification through the fallback returns \<open>False\<close>.
\<close>

theorem fallback_verifies_nothing:
  assumes "\<forall>p a b x y n. ec_point ec p a b x y n \<noteq> None \<longrightarrow> on_curve p a b x y"
  shows "\<not> verify_attestation_pure_python ec keccak att payload \<and>
         \<not> on_curve SECP256k1_curve_p SECP256k1_curve_a SECP256k1_curve_b SECP256k1_generator_x SECP256k1_generator_y"
proof -
  have off: "\<not> on_curve SECP256k1_curve_p SECP256k1_curve_a SECP256k1_curve_b SECP256k1_generator_x SECP256k1_generator_y"
    by (simp add: on_curve_def SECP256k1_curve_p_def SECP256k1_curve_a_def SECP256k1_curve_b_def
        SECP256k1_generator_x_def SECP256k1_generator_y_def)
  have "ec_point ec SECP256k1_curve_p SECP256k1_curve_a SECP256k1_curve_b SECP256k1_generator_x
      SECP256k1_generator_y SECP256k1_curve_order = None" using off assms by blast
  then have "recover_address_from_signature ec keccak d r s v = None" for d r s v
    by (simp add: recover_address_from_signature_def Let_def)
  with off show ?thesis
    by (auto simp: verify_attestation_pure_python_def split: option.splits)
qed

definition demo_ec :: "(int \<times> int) ec_lib" where
  "demo_ec =
     \<lparr>ec_point = (\<lambda>p a b x y n. if on_curve p a b x y then Some (x, y) else None), ec_mul = (\<lambda>P k. P),
      ec_add = (\<lambda>P Q. P), ec_neg = (\<lambda>P. P), ec_x = fst, ec_y = snd, inverse_mod = (\<lambda>r n. Some r)\<rparr>"

theorem fallback_verifies_nothing_witness:
  "\<forall>payload. \<not> verify_attestation_pure_python demo_ec id (demo_attestation ''v'' ''aa'') payload"
proof -
  have "\<forall>p a b x y n. ec_point demo_ec p a b x y n \<noteq> None \<longrightarrow> on_curve p a b x y"
    by (simp add: demo_ec_def)
  from fallback_verifies_nothing [OF this] show ?thesis by blast
qed

text \<open>
  The attestation of a node. A node decides \<open>STRUCT_OK\<close> exactly when both rules do, names itself
  and its wallet in lower case, carries the hash of the bundle, and the payload to be signed can
  always be built from it and signs the digest of the bundle.
\<close>

theorem node_attestation:
  assumes "verify sha node now task bndl receipts cid = Inr a" and "sha (canonical_json_bytes bndl) \<noteq> []"
  shows "(att_decision a = ''STRUCT_OK'' \<longleftrightarrow>
            structural_spec sha task bndl receipts \<and> integrity_spec sha bndl receipts task) \<and>
         att_verifier_id a = verifier_id node \<and> verifier_wallet a = node_wallet node \<and>
         att_evidence_hash a = evidence_hash sha bndl \<and>
         (\<exists>payload. build_attestation_eip712_payload a = Some payload \<and>
            map_of (eip_message payload) ''evidenceHash'' = Some (EBytes (rjust32 (sha (canonical_json_bytes bndl)))))"
proof -
  obtain sd sr id ir where r: "structural_verify sha task bndl receipts = Inr (sd, sr)"
    "verify_evidence_integrity sha bndl receipts task = Inr (id, ir)"
    using assms(1) by (auto simp: verify_def split: sum.splits)
  have ok: "(sd = STRUCT_OK \<longleftrightarrow> structural_spec sha task bndl receipts) \<and>
      (id = STRUCT_OK \<longleftrightarrow> integrity_spec sha bndl receipts task)"
  proof -
    have "structural_spec sha task bndl receipts \<longleftrightarrow> (\<exists>rs. structural_verify sha task bndl receipts = Inr (STRUCT_OK, rs))"
      "integrity_spec sha bndl receipts task \<longleftrightarrow> (\<exists>rs. verify_evidence_integrity sha bndl receipts task = Inr (STRUCT_OK, rs))"
      by (simp_all add: structural_verify_ok_iff verify_evidence_integrity_ok_iff)
    with r show ?thesis by auto
  qed
  have a: "att_decision a = (if sd = STRUCT_OK \<and> id = STRUCT_OK then ''STRUCT_OK'' else ''STRUCT_FAIL'')"
    "att_verifier_id a = verifier_id node" "verifier_wallet a = node_wallet node"
    "att_evidence_hash a = evidence_hash sha bndl"
    using assms(1) r by (auto simp: verify_def)
  have "to_bytes32 (att_evidence_hash a) = Some (rjust32 (sha (canonical_json_bytes bndl)))"
    using assms(2) by (simp add: a evidence_hash_def sha256_hex_def to_bytes32_hex)
  then have "\<exists>payload. build_attestation_eip712_payload a = Some payload \<and>
      map_of (eip_message payload) ''evidenceHash'' = Some (EBytes (rjust32 (sha (canonical_json_bytes bndl))))"
    by (simp add: build_attestation_eip712_payload_def Let_def)
  with a ok show ?thesis by auto
qed

theorem node_attestation_witness:
  "\<exists>a. verify id \<lparr>verifier_id = ''v'', node_wallet = ''0xw'', verifier_registry_url = [], rpc_url = []\<rparr> ''now'' demo_task
         (demo_bundle []) [] ''cid'' = Inr a \<and> att_decision a \<noteq> ''STRUCT_OK'' \<and> att_verifier_id a = ''v''"
proof -
  let ?n = "\<lparr>verifier_id = ''v'', node_wallet = ''0xw'', verifier_registry_url = [], rpc_url = []\<rparr>"
  have "case verify id ?n ''now'' demo_task (demo_bundle []) [] ''cid'' of Inl _ \<Rightarrow> False | Inr _ \<Rightarrow> True"
    by code_simp
  then obtain a where a: "verify id ?n ''now'' demo_task (demo_bundle []) [] ''cid'' = Inr a"
    by (auto split: sum.splits)
  have "id (canonical_json_bytes (demo_bundle [])) \<noteq> []" by code_simp
  from node_attestation [OF a this] a show ?thesis by (auto simp: structural_spec_def)
qed

end
