(* ===== verification/Verifier_Services.thy ===== *)
theory Verifier_Services
  imports Verifier_Rules
begin

text \<open>
  The services around the verifier network: the publication of evidence bundles
  (\<^verbatim>\<open>decentralized_verifier/publisher.py\<close>) and the worker tasks on its database tables
  (\<^verbatim>\<open>decentralized_verifier/tasks.py\<close>). The storage networks, the signer and the fresh ids are
  arguments; a table is a list of rows. Confidence and reputation are exact rationals.
\<close>

section \<open>Publication\<close>

record evidence_publication =
  pub_id :: string
  pub_task_id :: string
  pub_bundle_id :: string
  pub_evidence_hash :: string
  pub_cid :: string
  storage_provider :: string
  published_at :: string
  publisher_actor :: string
  publisher_signature :: string

text \<open>
  The storage networks: \<open>ipfs_add\<close> gives the CID returned by an attempt (\<open>None\<close> for an HTTP error
  or an exception), \<open>ipfs_cat\<close> the content of a CID, \<open>put_object\<close> tells whether the cache accepted
  an object.
\<close>

record storage =
  ipfs_add :: "nat \<Rightarrow> bytes \<Rightarrow> string option"
  ipfs_cat :: "string \<Rightarrow> bytes option"
  put_object :: "(string \<Rightarrow> string \<Rightarrow> bytes \<Rightarrow> bool) option"
  signer :: "(string \<Rightarrow> string) option"

fun upload_attempts :: "(nat \<Rightarrow> bytes \<Rightarrow> string option) \<Rightarrow> bytes \<Rightarrow> nat list \<Rightarrow> string \<times> string" where
  "upload_attempts add payload [] = ([], [])"
| "upload_attempts add payload (k # ks) =
     (case add k payload of
        Some cid \<Rightarrow> if cid \<noteq> [] then (cid, ''ipfs'') else upload_attempts add payload ks
      | None \<Rightarrow> upload_attempts add payload ks)"

definition upload_to_ipfs :: "storage \<Rightarrow> dict \<Rightarrow> string \<times> string" where
  "upload_to_ipfs st bndl = upload_attempts (ipfs_add st) (canonical_json_bytes bndl) [0, 1]"

definition upload_to_minio :: "(string \<Rightarrow> string \<Rightarrow> bytes \<Rightarrow> bool) \<Rightarrow> dict \<Rightarrow> string \<Rightarrow> bool" where
  "upload_to_minio put bndl h =
     put ''karma-evidence'' (''evidence/'' @ take 2 h @ ''/'' @ h @ ''.json'') (canonical_json_bytes bndl)"

definition sign_proof :: "(bytes \<Rightarrow> bytes) \<Rightarrow> (string \<Rightarrow> string) \<Rightarrow> string \<Rightarrow> string \<Rightarrow> string \<Rightarrow> string" where
  "sign_proof sha sign h cid ts = sign (hex (sha (h @ cid @ ts)))"

definition get_str :: "dict \<Rightarrow> string \<Rightarrow> string" where
  "get_str d k = (case dict_get_or d k (JStr []) of JStr s \<Rightarrow> s | _ \<Rightarrow> [])"

definition publish_bundle :: "(bytes \<Rightarrow> bytes) \<Rightarrow> storage \<Rightarrow> string \<Rightarrow> dict \<Rightarrow> string \<Rightarrow> evidence_publication" where
  "publish_bundle sha st now bndl publisher =
     (let eh = evidence_hash sha bndl;
          (cid, provider0) = upload_to_ipfs st bndl;
          provider1 = (if cid = [] then ''none'' else provider0);
          provider = (case put_object st of
                        None \<Rightarrow> provider1
                      | Some put \<Rightarrow> if upload_to_minio put bndl eh
                                    then (if provider1 = ''ipfs'' then ''ipfs+minio'' else ''minio'')
                                    else provider1);
          sig = (case signer st of None \<Rightarrow> [] | Some sign \<Rightarrow> if cid \<noteq> [] then sign_proof sha sign eh cid now else []);
          bundle_id = get_str bndl ''bundle_id''
      in \<lparr>pub_id = ''pub-'' @ (if bundle_id \<noteq> [] then bundle_id else take 12 eh),
          pub_task_id = get_str bndl ''task_id'', pub_bundle_id = bundle_id, pub_evidence_hash = eh, pub_cid = cid,
          storage_provider = provider, published_at = now, publisher_actor = publisher, publisher_signature = sig\<rparr>)"

text \<open>\<open>json.loads\<close> is the argument \<open>loads\<close>; any failure makes the check return \<open>False\<close>.\<close>

definition verify_publication ::
    "(bytes \<Rightarrow> bytes) \<Rightarrow> (bytes \<Rightarrow> json option) \<Rightarrow> storage \<Rightarrow> string \<Rightarrow> string \<Rightarrow> bool" where
  "verify_publication sha loads st cid expected =
     (case ipfs_cat st cid of
        None \<Rightarrow> False
      | Some raw \<Rightarrow> (case loads raw of Some j \<Rightarrow> sha256_hex sha (canonical_json j) = expected | None \<Rightarrow> False))"

section \<open>Tables of the worker\<close>

record verifier_row =
  row_id :: string
  is_active :: bool
  total_attestations :: int
  successful_attestations :: int
  reputation_score :: rat

record attestation_row =
  ar_id :: string
  ar_task_id :: string
  ar_verifier_id :: string
  ar_bundle_id :: string
  ar_decision :: string
  confidence :: rat
  checks_passed :: int
  checks_total :: int
  eip712_signature :: "string option"

record challenge_row =
  ch_id :: string
  ch_status :: string
  window_end :: "int option"
  resolved_at :: "int option"
  resolution :: "string option"

section \<open>Verification of a bundle for all active verifiers\<close>

text \<open>A result of a rule as the dictionary the source returns.\<close>

definition decision_value :: "rule_decision \<Rightarrow> string" where
  "decision_value d = (case d of STRUCT_OK \<Rightarrow> ''STRUCT_OK'' | STRUCT_FAIL \<Rightarrow> ''STRUCT_FAIL'')"

definition result_dict :: "rule_result \<Rightarrow> dict" where
  "result_dict r = [(''decision'', JStr (decision_value (fst r))), (''reasons'', JList (map JStr (snd r)))]"

text \<open>One rule: \<open>result.get("valid", False)\<close> decides; the confidence is updated when it does not hold.\<close>

definition run_checks ::
    "(bytes \<Rightarrow> bytes) \<Rightarrow> string \<Rightarrow> string \<Rightarrow> string \<times> rat \<times> int \<times> int" where
  "run_checks sha tid bid =
     (let task_dict = [(''task_id'', JStr tid)];
          bundle_dict = [(''task_id'', JStr tid), (''bundle_id'', JStr bid), (''receipt_hashes'', JList []),
                         (''receipt_ids'', JList []), (''final_result_hash'', JStr []), (''total_steps'', JInt 0)]
      in case structural_verify sha task_dict bundle_dict [] of
           Inl _ \<Rightarrow> (''FLAGGED'', 0, 0, 0)
         | Inr struct_result \<Rightarrow>
           (let ok1 = truthy (dict_get_or (result_dict struct_result) ''valid'' (JBool False));
                passed1 = (if ok1 then 1 else 0); dec1 = (if ok1 then ''ATTESTED_OK'' else ''ATTESTED_FAIL'');
                conf1 = (if ok1 then 1 else 1 / 2)
            in case verify_evidence_integrity sha bundle_dict [] task_dict of
                 Inl _ \<Rightarrow> (''FLAGGED'', 0, passed1, 1)
               | Inr evidence_result \<Rightarrow>
                 (let ok2 = truthy (dict_get_or (result_dict evidence_result) ''valid'' (JBool False))
                  in if ok2 then (dec1, conf1, passed1 + 1, 2)
                     else (''ATTESTED_FAIL'', min conf1 (3 / 10), passed1, 2))))"

definition verify_for ::
    "(bytes \<Rightarrow> bytes) \<Rightarrow> bool \<Rightarrow> string \<Rightarrow> string \<Rightarrow> string \<Rightarrow> verifier_row \<Rightarrow> verifier_row \<times> attestation_row" where
  "verify_for sha rules_available uid tid bid v =
     (let (dec, conf, passed, n) = (if rules_available then run_checks sha tid bid else (''ATTESTED_OK'', 1, 1, 1))
      in (v\<lparr>total_attestations := total_attestations v + 1,
            successful_attestations := successful_attestations v + (if dec = ''ATTESTED_OK'' then 1 else 0)\<rparr>,
          \<lparr>ar_id = uid, ar_task_id = tid, ar_verifier_id = row_id v, ar_bundle_id = bid, ar_decision = dec,
           confidence = conf, checks_passed = passed, checks_total = n, eip712_signature = None\<rparr>))"

text \<open>The whole task on both tables, with the number of attestations; \<open>uid\<close> gives the fresh ids.\<close>

fun verify_all ::
    "(bytes \<Rightarrow> bytes) \<Rightarrow> bool \<Rightarrow> (nat \<Rightarrow> string) \<Rightarrow> string \<Rightarrow> string \<Rightarrow> verifier_row list \<Rightarrow>
     verifier_row list \<times> attestation_row list" where
  "verify_all sha rules uid tid bid [] = ([], [])"
| "verify_all sha rules uid tid bid (v # vs) =
     (let (vs', as) = verify_all sha rules uid tid bid vs in
      if is_active v
      then (let (v', a) = verify_for sha rules (uid (length vs)) tid bid v in (v' # vs', a # as))
      else (v # vs', as))"

definition auto_verify ::
    "(bytes \<Rightarrow> bytes) \<Rightarrow> bool \<Rightarrow> (nat \<Rightarrow> string) \<Rightarrow> string \<Rightarrow> string \<Rightarrow> verifier_row list \<Rightarrow> attestation_row list \<Rightarrow>
     verifier_row list \<times> attestation_row list \<times> nat" where
  "auto_verify sha rules uid tid bid verifiers attestations =
     (let (vs, new) = verify_all sha rules uid tid bid verifiers
      in (vs, attestations @ new, length new))"

section \<open>Expiry of challenges, reputation, chain synchronisation\<close>

definition expirable :: "int \<Rightarrow> challenge_row \<Rightarrow> bool" where
  "expirable now c \<longleftrightarrow>
     ch_status c \<in> {''OPEN'', ''ACTIVE''} \<and> (case window_end c of None \<Rightarrow> False | Some e \<Rightarrow> e < now)"

definition expire_challenges :: "int \<Rightarrow> challenge_row list \<Rightarrow> challenge_row list \<times> nat" where
  "expire_challenges now rows =
     (map (\<lambda>c. if expirable now c
               then c\<lparr>ch_status := ''EXPIRED'', resolved_at := Some now, resolution := Some ''Challenge window expired''\<rparr>
               else c) rows,
      length (filter (expirable now) rows))"

definition update_reputation_row :: "verifier_row \<Rightarrow> verifier_row" where
  "update_reputation_row v =
     (if 0 < total_attestations v
      then let success_rate = of_int (successful_attestations v) / of_int (total_attestations v);
               alpha = 3 / 10;
               new_score = (1 - alpha) * reputation_score v + alpha * (success_rate * 100)
           in v\<lparr>reputation_score := py_round new_score 4\<rparr>
      else v)"

definition update_reputation :: "verifier_row list \<Rightarrow> verifier_row list \<times> nat" where
  "update_reputation rows = (map update_reputation_row rows, length rows)"

definition sync_to_chain :: "string \<Rightarrow> attestation_row list \<Rightarrow> nat" where
  "sync_to_chain tid rows = length (filter (\<lambda>a. ar_task_id a = tid \<and> eip712_signature a \<noteq> None) rows)"

section \<open>Facts\<close>

lemma result_has_no_valid: "dict_get_or (result_dict r) ''valid'' (JBool False) = JBool False"
  by (simp add: result_dict_def dict_get_or_def)

lemma run_checks_fail: "run_checks sha tid bid = (''ATTESTED_FAIL'', 3 / 10, 0, 2)"
  by (simp add: run_checks_def result_has_no_valid truthy_def Let_def structural_verify_def
      verify_evidence_integrity_def missing_keys_def dict_get_def)

lemma upload_attempts_ipfs:
  "upload_attempts add payload ks = (cid, provider) \<Longrightarrow> cid \<noteq> [] \<Longrightarrow>
     provider = ''ipfs'' \<and> (\<exists>k. add k payload = Some cid)"
  by (induction add payload ks rule: upload_attempts.induct) (auto split: option.splits if_splits)

lemma verify_all_facts:
  assumes "verify_all sha True uid tid bid vs = (vs', as)"
  shows "map row_id vs' = map row_id vs \<and> map is_active vs' = map is_active vs \<and>
         map successful_attestations vs' = map successful_attestations vs \<and>
         map total_attestations vs' = map (\<lambda>v. total_attestations v + (if is_active v then 1 else 0)) vs \<and>
         length as = length (filter is_active vs) \<and>
         (\<forall>a \<in> set as. ar_decision a = ''ATTESTED_FAIL'' \<and> ar_task_id a = tid \<and> ar_bundle_id a = bid)"
  using assms
proof (induction vs arbitrary: vs' as)
  case (Cons v vs)
  obtain ws bs where "verify_all sha True uid tid bid vs = (ws, bs)" by (cases "verify_all sha True uid tid bid vs")
  with Cons show ?case by (auto simp: verify_for_def run_checks_fail Let_def split: if_splits)
qed simp

lemma reputation_row_bounds:
  assumes "0 \<le> reputation_score v" "reputation_score v \<le> 100"
    and "0 \<le> successful_attestations v" "successful_attestations v \<le> total_attestations v"
  shows "0 \<le> reputation_score (update_reputation_row v) \<and> reputation_score (update_reputation_row v) \<le> 100"
proof (cases "0 < total_attestations v")
  case True
  let ?r = "of_int (successful_attestations v) / of_int (total_attestations v) :: rat"
  let ?n = "(1 - 3 / 10) * reputation_score v + 3 / 10 * (?r * 100)"
  have r: "0 \<le> ?r" "?r \<le> 1" using assms(3,4) True by (simp_all add: divide_le_eq)
  have "of_int 0 \<le> ?n" "?n \<le> of_int 100" using r assms(1,2) by simp_all
  from py_round_ge [OF this(1), of 4] py_round_le [OF this(2), of 4]
  have "of_int 0 \<le> py_round ?n 4" "py_round ?n 4 \<le> of_int 100" .
  with True show ?thesis by (simp add: update_reputation_row_def Let_def)
next
  case False
  with assms show ?thesis by (simp add: update_reputation_row_def)
qed

section \<open>Properties\<close>

text \<open>
  The automatic verification fails every bundle. With the rules available, the task records one
  attestation per active verifier and every one of them is \<open>ATTESTED_FAIL\<close>, whatever the bundle is:
  the task looks for a key \<open>valid\<close> that the rules never return. The number of successful attestations
  of a verifier never grows.
\<close>

theorem auto_verify_fails_every_bundle:
  assumes "auto_verify sha True uid tid bid verifiers attestations = (verifiers', attestations', n)"
  shows "n = length (filter is_active verifiers) \<and>
         (\<exists>new. attestations' = attestations @ new \<and> length new = n \<and>
                (\<forall>a \<in> set new. ar_decision a = ''ATTESTED_FAIL'')) \<and>
         map successful_attestations verifiers' = map successful_attestations verifiers \<and>
         map total_attestations verifiers' =
           map (\<lambda>v. total_attestations v + (if is_active v then 1 else 0)) verifiers"
proof -
  obtain vs new where v: "verify_all sha True uid tid bid verifiers = (vs, new)"
    by (cases "verify_all sha True uid tid bid verifiers")
  with assms have "verifiers' = vs" "attestations' = attestations @ new" "n = length new"
    by (simp_all add: auto_verify_def)
  with verify_all_facts [OF v] show ?thesis by auto
qed

definition demo_verifier :: verifier_row where
  "demo_verifier = \<lparr>row_id = ''v1'', is_active = True, total_attestations = 0, successful_attestations = 0,
                    reputation_score = 100\<rparr>"

theorem auto_verify_fails_every_bundle_witness:
  "\<exists>vs as. auto_verify id True show_nat ''t'' ''b'' [demo_verifier] [] = (vs, as, 1) \<and>
           list_all (\<lambda>a. ar_decision a = ''ATTESTED_FAIL'') as"
proof -
  obtain vs as n where r: "auto_verify id True show_nat ''t'' ''b'' [demo_verifier] [] = (vs, as, n)"
    by (metis surj_pair)
  from auto_verify_fails_every_bundle [OF r] r show ?thesis by (auto simp: demo_verifier_def list_all_iff)
qed

text \<open>
  The reputation of a verifier stays between 0 and 100 when it starts there and the successes do
  not exceed the attestations; a verifier without attestations keeps its score; nothing else of the
  table changes.
\<close>

theorem reputation_stays_in_bounds:
  assumes "\<forall>v \<in> set rows. 0 \<le> reputation_score v \<and> reputation_score v \<le> 100 \<and>
             0 \<le> successful_attestations v \<and> successful_attestations v \<le> total_attestations v"
    and "update_reputation rows = (rows', n)"
  shows "(\<forall>v \<in> set rows'. 0 \<le> reputation_score v \<and> reputation_score v \<le> 100) \<and> n = length rows \<and>
         map row_id rows' = map row_id rows \<and> map total_attestations rows' = map total_attestations rows \<and>
         (\<forall>i < length rows. total_attestations (rows ! i) = 0 \<longrightarrow> rows' ! i = rows ! i)"
proof -
  have "rows' = map update_reputation_row rows" "n = length rows"
    using assms(2) by (simp_all add: update_reputation_def)
  moreover have "row_id (update_reputation_row v) = row_id v \<and>
      total_attestations (update_reputation_row v) = total_attestations v \<and>
      (total_attestations v = 0 \<longrightarrow> update_reputation_row v = v)" for v
    by (simp add: update_reputation_row_def Let_def)
  ultimately show ?thesis
    using assms(1) reputation_row_bounds by auto
qed

theorem reputation_stays_in_bounds_witness:
  "list_all (\<lambda>v. reputation_score v \<le> 100) (fst (update_reputation [demo_verifier]))"
  unfolding list_all_iff
  using reputation_stays_in_bounds [of "[demo_verifier]" "fst (update_reputation [demo_verifier])" 1]
  by (simp add: demo_verifier_def update_reputation_def)

text \<open>
  Publishing and checking round-trip. If the storage network returns for a CID what was added
  under it and \<open>json.loads\<close> reads back a serialised document up to key order, then a publication with
  a CID verifies against its own evidence hash; its provider then is \<open>ipfs\<close>, or \<open>ipfs+minio\<close>, or
  \<open>minio\<close>.
\<close>

theorem published_bundle_verifies:
  assumes "\<forall>k payload cid. ipfs_add st k payload = Some cid \<longrightarrow> ipfs_cat st cid = Some payload"
    and "loads (canonical_json (JObj bndl)) = Some j'" and "same_json (JObj bndl) j'"
    and "pub_cid (publish_bundle sha st now bndl publisher) \<noteq> []"
  shows "verify_publication sha loads st (pub_cid (publish_bundle sha st now bndl publisher))
           (pub_evidence_hash (publish_bundle sha st now bndl publisher)) \<and>
         storage_provider (publish_bundle sha st now bndl publisher) \<in> {''ipfs'', ''ipfs+minio'', ''minio''}"
proof -
  let ?p = "publish_bundle sha st now bndl publisher"
  obtain cid provider where up: "upload_to_ipfs st bndl = (cid, provider)" by (cases "upload_to_ipfs st bndl")
  then have p: "pub_cid ?p = cid" "pub_evidence_hash ?p = evidence_hash sha bndl"
    by (simp_all add: publish_bundle_def Let_def)
  with assms(4) have "cid \<noteq> []" by simp
  with up upload_attempts_ipfs obtain k where "provider = ''ipfs''" "ipfs_add st k (canonical_json_bytes bndl) = Some cid"
    unfolding upload_to_ipfs_def by blast
  moreover from this(2) assms(1) have "ipfs_cat st cid = Some (canonical_json (JObj bndl))"
    by (auto simp: canonical_json_bytes_def)
  moreover have "canonical_json j' = canonical_json (JObj bndl)"
    using dumps_same_json [OF assms(3)] by (simp only: canonical_json_def)
  ultimately have "verify_publication sha loads st cid (evidence_hash sha bndl)"
    using assms(2) by (simp add: verify_publication_def evidence_hash_def canonical_json_bytes_def)
  moreover have "storage_provider ?p \<in> {''ipfs'', ''ipfs+minio'', ''minio''}"
    using up \<open>cid \<noteq> []\<close> \<open>provider = ''ipfs''\<close> by (auto simp: publish_bundle_def Let_def split: option.splits)
  ultimately show ?thesis by (simp only: p)
qed

text \<open>A storage that keeps everything under the content itself.\<close>

definition demo_storage :: storage where
  "demo_storage = \<lparr>ipfs_add = (\<lambda>k payload. Some payload), ipfs_cat = Some, put_object = None, signer = None\<rparr>"

theorem published_bundle_verifies_witness:
  "verify_publication id (\<lambda>_. Some (JObj [(''task_id'', JStr ''t'')])) demo_storage
     (pub_cid (publish_bundle id demo_storage ''now'' [(''task_id'', JStr ''t'')] ''p''))
     (pub_evidence_hash (publish_bundle id demo_storage ''now'' [(''task_id'', JStr ''t'')] ''p''))"
proof -
  have "pub_cid (publish_bundle id demo_storage ''now'' [(''task_id'', JStr ''t'')] ''p'') \<noteq> []"
    by code_simp
  with published_bundle_verifies [OF _ _ same_refl this, of "\<lambda>_. Some (JObj [(''task_id'', JStr ''t'')])"]
  show ?thesis by (simp add: demo_storage_def)
qed

text \<open>
  The expiry task changes exactly the open or active challenges whose window has ended, counts
  them, and has nothing left to do when it runs again at the same time.
\<close>

theorem expiry_is_exact_and_idempotent:
  assumes "expire_challenges now rows = (rows', n)"
  shows "length rows' = length rows \<and>
         (\<forall>i < length rows. if expirable now (rows ! i)
            then ch_status (rows' ! i) = ''EXPIRED'' \<and> resolved_at (rows' ! i) = Some now
            else rows' ! i = rows ! i) \<and>
         n = length (filter (expirable now) rows) \<and> expire_challenges now rows' = (rows', 0)"
proof -
  have rows': "rows' = map (\<lambda>c. if expirable now c
      then c\<lparr>ch_status := ''EXPIRED'', resolved_at := Some now, resolution := Some ''Challenge window expired''\<rparr>
      else c) rows" and n: "n = length (filter (expirable now) rows)"
    using assms by (simp_all add: expire_challenges_def)
  have "\<forall>c \<in> set rows'. \<not> expirable now c" by (auto simp: rows' expirable_def)
  then have "expire_challenges now rows' = (rows', 0)"
    by (auto simp: expire_challenges_def filter_empty_conv intro: map_idI)
  with rows' n show ?thesis by auto
qed

theorem expiry_is_exact_and_idempotent_witness:
  "\<exists>rows'. expire_challenges 10 [\<lparr>ch_id = ''c'', ch_status = ''OPEN'', window_end = Some 5, resolved_at = None,
       resolution = None\<rparr>] = (rows', 1) \<and> expire_challenges 10 rows' = (rows', 0)"
proof -
  obtain rows' n where r: "expire_challenges 10 [\<lparr>ch_id = ''c'', ch_status = ''OPEN'', window_end = Some 5,
      resolved_at = None, resolution = None\<rparr>] = (rows', n)" by (metis surj_pair)
  from expiry_is_exact_and_idempotent [OF r] r show ?thesis by (simp add: expirable_def)
qed

end
