(* ===== verification/Challenge_Window.thy ===== *)
theory Challenge_Window
  imports Py_Std
begin

text \<open>
  The challenge window that gates settlement (\<^verbatim>\<open>decentralized_verifier/challenge/window.py\<close>, with
  the types and durations of \<^verbatim>\<open>decentralized_verifier/__init__.py\<close>). Time is counted in
  microseconds; every clock reading is an argument, as is the random part of a challenge id. A window
  object is passed to each operation and returned with its changes; of the manager's entry for a task
  only the challenge is ever read back, so this is what the entry holds.
\<close>

section \<open>Data\<close>

datatype challenge_window_status = PENDING | OPEN | CLOSED | DISPUTED

datatype challenge_decision = UPHELD | OVERRULED

primrec window_status_value :: "challenge_window_status \<Rightarrow> string" where
  "window_status_value PENDING = ''pending''"
| "window_status_value OPEN = ''open''"
| "window_status_value CLOSED = ''closed''"
| "window_status_value DISPUTED = ''disputed''"

primrec challenge_decision_value :: "challenge_decision \<Rightarrow> string" where
  "challenge_decision_value UPHELD = ''upheld''"
| "challenge_decision_value OVERRULED = ''overruled''"

record challenge_window =
  cw_challenge_id :: string
  cw_task_id :: string
  cw_evidence_hash :: string
  start_at :: int
  end_at :: int
  duration_seconds :: int
  cw_status :: challenge_window_status

record challenge_record =
  cr_challenge_id :: string
  cr_task_id :: string
  challenger_wallet :: string
  reason_code :: string
  cr_evidence_hash :: string
  challenge_evidence_cid :: string
  cr_status :: string
  cr_decision :: string
  cr_created_at :: int

definition CHALLENGE_DURATIONS :: "string \<rightharpoonup> int" where
  "CHALLENGE_DURATIONS =
     [''api'' \<mapsto> 1800, ''mcp'' \<mapsto> 1800, ''data_content'' \<mapsto> 86400, ''ai_content'' \<mapsto> 86400,
      ''multi_agent'' \<mapsto> 86400, ''chain_operation'' \<mapsto> 1800, ''default'' \<mapsto> 1800]"

text \<open>The windows a manager knows, each with its challenge if one was raised.\<close>

record window_manager =
  default_duration_seconds :: int
  windows :: "string \<rightharpoonup> challenge_record option"

datatype window_error = ValueError string

definition new_window_manager :: "int \<Rightarrow> window_manager" where
  "new_window_manager d = \<lparr>default_duration_seconds = d, windows = Map.empty\<rparr>"

section \<open>Operations\<close>

definition open_window ::
    "int \<Rightarrow> string \<Rightarrow> string \<Rightarrow> string \<Rightarrow> int option \<Rightarrow> window_manager \<Rightarrow>
     window_error + window_manager \<times> challenge_window" where
  "open_window now tid ehash task_type duration mgr =
     (if windows mgr tid \<noteq> None
      then Inl (ValueError (''Challenge window already exists for task_id='' @ tid))
      else
        let dur = (case duration of None \<Rightarrow> default_duration_seconds mgr
                   | Some d \<Rightarrow> if d = 0 then default_duration_seconds mgr else d);
            start = now div 1000000 * 1000000
        in Inr (mgr\<lparr>windows := (windows mgr)(tid \<mapsto> None)\<rparr>,
                \<lparr>cw_challenge_id = ''challenge-'' @ tid, cw_task_id = tid, cw_evidence_hash = ehash, start_at = start,
                 end_at = start + dur * 1000000, duration_seconds = dur, cw_status = OPEN\<rparr>))"

definition sync_window_status :: "int \<Rightarrow> challenge_window \<Rightarrow> challenge_window" where
  "sync_window_status now w =
     (if cw_status w = OPEN \<and> end_at w < now then w\<lparr>cw_status := CLOSED\<rparr> else w)"

definition is_window_open :: "int \<Rightarrow> challenge_window \<Rightarrow> challenge_window \<times> bool" where
  "is_window_open now w = (let w' = sync_window_status now w in (w', cw_status w' = OPEN))"

definition is_window_closed :: "int \<Rightarrow> challenge_window \<Rightarrow> challenge_window \<times> bool" where
  "is_window_closed now w = (let w' = sync_window_status now w in (w', cw_status w' = CLOSED))"

definition can_settle :: "int \<Rightarrow> challenge_window \<Rightarrow> challenge_window \<times> bool" where
  "can_settle now w = (let w' = sync_window_status now w in (w', cw_status w' = CLOSED))"

text \<open>The clock is read once for the status and once for the remaining time.\<close>

definition get_remaining_seconds :: "int \<Rightarrow> int \<Rightarrow> challenge_window \<Rightarrow> challenge_window \<times> int" where
  "get_remaining_seconds now now' w =
     (let w' = sync_window_status now w
      in (w', if cw_status w' \<noteq> OPEN then 0
              else let remaining = end_at w' - now' in if 0 \<le> remaining then remaining div 1000000 else 0))"

definition raise_challenge ::
    "int \<Rightarrow> int \<Rightarrow> string \<Rightarrow> string \<Rightarrow> string \<Rightarrow> string \<Rightarrow> window_manager \<Rightarrow> challenge_window \<Rightarrow>
     window_manager \<times> challenge_window \<times> (window_error + challenge_record)" where
  "raise_challenge now now' rnd challenger reason cid mgr w0 =
     (let w = sync_window_status now w0 in
      if cw_status w \<noteq> OPEN
      then (mgr, w, Inl (ValueError (''Cannot raise challenge: window status is '' @ window_status_value (cw_status w))))
      else case windows mgr (cw_task_id w) of
        None \<Rightarrow> (mgr, w, Inl (ValueError (''No window state found for task_id='' @ cw_task_id w)))
      | Some (Some _) \<Rightarrow> (mgr, w, Inl (ValueError (''Challenge already raised for task_id='' @ cw_task_id w)))
      | Some None \<Rightarrow>
          (let record = \<lparr>cr_challenge_id = ''challenge-'' @ cw_task_id w @ ''-'' @ rnd, cr_task_id = cw_task_id w,
                         challenger_wallet = challenger, reason_code = reason, cr_evidence_hash = cw_evidence_hash w,
                         challenge_evidence_cid = cid, cr_status = ''open'', cr_decision = [], cr_created_at = now'\<rparr>
           in (mgr\<lparr>windows := (windows mgr)(cw_task_id w \<mapsto> Some record)\<rparr>, w\<lparr>cw_status := DISPUTED\<rparr>, Inr record)))"

definition resolve_challenge ::
    "int \<Rightarrow> challenge_decision \<Rightarrow> window_manager \<Rightarrow> challenge_window \<Rightarrow>
     window_manager \<times> challenge_window \<times> (window_error + challenge_record)" where
  "resolve_challenge now decision mgr w =
     (case windows mgr (cw_task_id w) of
        Some (Some challenge) \<Rightarrow>
          (let challenge' = challenge\<lparr>cr_status := ''resolved'', cr_decision := challenge_decision_value decision\<rparr>
           in (mgr\<lparr>windows := (windows mgr)(cw_task_id w \<mapsto> Some challenge')\<rparr>,
               if decision = UPHELD then w\<lparr>cw_status := DISPUTED\<rparr> else sync_window_status now w,
               Inr challenge'))
      | _ \<Rightarrow> (mgr, w, Inl (ValueError (''No active challenge for task_id='' @ cw_task_id w))))"

section \<open>Runs\<close>

text \<open>
  The state of one window: the manager, the window and the last clock reading. The clock does not go
  backwards. Operations on other tasks leave the entry of this task alone.
\<close>

type_synonym window_sys = "window_manager \<times> challenge_window \<times> int"

inductive window_step :: "window_sys \<Rightarrow> window_sys \<Rightarrow> bool" where
  step_query: "t \<le> now \<Longrightarrow> w' = fst (can_settle now w) \<Longrightarrow> window_step (mgr, w, t) (mgr, w', now)"
| step_raise: "t \<le> now \<Longrightarrow> raise_challenge now now' rnd challenger reason cid mgr w = (mgr', w', out) \<Longrightarrow>
    window_step (mgr, w, t) (mgr', w', now)"
| step_resolve: "t \<le> now \<Longrightarrow> resolve_challenge now decision mgr w = (mgr', w', out) \<Longrightarrow>
    window_step (mgr, w, t) (mgr', w', now)"
| step_other: "windows mgr' (cw_task_id w) = windows mgr (cw_task_id w) \<Longrightarrow> window_step (mgr, w, t) (mgr', w, t)"

lemma query_operations:
  "fst (is_window_open now w) = fst (can_settle now w)" "fst (is_window_closed now w) = fst (can_settle now w)"
  "fst (get_remaining_seconds now now' w) = fst (can_settle now w)"
  by (simp_all add: is_window_open_def is_window_closed_def can_settle_def get_remaining_seconds_def Let_def)

text \<open>
  The invariant: the window is disputed exactly when a challenge is on record, and a closed one was
  read after its end.
\<close>

fun window_inv :: "window_sys \<Rightarrow> bool" where
  "window_inv (mgr, w, t) \<longleftrightarrow>
     (\<exists>ch. windows mgr (cw_task_id w) = Some ch \<and> (ch \<noteq> None \<longleftrightarrow> cw_status w = DISPUTED)) \<and>
     (cw_status w = CLOSED \<longrightarrow> end_at w < t) \<and> cw_status w \<noteq> PENDING"

lemma window_inv_open:
  "open_window now tid eh ty dur mgr = Inr (mgr', w) \<Longrightarrow> window_inv (mgr', w, t)"
  by (auto simp: open_window_def Let_def split: if_splits)

lemma sync_status_simps [simp]:
  "cw_task_id (sync_window_status now w) = cw_task_id w" "end_at (sync_window_status now w) = end_at w"
  "cw_status (sync_window_status now w) =
     (if cw_status w = OPEN \<and> end_at w < now then CLOSED else cw_status w)"
  by (simp_all add: sync_window_status_def)

lemma window_inv_step: "window_step s s' \<Longrightarrow> window_inv s \<Longrightarrow> window_inv s'"
proof (induction rule: window_step.induct)
  case (step_query t now w' w mgr)
  then show ?case by (auto simp: can_settle_def Let_def)
next
  case (step_raise t now now' rnd challenger reason cid mgr w mgr' w' out)
  then show ?case by (auto simp: raise_challenge_def Let_def split: if_splits option.splits)
next
  case (step_resolve t now decision mgr w mgr' w' out)
  then show ?case by (auto simp: resolve_challenge_def Let_def split: if_splits option.splits)
qed auto

interpretation window: step_invariant window_step window_inv
  by unfold_locales (rule window_inv_step)

text \<open>Once disputed, always disputed.\<close>

definition window_disputed :: "window_sys \<Rightarrow> bool" where
  "window_disputed s \<longleftrightarrow> cw_status (fst (snd s)) = DISPUTED"

lemma window_disputed_step: "window_step s s' \<Longrightarrow> window_disputed s \<Longrightarrow> window_disputed s'"
  by (induction rule: window_step.induct)
     (auto simp: window_disputed_def can_settle_def raise_challenge_def resolve_challenge_def Let_def
        split: if_splits option.splits)

interpretation disputed: step_invariant window_step window_disputed
  by unfold_locales (rule window_disputed_step)

text \<open>The deadline and the task of a window never change.\<close>

lemma window_frame_step:
  "window_step s s' \<Longrightarrow> end_at (fst (snd s')) = end_at (fst (snd s)) \<and> cw_task_id (fst (snd s')) = cw_task_id (fst (snd s))"
  by (induction rule: window_step.induct)
     (auto simp: can_settle_def raise_challenge_def resolve_challenge_def Let_def split: if_splits option.splits)

lemma window_frame_run:
  "window_step\<^sup>*\<^sup>* s s' \<Longrightarrow> end_at (fst (snd s')) = end_at (fst (snd s)) \<and> cw_task_id (fst (snd s')) = cw_task_id (fst (snd s))"
  by (induction rule: rtranclp_induct) (auto dest: window_frame_step)

section \<open>Properties\<close>

text \<open>
  C24. The gate is safe. Along every run from the opening of a window, settlement is possible at a
  moment only if that moment lies after the deadline of the window and no challenge was raised.
\<close>

theorem settlement_gate_safe:
  assumes "open_window t0 tid eh task_type duration mgr0 = Inr (mgr1, w1)"
    and "window_step\<^sup>*\<^sup>* (mgr1, w1, t0) (mgr, w, t)" and "t \<le> now" and "snd (can_settle now w)"
  shows "end_at w1 < now \<and> windows mgr tid = Some None"
proof -
  have inv: "window_inv (mgr, w, t)"
    by (rule window.inv_run [OF assms(2) window_inv_open [OF assms(1)]])
  have "end_at w = end_at w1" "cw_task_id w = cw_task_id w1"
    using window_frame_run [OF assms(2)] by simp_all
  moreover have "cw_task_id w1 = tid" using assms(1) by (auto simp: open_window_def Let_def split: if_splits)
  ultimately show ?thesis
    using inv assms(3,4) by (cases "cw_status w") (auto simp: can_settle_def Let_def split: if_splits)
qed

theorem settlement_gate_safe_witness:
  "\<exists>mgr1 w1. open_window 0 ''t'' ''h'' ''api'' None (new_window_manager 1800) = Inr (mgr1, w1) \<and>
     snd (can_settle 1800000001 w1) \<and> windows mgr1 ''t'' = Some None"
proof -
  obtain mgr1 w1 where o: "open_window 0 ''t'' ''h'' ''api'' None (new_window_manager 1800) = Inr (mgr1, w1)"
    "snd (can_settle 1800000001 w1)"
    by (auto simp: open_window_def new_window_manager_def can_settle_def Let_def)
  from settlement_gate_safe [OF o(1) rtranclp.rtrancl_refl _ o(2)] o show ?thesis by simp
qed

text \<open>
  Without a challenge the gate opens. At every state of a run in which no challenge is on record,
  settlement is possible exactly at the moments after the deadline.
\<close>

theorem unchallenged_window_settles:
  assumes "open_window t0 tid eh task_type duration mgr0 = Inr (mgr1, w1)"
    and "window_step\<^sup>*\<^sup>* (mgr1, w1, t0) (mgr, w, t)" and "t \<le> now" and "windows mgr tid = Some None"
  shows "snd (can_settle now w) \<longleftrightarrow> end_at w1 < now"
proof -
  have inv: "window_inv (mgr, w, t)"
    by (rule window.inv_run [OF assms(2) window_inv_open [OF assms(1)]])
  have "end_at w = end_at w1" "cw_task_id w = cw_task_id w1"
    using window_frame_run [OF assms(2)] by simp_all
  moreover have "cw_task_id w1 = tid" using assms(1) by (auto simp: open_window_def Let_def split: if_splits)
  ultimately show ?thesis
    using inv assms(3,4) by (cases "cw_status w") (auto simp: can_settle_def Let_def)
qed

theorem unchallenged_window_settles_witness:
  "\<exists>mgr1 w1. open_window 0 ''t'' ''h'' ''api'' None (new_window_manager 1800) = Inr (mgr1, w1) \<and>
     snd (can_settle 1800000001 w1)"
proof -
  obtain mgr1 w1 where o: "open_window 0 ''t'' ''h'' ''api'' None (new_window_manager 1800) = Inr (mgr1, w1)"
    "windows mgr1 ''t'' = Some None" "end_at w1 = 1800000000"
    by (auto simp: open_window_def new_window_manager_def Let_def)
  have "snd (can_settle 1800000001 w1) \<longleftrightarrow> end_at w1 < 1800000001"
    by (rule unchallenged_window_settles [OF o(1) rtranclp.rtrancl_refl _ o(2)]) simp
  with o show ?thesis by simp
qed

text \<open>
  A raised challenge blocks settlement for good, even when the arbitrator overrules it: after a
  challenge was accepted, no run of operations, resolutions included, reaches a state in which the
  window can be settled.
\<close>

theorem challenge_blocks_settlement_forever:
  assumes "raise_challenge now now' rnd challenger reason cid mgr w = (mgr1, w1, Inr record)"
    and "window_step\<^sup>*\<^sup>* (mgr1, w1, now) (mgr2, w2, t)"
  shows "\<not> snd (can_settle later w2)"
proof -
  have "window_disputed (mgr1, w1, now)"
    using assms(1) by (auto simp: window_disputed_def raise_challenge_def Let_def split: if_splits option.splits)
  from disputed.inv_run [OF assms(2) this] show ?thesis
    by (simp add: window_disputed_def can_settle_def Let_def)
qed

theorem challenge_blocks_settlement_forever_witness:
  "\<exists>mgr0 w0 mgr1 w1 record mgr2 w2 c.
     open_window 0 ''t'' ''h'' ''api'' None (new_window_manager 1800) = Inr (mgr0, w0) \<and>
     raise_challenge 1 1 ''ff'' ''0xbob'' ''evidence_hash_mismatch'' ''bafy'' mgr0 w0 = (mgr1, w1, Inr record) \<and>
     resolve_challenge 2 OVERRULED mgr1 w1 = (mgr2, w2, Inr c) \<and> \<not> snd (can_settle 9999999999 w2)"
proof -
  obtain mgr0 w0 where o: "open_window 0 ''t'' ''h'' ''api'' None (new_window_manager 1800) = Inr (mgr0, w0)"
    "cw_status w0 = OPEN" "end_at w0 = 1800000000" "windows mgr0 (cw_task_id w0) = Some None"
    by (auto simp: open_window_def new_window_manager_def Let_def)
  then obtain mgr1 w1 ch where r: "raise_challenge 1 1 ''ff'' ''0xbob'' ''evidence_hash_mismatch'' ''bafy'' mgr0 w0 = (mgr1, w1, Inr ch)"
    "windows mgr1 (cw_task_id w1) \<noteq> None" "windows mgr1 (cw_task_id w1) \<noteq> Some None"
    by (auto simp: raise_challenge_def Let_def)
  then obtain mgr2 w2 c where res: "resolve_challenge 2 OVERRULED mgr1 w1 = (mgr2, w2, Inr c)"
    by (auto simp: resolve_challenge_def Let_def)
  have "window_step\<^sup>*\<^sup>* (mgr1, w1, 1) (mgr2, w2, 2)"
    using step_resolve [OF _ res, of 1] by auto
  from challenge_blocks_settlement_forever [OF r(1) this] o r res show ?thesis by blast
qed

text \<open>
  The duration of a window does not depend on the type of the task: \<open>open_window\<close> takes the type
  but never looks it up, so a window for content tasks opened with a manager's defaults is as long as
  one for API calls, although the table of durations sets 24 hours for them.
\<close>

theorem task_type_does_not_set_duration:
  "open_window now tid eh task_type duration mgr = open_window now tid eh ''default'' duration mgr \<and>
   (\<exists>mgr' w. open_window now tid eh ''data_content'' None (new_window_manager 1800) = Inr (mgr', w) \<and>
             duration_seconds w = 1800 \<and> CHALLENGE_DURATIONS ''data_content'' = Some 86400)"
  by (simp add: open_window_def new_window_manager_def CHALLENGE_DURATIONS_def Let_def)

end
