(* ===== verification/Settlement_Engine.thy ===== *)
theory Settlement_Engine
  imports Py_Std
begin

text \<open>
  The life cycle of a settlement (\<^verbatim>\<open>core/settlement/engine.py\<close> with \<^verbatim>\<open>TaskStatus\<close> of
  \<^verbatim>\<open>core/schemas.py\<close>): the statuses with their legacy spellings, the transition table and the
  predicates over it. The lemmas state which statuses are terminal, which can be reached, and where
  the table of ranks disagrees with the life cycle.
\<close>

section \<open>Statuses\<close>

datatype task_status =
    DRAFT | PENDING | ACCEPTED | IN_PROGRESS | PROGRESS_SUBMITTED | PROGRESS_CONFIRMED | DELIVERED |
    DISPUTED | ARBITRATED | SETTLED | REFUNDED | CANCELLED | CREATED | LOCKED | RUNNING | SUBMITTED |
    BUYER_REGRET | VERIFYING | VERIFIED | RELEASED | FAILED | ARBITRATION | BUYER_WINS | SELLER_WINS |
    PARTIAL | AUTHORIZED | AUTO_CONFIRMED | PARTIALLY_SETTLED | FROZEN

primrec task_status_value :: "task_status \<Rightarrow> string" where
  "task_status_value DRAFT = ''draft''"
| "task_status_value PENDING = ''pending''"
| "task_status_value ACCEPTED = ''accepted''"
| "task_status_value IN_PROGRESS = ''in_progress''"
| "task_status_value PROGRESS_SUBMITTED = ''progress_submitted''"
| "task_status_value PROGRESS_CONFIRMED = ''progress_confirmed''"
| "task_status_value DELIVERED = ''delivered''"
| "task_status_value DISPUTED = ''disputed''"
| "task_status_value ARBITRATED = ''arbitrated''"
| "task_status_value SETTLED = ''settled''"
| "task_status_value REFUNDED = ''refunded''"
| "task_status_value CANCELLED = ''cancelled''"
| "task_status_value CREATED = ''created''"
| "task_status_value LOCKED = ''locked''"
| "task_status_value RUNNING = ''running''"
| "task_status_value SUBMITTED = ''submitted''"
| "task_status_value BUYER_REGRET = ''buyer_regret''"
| "task_status_value VERIFYING = ''verifying''"
| "task_status_value VERIFIED = ''verified''"
| "task_status_value RELEASED = ''released''"
| "task_status_value FAILED = ''failed''"
| "task_status_value ARBITRATION = ''arbitration''"
| "task_status_value BUYER_WINS = ''buyer_wins''"
| "task_status_value SELLER_WINS = ''seller_wins''"
| "task_status_value PARTIAL = ''partial''"
| "task_status_value AUTHORIZED = ''authorized''"
| "task_status_value AUTO_CONFIRMED = ''auto_confirmed''"
| "task_status_value PARTIALLY_SETTLED = ''partially_settled''"
| "task_status_value FROZEN = ''frozen''"

definition all_task_statuses :: "task_status list" where
  "all_task_statuses =
     [DRAFT, PENDING, ACCEPTED, IN_PROGRESS, PROGRESS_SUBMITTED, PROGRESS_CONFIRMED,
      DELIVERED, DISPUTED, ARBITRATED, SETTLED, REFUNDED, CANCELLED, CREATED, LOCKED, RUNNING, SUBMITTED,
      BUYER_REGRET, VERIFYING, VERIFIED, RELEASED, FAILED, ARBITRATION, BUYER_WINS, SELLER_WINS, PARTIAL,
      AUTHORIZED, AUTO_CONFIRMED, PARTIALLY_SETTLED, FROZEN]"

instantiation task_status :: enum
begin

definition enum_task_status :: "task_status list" where
  "enum_task_status = all_task_statuses"

definition enum_all_task_status :: "(task_status \<Rightarrow> bool) \<Rightarrow> bool" where
  "enum_all_task_status P \<longleftrightarrow> list_all P all_task_statuses"

definition enum_ex_task_status :: "(task_status \<Rightarrow> bool) \<Rightarrow> bool" where
  "enum_ex_task_status P \<longleftrightarrow> list_ex P all_task_statuses"

instance
proof
  show univ: "(UNIV :: task_status set) = set Enum.enum"
  proof (intro equalityI subsetI)
    fix x :: task_status
    show "x \<in> set Enum.enum" by (cases x) (simp_all add: enum_task_status_def all_task_statuses_def)
  qed simp
  show "distinct (Enum.enum :: task_status list)" by (simp add: enum_task_status_def all_task_statuses_def)
  fix P :: "task_status \<Rightarrow> bool"
  show "Enum.enum_all P \<longleftrightarrow> Ball UNIV P"
    by (simp add: enum_all_task_status_def univ enum_task_status_def list_all_iff)
  show "Enum.enum_ex P \<longleftrightarrow> Bex UNIV P"
    by (simp add: enum_ex_task_status_def univ enum_task_status_def list_ex_iff)
qed

end

text \<open>\<open>TaskStatus(s)\<close>; \<open>None\<close> is the \<open>ValueError\<close> of an unknown value.\<close>

definition parse_status :: "string \<Rightarrow> task_status option" where
  "parse_status s = find (\<lambda>st. task_status_value st = s) all_task_statuses"

definition LEGACY_TO_CANONICAL_STATUS :: "task_status \<rightharpoonup> task_status" where
  "LEGACY_TO_CANONICAL_STATUS =
     [CREATED \<mapsto> DRAFT, LOCKED \<mapsto> ACCEPTED, RUNNING \<mapsto> IN_PROGRESS,
      SUBMITTED \<mapsto> DELIVERED, BUYER_REGRET \<mapsto> SETTLED, VERIFYING \<mapsto> DELIVERED,
      VERIFIED \<mapsto> DELIVERED, RELEASED \<mapsto> SETTLED, FAILED \<mapsto> CANCELLED,
      ARBITRATION \<mapsto> ARBITRATED, BUYER_WINS \<mapsto> REFUNDED, SELLER_WINS \<mapsto> SETTLED,
      PARTIAL \<mapsto> SETTLED, AUTHORIZED \<mapsto> AUTHORIZED, AUTO_CONFIRMED \<mapsto> AUTO_CONFIRMED,
      PARTIALLY_SETTLED \<mapsto> PARTIALLY_SETTLED, FROZEN \<mapsto> FROZEN]"

definition VALID_TRANSITIONS :: "task_status \<rightharpoonup> task_status list" where
  "VALID_TRANSITIONS =
     [DRAFT \<mapsto> [PENDING, ACCEPTED, CANCELLED],
      PENDING \<mapsto> [ACCEPTED, CANCELLED],
      ACCEPTED \<mapsto> [IN_PROGRESS, DISPUTED, CANCELLED],
      IN_PROGRESS \<mapsto> [PROGRESS_SUBMITTED, DELIVERED, SETTLED, DISPUTED, CANCELLED],
      PROGRESS_SUBMITTED \<mapsto> [PROGRESS_CONFIRMED, DELIVERED, SETTLED, DISPUTED],
      PROGRESS_CONFIRMED \<mapsto> [DELIVERED, DISPUTED, SETTLED, AUTO_CONFIRMED],
      DELIVERED \<mapsto> [SETTLED, DISPUTED, REFUNDED, FROZEN],
      DISPUTED \<mapsto> [ARBITRATED, FROZEN],
      ARBITRATED \<mapsto> [SETTLED, REFUNDED, PARTIALLY_SETTLED, FROZEN],
      SETTLED \<mapsto> [FROZEN],
      PARTIALLY_SETTLED \<mapsto> [SETTLED, FROZEN],
      REFUNDED \<mapsto> [FROZEN],
      CANCELLED \<mapsto> [FROZEN],
      AUTO_CONFIRMED \<mapsto> [SETTLED, DISPUTED, FROZEN],
      FROZEN \<mapsto> [DELIVERED, DISPUTED, SETTLED, REFUNDED, CANCELLED]]"

definition STATUS_ORDER :: "task_status \<rightharpoonup> nat" where
  "STATUS_ORDER =
     [DRAFT \<mapsto> 1, PENDING \<mapsto> 2, ACCEPTED \<mapsto> 3, IN_PROGRESS \<mapsto> 4,
      PROGRESS_SUBMITTED \<mapsto> 5, PROGRESS_CONFIRMED \<mapsto> 6, DELIVERED \<mapsto> 7,
      DISPUTED \<mapsto> 8, ARBITRATED \<mapsto> 9, AUTO_CONFIRMED \<mapsto> 6,
      PARTIALLY_SETTLED \<mapsto> 9, FROZEN \<mapsto> 0, REFUNDED \<mapsto> 10, CANCELLED \<mapsto> 10]"

section \<open>Predicates\<close>

definition canonical_task_status :: "task_status \<Rightarrow> task_status" where
  "canonical_task_status st = (case LEGACY_TO_CANONICAL_STATUS st of None \<Rightarrow> st | Some c \<Rightarrow> c)"

text \<open>The same on the string of a database row.\<close>

definition canonical_status_of :: "string \<Rightarrow> task_status option" where
  "canonical_status_of s = map_option canonical_task_status (parse_status s)"

definition transitions_of :: "task_status \<Rightarrow> task_status list" where
  "transitions_of st = (case VALID_TRANSITIONS st of None \<Rightarrow> [] | Some ts \<Rightarrow> ts)"

definition is_terminal :: "task_status \<Rightarrow> bool" where
  "is_terminal st \<longleftrightarrow> transitions_of (canonical_task_status st) = []"

definition can_transition :: "task_status \<Rightarrow> task_status \<Rightarrow> bool" where
  "can_transition from to \<longleftrightarrow> canonical_task_status to \<in> set (transitions_of (canonical_task_status from))"

definition is_post_accepted :: "task_status \<Rightarrow> bool" where
  "is_post_accepted st \<longleftrightarrow>
     (case STATUS_ORDER (canonical_task_status st) of None \<Rightarrow> 0 | Some n \<Rightarrow> n) \<ge> the (STATUS_ORDER ACCEPTED)"

section \<open>Reachability\<close>

text \<open>A walk along allowed transitions.\<close>

fun walk :: "task_status list \<Rightarrow> bool" where
  "walk (a # b # rest) \<longleftrightarrow> b \<in> set (transitions_of a) \<and> walk (b # rest)"
| "walk _ \<longleftrightarrow> True"

lemma canonical_idem: "canonical_task_status (canonical_task_status st) = canonical_task_status st"
proof -
  have "\<forall>st. canonical_task_status (canonical_task_status st) = canonical_task_status st" by code_simp
  then show ?thesis by blast
qed

lemma transitions_canonical:
  assumes "b \<in> set (transitions_of a)"
  shows "can_transition a b"
proof -
  have "\<forall>a. \<forall>b \<in> set (transitions_of a). can_transition a b" by code_simp
  with assms show ?thesis by blast
qed

lemma walk_reaches:
  "walk xs \<Longrightarrow> x \<in> set xs \<Longrightarrow> can_transition\<^sup>*\<^sup>* (hd xs) x \<and> can_transition\<^sup>*\<^sup>* x (last xs)"
proof (induction xs arbitrary: x rule: walk.induct)
  case (1 a b rest)
  then have ab: "can_transition a b" by (simp add: transitions_canonical)
  have rest: "can_transition\<^sup>*\<^sup>* b y \<and> can_transition\<^sup>*\<^sup>* y (last (b # rest))" if "y \<in> set (b # rest)" for y
    using "1.IH" "1.prems"(1) that by simp
  show ?case
  proof (cases "x = a")
    case True
    with ab rest [of b] show ?thesis by (auto intro: converse_rtranclp_into_rtranclp)
  next
    case False
    with ab rest [of x] "1.prems"(2) show ?thesis by (auto intro: converse_rtranclp_into_rtranclp)
  qed
qed auto

text \<open>One walk through all the canonical statuses but \<open>AUTHORIZED\<close>, and one through the outcomes.\<close>

definition grand_tour :: "task_status list" where
  "grand_tour =
     [DRAFT, PENDING, ACCEPTED, IN_PROGRESS, PROGRESS_SUBMITTED, PROGRESS_CONFIRMED, AUTO_CONFIRMED, DISPUTED,
      ARBITRATED, PARTIALLY_SETTLED, FROZEN, DELIVERED, REFUNDED, FROZEN, CANCELLED, FROZEN, SETTLED]"

lemma walk_grand_tour: "walk grand_tour"
  by (simp add: grand_tour_def transitions_of_def VALID_TRANSITIONS_def)

lemma walk_outcomes: "walk [SETTLED, FROZEN, REFUNDED, FROZEN, CANCELLED]"
  by (simp add: transitions_of_def VALID_TRANSITIONS_def)

lemma grand_tour_all: "canonical_task_status st \<noteq> AUTHORIZED \<Longrightarrow> canonical_task_status st \<in> set grand_tour"
  by (cases st) (simp_all add: canonical_task_status_def LEGACY_TO_CANONICAL_STATUS_def grand_tour_def)

lemma parse_status_value: "parse_status (task_status_value st) = Some st"
proof -
  have "\<forall>st. parse_status (task_status_value st) = Some st" by code_simp
  then show ?thesis by blast
qed

lemma canonical_status_of_value:
  "canonical_status_of (task_status_value (canonical_task_status st)) = Some (canonical_task_status st)"
  by (simp add: canonical_status_of_def parse_status_value canonical_idem)

section \<open>Properties\<close>

text \<open>
  The life cycle has no dead end and no isolated part except one: from \<open>DRAFT\<close> every canonical
  status but \<open>AUTHORIZED\<close> is reachable by allowed transitions, and from every status but
  \<open>AUTHORIZED\<close> each of the three final outcomes \<open>SETTLED\<close>, \<open>REFUNDED\<close> and \<open>CANCELLED\<close> is.
\<close>

theorem settlement_life_cycle:
  "(canonical_task_status st \<noteq> AUTHORIZED \<longrightarrow> can_transition\<^sup>*\<^sup>* DRAFT (canonical_task_status st)) \<and>
   (canonical_task_status st \<noteq> AUTHORIZED \<longrightarrow>
      can_transition\<^sup>*\<^sup>* (canonical_task_status st) SETTLED \<and>
      can_transition\<^sup>*\<^sup>* (canonical_task_status st) REFUNDED \<and>
      can_transition\<^sup>*\<^sup>* (canonical_task_status st) CANCELLED)"
proof (cases "canonical_task_status st = AUTHORIZED")
  case False
  let ?c = "canonical_task_status st"
  from walk_reaches [OF walk_grand_tour grand_tour_all [OF False]]
  have c: "can_transition\<^sup>*\<^sup>* DRAFT ?c" "can_transition\<^sup>*\<^sup>* ?c SETTLED" by (simp_all add: grand_tour_def)
  have "can_transition\<^sup>*\<^sup>* SETTLED REFUNDED" "can_transition\<^sup>*\<^sup>* SETTLED CANCELLED"
    using walk_reaches [OF walk_outcomes, of REFUNDED] walk_reaches [OF walk_outcomes, of CANCELLED] by simp_all
  with c show ?thesis by (meson rtranclp_trans)
qed simp

theorem settlement_life_cycle_witness:
  "can_transition\<^sup>*\<^sup>* DRAFT PARTIALLY_SETTLED \<and> can_transition\<^sup>*\<^sup>* PARTIALLY_SETTLED REFUNDED"
proof -
  have "canonical_task_status PARTIALLY_SETTLED = PARTIALLY_SETTLED" by code_simp
  with settlement_life_cycle [of PARTIALLY_SETTLED] show ?thesis by simp
qed

text \<open>
  No outcome is final: the only terminal status is \<open>AUTHORIZED\<close>, which no transition enters. A
  settled settlement can be refunded and a refunded one settled, through \<open>FROZEN\<close>, although the
  documentation of the statuses calls \<open>SETTLED\<close>, \<open>REFUNDED\<close> and \<open>CANCELLED\<close> terminal.
\<close>

theorem no_outcome_is_terminal:
  "(is_terminal st \<longleftrightarrow> st = AUTHORIZED) \<and> \<not> can_transition st AUTHORIZED \<and>
   can_transition SETTLED FROZEN \<and> can_transition FROZEN REFUNDED \<and>
   can_transition REFUNDED FROZEN \<and> can_transition FROZEN SETTLED"
proof -
  have "\<forall>st. (is_terminal st \<longleftrightarrow> st = AUTHORIZED) \<and> \<not> can_transition st AUTHORIZED" by code_simp
  moreover have "can_transition SETTLED FROZEN" "can_transition FROZEN REFUNDED" "can_transition REFUNDED FROZEN"
    "can_transition FROZEN SETTLED"
    using walk_outcomes by (auto intro: transitions_canonical simp: transitions_of_def VALID_TRANSITIONS_def)
  ultimately show ?thesis by blast
qed

text \<open>
  Which statuses count as later than acceptance: all canonical ones but \<open>DRAFT\<close>, \<open>PENDING\<close>,
  \<open>SETTLED\<close>, \<open>FROZEN\<close> and \<open>AUTHORIZED\<close>. \<open>SETTLED\<close> is missing from the table of ranks, and
  \<open>FROZEN\<close> has rank zero.
\<close>

theorem post_accepted_statuses:
  "is_post_accepted st \<longleftrightarrow> canonical_task_status st \<notin> {DRAFT, PENDING, SETTLED, FROZEN, AUTHORIZED}"
proof -
  have "\<forall>st. is_post_accepted st \<longleftrightarrow> canonical_task_status st \<notin> {DRAFT, PENDING, SETTLED, FROZEN, AUTHORIZED}"
    by code_simp
  then show ?thesis by blast
qed

text \<open>
  A canonical status survives the way through the database: reading back the string that was
  written gives the same status, canonicalisation is idempotent, and legacy spellings allow exactly
  the transitions of the status they stand for.
\<close>

theorem status_round_trip:
  "canonical_status_of (task_status_value (canonical_task_status st)) = Some (canonical_task_status st) \<and>
   (can_transition st st' \<longleftrightarrow> can_transition (canonical_task_status st) (canonical_task_status st'))"
  by (simp add: canonical_status_of_value can_transition_def canonical_idem)

end
