(* ===== verification/Db_Session.thy ===== *)
theory Db_Session
  imports Py_Std
begin

text \<open>
  The database session of a request (\<^verbatim>\<open>get_session\<close> and \<^verbatim>\<open>get_db\<close> in \<^verbatim>\<open>db/session.py\<close>): the
  changes a request makes are committed when it returns and rolled back when it raises. A request
  over a database state \<open>'d\<close> and a process state \<open>'p\<close> (module globals, which no rollback touches)
  returns both and its outcome.
\<close>

text \<open>What a request raises: an HTTP error, or an error that no handler expects.\<close>

datatype http_error = HTTPException nat string | UnhandledValueError string | UnhandledIntegrityError

type_synonym ('d, 'p, 'e, 'a) request = "'d \<Rightarrow> 'p \<Rightarrow> 'd \<times> 'p \<times> ('e + 'a)"

definition in_session :: "('d, 'p, 'e, 'a) request \<Rightarrow> ('d, 'p, 'e, 'a) request" where
  "in_session req d p =
     (case req d p of
        (d', p', Inr a) \<Rightarrow> (d', p', Inr a)
      | (d', p', Inl e) \<Rightarrow> (d, p', Inl e))"

lemma in_session_Inl: "in_session req d p = (d', p', Inl e) \<Longrightarrow> d' = d"
  by (auto simp: in_session_def split: prod.splits sum.splits)

lemma in_session_Inr: "in_session req d p = (d', p', Inr a) \<longleftrightarrow> req d p = (d', p', Inr a)"
  by (auto simp: in_session_def split: prod.splits sum.splits)

text \<open>An invariant of the database that every request keeps when it returns is kept by the session.\<close>

lemma in_session_invariant:
  assumes "\<And>d' p' a. req d p = (d', p', Inr a) \<Longrightarrow> I d \<Longrightarrow> I d'" and "I d"
  shows "I (fst (in_session req d p))"
  using assms by (cases "req d p") (auto simp: in_session_def split: sum.splits)

section \<open>Handlers\<close>

text \<open>
  A handler is a request that is composed of steps: \<open>give\<close> returns, \<open>refuse\<close> raises, \<open>check\<close> raises
  what a guard raises, \<open>and_then\<close> goes on with the result unless the step raised.
\<close>

type_synonym ('d, 'p, 'a) handler = "('d, 'p, http_error, 'a) request"

definition give :: "'a \<Rightarrow> ('d, 'p, 'a) handler" where
  "give a d p = (d, p, Inr a)"

definition refuse :: "http_error \<Rightarrow> ('d, 'p, 'a) handler" where
  "refuse e d p = (d, p, Inl e)"

definition check :: "http_error + 'a \<Rightarrow> ('d, 'p, 'a) handler" where
  "check r d p = (d, p, r)"

definition require :: "bool \<Rightarrow> nat \<Rightarrow> string \<Rightarrow> ('d, 'p, unit) handler" where
  "require b code detail d p = (d, p, if b then Inr () else Inl (HTTPException code detail))"

definition read_db :: "('d \<Rightarrow> 'a) \<Rightarrow> ('d, 'p, 'a) handler" where
  "read_db f d p = (d, p, Inr (f d))"

definition write_db :: "('d \<Rightarrow> 'd) \<Rightarrow> ('d, 'p, unit) handler" where
  "write_db f d p = (f d, p, Inr ())"

definition and_then :: "('d, 'p, 'a) handler \<Rightarrow> ('a \<Rightarrow> ('d, 'p, 'b) handler) \<Rightarrow> ('d, 'p, 'b) handler" where
  "and_then m f d p = (case m d p of (d', p', Inl e) \<Rightarrow> (d', p', Inl e) | (d', p', Inr a) \<Rightarrow> f a d' p')"

text \<open>What it means that a step or a handler returns; the handlers are taken apart with these.\<close>

named_theorems returns \<open>when the steps of a handler return\<close>

lemma and_then_Inr [returns]:
  "and_then m f d p = (d2, p2, Inr b) \<longleftrightarrow> (\<exists>d1 p1 a. m d p = (d1, p1, Inr a) \<and> f a d1 p1 = (d2, p2, Inr b))"
  by (auto simp: and_then_def split: prod.splits sum.splits)

lemma steps_Inr [returns]:
  "give a d p = (d', p', Inr b) \<longleftrightarrow> d' = d \<and> p' = p \<and> b = a"
  "refuse e d p = (d', p', Inr c) \<longleftrightarrow> False"
  "check r d p = (d', p', Inr x) \<longleftrightarrow> d' = d \<and> p' = p \<and> r = Inr x"
  "require t code detail d p = (d', p', Inr u) \<longleftrightarrow> d' = d \<and> p' = p \<and> t"
  "read_db f d p = (d', p', Inr y) \<longleftrightarrow> d' = d \<and> p' = p \<and> y = f d"
  "write_db g d p = (d', p', Inr u) \<longleftrightarrow> d' = g d \<and> p' = p"
  by (auto simp: give_def refuse_def check_def require_def read_db_def write_db_def)

section \<open>Tables\<close>

text \<open>
  A table with a primary key is an association list with unique keys, in insertion order. An assignment
  to the fields of a loaded object, or the insertion of a new one, puts its row; \<open>sum_of\<close> is the sum of
  a column.
\<close>

definition put_row :: "'k \<Rightarrow> 'r \<Rightarrow> ('k \<times> 'r) list \<Rightarrow> ('k \<times> 'r) list" where
  "put_row iden c table =
     (if map_of table iden = None then table @ [(iden, c)]
      else map (\<lambda>(k, v). if k = iden then (k, c) else (k, v)) table)"

definition sum_of :: "('r \<Rightarrow> rat) \<Rightarrow> ('k \<times> 'r) list \<Rightarrow> rat" where
  "sum_of f table = sum_list (map (f \<circ> snd) table)"

lemma map_of_put_row: "map_of (put_row iden c table) = (map_of table)(iden \<mapsto> c)"
proof -
  have "map_of (map (\<lambda>(k, v). if k = iden then (k, c) else (k, v)) table) x =
      (if x = iden \<and> map_of table iden \<noteq> None then Some c else map_of table x)" for x
    by (induction table) auto
  then show ?thesis by (auto simp: put_row_def fun_eq_iff map_add_def split: option.splits)
qed

lemma keys_of_put: "fst ` set (put_row k r xs) = insert k (fst ` set xs)"
proof -
  have "dom (map_of (put_row k r xs)) = insert k (dom (map_of xs))" by (simp add: map_of_put_row)
  then show ?thesis by (simp only: dom_map_of_conv_image_fst)
qed

lemma keys_put_row: "distinct (map fst table) \<Longrightarrow> distinct (map fst (put_row iden c table))"
proof -
  have "map fst (map (\<lambda>(k, v). if k = iden then (k, c) else (k, v)) table) = map fst table" by (induction table) auto
  then show "distinct (map fst table) \<Longrightarrow> distinct (map fst (put_row iden c table))"
    using map_of_eq_None_iff [of table iden] by (simp add: put_row_def del: map_map)
qed

lemma sum_of_put_row:
  "distinct (map fst table) \<Longrightarrow> sum_of f (put_row iden c table) =
     sum_of f table + f c - (case map_of table iden of None \<Rightarrow> 0 | Some old \<Rightarrow> f old)"
proof -
  have "distinct (map fst table) \<Longrightarrow> map_of table iden = Some old \<Longrightarrow>
      sum_of f (map (\<lambda>(k, v). if k = iden then (k, c) else (k, v)) table) = sum_of f table + f c - f old" for old
  proof (induction table)
    case (Cons kv table)
    have "map (\<lambda>(k, v). if k = iden then (k, c) else (k, v)) table = table" if "iden \<notin> fst ` set table"
      using that by (intro map_idI) force
    with Cons show ?case by (cases kv) (auto simp: sum_of_def simp del: map_map)
  qed simp
  then show "distinct (map fst table) \<Longrightarrow> ?thesis"
    by (auto simp: put_row_def sum_of_def simp del: map_map split: option.splits)
qed

lemma put_row_set: "set (put_row k r t) \<subseteq> insert (k, r) (set t)"
  by (auto simp: put_row_def split: if_splits)

end
