(* ===== verification/Settlement_Store.thy ===== *)
theory Settlement_Store
  imports Settlement_Engine Db_Session
begin

text \<open>
  Persistence of settlements: the state (\<^verbatim>\<open>SettlementState\<close> of \<^verbatim>\<open>core/schemas.py\<close>), the three
  implementations of the store (\<^verbatim>\<open>core/settlement/engine.py\<close>, \<^verbatim>\<open>db/stores/settlement_store.py\<close>,
  \<^verbatim>\<open>db/stores/redis_settlement_store.py\<close>) and the audited transition that the routes and the trade
  pipeline share (\<^verbatim>\<open>services/settlement_transitions.py\<close>). What a store promises is a locale, proved
  for each of the three; the lemmas about the audited transition use nothing else. Amounts are exact
  rationals, times are numbers. A database table is a list of rows with unique settlement and task
  ids (a violation is the error \<open>IntegrityError\<close>); a Redis value is kept as the state it encodes.
\<close>

section \<open>State\<close>

record settlement_state =
  settlement_id :: string
  task_id :: string
  escrow_amount :: rat
  currency :: string
  status :: task_status
  client_agent_id :: string
  worker_agent_id :: "string option"
  profile_id :: "string option"
  released_amount :: "rat option"
  refunded_amount :: "rat option"
  dispute_reason :: "string option"
  rejection_reason_code :: "string option"
  arbitration_notes :: "string option"
  created_at :: int
  updated_at :: int
  released_at :: "int option"
  settlement_mode :: string
  chain_id :: "int option"
  contract_address :: "string option"
  tx_hash :: "string option"
  evidence_bundle_hash :: "string option"
  onchain_status :: "string option"
  quote_id :: "string option"
  voucher_id :: "string option"
  delivery_deadline_at :: "int option"
  confirm_window_hours :: "int option"
  confirm_deadline_at :: "int option"
  progress_rule_spec :: "json option"
  funding_source :: string

datatype store_error = ValueError string | IntegrityError

section \<open>The in-memory store\<close>

type_synonym memory_store = "string \<rightharpoonup> settlement_state"

definition memory_save :: "settlement_state \<Rightarrow> memory_store \<Rightarrow> store_error + memory_store" where
  "memory_save st s = Inr (s(task_id st \<mapsto> st))"

definition memory_get :: "string \<Rightarrow> memory_store \<Rightarrow> store_error + settlement_state option" where
  "memory_get tid s = Inr (s tid)"

definition memory_list_by_status :: "task_status \<Rightarrow> memory_store \<Rightarrow> settlement_state set" where
  "memory_list_by_status x s = {st \<in> ran s. status st = x}"

section \<open>The PostgreSQL store\<close>

record settlement_row =
  r_settlement_id :: string
  r_task_id :: string
  r_escrow_amount :: rat
  r_currency :: string
  r_status :: string
  r_client_agent_id :: string
  r_worker_agent_id :: "string option"
  r_profile_id :: "string option"
  r_released_amount :: "rat option"
  r_refunded_amount :: "rat option"
  r_dispute_reason :: "string option"
  r_arbitration_notes :: "string option"
  r_created_at :: int
  r_updated_at :: int
  r_released_at :: "int option"
  r_settlement_mode :: string
  r_chain_id :: "int option"
  r_contract_address :: "string option"
  r_tx_hash :: "string option"
  r_evidence_bundle_hash :: "string option"
  r_onchain_status :: "string option"
  r_quote_id :: "string option"
  r_voucher_id :: "string option"
  r_delivery_deadline_at :: "int option"
  r_progress_rule_spec :: "json option"
  r_funding_source :: string

definition to_row :: "settlement_state \<Rightarrow> settlement_row" where
  "to_row s =
     \<lparr>r_settlement_id = settlement_id s, r_task_id = task_id s, r_escrow_amount = escrow_amount s,
      r_currency = currency s, r_status = task_status_value (canonical_task_status (status s)),
      r_client_agent_id = client_agent_id s, r_worker_agent_id = worker_agent_id s, r_profile_id = profile_id s,
      r_released_amount = released_amount s, r_refunded_amount = refunded_amount s,
      r_dispute_reason = dispute_reason s, r_arbitration_notes = arbitration_notes s, r_created_at = created_at s,
      r_updated_at = updated_at s, r_released_at = released_at s, r_settlement_mode = settlement_mode s,
      r_chain_id = chain_id s, r_contract_address = contract_address s, r_tx_hash = tx_hash s,
      r_evidence_bundle_hash = evidence_bundle_hash s, r_onchain_status = onchain_status s, r_quote_id = quote_id s,
      r_voucher_id = voucher_id s, r_delivery_deadline_at = delivery_deadline_at s,
      r_progress_rule_spec = progress_rule_spec s,
      r_funding_source = (if funding_source s = [] then ''internal'' else funding_source s)\<rparr>"

text \<open>Fields without a column get the default of the model.\<close>

definition from_row :: "settlement_row \<Rightarrow> store_error + settlement_state" where
  "from_row r =
     (case canonical_status_of (r_status r) of
        None \<Rightarrow> Inl (ValueError (r_status r @ '' is not a valid TaskStatus''))
      | Some st \<Rightarrow> Inr
         \<lparr>settlement_id = r_settlement_id r, task_id = r_task_id r, escrow_amount = r_escrow_amount r,
          currency = r_currency r, status = st, client_agent_id = r_client_agent_id r,
          worker_agent_id = r_worker_agent_id r, profile_id = r_profile_id r, released_amount = r_released_amount r,
          refunded_amount = r_refunded_amount r, dispute_reason = r_dispute_reason r, rejection_reason_code = None,
          arbitration_notes = r_arbitration_notes r, created_at = r_created_at r, updated_at = r_updated_at r,
          released_at = r_released_at r, settlement_mode = r_settlement_mode r, chain_id = r_chain_id r,
          contract_address = r_contract_address r, tx_hash = r_tx_hash r,
          evidence_bundle_hash = r_evidence_bundle_hash r, onchain_status = r_onchain_status r,
          quote_id = r_quote_id r, voucher_id = r_voucher_id r, delivery_deadline_at = r_delivery_deadline_at r,
          confirm_window_hours = None, confirm_deadline_at = None, progress_rule_spec = r_progress_rule_spec r,
          funding_source = (if r_funding_source r = [] then ''internal'' else r_funding_source r)\<rparr>)"

text \<open>The first immutable field whose value would change.\<close>

definition changed_immutable :: "settlement_row \<Rightarrow> settlement_row \<Rightarrow> string option" where
  "changed_immutable existing new =
     map_option fst (find snd
       [(''escrow_amount'', r_escrow_amount existing \<noteq> r_escrow_amount new),
        (''currency'', r_currency existing \<noteq> r_currency new),
        (''client_agent_id'', r_client_agent_id existing \<noteq> r_client_agent_id new),
        (''worker_agent_id'', r_worker_agent_id existing \<noteq> r_worker_agent_id new)])"

type_synonym settlement_table = "settlement_row list"

definition flush :: "settlement_table \<Rightarrow> store_error + settlement_table" where
  "flush rows = (if distinct (map r_task_id rows) then Inr rows else Inl IntegrityError)"

definition find_settlement :: "string \<Rightarrow> settlement_table \<Rightarrow> settlement_row option" where
  "find_settlement sid rows = find (\<lambda>r. r_settlement_id r = sid) rows"

definition replace_row :: "settlement_row \<Rightarrow> settlement_table \<Rightarrow> settlement_table" where
  "replace_row new rows = map (\<lambda>r. if r_settlement_id r = r_settlement_id new then new else r) rows"

definition postgres_save :: "settlement_state \<Rightarrow> settlement_table \<Rightarrow> store_error + settlement_table" where
  "postgres_save st rows =
     (let row_data = to_row st in
      case find_settlement (settlement_id st) rows of
        None \<Rightarrow> flush (rows @ [row_data])
      | Some existing \<Rightarrow>
        (case canonical_status_of (r_status existing) of
           None \<Rightarrow> Inl (ValueError (r_status existing @ '' is not a valid TaskStatus''))
         | Some existing_status \<Rightarrow>
           (let next_status = canonical_task_status (status st) in
            if existing_status \<noteq> next_status \<and> \<not> can_transition existing_status next_status
            then Inl (ValueError (''invalid status transition persistence guard: '' @
                   task_status_value existing_status @ '' -> '' @ task_status_value next_status))
            else case (if is_post_accepted existing_status then changed_immutable existing row_data else None) of
              Some field_name \<Rightarrow> Inl (ValueError (''immutable field cannot be modified after accepted: '' @ field_name))
            | None \<Rightarrow> flush (replace_row row_data rows))))"

definition postgres_get :: "string \<Rightarrow> settlement_table \<Rightarrow> store_error + settlement_state option" where
  "postgres_get tid rows =
     (case find (\<lambda>r. r_task_id r = tid) rows of
        None \<Rightarrow> Inr None
      | Some r \<Rightarrow> (case from_row r of Inl e \<Rightarrow> Inl e | Inr st \<Rightarrow> Inr (Some st)))"

definition postgres_list_by_status :: "task_status \<Rightarrow> settlement_table \<Rightarrow> (store_error + settlement_state) list" where
  "postgres_list_by_status x rows = map from_row (filter (\<lambda>r. r_status r = task_status_value x) rows)"

section \<open>The Redis store\<close>

record redis_store =
  kv :: "string \<rightharpoonup> settlement_state"
  by_status :: "string \<Rightarrow> string set"

definition redis_save :: "settlement_state \<Rightarrow> redis_store \<Rightarrow> store_error + redis_store" where
  "redis_save st s =
     (let new = task_status_value (status st);
          sets1 = (case kv s (task_id st) of
                     None \<Rightarrow> by_status s
                   | Some prev \<Rightarrow>
                       (let old = task_status_value (status prev)
                        in if old \<noteq> new then (by_status s)(old := by_status s old - {task_id st}) else by_status s))
      in Inr \<lparr>kv = (kv s)(task_id st \<mapsto> st), by_status = sets1(new := insert (task_id st) (sets1 new))\<rparr>)"

definition redis_get :: "string \<Rightarrow> redis_store \<Rightarrow> store_error + settlement_state option" where
  "redis_get tid s = Inr (kv s tid)"

definition redis_list_by_status :: "task_status \<Rightarrow> redis_store \<Rightarrow> settlement_state set" where
  "redis_list_by_status x s = {st. \<exists>tid \<in> by_status s (task_status_value x). kv s tid = Some st}"

text \<open>The server drops a value when its time to live is over; the sets have none.\<close>

definition redis_expire :: "string \<Rightarrow> redis_store \<Rightarrow> redis_store" where
  "redis_expire tid s = s\<lparr>kv := (kv s)(tid := None)\<rparr>"

section \<open>Audited transitions\<close>

record transition_audit =
  audit_settlement_id :: string
  audit_task_id :: string
  from_status :: "task_status option"
  to_status :: task_status
  transition_allowed :: bool
  guard_stage :: string
  audit_reason :: string
  route_path :: "string option"
  actor_id :: "string option"
  audit_created_at :: int

record security_entry =
  sec_task_id :: string
  sec_settlement_id :: string
  sec_from :: "task_status option"
  sec_to :: task_status
  sec_allowed :: bool
  sec_stage :: string
  sec_path :: string
  sec_actor :: string

type_synonym audit_trail = "transition_audit list \<times> security_entry list"

definition or_else :: "string option \<Rightarrow> string \<Rightarrow> string" where
  "or_else x dflt = (case x of None \<Rightarrow> dflt | Some s \<Rightarrow> if s = [] then dflt else s)"

definition record_settlement_transition_audit ::
    "int \<Rightarrow> settlement_state \<Rightarrow> task_status option \<Rightarrow> task_status \<Rightarrow> bool \<Rightarrow> string \<Rightarrow> string \<Rightarrow> string option \<Rightarrow> string option \<Rightarrow>
     audit_trail \<Rightarrow> audit_trail" where
  "record_settlement_transition_audit now st from to allowed stage reason path actor trail =
     (fst trail @ [\<lparr>audit_settlement_id = settlement_id st, audit_task_id = task_id st, from_status = from, to_status = to,
                    transition_allowed = allowed, guard_stage = stage, audit_reason = reason, route_path = path,
                    actor_id = actor, audit_created_at = now\<rparr>],
      snd trail @ [\<lparr>sec_task_id = task_id st, sec_settlement_id = settlement_id st, sec_from = from, sec_to = to,
                    sec_allowed = allowed, sec_stage = stage, sec_path = or_else path ''unknown'',
                    sec_actor = or_else actor ''anonymous''\<rparr>])"

text \<open>
  The state object is changed before the store is asked, and stays changed when the store refuses.
  Only a \<open>ValueError\<close> of the store is handled. The result is the trail, the store, the state object
  and the outcome.
\<close>

definition audited_transition ::
    "string \<Rightarrow> (settlement_state \<Rightarrow> 's \<Rightarrow> store_error + 's) \<Rightarrow> int \<Rightarrow> int \<Rightarrow> settlement_state \<Rightarrow> task_status \<Rightarrow> string \<Rightarrow>
     string option \<Rightarrow> string option \<Rightarrow> audit_trail \<Rightarrow> 's \<Rightarrow>
     audit_trail \<times> 's \<times> settlement_state \<times> (http_error + unit)" where
  "audited_transition stage save now now' st target reason path actor trail s =
     (let from = status st in
      if \<not> can_transition from target
      then let detail = ''invalid status transition: '' @ task_status_value from @ '' -> '' @ task_status_value target
           in (record_settlement_transition_audit now' st (Some from) target False stage detail path actor trail, s, st,
               Inl (HTTPException 409 detail))
      else
        let st' = st\<lparr>status := target, updated_at := now\<rparr> in
        case save st' s of
          Inl (ValueError detail) \<Rightarrow>
            (record_settlement_transition_audit now' st' (Some from) target False ''store'' detail path actor trail, s, st',
             Inl (HTTPException 409 detail))
        | Inl IntegrityError \<Rightarrow> (trail, s, st', Inl UnhandledIntegrityError)
        | Inr s' \<Rightarrow>
            (record_settlement_transition_audit now' st' (Some from) target True ''store'' reason path actor trail, s', st', Inr ()))"

text \<open>The transition of the trade pipeline and of the routes differ in the stage they record.\<close>

definition apply_settlement_transition ::
    "(settlement_state \<Rightarrow> 's \<Rightarrow> store_error + 's) \<Rightarrow> int \<Rightarrow> int \<Rightarrow> settlement_state \<Rightarrow> task_status \<Rightarrow> string \<Rightarrow>
     string option \<Rightarrow> string option \<Rightarrow> audit_trail \<Rightarrow> 's \<Rightarrow>
     audit_trail \<times> 's \<times> settlement_state \<times> (http_error + unit)" where
  "apply_settlement_transition = audited_transition ''pipeline''"

text \<open>
  The transition as part of a request: the audit table and the settlements belong to the database, the
  security events and the state object to the process.
\<close>

definition transition_request ::
    "(settlement_state \<Rightarrow> 's \<Rightarrow> store_error + 's) \<Rightarrow> int \<Rightarrow> int \<Rightarrow> task_status \<Rightarrow> string \<Rightarrow> string option \<Rightarrow>
     string option \<Rightarrow>
     (transition_audit list \<times> 's, security_entry list \<times> settlement_state, http_error, unit) request" where
  "transition_request save now now' target reason path actor d p =
     (case apply_settlement_transition save now now' (snd p) target reason path actor (fst d, fst p) (snd d) of
        ((audits, events), s', st', out) \<Rightarrow> ((audits, s'), (events, st'), out))"

section \<open>The contract of a store\<close>

text \<open>
  After a successful save, the task is read back as what the store keeps of the state (\<open>norm\<close>), and
  every other task is read as before, provided the settlement id was not in use for another task.
\<close>

locale settlement_store =
  fixes save :: "settlement_state \<Rightarrow> 's \<Rightarrow> store_error + 's"
    and get :: "string \<Rightarrow> 's \<Rightarrow> store_error + settlement_state option"
    and wf :: "'s \<Rightarrow> bool"
    and norm :: "settlement_state \<Rightarrow> settlement_state"
  assumes save_wf: "wf s \<Longrightarrow> save st s = Inr s' \<Longrightarrow> wf s'"
    and save_get: "wf s \<Longrightarrow> save st s = Inr s' \<Longrightarrow> get (task_id st) s' = Inr (Some (norm st))"
    and save_frame: "wf s \<Longrightarrow> save st s = Inr s' \<Longrightarrow> t \<noteq> task_id st \<Longrightarrow>
      (\<And>t' x. get t' s = Inr (Some x) \<Longrightarrow> settlement_id x = settlement_id st \<Longrightarrow> t' = task_id st) \<Longrightarrow>
      get t s' = get t s"
begin

lemma transition_accepted:
  assumes "wf s" and "audited_transition stage save now now' st target reason path actor trail s = (trail', s', st', Inr ())"
  shows "wf s' \<and> can_transition (status st) target \<and> st' = st\<lparr>status := target, updated_at := now\<rparr> \<and>
         get (task_id st) s' = Inr (Some (norm st')) \<and>
         trail' = record_settlement_transition_audit now' st' (Some (status st)) target True ''store'' reason path actor trail"
proof -
  let ?st = "st\<lparr>status := target, updated_at := now\<rparr>"
  have "can_transition (status st) target \<and> save ?st s = Inr s' \<and> st' = ?st \<and>
      trail' = record_settlement_transition_audit now' st' (Some (status st)) target True ''store'' reason path actor trail"
    using assms(2)
    by (auto simp: audited_transition_def Let_def split: if_splits sum.splits store_error.splits)
  with save_get [OF assms(1), of ?st s'] save_wf [OF assms(1), of ?st s'] show ?thesis by auto
qed

lemma transition_refused:
  assumes "audited_transition stage save now now' st target reason path actor trail s = (trail', s', st', Inl e)"
  shows "s' = s \<and> (\<forall>a \<in> set (drop (length (fst trail)) (fst trail')). \<not> transition_allowed a)"
  using assms
  by (auto simp: audited_transition_def Let_def record_settlement_transition_audit_def
      split: if_splits sum.splits store_error.splits)

end

interpretation memory: settlement_store memory_save memory_get "\<lambda>_. True" id
  by unfold_locales (auto simp: memory_save_def memory_get_def)

interpretation redis: settlement_store redis_save redis_get "\<lambda>_. True" id
  by unfold_locales (auto simp: redis_save_def redis_get_def Let_def)

section \<open>The table\<close>

definition table_wf :: "settlement_table \<Rightarrow> bool" where
  "table_wf rows \<longleftrightarrow> distinct (map r_settlement_id rows) \<and> distinct (map r_task_id rows)"

text \<open>What a row keeps of a state.\<close>

definition stored_form :: "settlement_state \<Rightarrow> settlement_state" where
  "stored_form st = st\<lparr>status := canonical_task_status (status st), rejection_reason_code := None,
     confirm_window_hours := None, confirm_deadline_at := None,
     funding_source := (if funding_source st = [] then ''internal'' else funding_source st)\<rparr>"

lemma from_to_row: "from_row (to_row st) = Inr (stored_form st)"
  by (simp add: from_row_def to_row_def canonical_status_of_value stored_form_def)

lemma to_row_ids [simp]: "r_settlement_id (to_row st) = settlement_id st" "r_task_id (to_row st) = task_id st"
  by (simp_all add: to_row_def)

lemma find_settlement_None: "find_settlement sid rows = None \<longleftrightarrow> sid \<notin> set (map r_settlement_id rows)"
  by (auto simp: find_settlement_def find_None_iff)

lemma find_settlement_Some:
  "find_settlement sid rows = Some r \<Longrightarrow> r \<in> set rows \<and> r_settlement_id r = sid"
  by (auto simp: find_settlement_def find_Some_iff)

lemma map_ids_replace: "map r_settlement_id (replace_row new rows) = map r_settlement_id rows"
  by (auto simp: replace_row_def)

lemma find_unique:
  "distinct (map f xs) \<Longrightarrow> x \<in> set xs \<Longrightarrow> f x = k \<Longrightarrow> find (\<lambda>y. f y = k) xs = Some x"
  by (induction xs) (auto simp: rev_image_eqI)

text \<open>The table after a successful save: the row is appended or replaced.\<close>

lemma postgres_save_cases:
  assumes "postgres_save st rows = Inr rows'"
  obtains (insert) "find_settlement (settlement_id st) rows = None" "rows' = rows @ [to_row st]"
      "distinct (map r_task_id rows')"
  | (update) r es where "find_settlement (settlement_id st) rows = Some r" "canonical_status_of (r_status r) = Some es"
      "es = canonical_task_status (status st) \<or> can_transition es (canonical_task_status (status st))"
      "is_post_accepted es \<Longrightarrow> changed_immutable r (to_row st) = None"
      "rows' = replace_row (to_row st) rows" "distinct (map r_task_id rows')"
  using assms by (auto simp: postgres_save_def flush_def Let_def split: option.splits if_splits)

lemma postgres_save_wf:
  assumes "table_wf rows" and "postgres_save st rows = Inr rows'"
  shows "table_wf rows' \<and> to_row st \<in> set rows'"
  using assms(2)
proof (cases rule: postgres_save_cases)
  case insert
  with assms(1) find_settlement_None [of "settlement_id st" rows] show ?thesis by (auto simp: table_wf_def)
next
  case (update r es)
  have "to_row st \<in> set (replace_row (to_row st) rows)"
    using find_settlement_Some [OF update(1)] by (auto simp: replace_row_def)
  with update assms(1) show ?thesis by (simp add: table_wf_def map_ids_replace)
qed

lemma postgres_save_get:
  assumes "table_wf rows" and "postgres_save st rows = Inr rows'"
  shows "postgres_get (task_id st) rows' = Inr (Some (stored_form st))"
proof -
  have "find (\<lambda>r. r_task_id r = task_id st) rows' = Some (to_row st)"
    using postgres_save_wf [OF assms] by (intro find_unique) (auto simp: table_wf_def)
  then show ?thesis by (simp add: postgres_get_def from_to_row)
qed

lemma find_replace_other:
  "(\<forall>r \<in> set rows. r_settlement_id r = r_settlement_id new \<longrightarrow> r_task_id r \<noteq> t) \<Longrightarrow> r_task_id new \<noteq> t \<Longrightarrow>
     find (\<lambda>r. r_task_id r = t) (replace_row new rows) = find (\<lambda>r. r_task_id r = t) rows"
  by (induction rows) (auto simp: replace_row_def)

lemma find_append_other: "\<not> P y \<Longrightarrow> find P (xs @ [y]) = find P xs"
  by (induction xs) auto

lemma postgres_save_frame:
  assumes "table_wf rows" and "postgres_save st rows = Inr rows'" and "t \<noteq> task_id st"
    and owner: "\<And>t' x. postgres_get t' rows = Inr (Some x) \<Longrightarrow> settlement_id x = settlement_id st \<Longrightarrow> t' = task_id st"
  shows "postgres_get t rows' = postgres_get t rows"
  using assms(2)
proof (cases rule: postgres_save_cases)
  case insert
  with assms(3) show ?thesis by (simp add: postgres_get_def find_append_other)
next
  case (update r es)
  have r: "r \<in> set rows" "r_settlement_id r = settlement_id st" using find_settlement_Some [OF update(1)] by auto
  have "postgres_get (r_task_id r) rows = (case from_row r of Inl e \<Rightarrow> Inl e | Inr x \<Rightarrow> Inr (Some x))"
    using assms(1) r(1) find_unique [of r_task_id rows r] by (simp add: postgres_get_def table_wf_def)
  moreover obtain x where "from_row r = Inr x" "settlement_id x = r_settlement_id r"
    using update(2) by (simp add: from_row_def)
  ultimately have "r_task_id r = task_id st" using owner r(2) by auto
  moreover have "r' = r" if "r' \<in> set rows" "r_settlement_id r' = settlement_id st" for r'
    using that r assms(1) inj_onD [of r_settlement_id "set rows" r' r] by (simp add: table_wf_def distinct_map)
  ultimately have "\<forall>r' \<in> set rows. r_settlement_id r' = r_settlement_id (to_row st) \<longrightarrow> r_task_id r' \<noteq> t"
    using assms(3) by auto
  with update(5) assms(3) show ?thesis by (simp add: postgres_get_def find_replace_other)
qed

interpretation postgres: settlement_store postgres_save postgres_get table_wf stored_form
proof
  fix t st rows rows'
  assume "table_wf rows" "postgres_save st rows = Inr rows'"
  note ps = this
  show "table_wf rows'" using postgres_save_wf [OF ps] by simp
  show "postgres_get (task_id st) rows' = Inr (Some (stored_form st))" by (rule postgres_save_get [OF ps])
  assume "t \<noteq> task_id st" and
    "\<And>t' x. postgres_get t' rows = Inr (Some x) \<Longrightarrow> settlement_id x = settlement_id st \<Longrightarrow> t' = task_id st"
  then show "postgres_get t rows' = postgres_get t rows" by (rule postgres_save_frame [OF ps])
qed

text \<open>A run of successful saves, and the canonical status of a settlement in the table.\<close>

inductive postgres_step :: "settlement_table \<Rightarrow> settlement_table \<Rightarrow> bool" where
  "postgres_save st rows = Inr rows' \<Longrightarrow> postgres_step rows rows'"

inductive_simps postgres_step_simps: "postgres_step rows rows'"

definition stored_status :: "string \<Rightarrow> settlement_table \<Rightarrow> task_status option" where
  "stored_status sid rows =
     (case find_settlement sid rows of None \<Rightarrow> None | Some r \<Rightarrow> canonical_status_of (r_status r))"

lemma find_settlement_replace:
  "find_settlement sid (replace_row new rows) =
     (if sid = r_settlement_id new \<and> find_settlement sid rows \<noteq> None then Some new else find_settlement sid rows)"
  unfolding find_settlement_def replace_row_def by (induction rows) auto

lemma find_settlement_append:
  "find_settlement sid (rows @ [new]) =
     (case find_settlement sid rows of Some r \<Rightarrow> Some r
      | None \<Rightarrow> if r_settlement_id new = sid then Some new else None)"
  unfolding find_settlement_def by (induction rows) auto

lemma stored_status_step:
  assumes "postgres_step rows rows'" and "stored_status sid rows = Some a"
  shows "\<exists>b. stored_status sid rows' = Some b \<and> (b = a \<or> can_transition a b)"
proof -
  obtain st where save: "postgres_save st rows = Inr rows'" using assms(1) by (auto simp: postgres_step_simps)
  obtain r0 where r0: "find_settlement sid rows = Some r0" using assms(2) by (auto simp: stored_status_def split: option.splits)
  from save show ?thesis
  proof (cases rule: postgres_save_cases)
    case insert
    with assms(2) r0 show ?thesis by (simp add: stored_status_def find_settlement_append)
  next
    case (update r es)
    show ?thesis
    proof (cases "sid = settlement_id st")
      case True
      with update r0 have "stored_status sid rows' = Some (canonical_task_status (status st))" "es = a"
        using assms(2) by (auto simp: stored_status_def find_settlement_replace to_row_def canonical_status_of_value)
      with update(3) show ?thesis by auto
    next
      case False
      with update assms(2) show ?thesis by (simp add: stored_status_def find_settlement_replace)
    qed
  qed
qed

lemma stored_status_run:
  "postgres_step\<^sup>*\<^sup>* rows rows' \<Longrightarrow> stored_status sid rows = Some a \<Longrightarrow>
     \<exists>b. stored_status sid rows' = Some b \<and> can_transition\<^sup>*\<^sup>* a b"
proof (induction rule: rtranclp_induct)
  case (step y z)
  then obtain b where "stored_status sid y = Some b" "can_transition\<^sup>*\<^sup>* a b" by blast
  with stored_status_step [OF step.hyps(2), of sid b] show ?case by (auto intro: rtranclp.rtrancl_into_rtrancl)
qed blast

lemma changed_immutable_None:
  "changed_immutable r r' = None \<longleftrightarrow>
     r_escrow_amount r = r_escrow_amount r' \<and> r_currency r = r_currency r' \<and>
     r_client_agent_id r = r_client_agent_id r' \<and> r_worker_agent_id r = r_worker_agent_id r'"
  by (auto simp: changed_immutable_def)

section \<open>Properties\<close>


definition demo_state :: settlement_state where
  "demo_state =
     \<lparr>settlement_id = ''s1'', task_id = ''t1'', escrow_amount = 100, currency = ''USD'', status = DELIVERED,
      client_agent_id = ''c'', worker_agent_id = Some ''w'', profile_id = None, released_amount = None,
      refunded_amount = None, dispute_reason = None, rejection_reason_code = None, arbitration_notes = None,
      created_at = 0, updated_at = 0, released_at = None, settlement_mode = ''offchain'', chain_id = None,
      contract_address = None, tx_hash = None, evidence_bundle_hash = None, onchain_status = None, quote_id = None,
      voucher_id = None, delivery_deadline_at = None, confirm_window_hours = Some 48, confirm_deadline_at = None,
      progress_rule_spec = None, funding_source = ''internal''\<rparr>"

lemma demo_table: "table_wf [to_row demo_state]" "postgres_get ''t1'' [to_row demo_state] = Inr (Some (stored_form demo_state))"
  using postgres_save_get [of "[]" demo_state "[to_row demo_state]"] postgres_save_wf [of "[]" demo_state "[to_row demo_state]"]
  by (simp_all add: postgres_save_def find_settlement_def flush_def table_wf_def demo_state_def)


text \<open>
  The record of a refusal does not last. When a transition is refused, the record that was added
  to the audit table is rolled back with the session, because the refusal is raised as an exception:
  the database is left exactly as it was, and only the security event in memory remains.
\<close>

theorem refusal_audit_is_rolled_back:
  assumes "\<not> can_transition (status st) target"
  shows "\<exists>events e. in_session (transition_request postgres_save now now' target reason path actor) (audits, rows) (evs, st) =
           ((audits, rows), (evs @ events, st), Inl e) \<and> length events = 1 \<and>
         fst (fst (transition_request postgres_save now now' target reason path actor (audits, rows) (evs, st))) \<noteq> audits"
  using assms
  by (simp add: in_session_def transition_request_def apply_settlement_transition_def audited_transition_def
      record_settlement_transition_audit_def Let_def)

theorem refusal_audit_is_rolled_back_witness:
  "\<exists>events e. in_session (transition_request postgres_save 1 1 DRAFT ''r'' None None) ([], []) ([], demo_state) =
     (([], []), (events, demo_state), Inl e)"
proof -
  have "\<not> can_transition DELIVERED DRAFT" by code_simp
  then have "\<not> can_transition (status demo_state) DRAFT" by (simp add: demo_state_def)
  from refusal_audit_is_rolled_back [OF this, of 1 1 "''r''" None None "[]" "[]" "[]"] show ?thesis by auto
qed



text \<open>
  Terms are frozen after acceptance, as long as the status counts as later than acceptance: a save
  that succeeds on such a settlement leaves escrow amount, currency, client and worker as they were.
\<close>

theorem accepted_terms_are_immutable:
  assumes "postgres_save st rows = Inr rows'" and "find_settlement (settlement_id st) rows = Some r"
    and "stored_status (settlement_id st) rows = Some a" and "is_post_accepted a"
  shows "\<exists>r'. find_settlement (settlement_id st) rows' = Some r' \<and> r_escrow_amount r' = r_escrow_amount r \<and>
           r_currency r' = r_currency r \<and> r_client_agent_id r' = r_client_agent_id r \<and>
           r_worker_agent_id r' = r_worker_agent_id r"
  using assms(1)
proof (cases rule: postgres_save_cases)
  case insert
  with assms(2) show ?thesis by simp
next
  case (update r1 es)
  with assms(2,3) have "r1 = r" "es = a" by (auto simp: stored_status_def)
  with update assms(4) have "changed_immutable r (to_row st) = None" by simp
  with update assms(2) show ?thesis by (auto simp: find_settlement_replace changed_immutable_None)
qed

theorem accepted_terms_are_immutable_witness:
  "\<exists>rows' r'. postgres_save (demo_state\<lparr>status := SETTLED\<rparr>) [to_row demo_state] = Inr rows' \<and>
     find_settlement ''s1'' rows' = Some r' \<and> r_escrow_amount r' = 100"
proof -
  have "case postgres_save (demo_state\<lparr>status := SETTLED\<rparr>) [to_row demo_state] of Inl _ \<Rightarrow> False | Inr _ \<Rightarrow> True" by code_simp
  then obtain rows' where s: "postgres_save (demo_state\<lparr>status := SETTLED\<rparr>) [to_row demo_state] = Inr rows'"
    by (auto split: sum.splits)
  have "find_settlement (settlement_id (demo_state\<lparr>status := SETTLED\<rparr>)) [to_row demo_state] = Some (to_row demo_state)"
    by (simp add: find_settlement_def to_row_def)
  moreover have "stored_status (settlement_id (demo_state\<lparr>status := SETTLED\<rparr>)) [to_row demo_state] = Some DELIVERED"
    by code_simp
  moreover have "is_post_accepted DELIVERED" by code_simp
  ultimately show ?thesis
    using accepted_terms_are_immutable [OF s, of "to_row demo_state" DELIVERED] s by (auto simp: to_row_def demo_state_def)
qed

text \<open>
  The terms of a settled settlement are not protected: a save that names status \<open>SETTLED\<close> may
  replace escrow amount, currency and parties of a settled settlement by any others.
\<close>

theorem settled_terms_can_be_rewritten:
  assumes "table_wf rows" and "find_settlement (settlement_id st) rows = Some r"
    and "canonical_status_of (r_status r) = Some SETTLED" and "r_task_id r = task_id st" and "status st = SETTLED"
  shows "\<exists>rows'. postgres_save st rows = Inr rows' \<and> find_settlement (settlement_id st) rows' = Some (to_row st)"
proof -
  have "canonical_task_status SETTLED = SETTLED" "\<not> is_post_accepted SETTLED" by code_simp+
  moreover have "map r_task_id (replace_row (to_row st) rows) = map r_task_id rows"
  proof -
    have "r_task_id x = task_id st" if "x \<in> set rows" "r_settlement_id x = settlement_id st" for x
      using that assms(1,2,4) find_settlement_Some [OF assms(2)] inj_onD [of r_settlement_id "set rows" x r]
      by (simp add: table_wf_def distinct_map)
    then show ?thesis by (auto simp: replace_row_def)
  qed
  ultimately show ?thesis
    using assms by (simp add: postgres_save_def Let_def flush_def table_wf_def find_settlement_replace)
qed

theorem settled_terms_can_be_rewritten_witness:
  "\<exists>rows' r'. postgres_save (demo_state\<lparr>status := SETTLED, escrow_amount := 1\<rparr>) [to_row (demo_state\<lparr>status := SETTLED\<rparr>)] = Inr rows' \<and>
     find_settlement ''s1'' rows' = Some r' \<and> r_escrow_amount r' = 1"
proof -
  let ?st = "demo_state\<lparr>status := SETTLED, escrow_amount := 1\<rparr>"
  let ?r = "to_row (demo_state\<lparr>status := SETTLED\<rparr>)"
  have "canonical_status_of (r_status ?r) = Some SETTLED" by code_simp
  moreover have "table_wf [?r]" "find_settlement (settlement_id ?st) [?r] = Some ?r" "r_task_id ?r = task_id ?st"
    by (simp_all add: table_wf_def find_settlement_def to_row_def)
  ultimately obtain rows' where "postgres_save ?st [?r] = Inr rows'"
    "find_settlement (settlement_id ?st) rows' = Some (to_row ?st)"
    using settled_terms_can_be_rewritten [of "[?r]" ?st ?r] by auto
  then show ?thesis by (auto simp: to_row_def demo_state_def)
qed

text \<open>
  What survives the database. A saved state reads back with its status in canonical form and every
  other field as it was, except the rejection code and the two fields of the confirmation window, which
  have no column and are lost.
\<close>

theorem database_round_trip:
  assumes "table_wf rows" and "postgres_save st rows = Inr rows'"
  shows "postgres_get (task_id st) rows' = Inr (Some
           (st\<lparr>status := canonical_task_status (status st), rejection_reason_code := None, confirm_window_hours := None,
               confirm_deadline_at := None,
               funding_source := (if funding_source st = [] then ''internal'' else funding_source st)\<rparr>))"
  using postgres_save_get [OF assms] by (simp add: stored_form_def)

theorem database_round_trip_witness:
  "\<exists>x. postgres_get ''t1'' [to_row demo_state] = Inr (Some x) \<and> confirm_window_hours demo_state = Some 48 \<and>
       confirm_window_hours x = None"
  using database_round_trip [of "[]" demo_state "[to_row demo_state]"]
  by (simp add: postgres_save_def find_settlement_def flush_def table_wf_def demo_state_def)

text \<open>
  The index by status of the Redis store goes stale: when the value of a task has expired and the
  task is saved again with another status, the task is listed under its old status too.
\<close>

theorem redis_index_goes_stale:
  assumes "redis_save st1 s0 = Inr s1" and "task_id st2 = task_id st1"
    and "redis_save st2 (redis_expire (task_id st1) s1) = Inr s2" and "status st2 \<noteq> status st1"
  shows "st2 \<in> redis_list_by_status (status st1) s2 \<and> st2 \<in> redis_list_by_status (status st2) s2"
  using assms by (auto simp: redis_save_def redis_expire_def redis_list_by_status_def Let_def)

theorem redis_index_goes_stale_witness:
  "\<exists>s2. redis_save (demo_state\<lparr>status := SETTLED\<rparr>) (redis_expire ''t1''
           (case redis_save demo_state \<lparr>kv = Map.empty, by_status = (\<lambda>_. {})\<rparr> of Inr s1 \<Rightarrow> s1)) = Inr s2 \<and>
        demo_state\<lparr>status := SETTLED\<rparr> \<in> redis_list_by_status DELIVERED s2"
proof -
  obtain s1 where s1: "redis_save demo_state \<lparr>kv = Map.empty, by_status = (\<lambda>_. {})\<rparr> = Inr s1"
    by (simp add: redis_save_def Let_def)
  obtain s2 where s2: "redis_save (demo_state\<lparr>status := SETTLED\<rparr>) (redis_expire (task_id demo_state) s1) = Inr s2"
    by (simp add: redis_save_def Let_def)
  from redis_index_goes_stale [OF s1 _ s2] have "demo_state\<lparr>status := SETTLED\<rparr> \<in> redis_list_by_status DELIVERED s2"
    by (simp add: demo_state_def)
  moreover have "task_id demo_state = ''t1''" by (simp add: demo_state_def)
  ultimately show ?thesis using s1 s2 by auto
qed

end
