(* ===== verification/Capacity.thy ===== *)
theory Capacity
  imports Db_Session
begin

text \<open>
  The capacity ledger: bill credits anchored one to one in locked USDC
  (\<^verbatim>\<open>services/capacity_ledger.py\<close>, \<^verbatim>\<open>services/capacity_resolution.py\<close>, \<^verbatim>\<open>api/routes/capacity.py\<close>), the
  acceptance of a voucher (\<^verbatim>\<open>services/voucher_lifecycle.py\<close>) and the runtime safety mode with its audit
  of the anchor (\<^verbatim>\<open>services/runtime_safety.py\<close>). The capacity table maps an identity to its row and is
  kept as an association list, because the audit sums over it; the safety mode is a module global.
  Amounts are exact rationals.
\<close>

section \<open>Data\<close>

record capacity =
  total_locked_usdc :: rat
  total_bill_credits :: rat
  available_credits :: rat
  reserved_credits :: rat
  in_progress_credits :: rat
  confirmed_progress_credits :: rat
  disputed_credits :: rat
  pending_settlement_credits :: rat
  burned_credits :: rat
  released_credits :: rat
  cap_updated_at :: int

type_synonym capacity_table = "(string \<times> capacity) list"

record safety_mode =
  enabled :: bool
  reason :: "string option"
  triggered_by :: "string option"
  triggered_at :: "int option"
  pause_new_lock :: bool
  pause_new_authorization :: bool
  pause_new_task :: bool
  pause_new_settlement :: bool
  last_anchor_audit_at :: "int option"
  audit_locked_usdc :: rat
  audit_bill_credits :: rat

definition initial_safety_mode :: safety_mode where
  "initial_safety_mode =
     \<lparr>enabled = False, reason = None, triggered_by = None, triggered_at = None, pause_new_lock = False,
      pause_new_authorization = False, pause_new_task = False, pause_new_settlement = False,
      last_anchor_audit_at = None, audit_locked_usdc = 0, audit_bill_credits = 0\<rparr>"

definition EPSILON :: rat where
  "EPSILON = 1 / 10 ^ 9"

section \<open>Ledger rules\<close>

definition active_credits :: "capacity \<Rightarrow> rat" where
  "active_credits c = available_credits c + reserved_credits c + in_progress_credits c + confirmed_progress_credits c +
     disputed_credits c + pending_settlement_credits c"

definition responsibility_credits :: "capacity \<Rightarrow> rat" where
  "responsibility_credits c = reserved_credits c + in_progress_credits c + confirmed_progress_credits c +
     disputed_credits c + pending_settlement_credits c"

text \<open>The check raises (\<open>Inl\<close>) or passes.\<close>

definition assert_can_release_locked_funds :: "capacity \<Rightarrow> rat \<Rightarrow> string + unit" where
  "assert_can_release_locked_funds c amount =
     (if amount \<le> 0 then Inl ''release amount must be > 0''
      else if available_credits c + 1 / 10 ^ 9 < amount then Inl ''insufficient available credits''
      else if EPSILON < responsibility_credits c
      then Inl ''cannot release locked funds while bill credits hold active responsibility (reserved, in_progress, confirmed, disputed, or pending_settlement)''
      else Inr ())"

definition assert_capacity_invariants :: "capacity \<Rightarrow> string + unit" where
  "assert_capacity_invariants c =
     (if EPSILON < \<bar>total_bill_credits c - active_credits c\<bar>
      then Inl ''capacity invariant violated: total_bill_credits != active credit sum''
      else if total_locked_usdc c + EPSILON < active_credits c
      then Inl ''capacity invariant violated: locked usdc below active credits''
      else Inr ())"

definition validate_row :: "capacity \<Rightarrow> http_error + unit" where
  "validate_row c =
     (case assert_capacity_invariants c of
        Inl _ \<Rightarrow> Inl (HTTPException 500 ''capacity invariant check failed'') | Inr u \<Rightarrow> Inr u)"

section \<open>Safety mode\<close>

definition or_default :: "string option \<Rightarrow> string option \<Rightarrow> string option" where
  "or_default x y = (case x of None \<Rightarrow> y | Some s \<Rightarrow> if s = [] then y else x)"

definition set_runtime_safety_mode :: "int \<Rightarrow> bool \<Rightarrow> string option \<Rightarrow> string option \<Rightarrow> safety_mode \<Rightarrow> safety_mode" where
  "set_runtime_safety_mode now en why actor m =
     (if en
      then m\<lparr>enabled := True, reason := or_default why (or_default (reason m) (Some ''manual safety mode enabled'')),
             triggered_by := or_default actor (Some ''system''),
             triggered_at := (case triggered_at m of None \<Rightarrow> Some now | Some t \<Rightarrow> Some t),
             pause_new_lock := True, pause_new_authorization := True, pause_new_task := True,
             pause_new_settlement := True\<rparr>
      else m\<lparr>enabled := False, reason := or_default why (Some ''safety mode disabled''),
             triggered_by := or_default actor (Some ''system''), triggered_at := Some now, pause_new_lock := False,
             pause_new_authorization := False, pause_new_task := False, pause_new_settlement := False\<rparr>)"

definition set_runtime_operational_pauses ::
    "int \<Rightarrow> bool \<Rightarrow> bool \<Rightarrow> bool \<Rightarrow> bool \<Rightarrow> string option \<Rightarrow> string option \<Rightarrow> safety_mode \<Rightarrow> safety_mode" where
  "set_runtime_operational_pauses now lck auth task stl why actor m =
     (let en = lck \<or> auth \<or> task \<or> stl in
      m\<lparr>enabled := en,
        reason := or_default why (Some (if en then ''manual operational pause update'' else ''operational pauses disabled'')),
        triggered_by := or_default actor (Some ''system''), triggered_at := Some now, pause_new_lock := lck,
        pause_new_authorization := auth, pause_new_task := task, pause_new_settlement := stl\<rparr>)"

definition operation_blocked :: "safety_mode \<Rightarrow> string \<Rightarrow> bool" where
  "operation_blocked m operation =
     (let op = lower (strip operation) in
      if op = ''new_lock'' then pause_new_lock m
      else if op = ''new_authorization'' then pause_new_authorization m
      else if op = ''new_task'' then pause_new_task m
      else if op = ''new_settlement'' then pause_new_settlement m
      else if op = ''release_unused_capacity'' then False
      else enabled m)"

definition assert_runtime_operation_allowed :: "safety_mode \<Rightarrow> string \<Rightarrow> http_error + unit" where
  "assert_runtime_operation_allowed m operation =
     (if \<not> operation_blocked m operation then Inr ()
      else Inl (HTTPException 503 (''safety mode active: blocked operation '' @ operation)))"

definition audit_capacity_anchor_and_maybe_trip ::
    "int \<Rightarrow> string option \<Rightarrow> capacity_table \<Rightarrow> safety_mode \<Rightarrow> safety_mode \<times> (http_error + unit)" where
  "audit_capacity_anchor_and_maybe_trip now actor table m =
     (let m1 = m\<lparr>last_anchor_audit_at := Some now, audit_locked_usdc := sum_of total_locked_usdc table,
                 audit_bill_credits := sum_of total_bill_credits table\<rparr>
      in if audit_locked_usdc m1 + 1 / 10 ^ 9 < audit_bill_credits m1
         then (set_runtime_safety_mode now True
                 (Some ''capacity anchor breach: total bill credits exceed total locked usdc'') actor m1,
               Inl (HTTPException 503 ''safety mode enabled: capacity anchor breach detected''))
         else (m1, Inr ()))"

section \<open>Requests on the ledger\<close>

type_synonym cap_request = "(capacity_table, safety_mode, http_error, capacity) request"

definition empty_capacity :: "int \<Rightarrow> capacity" where
  "empty_capacity now =
     \<lparr>total_locked_usdc = 0, total_bill_credits = 0, available_credits = 0, reserved_credits = 0,
      in_progress_credits = 0, confirmed_progress_credits = 0, disputed_credits = 0, pending_settlement_credits = 0,
      burned_credits = 0, released_credits = 0, cap_updated_at = now\<rparr>"

text \<open>The common end of the operations: store the row, validate it, audit the anchor.\<close>

definition finish_row :: "int \<Rightarrow> string \<Rightarrow> capacity \<Rightarrow> cap_request" where
  "finish_row now iden c table m =
     (let table' = put_row iden c table in
      case validate_row c of
        Inl e \<Rightarrow> (table', m, Inl e)
      | Inr _ \<Rightarrow> (case audit_capacity_anchor_and_maybe_trip now (Some ''system'') table' m of
                     (m', Inl e) \<Rightarrow> (table', m', Inl e) | (m', Inr _) \<Rightarrow> (table', m', Inr c)))"

text \<open>\<open>authorised\<close> is the outcome of the check that the caller owns the identity.\<close>

definition lock_usdc :: "rat \<Rightarrow> rat \<Rightarrow> bool \<Rightarrow> int \<Rightarrow> string \<Rightarrow> rat \<Rightarrow> cap_request" where
  "lock_usdc min_amount max_amount authorised now iden amount table m =
     (if \<not> authorised then (table, m, Inl (HTTPException 403 ''authenticated actor must match the target identity for this ledger operation''))
      else case assert_runtime_operation_allowed m ''new_lock'' of
        Inl e \<Rightarrow> (table, m, Inl e)
      | Inr _ \<Rightarrow>
        if amount < min_amount then (table, m, Inl (HTTPException 422 ''amount below minimum''))
        else if max_amount < amount then (table, m, Inl (HTTPException 422 ''amount exceeds maximum''))
        else case audit_capacity_anchor_and_maybe_trip now (Some ''system'') table m of
          (m1, Inl e) \<Rightarrow> (table, m1, Inl e)
        | (m1, Inr _) \<Rightarrow>
          (let row = (case map_of table iden of None \<Rightarrow> empty_capacity now | Some c \<Rightarrow> c)
           in finish_row now iden
                (row\<lparr>total_locked_usdc := total_locked_usdc row + amount,
                     total_bill_credits := total_bill_credits row + amount,
                     available_credits := available_credits row + amount, cap_updated_at := now\<rparr>) table m1))"

definition release_unused :: "bool \<Rightarrow> int \<Rightarrow> string \<Rightarrow> rat \<Rightarrow> cap_request" where
  "release_unused authorised now iden amount table m =
     (if \<not> authorised then (table, m, Inl (HTTPException 403 ''authenticated actor must match the target identity for this ledger operation''))
      else case assert_runtime_operation_allowed m ''release_unused_capacity'' of
        Inl e \<Rightarrow> (table, m, Inl e)
      | Inr _ \<Rightarrow>
        (case audit_capacity_anchor_and_maybe_trip now (Some ''system'') table m of
           (m1, Inl e) \<Rightarrow> (table, m1, Inl e)
         | (m1, Inr _) \<Rightarrow>
           (case map_of table iden of
              None \<Rightarrow> (table, m1, Inl (HTTPException 404 (''Capacity for '' @ iden @ '' not found'')))
            | Some row \<Rightarrow>
              (case assert_can_release_locked_funds row amount of
                 Inl detail \<Rightarrow> (table, m1, Inl (HTTPException 409 detail))
               | Inr _ \<Rightarrow> finish_row now iden
                   (row\<lparr>available_credits := available_credits row - amount,
                        total_bill_credits := total_bill_credits row - amount,
                        total_locked_usdc := total_locked_usdc row - amount,
                        released_credits := released_credits row + amount, cap_updated_at := now\<rparr>) table m1))))"

text \<open>A dispute moves the escrow from the reserved to the disputed bucket; the anchor is audited twice.\<close>

definition move_reserved_to_disputed :: "int \<Rightarrow> string \<Rightarrow> rat \<Rightarrow> cap_request" where
  "move_reserved_to_disputed now buyer escrow table m =
     (case map_of table buyer of
        None \<Rightarrow> (table, m, Inl (HTTPException 409 ''buyer has no capacity ledger; cannot open dispute''))
      | Some cap \<Rightarrow>
        if reserved_credits cap + 1 / 10 ^ 9 < escrow
        then (table, m, Inl (HTTPException 409 ''insufficient reserved credits to freeze for dispute''))
        else
          let cap' = cap\<lparr>reserved_credits := reserved_credits cap - escrow,
                         disputed_credits := disputed_credits cap + escrow, cap_updated_at := now\<rparr>
          in case finish_row now buyer cap' table m of
               (table', m1, Inl e) \<Rightarrow> (table', m1, Inl e)
             | (table', m1, Inr c) \<Rightarrow>
               (case audit_capacity_anchor_and_maybe_trip now (Some ''system'') table' m1 of
                  (m2, Inl e) \<Rightarrow> (table', m2, Inl e)
                | (m2, Inr _) \<Rightarrow> (table', m2, Inr c)))"

text \<open>
  The resolution of a settlement: the escrow leaves the disputed bucket if that is large enough,
  otherwise the reserved one. Without a ledger row nothing happens (\<open>None\<close>).
\<close>

definition apply_capacity_resolution ::
    "int \<Rightarrow> string \<Rightarrow> rat \<Rightarrow> rat \<Rightarrow> rat \<Rightarrow> (capacity_table, safety_mode, http_error, capacity option) request" where
  "apply_capacity_resolution now buyer escrow settled refunded table m =
     (case map_of table buyer of
        None \<Rightarrow> (table, m, Inr None)
      | Some cap \<Rightarrow>
        if total_bill_credits cap + 1 / 10 ^ 9 < escrow
        then (table, m, Inl (HTTPException 409 ''capacity total_bill_credits lower than settlement escrow amount''))
        else if total_locked_usdc cap + 1 / 10 ^ 9 < escrow
        then (table, m, Inl (HTTPException 409 ''capacity total_locked_usdc lower than settlement escrow amount''))
        else
          let taken = (if escrow \<le> disputed_credits cap + 1 / 10 ^ 9
                       then Some (cap\<lparr>disputed_credits := disputed_credits cap - escrow\<rparr>)
                       else if escrow \<le> reserved_credits cap + 1 / 10 ^ 9
                       then Some (cap\<lparr>reserved_credits := reserved_credits cap - escrow\<rparr>)
                       else None)
          in case taken of
               None \<Rightarrow> (table, m, Inl (HTTPException 409 ''capacity: neither disputed_credits nor reserved_credits cover escrow amount''))
             | Some c \<Rightarrow>
               (case finish_row now buyer
                       (c\<lparr>burned_credits := burned_credits c + settled, released_credits := released_credits c + refunded,
                          total_bill_credits := total_bill_credits c - escrow,
                          total_locked_usdc := total_locked_usdc c - escrow, cap_updated_at := now\<rparr>) table m of
                  (table', m', Inl e) \<Rightarrow> (table', m', Inl e)
                | (table', m', Inr c') \<Rightarrow> (table', m', Inr (Some c'))))"

section \<open>Vouchers\<close>

record voucher =
  voucher_id :: string
  buyer_identity_id :: string
  seller_identity_id :: string
  bill_credit_amount :: rat
  v_amount :: rat
  v_currency :: string
  v_task_type :: string
  expiry_time :: int
  v_status :: string
  accepted_at :: "int option"
  rejection_reason :: "string option"
  rejected_at :: "int option"
  rejected_by_identity_id :: "string option"
  v_profile_id :: "string option"
  v_progress_rule_spec :: "json option"

record voucher_event =
  ev_voucher_id :: string
  ev_type :: string
  ev_actor :: string
  ev_target :: string
  ev_payload :: "(string \<times> string) list"

text \<open>
  The database as the voucher requests see it: the ledger, the voucher row, its events and the
  responsibility graph \<open>'g\<close>, whose edge insertion is the argument \<open>ingest\<close>.
\<close>

record 'g voucher_db =
  ledger :: capacity_table
  voucher_row :: voucher
  voucher_events :: "voucher_event list"
  graph :: 'g

definition accept_voucher_row ::
    "(string \<Rightarrow> string \<Rightarrow> string \<Rightarrow> 'g \<Rightarrow> http_error + 'g) \<Rightarrow> int \<Rightarrow> string \<Rightarrow> string \<Rightarrow>
     ('g voucher_db, safety_mode, http_error, voucher) request" where
  "accept_voucher_row ingest now seller actor db m =
     (let row = voucher_row db in
      if v_status row \<noteq> ''created''
      then (db, m, Inl (HTTPException 409 (''voucher already processed: '' @ v_status row)))
      else if expiry_time row \<le> now
      then (db\<lparr>voucher_row := row\<lparr>v_status := ''expired''\<rparr>\<rparr>, m, Inl (HTTPException 409 ''voucher expired''))
      else if seller_identity_id row \<noteq> seller then (db, m, Inl (HTTPException 403 ''seller mismatch''))
      else case map_of (ledger db) (buyer_identity_id row) of
        None \<Rightarrow> (db, m, Inl (HTTPException 409 ''insufficient buyer available credits''))
      | Some cap \<Rightarrow>
        if available_credits cap < bill_credit_amount row
        then (db, m, Inl (HTTPException 409 ''insufficient buyer available credits''))
        else
          let cap' = cap\<lparr>available_credits := available_credits cap - bill_credit_amount row,
                         reserved_credits := reserved_credits cap + bill_credit_amount row, cap_updated_at := now\<rparr>;
              db1 = db\<lparr>ledger := put_row (buyer_identity_id row) cap' (ledger db)\<rparr>
          in case assert_capacity_invariants cap' of
               Inl detail \<Rightarrow> (db1, m, Inl (UnhandledValueError detail))
             | Inr _ \<Rightarrow>
               (case audit_capacity_anchor_and_maybe_trip now (Some ''system'') (ledger db1) m of
                  (m1, Inl e) \<Rightarrow> (db1, m1, Inl e)
                | (m1, Inr _) \<Rightarrow>
                  (let row' = row\<lparr>v_status := ''accepted'', accepted_at := Some now\<rparr>;
                       db2 = db1\<lparr>voucher_row := row'\<rparr>
                   in case ingest (buyer_identity_id row) (seller_identity_id row) (voucher_id row) (graph db) of
                        Inl e \<Rightarrow> (db2, m1, Inl e)
                      | Inr g \<Rightarrow>
                        (db2\<lparr>graph := g,
                             voucher_events := voucher_events db @
                               [\<lparr>ev_voucher_id = voucher_id row, ev_type = ''voucher.accepted'', ev_actor = seller,
                                 ev_target = buyer_identity_id row, ev_payload = [(''actor'', actor)]\<rparr>]\<rparr>,
                         m1, Inr row'))))"

definition reject_voucher_row ::
    "int \<Rightarrow> string \<Rightarrow> string \<Rightarrow> string \<Rightarrow> ('g voucher_db, safety_mode, http_error, voucher) request" where
  "reject_voucher_row now seller why actor db m =
     (let row = voucher_row db in
      if v_status row \<noteq> ''created''
      then (db, m, Inl (HTTPException 409 (''voucher already processed: '' @ v_status row)))
      else if seller_identity_id row \<noteq> seller then (db, m, Inl (HTTPException 403 ''seller mismatch''))
      else
        let row' = row\<lparr>v_status := ''rejected'', rejection_reason := Some (take 2000 why), rejected_at := Some now,
                       rejected_by_identity_id := Some seller\<rparr>
        in (db\<lparr>voucher_row := row',
               voucher_events := voucher_events db @
                 [\<lparr>ev_voucher_id = voucher_id row, ev_type = ''voucher.rejected'', ev_actor = seller,
                   ev_target = buyer_identity_id row, ev_payload = [(''reason'', why), (''actor'', actor), (''code'', actor)]\<rparr>]\<rparr>,
            m, Inr row'))"

section \<open>The ledger invariant\<close>

text \<open>
  The credits of a row are exactly the sum of its buckets, they are exactly anchored, and no bucket
  is overdrawn by more than the tolerance of the checks.
\<close>

definition cap_inv :: "capacity \<Rightarrow> bool" where
  "cap_inv c \<longleftrightarrow> total_bill_credits c = active_credits c \<and> total_locked_usdc c = total_bill_credits c \<and>
     - EPSILON \<le> available_credits c \<and> - EPSILON \<le> reserved_credits c \<and> - EPSILON \<le> in_progress_credits c \<and>
     - EPSILON \<le> confirmed_progress_credits c \<and> - EPSILON \<le> disputed_credits c \<and>
     - EPSILON \<le> pending_settlement_credits c"

definition table_inv :: "capacity_table \<Rightarrow> bool" where
  "table_inv table \<longleftrightarrow> distinct (map fst table) \<and> (\<forall>(k, c) \<in> set table. cap_inv c)"

definition pauses :: "safety_mode \<Rightarrow> bool \<times> bool \<times> bool \<times> bool \<times> bool" where
  "pauses m = (enabled m, pause_new_lock m, pause_new_authorization m, pause_new_task m, pause_new_settlement m)"

lemma EPSILON_pos: "0 < EPSILON"
  by (simp add: EPSILON_def)

lemma table_inv_row: "table_inv table \<Longrightarrow> map_of table iden = Some c \<Longrightarrow> cap_inv c"
  by (auto simp: table_inv_def dest!: map_of_SomeD)

lemma table_inv_put: "table_inv table \<Longrightarrow> cap_inv c \<Longrightarrow> table_inv (put_row iden c table)"
  using keys_put_row [of table iden c] by (auto simp: table_inv_def put_row_def split: if_splits)

lemma table_inv_sums:
  assumes "table_inv table"
  shows "sum_of total_locked_usdc table = sum_of total_bill_credits table"
proof -
  have "map (total_locked_usdc \<circ> snd) table = map (total_bill_credits \<circ> snd) table"
    using assms by (auto simp: table_inv_def cap_inv_def)
  then show ?thesis unfolding sum_of_def by (rule arg_cong)
qed

lemma audit_passes:
  assumes "table_inv table"
  shows "\<exists>m'. audit_capacity_anchor_and_maybe_trip now actor table m = (m', Inr ()) \<and> pauses m' = pauses m"
  using table_inv_sums [OF assms] by (simp add: audit_capacity_anchor_and_maybe_trip_def Let_def pauses_def)

lemma cap_inv_valid: "cap_inv c \<Longrightarrow> assert_capacity_invariants c = Inr ()"
  using EPSILON_pos by (simp add: cap_inv_def assert_capacity_invariants_def)

lemma finish_row_ok:
  assumes "table_inv table" and "cap_inv c"
  shows "\<exists>m'. finish_row now iden c table m = (put_row iden c table, m', Inr c) \<and> pauses m' = pauses m"
  using audit_passes [OF table_inv_put [OF assms, of iden], of now "Some ''system''" m] cap_inv_valid [OF assms(2)]
  by (auto simp: finish_row_def validate_row_def Let_def)

text \<open>What each successful request does to the ledger: it puts one row, which keeps the invariant.\<close>

definition puts_row :: "string \<Rightarrow> (capacity \<Rightarrow> capacity) \<Rightarrow> capacity_table \<Rightarrow> capacity_table \<Rightarrow> bool" where
  "puts_row iden f table table' \<longleftrightarrow>
     (\<exists>c0. (map_of table iden = Some c0 \<or> map_of table iden = None \<and> (\<exists>now. c0 = empty_capacity now)) \<and>
           cap_inv (f c0) \<and> table' = put_row iden (f c0) table)"

lemma empty_capacity_inv: "cap_inv (empty_capacity now)"
  using EPSILON_pos by (simp add: cap_inv_def empty_capacity_def active_credits_def)

lemma puts_row_inv: "table_inv table \<Longrightarrow> puts_row iden f table table' \<Longrightarrow> table_inv table'"
  by (auto simp: puts_row_def intro: table_inv_put)

text \<open>Locked, burned and released amounts together.\<close>

definition accounted :: "capacity \<Rightarrow> rat" where
  "accounted c = total_locked_usdc c + burned_credits c + released_credits c"

lemma puts_row_accounted:
  assumes "table_inv table" and "puts_row iden f table table'" and "\<And>c. accounted (f c) = accounted c + d"
  shows "sum_of accounted table' = sum_of accounted table + d"
proof -
  have "accounted (empty_capacity now) = 0" for now by (simp add: accounted_def empty_capacity_def)
  then show ?thesis
    using assms sum_of_put_row [of table accounted iden] by (auto simp: puts_row_def table_inv_def)
qed

lemma lock_effect:
  assumes "table_inv table" and "0 \<le> amount" and "lock_usdc mn mx auth now iden amount table m = (table', m', Inr c)"
  shows "puts_row iden (\<lambda>row. row\<lparr>total_locked_usdc := total_locked_usdc row + amount,
           total_bill_credits := total_bill_credits row + amount,
           available_credits := available_credits row + amount, cap_updated_at := now\<rparr>) table table' \<and> pauses m' = pauses m"
proof -
  let ?f = "\<lambda>row. row\<lparr>total_locked_usdc := total_locked_usdc row + amount,
      total_bill_credits := total_bill_credits row + amount,
      available_credits := available_credits row + amount, cap_updated_at := now\<rparr>"
  define c0 where "c0 = (case map_of table iden of None \<Rightarrow> empty_capacity now | Some c \<Rightarrow> c)"
  have inv: "cap_inv (?f c0)"
    using table_inv_row [OF assms(1), of iden] empty_capacity_inv [of now] assms(2)
    by (auto simp: c0_def cap_inv_def active_credits_def split: option.splits)
  obtain m1 where "audit_capacity_anchor_and_maybe_trip now (Some ''system'') table m = (m1, Inr ())" "pauses m1 = pauses m"
    using audit_passes [OF assms(1)] by blast
  moreover obtain m2 where "finish_row now iden (?f c0) table m1 = (put_row iden (?f c0) table, m2, Inr (?f c0))"
    "pauses m2 = pauses m1" using finish_row_ok [OF assms(1) inv] by blast
  ultimately show ?thesis
    using assms(3) inv by (auto simp: lock_usdc_def puts_row_def c0_def [symmetric] split: if_splits sum.splits)
       (auto simp: c0_def split: option.splits)
qed

lemma release_effect:
  assumes "table_inv table" and "release_unused auth now iden amount table m = (table', m', Inr c)"
  shows "0 < amount \<and> puts_row iden (\<lambda>row. row\<lparr>available_credits := available_credits row - amount,
           total_bill_credits := total_bill_credits row - amount, total_locked_usdc := total_locked_usdc row - amount,
           released_credits := released_credits row + amount, cap_updated_at := now\<rparr>) table table' \<and> pauses m' = pauses m"
proof -
  let ?f = "\<lambda>row. row\<lparr>available_credits := available_credits row - amount,
      total_bill_credits := total_bill_credits row - amount, total_locked_usdc := total_locked_usdc row - amount,
      released_credits := released_credits row + amount, cap_updated_at := now\<rparr>"
  obtain m1 where a: "audit_capacity_anchor_and_maybe_trip now (Some ''system'') table m = (m1, Inr ())" "pauses m1 = pauses m"
    using audit_passes [OF assms(1)] by blast
  with assms(2) obtain c0 where c0: "map_of table iden = Some c0" "assert_can_release_locked_funds c0 amount = Inr ()"
    "finish_row now iden (?f c0) table m1 = (table', m', Inr c)"
    by (auto simp: release_unused_def split: if_splits sum.splits option.splits)
  have pos: "0 < amount" "amount \<le> available_credits c0 + EPSILON"
    using c0(2) by (auto simp: assert_can_release_locked_funds_def EPSILON_def split: if_splits)
  have "cap_inv (?f c0)"
    using table_inv_row [OF assms(1) c0(1)] pos by (simp add: cap_inv_def active_credits_def)
  with finish_row_ok [OF assms(1) this, of now iden m1] c0 a pos show ?thesis by (auto simp: puts_row_def)
qed

lemma dispute_effect:
  assumes "table_inv table" and "0 \<le> escrow" and "move_reserved_to_disputed now buyer escrow table m = (table', m', Inr c)"
  shows "puts_row buyer (\<lambda>row. row\<lparr>reserved_credits := reserved_credits row - escrow,
           disputed_credits := disputed_credits row + escrow, cap_updated_at := now\<rparr>) table table' \<and> pauses m' = pauses m"
proof -
  let ?f = "\<lambda>row. row\<lparr>reserved_credits := reserved_credits row - escrow,
      disputed_credits := disputed_credits row + escrow, cap_updated_at := now\<rparr>"
  obtain c0 where c0: "map_of table buyer = Some c0" "escrow \<le> reserved_credits c0 + EPSILON"
    using assms(3) by (auto simp: move_reserved_to_disputed_def EPSILON_def split: option.splits if_splits)
  have inv: "cap_inv (?f c0)"
    using table_inv_row [OF assms(1) c0(1)] c0(2) assms(2) by (simp add: cap_inv_def active_credits_def)
  obtain m1 where f: "finish_row now buyer (?f c0) table m = (put_row buyer (?f c0) table, m1, Inr (?f c0))" "pauses m1 = pauses m"
    using finish_row_ok [OF assms(1) inv] by blast
  obtain m2 where "audit_capacity_anchor_and_maybe_trip now (Some ''system'') (put_row buyer (?f c0) table) m1 = (m2, Inr ())"
    "pauses m2 = pauses m1"
    using audit_passes [OF table_inv_put [OF assms(1) inv]] by blast
  with f assms(3) c0 inv show ?thesis
    by (auto simp: move_reserved_to_disputed_def Let_def puts_row_def split: if_splits)
qed

definition resolve_row :: "int \<Rightarrow> rat \<Rightarrow> rat \<Rightarrow> rat \<Rightarrow> capacity \<Rightarrow> capacity" where
  "resolve_row now escrow settled refunded cap =
     (let c = (if escrow \<le> disputed_credits cap + EPSILON then cap\<lparr>disputed_credits := disputed_credits cap - escrow\<rparr>
               else cap\<lparr>reserved_credits := reserved_credits cap - escrow\<rparr>)
      in c\<lparr>burned_credits := burned_credits c + settled, released_credits := released_credits c + refunded,
           total_bill_credits := total_bill_credits c - escrow, total_locked_usdc := total_locked_usdc c - escrow,
           cap_updated_at := now\<rparr>)"

lemma resolve_effect:
  assumes "table_inv table" and "apply_capacity_resolution now buyer escrow settled refunded table m = (table', m', Inr r)"
  shows "(r = None \<and> table' = table \<or> r \<noteq> None \<and> puts_row buyer (resolve_row now escrow settled refunded) table table') \<and>
         pauses m' = pauses m"
proof (cases "map_of table buyer")
  case None
  with assms(2) show ?thesis by (simp add: apply_capacity_resolution_def)
next
  case (Some c0)
  let ?c = "resolve_row now escrow settled refunded c0"
  have cover: "escrow \<le> disputed_credits c0 + EPSILON \<or> escrow \<le> reserved_credits c0 + EPSILON"
    using assms(2) Some by (auto simp: apply_capacity_resolution_def EPSILON_def split: if_splits)
  then have inv: "cap_inv ?c"
    using table_inv_row [OF assms(1) Some] by (auto simp: cap_inv_def active_credits_def resolve_row_def Let_def)
  obtain m1 where "finish_row now buyer ?c table m = (put_row buyer ?c table, m1, Inr ?c)" "pauses m1 = pauses m"
    using finish_row_ok [OF assms(1) inv] by blast
  with assms(2) Some inv cover show ?thesis
    unfolding apply_capacity_resolution_def puts_row_def resolve_row_def Let_def EPSILON_def [symmetric]
    by (auto split: if_splits)
qed

lemma accept_effect:
  assumes "table_inv (ledger db)" and "0 \<le> bill_credit_amount (voucher_row db)"
    and "accept_voucher_row ingest now seller actor db m = (db', m', Inr v)"
  shows "puts_row (buyer_identity_id (voucher_row db))
           (\<lambda>row. row\<lparr>available_credits := available_credits row - bill_credit_amount (voucher_row db),
              reserved_credits := reserved_credits row + bill_credit_amount (voucher_row db), cap_updated_at := now\<rparr>)
           (ledger db) (ledger db') \<and> pauses m' = pauses m"
proof -
  let ?v = "voucher_row db"
  let ?f = "\<lambda>row. row\<lparr>available_credits := available_credits row - bill_credit_amount ?v,
      reserved_credits := reserved_credits row + bill_credit_amount ?v, cap_updated_at := now\<rparr>"
  obtain c0 where c0: "map_of (ledger db) (buyer_identity_id ?v) = Some c0" "bill_credit_amount ?v \<le> available_credits c0"
    using assms(3) by (auto simp: accept_voucher_row_def Let_def split: if_splits option.splits)
  have inv: "cap_inv (?f c0)"
    using table_inv_row [OF assms(1) c0(1)] c0(2) assms(2) EPSILON_pos by (simp add: cap_inv_def active_credits_def)
  obtain m1 where "audit_capacity_anchor_and_maybe_trip now (Some ''system'') (put_row (buyer_identity_id ?v) (?f c0) (ledger db)) m
      = (m1, Inr ())" "pauses m1 = pauses m"
    using audit_passes [OF table_inv_put [OF assms(1) inv]] by blast
  with assms(3) c0 inv cap_inv_valid [OF inv] show ?thesis
    by (auto simp: accept_voucher_row_def Let_def puts_row_def split: if_splits sum.splits)
qed

section \<open>Runs\<close>

datatype cap_op =
    Lock bool int string rat
  | Release bool int string rat
  | AcceptVoucher bool int string voucher
  | OpenDispute int string rat
  | Resolve int string rat rat rat
  | SetSafetyMode bool int
  | SetPauses bool bool bool bool int

type_synonym cap_sys = "capacity_table \<times> safety_mode"

definition run_request :: "(capacity_table, safety_mode, http_error, 'a) request \<Rightarrow> cap_sys \<Rightarrow> cap_sys \<times> bool" where
  "run_request req sys =
     (case in_session req (fst sys) (snd sys) of
        (table, m, Inl _) \<Rightarrow> ((table, m), False) | (table, m, Inr _) \<Rightarrow> ((table, m), True))"

text \<open>The acceptance of a voucher, seen from the ledger; \<open>ok\<close> says whether the graph takes the edge.\<close>

definition accept_on_ledger :: "bool \<Rightarrow> int \<Rightarrow> string \<Rightarrow> voucher \<Rightarrow> (capacity_table, safety_mode, http_error, voucher) request" where
  "accept_on_ledger ok now seller v table m =
     (case accept_voucher_row (\<lambda>_ _ _ g. if ok then Inr g else Inl (HTTPException 409 ''edge'')) now seller ''console''
             \<lparr>ledger = table, voucher_row = v, voucher_events = [], graph = ()\<rparr> m of
        (db', m', out) \<Rightarrow> (ledger db', m', out))"

fun cap_do :: "rat \<Rightarrow> rat \<Rightarrow> cap_op \<Rightarrow> cap_sys \<Rightarrow> cap_sys \<times> bool" where
  "cap_do mn mx (Lock auth now iden amount) sys = run_request (lock_usdc mn mx auth now iden amount) sys"
| "cap_do mn mx (Release auth now iden amount) sys = run_request (release_unused auth now iden amount) sys"
| "cap_do mn mx (AcceptVoucher ok now seller v) sys = run_request (accept_on_ledger ok now seller v) sys"
| "cap_do mn mx (OpenDispute now buyer escrow) sys = run_request (move_reserved_to_disputed now buyer escrow) sys"
| "cap_do mn mx (Resolve now buyer escrow settled refunded) sys =
     run_request (apply_capacity_resolution now buyer escrow settled refunded) sys"
| "cap_do mn mx (SetSafetyMode en now) (table, m) = ((table, set_runtime_safety_mode now en None None m), True)"
| "cap_do mn mx (SetPauses l a t s now) (table, m) = ((table, set_runtime_operational_pauses now l a t s None None m), True)"

text \<open>The amount an operation brings into the ledger when it succeeds.\<close>

fun deposit :: "cap_op \<Rightarrow> rat" where
  "deposit (Lock auth now iden amount) = amount"
| "deposit _ = 0"

fun cap_run :: "rat \<Rightarrow> rat \<Rightarrow> cap_op list \<Rightarrow> cap_sys \<Rightarrow> cap_sys \<times> rat" where
  "cap_run mn mx [] sys = (sys, 0)"
| "cap_run mn mx (op # ops) sys =
     (let (sys1, ok) = cap_do mn mx op sys; (sys2, total_d) = cap_run mn mx ops sys1
      in (sys2, (if ok then deposit op else 0) + total_d))"

text \<open>
  What the callers see to: amounts are not negative (the request schema wants them positive), and a
  resolution splits the escrow.
\<close>

fun op_sane :: "cap_op \<Rightarrow> bool" where
  "op_sane (Lock auth now iden amount) \<longleftrightarrow> 0 \<le> amount"
| "op_sane (AcceptVoucher ok now seller v) \<longleftrightarrow> 0 \<le> bill_credit_amount v"
| "op_sane (OpenDispute now buyer escrow) \<longleftrightarrow> 0 \<le> escrow"
| "op_sane (Resolve now buyer escrow settled refunded) \<longleftrightarrow> settled + refunded = escrow"
| "op_sane _ \<longleftrightarrow> True"

lemma run_request_cases:
  assumes "run_request req (table, m) = ((table', m'), ok)"
  obtains (success) a where "ok" "req table m = (table', m', Inr a)"
  | (failed) e table1 where "\<not> ok" "table' = table" "req table m = (table1, m', Inl e)"
  using assms by (auto simp: run_request_def in_session_def split: prod.splits sum.splits)

lemma puts_row_step:
  assumes "table_inv table" and "puts_row iden f table table'" and "\<And>c. accounted (f c) = accounted c + d"
  shows "table_inv table' \<and> sum_of accounted table' = sum_of accounted table + d"
  using puts_row_inv [OF assms(1,2)] puts_row_accounted [OF assms] by simp

lemma accounted_updates:
  "accounted (row\<lparr>total_locked_usdc := total_locked_usdc row + x, total_bill_credits := b,
     available_credits := a, cap_updated_at := n\<rparr>) = accounted row + x"
  "accounted (row\<lparr>available_credits := a, total_bill_credits := b, total_locked_usdc := total_locked_usdc row - x,
     released_credits := released_credits row + x, cap_updated_at := n\<rparr>) = accounted row"
  "accounted (row\<lparr>available_credits := a, reserved_credits := b, cap_updated_at := n\<rparr>) = accounted row"
  "accounted (row\<lparr>reserved_credits := b, disputed_credits := d, cap_updated_at := n\<rparr>) = accounted row"
  "accounted (resolve_row now e s r row) = accounted row + (s + r - e)"
  by (simp_all add: accounted_def resolve_row_def Let_def)

lemma cap_do_step:
  assumes "table_inv table" and "op_sane op" and "cap_do mn mx op (table, m) = ((table', m'), ok)"
  shows "table_inv table' \<and> sum_of accounted table' = sum_of accounted table + (if ok then deposit op else 0)"
proof (cases op)
  case (Lock auth now iden amount)
  with assms(3) have "run_request (lock_usdc mn mx auth now iden amount) (table, m) = ((table', m'), ok)" by simp
  then show ?thesis
  proof (cases rule: run_request_cases)
    case (success a)
    have "0 \<le> amount" using assms(2) Lock by simp
    from puts_row_step [OF assms(1) conjunct1 [OF lock_effect [OF assms(1) this success(2)]]]
    show ?thesis using Lock success by (simp add: accounted_updates)
  qed (use assms(1) in simp)
next
  case (Release auth now iden amount)
  with assms(3) have "run_request (release_unused auth now iden amount) (table, m) = ((table', m'), ok)" by simp
  then show ?thesis
  proof (cases rule: run_request_cases)
    case (success a)
    from puts_row_step [OF assms(1) conjunct1 [OF conjunct2 [OF release_effect [OF assms(1) success(2)]]], of 0]
    show ?thesis using Release by (simp add: accounted_updates)
  qed (use assms(1) in simp)
next
  case (AcceptVoucher g now seller v)
  with assms(3) have "run_request (accept_on_ledger g now seller v) (table, m) = ((table', m'), ok)" by simp
  then show ?thesis
  proof (cases rule: run_request_cases)
    case (success a)
    let ?db = "\<lparr>ledger = table, voucher_row = v, voucher_events = [], graph = ()\<rparr>"
    obtain db' where "accept_voucher_row (\<lambda>_ _ _ g'. if g then Inr g' else Inl (HTTPException 409 ''edge'')) now seller
        ''console'' ?db m = (db', m', Inr a)" "table' = ledger db'"
      using success(2) by (auto simp: accept_on_ledger_def split: prod.splits)
    note puts_row_step [OF _ conjunct1 [OF accept_effect [OF _ _ this(1)]], of 0]
    with \<open>table' = ledger db'\<close> show ?thesis using AcceptVoucher assms(1,2) by (simp add: accounted_updates)
  qed (use assms(1) in simp)
next
  case (OpenDispute now buyer escrow)
  with assms(3) have "run_request (move_reserved_to_disputed now buyer escrow) (table, m) = ((table', m'), ok)" by simp
  then show ?thesis
  proof (cases rule: run_request_cases)
    case (success a)
    have "0 \<le> escrow" using assms(2) OpenDispute by simp
    from puts_row_step [OF assms(1) conjunct1 [OF dispute_effect [OF assms(1) this success(2)]], of 0]
    show ?thesis using OpenDispute by (simp add: accounted_updates)
  qed (use assms(1) in simp)
next
  case (Resolve now buyer escrow settled refunded)
  with assms(3) have "run_request (apply_capacity_resolution now buyer escrow settled refunded) (table, m) = ((table', m'), ok)"
    by simp
  then show ?thesis
  proof (cases rule: run_request_cases)
    case (success a)
    have z: "settled + refunded - escrow = 0" using assms(2) Resolve by simp
    from resolve_effect [OF assms(1) success(2)]
    have "table' = table \<or> puts_row buyer (resolve_row now escrow settled refunded) table table'" by blast
    then show ?thesis
      using assms(1) Resolve puts_row_step [OF assms(1), of buyer "resolve_row now escrow settled refunded" table' 0] z
      by (auto simp: accounted_updates)
  qed (use assms(1) in simp)
qed (use assms in auto)

lemma cap_run_inv:
  "table_inv table \<Longrightarrow> list_all op_sane ops \<Longrightarrow> cap_run mn mx ops (table, m) = ((table', m'), d) \<Longrightarrow>
     table_inv table' \<and> sum_of accounted table' = sum_of accounted table + d"
proof (induction ops arbitrary: table m d)
  case (Cons op ops)
  obtain table1 m1 ok where step: "cap_do mn mx op (table, m) = ((table1, m1), ok)" by (metis surj_pair)
  obtain d' where rest: "cap_run mn mx ops (table1, m1) = ((table', m'), d')" "d = (if ok then deposit op else 0) + d'"
    using Cons.prems(3) step by (auto simp: Let_def split: prod.splits)
  from cap_do_step [OF Cons.prems(1) _ step] Cons.prems(2) Cons.IH [OF _ _ rest(1)] rest(2) show ?case by simp
qed simp

lemma accept_voucher_cases:
  assumes "accept_voucher_row ingest now seller actor db m = (db', m', Inr v)"
  obtains c where "v_status (voucher_row db) = ''created''" "now < expiry_time (voucher_row db)"
    "seller_identity_id (voucher_row db) = seller"
    "map_of (ledger db) (buyer_identity_id (voucher_row db)) = Some c"
    "bill_credit_amount (voucher_row db) \<le> available_credits c"
    "v = (voucher_row db)\<lparr>v_status := ''accepted'', accepted_at := Some now\<rparr>" "voucher_row db' = v"
    "ledger db' = put_row (buyer_identity_id (voucher_row db))
       (c\<lparr>available_credits := available_credits c - bill_credit_amount (voucher_row db),
          reserved_credits := reserved_credits c + bill_credit_amount (voucher_row db), cap_updated_at := now\<rparr>) (ledger db)"
proof -
  have guards: "v_status (voucher_row db) = ''created''" "now < expiry_time (voucher_row db)"
    "seller_identity_id (voucher_row db) = seller"
    using assms by (auto simp: accept_voucher_row_def Let_def split: if_splits)
  with assms obtain c where "map_of (ledger db) (buyer_identity_id (voucher_row db)) = Some c"
    by (auto simp: accept_voucher_row_def Let_def split: option.splits)
  with assms guards that [of c] show thesis
    by (auto simp: accept_voucher_row_def Let_def split: if_splits sum.splits prod.splits)
qed

section \<open>Properties\<close>



text \<open>
  The anchor audit never trips on a ledger that was only changed through its requests: it passes
  and leaves the pauses of the safety mode as they were.
\<close>

theorem anchor_audit_never_trips:
  assumes "cap_run mn mx ops ([], m) = ((table, m'), deposited)" and "list_all op_sane ops"
  shows "\<exists>m''. audit_capacity_anchor_and_maybe_trip now actor table m' = (m'', Inr ()) \<and> pauses m'' = pauses m'"
proof -
  have "table_inv []" by (simp add: table_inv_def)
  from cap_run_inv [OF this assms(2,1)] have "table_inv table" by simp
  then show ?thesis by (rule audit_passes)
qed

theorem anchor_audit_never_trips_witness:
  "\<exists>table m d. cap_run 1 1000 [Lock True 0 ''a'' 100] ([], initial_safety_mode) = ((table, m), d) \<and>
      (\<exists>m''. audit_capacity_anchor_and_maybe_trip 5 None table m = (m'', Inr ()))"
proof -
  obtain table m d where r: "cap_run 1 1000 [Lock True 0 ''a'' 100] ([], initial_safety_mode) = ((table, m), d)"
    by (metis surj_pair)
  from anchor_audit_never_trips [OF r, of 5 None] r show ?thesis by auto
qed

text \<open>
  When the anchor is breached, by whatever cause, the audit trips: it fails with 503, and afterwards
  new locks, authorisations, tasks and settlements are refused while the release of unused credits is
  still allowed.
\<close>

theorem anchor_breach_trips:
  assumes "sum_of total_locked_usdc table + 1 / 10 ^ 9 < sum_of total_bill_credits table"
    and "audit_capacity_anchor_and_maybe_trip now actor table m = (m', out)"
  shows "out = Inl (HTTPException 503 ''safety mode enabled: capacity anchor breach detected'') \<and>
         (\<forall>operation \<in> {''new_lock'', ''new_authorization'', ''new_task'', ''new_settlement'', ''anything_else''}.
            assert_runtime_operation_allowed m' operation \<noteq> Inr ()) \<and>
         assert_runtime_operation_allowed m' ''release_unused_capacity'' = Inr ()"
proof -
  have *: "lower (strip ''new_lock'') = ''new_lock''" "lower (strip ''new_authorization'') = ''new_authorization''"
    "lower (strip ''new_task'') = ''new_task''" "lower (strip ''new_settlement'') = ''new_settlement''"
    "lower (strip ''anything_else'') = ''anything_else''"
    "lower (strip ''release_unused_capacity'') = ''release_unused_capacity''" by code_simp+
  have "out = Inl (HTTPException 503 ''safety mode enabled: capacity anchor breach detected'')" "pauses m' = (True, True, True, True, True)"
    using assms by (auto simp: audit_capacity_anchor_and_maybe_trip_def Let_def set_runtime_safety_mode_def pauses_def)
  then show ?thesis
    by (auto simp: assert_runtime_operation_allowed_def operation_blocked_def pauses_def Let_def *)
qed

theorem anchor_breach_trips_witness:
  "\<exists>m'. audit_capacity_anchor_and_maybe_trip 0 None [(''a'', (empty_capacity 0)\<lparr>total_bill_credits := 1\<rparr>)] initial_safety_mode =
      (m', Inl (HTTPException 503 ''safety mode enabled: capacity anchor breach detected'')) \<and>
      assert_runtime_operation_allowed m' ''new_lock'' \<noteq> Inr ()"
proof -
  let ?t = "[(''a'', (empty_capacity 0)\<lparr>total_bill_credits := 1\<rparr>)]"
  obtain m' out where r: "audit_capacity_anchor_and_maybe_trip 0 None ?t initial_safety_mode = (m', out)" by (metis surj_pair)
  have "sum_of total_locked_usdc ?t + 1 / 10 ^ 9 < sum_of total_bill_credits ?t" by (simp add: sum_of_def empty_capacity_def)
  from anchor_breach_trips [OF this r] r show ?thesis by auto
qed

text \<open>
  An expired voucher stays open. The refusal marks the voucher as expired and then raises, so the
  session rolls the mark back: after the request the database is what it was, with the voucher still
  \<open>created\<close>.
\<close>

theorem expired_voucher_stays_created:
  assumes "v_status (voucher_row db) = ''created''" and "expiry_time (voucher_row db) \<le> now"
  shows "in_session (accept_voucher_row ingest now seller actor) db m =
         (db, m, Inl (HTTPException 409 ''voucher expired''))"
  using assms by (simp add: in_session_def accept_voucher_row_def)

definition demo_voucher :: voucher where
  "demo_voucher = \<lparr>voucher_id = ''v'', buyer_identity_id = ''a'', seller_identity_id = ''b'', bill_credit_amount = 10,
     v_amount = 10, v_currency = ''USDC'', v_task_type = ''t'', expiry_time = 5, v_status = ''created'',
     accepted_at = None, rejection_reason = None, rejected_at = None, rejected_by_identity_id = None,
     v_profile_id = None, v_progress_rule_spec = None\<rparr>"

theorem expired_voucher_stays_created_witness:
  "\<exists>db'. in_session (accept_voucher_row (\<lambda>_ _ _ g. Inr g) 7 ''b'' ''console'')
       \<lparr>ledger = [], voucher_row = demo_voucher, voucher_events = [], graph = ()\<rparr> initial_safety_mode =
     (db', initial_safety_mode, Inl (HTTPException 409 ''voucher expired'')) \<and> v_status (voucher_row db') = ''created''"
  using expired_voucher_stays_created [of "\<lparr>ledger = [], voucher_row = demo_voucher, voucher_events = [], graph = ()\<rparr>" 7]
  by (simp add: demo_voucher_def)

text \<open>
  A voucher is accepted at most once and only by its seller before its expiry; the accepted amount
  moves from the buyer's available to the reserved credits and nothing else of the row changes.
\<close>

theorem voucher_acceptance:
  assumes "accept_voucher_row ingest now seller actor db m = (db', m', Inr v)"
  shows "v_status (voucher_row db) = ''created'' \<and> now < expiry_time (voucher_row db) \<and>
         seller_identity_id (voucher_row db) = seller \<and> v = voucher_row db' \<and> v_status v = ''accepted'' \<and>
         (\<exists>c c'. map_of (ledger db) (buyer_identity_id v) = Some c \<and> map_of (ledger db') (buyer_identity_id v) = Some c' \<and>
            bill_credit_amount v \<le> available_credits c \<and>
            c' = c\<lparr>available_credits := available_credits c - bill_credit_amount v,
                   reserved_credits := reserved_credits c + bill_credit_amount v, cap_updated_at := now\<rparr>) \<and>
         (\<exists>e. snd (snd (accept_voucher_row ingest now2 seller2 actor2 db' m')) = Inl e)"
proof -
  obtain c where c: "v_status (voucher_row db) = ''created''" "now < expiry_time (voucher_row db)"
    "seller_identity_id (voucher_row db) = seller"
    "map_of (ledger db) (buyer_identity_id (voucher_row db)) = Some c"
    "bill_credit_amount (voucher_row db) \<le> available_credits c"
    "v = (voucher_row db)\<lparr>v_status := ''accepted'', accepted_at := Some now\<rparr>" "voucher_row db' = v"
    "ledger db' = put_row (buyer_identity_id (voucher_row db))
       (c\<lparr>available_credits := available_credits c - bill_credit_amount (voucher_row db),
          reserved_credits := reserved_credits c + bill_credit_amount (voucher_row db), cap_updated_at := now\<rparr>) (ledger db)"
    using accept_voucher_cases [OF assms] by blast
  have "\<exists>e. snd (snd (accept_voucher_row ingest now2 seller2 actor2 db' m')) = Inl e"
    using c(6,7) by (simp add: accept_voucher_row_def Let_def)
  with c show ?thesis by (simp add: map_of_put_row)
qed

theorem voucher_acceptance_witness:
  "\<exists>db' m' v. accept_voucher_row (\<lambda>_ _ _ g. Inr g) 3 ''b'' ''console''
       \<lparr>ledger = [(''a'', (empty_capacity 0)\<lparr>total_locked_usdc := 10, total_bill_credits := 10, available_credits := 10\<rparr>)],
        voucher_row = demo_voucher, voucher_events = [], graph = ()\<rparr> initial_safety_mode = (db', m', Inr v) \<and>
     v_status v = ''accepted''"
proof -
  let ?db = "\<lparr>ledger = [(''a'', (empty_capacity 0)\<lparr>total_locked_usdc := 10, total_bill_credits := 10, available_credits := 10\<rparr>)],
      voucher_row = demo_voucher, voucher_events = [], graph = ()\<rparr>"
  obtain db' m' v where r: "accept_voucher_row (\<lambda>_ _ _ g. Inr g) 3 ''b'' ''console'' ?db initial_safety_mode = (db', m', Inr v)"
    by (auto simp: accept_voucher_row_def demo_voucher_def empty_capacity_def assert_capacity_invariants_def EPSILON_def
        active_credits_def audit_capacity_anchor_and_maybe_trip_def sum_of_def put_row_def Let_def)
  from voucher_acceptance [OF r] r show ?thesis by blast
qed

end
