(* ===== verification/Profile_Capacity.thy ===== *)
theory Profile_Capacity
  imports Py_Std Capacity
begin

text \<open>
  The quota of each role profile under the locked amount of its identity
  (\<^verbatim>\<open>services/profile_capacity.py\<close>): allocation, reservation of credits by a task, and their settlement.
  The table of quotas is an association list with unique profile ids, the owners of the role profiles
  are a map, the ledger row of the identity is the one of theory \<open>Capacity\<close>. Credits are exact
  rationals. The listing that \<open>allocate\<close> returns is left out.
\<close>

section \<open>Data\<close>

record profile_row =
  owner_identity_id :: string
  allocated :: rat
  p_available :: rat
  p_in_progress :: rat
  p_pending :: rat
  p_disputed :: rat
  p_released :: rat
  p_updated_at :: int

type_synonym profile_table = "(string \<times> profile_row) list"

definition in_use :: "profile_row \<Rightarrow> rat" where
  "in_use r = p_in_progress r + p_pending r + p_disputed r"

definition new_profile_row :: "int \<Rightarrow> string \<Rightarrow> rat \<Rightarrow> profile_row" where
  "new_profile_row now iden amount =
     \<lparr>owner_identity_id = iden, allocated = amount, p_available = amount, p_in_progress = 0, p_pending = 0,
      p_disputed = 0, p_released = 0, p_updated_at = now\<rparr>"

section \<open>Operations\<close>

text \<open>The first loop of \<open>allocate\<close>: no amount is negative; the total.\<close>

fun total_allocation :: "(string \<times> rat) list \<Rightarrow> rat \<Rightarrow> http_error + rat" where
  "total_allocation [] acc = Inr acc"
| "total_allocation ((pid, amount) # rest) acc =
     (if amount < 0 then Inl (HTTPException 400 (''negative allocation for '' @ pid))
      else total_allocation rest (acc + amount))"

text \<open>The second loop, one profile after the other.\<close>

definition allocate_one ::
    "int \<Rightarrow> (string \<rightharpoonup> string) \<Rightarrow> string \<Rightarrow> string \<Rightarrow> rat \<Rightarrow> profile_table \<Rightarrow> http_error + profile_table" where
  "allocate_one now profiles iden pid amount t =
     (if profiles pid \<noteq> Some iden
      then Inl (HTTPException 404 (''profile '' @ pid @ '' not found for this identity''))
      else case map_of t pid of
        None \<Rightarrow> Inr (put_row pid (new_profile_row now iden amount) t)
      | Some row \<Rightarrow>
          let used = in_use row
          in if amount + 1 / 10 ^ 9 < used
             then Inl (HTTPException 409 (''cannot reduce '' @ pid @ '' below in-use credits''))
             else Inr (put_row pid (row\<lparr>allocated := amount, p_available := amount - used, p_updated_at := now\<rparr>) t))"

fun allocate_rows ::
    "int \<Rightarrow> (string \<rightharpoonup> string) \<Rightarrow> string \<Rightarrow> (string \<times> rat) list \<Rightarrow> profile_table \<Rightarrow> profile_table \<times> (http_error + unit)" where
  "allocate_rows now profiles iden [] t = (t, Inr ())"
| "allocate_rows now profiles iden ((pid, amount) # rest) t =
     (case allocate_one now profiles iden pid amount t of
        Inl e \<Rightarrow> (t, Inl e)
      | Inr t' \<Rightarrow> allocate_rows now profiles iden rest t')"

type_synonym 'a profile_request = "(profile_table, unit, http_error, 'a) request"

definition allocate ::
    "capacity option \<Rightarrow> int \<Rightarrow> (string \<rightharpoonup> string) \<Rightarrow> string \<Rightarrow> (string \<times> rat) list \<Rightarrow> unit profile_request" where
  "allocate cap now profiles iden allocations t p =
     (case total_allocation allocations 0 of
        Inl e \<Rightarrow> (t, p, Inl e)
      | Inr tot \<Rightarrow>
        (case cap of
           None \<Rightarrow> (t, p, Inl (HTTPException 409 ''no master capacity''))
         | Some c \<Rightarrow>
           if total_locked_usdc c + 1 / 10 ^ 9 < tot
           then (t, p, Inl (HTTPException 409 ''total allocation exceeds master locked''))
           else (case allocate_rows now profiles iden allocations t of (t', out) \<Rightarrow> (t', p, out))))"

definition get_allocations :: "string \<Rightarrow> profile_table \<Rightarrow> profile_table" where
  "get_allocations iden t = filter (\<lambda>(pid, r). owner_identity_id r = iden) t"

definition spend_profile_credits :: "int \<Rightarrow> string \<Rightarrow> rat \<Rightarrow> profile_row profile_request" where
  "spend_profile_credits now pid amount t p =
     (case map_of t pid of
        None \<Rightarrow> (t, p, Inl (HTTPException 409 (''profile '' @ pid @ '' has no allocation'')))
      | Some row \<Rightarrow>
        if p_available row + 1 / 10 ^ 9 < amount
        then (t, p, Inl (HTTPException 409 ''insufficient profile credits''))
        else let row' = row\<lparr>p_available := p_available row - amount, p_in_progress := p_in_progress row + amount,
                            p_updated_at := now\<rparr>
             in (put_row pid row' t, p, Inr row'))"

text \<open>
  The amounts a release books: what leaves in-progress, the settled and the refunded part. \<open>None\<close> is
  the early return of a row with nothing in progress.
\<close>

definition release_split :: "rat \<Rightarrow> rat \<Rightarrow> rat \<Rightarrow> (rat \<times> rat \<times> rat) option" where
  "release_split in_progress settled_amount refunded_amount =
     (let settled = max 0 settled_amount; refunded = max 0 refunded_amount; tot = settled + refunded
      in if in_progress + 1 / 10 ^ 9 < tot
         then if in_progress \<le> 0 then None
              else let scale = (if 0 < settled + refunded then in_progress / (settled + refunded) else 0)
                   in Some (in_progress, py_round (settled * scale) 8, py_round (refunded * scale) 8)
         else Some (tot, settled, refunded))"

definition release_profile_credits :: "int \<Rightarrow> string \<Rightarrow> rat \<Rightarrow> rat \<Rightarrow> profile_row option profile_request" where
  "release_profile_credits now pid settled_amount refunded_amount t p =
     (case map_of t pid of
        None \<Rightarrow> (t, p, Inr None)
      | Some row \<Rightarrow>
        (case release_split (p_in_progress row) settled_amount refunded_amount of
           None \<Rightarrow> (t, p, Inr (Some row))
         | Some (tot, settled, refunded) \<Rightarrow>
           let row' = row\<lparr>p_in_progress := p_in_progress row - tot, p_released := p_released row + settled,
                          p_available := p_available row + (if 0 < refunded then refunded else 0), p_updated_at := now\<rparr>
           in (put_row pid row' t, p, Inr (Some row'))))"

section \<open>Lemmas\<close>

lemma total_allocation_Inr:
  "total_allocation allocs acc = Inr tot \<longleftrightarrow> (\<forall>(pid, a) \<in> set allocs. 0 \<le> a) \<and> tot = acc + sum_list (map snd allocs)"
  by (induction allocs acc rule: total_allocation.induct) (auto simp: algebra_simps)

lemma allocate_Inr:
  "allocate cap now profiles iden allocs t p = (t', p', Inr u) \<longleftrightarrow>
     p' = p \<and> (\<forall>(pid, a) \<in> set allocs. 0 \<le> a) \<and>
     (\<exists>c. cap = Some c \<and> sum_list (map snd allocs) \<le> total_locked_usdc c + EPSILON) \<and>
     allocate_rows now profiles iden allocs t = (t', Inr ())"
proof (cases "total_allocation allocs 0")
  case (Inl e)
  then have "\<not> (\<forall>(pid, a) \<in> set allocs. 0 \<le> a)" using total_allocation_Inr [of allocs 0 "sum_list (map snd allocs)"] by auto
  with Inl show ?thesis by (auto simp: allocate_def)
next
  case (Inr tot)
  then have "\<forall>(pid, a) \<in> set allocs. 0 \<le> a" "tot = sum_list (map snd allocs)" by (auto simp: total_allocation_Inr)
  with Inr show ?thesis
    by (auto simp: allocate_def EPSILON_def split: option.splits prod.splits)
qed

lemma allocate_one_Inr:
  assumes "allocate_one now profiles iden pid amount t = Inr t'"
  obtains r where "profiles pid = Some iden" "t' = put_row pid r t" "allocated r = amount"
    "p_available r + in_use r = amount" "p_updated_at r = now"
    "0 \<le> amount \<longrightarrow> - EPSILON \<le> p_available r"
    "case map_of t pid of None \<Rightarrow> owner_identity_id r = iden \<and> in_use r = 0
      | Some old \<Rightarrow> owner_identity_id r = owner_identity_id old \<and> in_use r = in_use old \<and> in_use old \<le> amount + EPSILON"
proof (cases "map_of t pid")
  case None
  with assms that [of "new_profile_row now iden amount"] show ?thesis
    by (auto simp: allocate_one_def new_profile_row_def in_use_def EPSILON_def split: if_splits)
next
  case (Some old)
  with assms that [of "old\<lparr>allocated := amount, p_available := amount - in_use old, p_updated_at := now\<rparr>"] show ?thesis
    by (auto simp: allocate_one_def in_use_def Let_def EPSILON_def split: if_splits)
qed

lemma allocate_rows_Inr:
  assumes "allocate_rows now profiles iden allocs t = (t', Inr ())" and "distinct (map fst allocs)"
  shows "\<forall>pid. case map_of allocs pid of
            None \<Rightarrow> map_of t' pid = map_of t pid
          | Some a \<Rightarrow> profiles pid = Some iden \<and> (\<exists>r. map_of t' pid = Some r \<and> allocated r = a \<and> p_available r + in_use r = a \<and>
                        in_use r = (case map_of t pid of None \<Rightarrow> 0 | Some old \<Rightarrow> in_use old))"
  using assms
proof (induction now profiles iden allocs t arbitrary: t' rule: allocate_rows.induct)
  case (2 now profiles iden pid amount rest t)
  then obtain t1 where one: "allocate_one now profiles iden pid amount t = Inr t1"
    and rest: "allocate_rows now profiles iden rest t1 = (t', Inr ())"
    by (auto split: sum.splits)
  from one obtain r where r: "profiles pid = Some iden" "t1 = put_row pid r t" "allocated r = amount"
    "p_available r + in_use r = amount"
    "case map_of t pid of None \<Rightarrow> owner_identity_id r = iden \<and> in_use r = 0
      | Some old \<Rightarrow> owner_identity_id r = owner_identity_id old \<and> in_use r = in_use old \<and> in_use old \<le> amount + EPSILON"
    by (rule allocate_one_Inr)
  have fresh: "map_of rest pid = None" using 2(3) by (auto simp: map_of_eq_None_iff)
  have IH: "case map_of rest x of None \<Rightarrow> map_of t' x = map_of t1 x
      | Some a \<Rightarrow> profiles x = Some iden \<and> (\<exists>r. map_of t' x = Some r \<and> allocated r = a \<and> p_available r + in_use r = a \<and>
                    in_use r = (case map_of t1 x of None \<Rightarrow> 0 | Some old \<Rightarrow> in_use old))" for x
    using 2(1) [OF one rest] 2(3) by simp
  show ?case
  proof
    fix x
    show "case map_of ((pid, amount) # rest) x of None \<Rightarrow> map_of t' x = map_of t x
      | Some a \<Rightarrow> profiles x = Some iden \<and> (\<exists>r. map_of t' x = Some r \<and> allocated r = a \<and> p_available r + in_use r = a \<and>
                    in_use r = (case map_of t x of None \<Rightarrow> 0 | Some old \<Rightarrow> in_use old))"
    proof (cases "x = pid")
      case True
      with IH [of pid] fresh r show ?thesis by (auto simp: map_of_put_row split: option.splits)
    next
      case False
      with IH [of x] r(2) show ?thesis by (cases "map_of rest x") (simp_all add: map_of_put_row)
    qed
  qed
qed simp

lemma release_split_bounds:
  assumes "release_split x s r = Some (tot, settled, refunded)"
  shows "tot \<le> x + EPSILON" "0 \<le> tot" "0 \<le> settled" "0 \<le> refunded" "\<bar>settled + refunded - tot\<bar> \<le> 1 / 10 ^ 8"
    "refunded \<le> tot + 1 / 10 ^ 8"
proof -
  let ?s = "max 0 s" and ?r = "max 0 r"
  have "tot \<le> x + EPSILON \<and> 0 \<le> tot \<and> 0 \<le> settled \<and> 0 \<le> refunded \<and> \<bar>settled + refunded - tot\<bar> \<le> 1 / 10 ^ 8 \<and>
      refunded \<le> tot + 1 / 10 ^ 8"
  proof (cases "x + EPSILON < ?s + ?r")
    case False
    with assms show ?thesis by (auto simp: release_split_def Let_def EPSILON_def)
  next
    case True
    with assms have x: "0 < x" "tot = x" by (auto simp: release_split_def Let_def EPSILON_def split: if_splits)
    with True have sum: "0 < ?s + ?r" using EPSILON_pos by linarith
    define k where "k = x / (?s + ?r)"
    have "?s * k + ?r * k = (?s + ?r) * k" by (rule distrib_right [symmetric])
    with x(1) sum have k: "0 < k" "?s * k + ?r * k = x" by (simp_all add: k_def)
    have "settled = py_round (?s * k) 8" "refunded = py_round (?r * k) 8"
      using True x assms sum by (auto simp: release_split_def Let_def EPSILON_def k_def split: if_splits)
    note eq = this
    have err: "\<bar>settled - ?s * k\<bar> \<le> 1 / (2 * 10 ^ 8)" "\<bar>refunded - ?r * k\<bar> \<le> 1 / (2 * 10 ^ 8)"
      unfolding eq by (rule py_round_error)+
    have "0 \<le> ?s * k" "0 \<le> ?r * k" using k(1) by simp_all
    then have pos: "0 \<le> settled" "0 \<le> refunded"
      unfolding eq using py_round_ge [of 0 "?s * k" 8] py_round_ge [of 0 "?r * k" 8] by simp_all
    have "\<bar>settled + refunded - x\<bar> \<le> 1 / 10 ^ 8"
      using abs_diff_triangle_ineq [of settled refunded "?s * k" "?r * k"] err k(2) by simp
    note e = this abs_le_D1 [OF this]
    then have "refunded \<le> x + 1 / 10 ^ 8" using pos(1) by linarith
    with e(1) show ?thesis using x pos EPSILON_pos by simp
  qed
  then show "tot \<le> x + EPSILON" "0 \<le> tot" "0 \<le> settled" "0 \<le> refunded" "\<bar>settled + refunded - tot\<bar> \<le> 1 / 10 ^ 8"
    "refunded \<le> tot + 1 / 10 ^ 8" by blast+
qed

section \<open>Runs\<close>

datatype profile_op =
    Allocate "capacity option" int string "(string \<times> rat) list"
  | Spend int string rat
  | ReleaseCredits int string rat rat

definition run_quota :: "'a profile_request \<Rightarrow> profile_table \<Rightarrow> profile_table" where
  "run_quota req t = fst (in_session req t ())"

fun profile_do :: "(string \<rightharpoonup> string) \<Rightarrow> profile_op \<Rightarrow> profile_table \<Rightarrow> profile_table" where
  "profile_do profiles (Allocate cap now iden allocs) t = run_quota (allocate cap now profiles iden allocs) t"
| "profile_do profiles (Spend now pid amount) t = run_quota (spend_profile_credits now pid amount) t"
| "profile_do profiles (ReleaseCredits now pid s r) t = run_quota (release_profile_credits now pid s r) t"

definition releases :: "profile_op list \<Rightarrow> nat" where
  "releases ops = length (filter (\<lambda>op. case op of ReleaseCredits _ _ _ _ \<Rightarrow> True | _ \<Rightarrow> False) ops)"

text \<open>Usage stays under the allocation, up to the rounding of \<open>n\<close> clamped releases.\<close>

definition quota_ok :: "nat \<Rightarrow> profile_row \<Rightarrow> bool" where
  "quota_ok n r \<longleftrightarrow> - EPSILON \<le> p_available r \<and> p_available r + in_use r \<le> allocated r + of_nat n / 10 ^ 8"

definition quota_inv :: "nat \<Rightarrow> profile_table \<Rightarrow> bool" where
  "quota_inv n t \<longleftrightarrow> distinct (map fst t) \<and> (\<forall>(pid, r) \<in> set t. quota_ok n r)"

lemma quota_inv_put: "quota_inv n t \<Longrightarrow> quota_ok n r \<Longrightarrow> quota_inv n (put_row pid r t)"
  using put_row_set [of pid r t] by (auto simp: quota_inv_def keys_put_row)

lemma quota_inv_row: "quota_inv n t \<Longrightarrow> map_of t pid = Some r \<Longrightarrow> quota_ok n r"
  by (auto simp: quota_inv_def dest!: map_of_SomeD)

lemma quota_inv_Suc: "quota_inv n t \<Longrightarrow> quota_inv (Suc n) t"
  by (fastforce simp: quota_inv_def quota_ok_def add_divide_distrib)

lemma allocate_rows_quota:
  "allocate_rows now profiles iden allocs t = (t', Inr ()) \<Longrightarrow> quota_inv n t \<Longrightarrow> \<forall>(pid, a) \<in> set allocs. 0 \<le> a \<Longrightarrow> quota_inv n t'"
proof (induction now profiles iden allocs t arbitrary: t' rule: allocate_rows.induct)
  case (2 now profiles iden pid amount rest t)
  then obtain t1 where one: "allocate_one now profiles iden pid amount t = Inr t1"
    and rest: "allocate_rows now profiles iden rest t1 = (t', Inr ())"
    by (auto split: sum.splits)
  from one obtain r where r: "t1 = put_row pid r t" "allocated r = amount" "p_available r + in_use r = amount"
    "0 \<le> amount \<longrightarrow> - EPSILON \<le> p_available r"
    using allocate_one_Inr [OF one] by metis
  then have "quota_inv n t1" using 2(3,4) by (auto simp: quota_ok_def intro: quota_inv_put)
  with 2(1) [OF one rest] 2(4) show ?case by simp
qed simp

lemma release_quota:
  assumes "quota_ok n row" and "release_split (p_in_progress row) s r = Some (tot, settled, refunded)"
  shows "quota_ok (Suc n) (row\<lparr>p_in_progress := p_in_progress row - tot, p_released := p_released row + settled,
           p_available := p_available row + (if 0 < refunded then refunded else 0), p_updated_at := now\<rparr>)"
proof -
  have "(if 0 < refunded then refunded else 0) = refunded" using release_split_bounds(4) [OF assms(2)] by simp
  moreover have "0 \<le> refunded" "refunded \<le> tot + 1 / 10 ^ 8" by (rule release_split_bounds [OF assms(2)])+
  ultimately show ?thesis using assms(1) by (simp add: quota_ok_def in_use_def add_divide_distrib)
qed

lemma profile_do_quota:
  assumes "quota_inv n t"
  shows "quota_inv (n + releases [op]) (profile_do profiles op t)"
proof (cases op)
  case (Allocate cap now iden allocs)
  obtain t' p out where r: "allocate cap now profiles iden allocs t () = (t', p, out)" by (metis surj_pair)
  show ?thesis
  proof (cases out)
    case (Inr u)
    with r have "\<forall>(pid, a) \<in> set allocs. 0 \<le> a" "allocate_rows now profiles iden allocs t = (t', Inr ())"
      by (auto simp: allocate_Inr)
    with allocate_rows_quota [OF _ assms] have "quota_inv n t'" by blast
    with r Inr Allocate show ?thesis by (simp add: run_quota_def in_session_def releases_def)
  qed (use r Allocate assms in \<open>simp add: run_quota_def in_session_def releases_def\<close>)
next
  case (Spend now pid amount)
  show ?thesis
  proof (cases "map_of t pid")
    case (Some row)
    with quota_inv_row [OF assms] have "quota_ok n row" by simp
    with Spend Some assms show ?thesis
      by (auto simp: run_quota_def in_session_def releases_def spend_profile_credits_def Let_def quota_ok_def in_use_def
          EPSILON_def intro!: quota_inv_put)
  qed (use Spend assms in \<open>simp add: run_quota_def in_session_def releases_def spend_profile_credits_def\<close>)
next
  case (ReleaseCredits now pid s r)
  note suc = quota_inv_Suc [OF assms]
  show ?thesis
  proof (cases "map_of t pid")
    case (Some row)
    with quota_inv_row [OF assms] have "quota_ok n row" by simp
    show ?thesis
    proof (cases "release_split (p_in_progress row) s r")
      case None
      with ReleaseCredits Some suc show ?thesis
        by (simp add: run_quota_def in_session_def releases_def release_profile_credits_def)
    next
      case (Some x)
      obtain tot settled refunded where x: "x = (tot, settled, refunded)" by (cases x)
      from release_quota [OF \<open>quota_ok n row\<close> Some [unfolded x]] ReleaseCredits \<open>map_of t pid = Some row\<close> Some x suc
      show ?thesis
        by (simp add: run_quota_def in_session_def releases_def release_profile_credits_def Let_def quota_inv_put del: if_split)
    qed
  qed (use ReleaseCredits suc in \<open>simp add: run_quota_def in_session_def releases_def release_profile_credits_def\<close>)
qed

lemma profile_run_quota:
  "quota_inv n t \<Longrightarrow> quota_inv (n + releases ops) (fold (profile_do profiles) ops t)"
proof (induction ops arbitrary: n t)
  case (Cons op ops)
  have "releases (op # ops) = releases [op] + releases ops" by (simp add: releases_def)
  with Cons.IH [OF profile_do_quota [OF Cons.prems]] show ?case by (simp add: add.assoc)
qed (simp add: releases_def)

section \<open>Properties\<close>

text \<open>
  Quotas are kept. Over every run of allocations, reservations and releases, failing ones included,
  from an empty table, the available credits of a profile are never below the tolerance, and what it
  has available and in use together stays under its allocation, up to one unit of the eighth decimal
  for each release (a release of more than is in progress is scaled down and rounded).
\<close>

theorem quota_usage_bounded:
  assumes "map_of (fold (profile_do profiles) ops []) pid = Some r"
  shows "- EPSILON \<le> p_available r \<and> p_available r + in_use r \<le> allocated r + of_nat (releases ops) / 10 ^ 8"
proof -
  have "quota_inv 0 []" by (simp add: quota_inv_def)
  from quota_inv_row [OF profile_run_quota [OF this] assms] show ?thesis by (simp add: quota_ok_def)
qed

definition demo_capacity :: "rat \<Rightarrow> capacity" where
  "demo_capacity x = (empty_capacity 0)\<lparr>total_locked_usdc := x, total_bill_credits := x, available_credits := x\<rparr>"

theorem quota_usage_bounded_witness:
  "\<exists>r. map_of (fold (profile_do [''p'' \<mapsto> ''a'']) [Allocate (Some (demo_capacity 100)) 0 ''a'' [(''p'', 60)], Spend 1 ''p'' 50,
          ReleaseCredits 2 ''p'' 40 20] []) ''p'' = Some r \<and>
       p_available r + in_use r \<le> allocated r + 1 / 10 ^ 8"
proof -
  let ?ops = "[Allocate (Some (demo_capacity 100)) 0 ''a'' [(''p'', 60)], Spend 1 ''p'' 50, ReleaseCredits 2 ''p'' 40 20]"
  have "map_of (fold (profile_do [''p'' \<mapsto> ''a'']) ?ops []) ''p'' \<noteq> None"
    by (simp add: run_quota_def in_session_def allocate_def demo_capacity_def empty_capacity_def allocate_one_def
        new_profile_row_def put_row_def spend_profile_credits_def release_profile_credits_def Let_def split: option.split prod.split)
  then obtain r where r: "map_of (fold (profile_do [''p'' \<mapsto> ''a'']) ?ops []) ''p'' = Some r" by auto
  from quota_usage_bounded [OF r] r show ?thesis by (auto simp: releases_def)
qed

text \<open>
  One allocation keeps to the locked amount: it succeeds only if its amounts are not negative and add up
  to at most the locked USDC (plus the tolerance), and then every listed profile is owned by the identity,
  has its new allocation, all of it either available or in use as before, and no other profile changes.
\<close>

theorem allocation_outcome:
  assumes "allocate cap now profiles iden allocs t p = (t', p', Inr u)" and "distinct (map fst allocs)"
  shows "(\<exists>c. cap = Some c \<and> sum_list (map snd allocs) \<le> total_locked_usdc c + EPSILON) \<and>
         (\<forall>pid. case map_of allocs pid of
            None \<Rightarrow> map_of t' pid = map_of t pid
          | Some a \<Rightarrow> 0 \<le> a \<and> profiles pid = Some iden \<and>
              (\<exists>r. map_of t' pid = Some r \<and> allocated r = a \<and> p_available r + in_use r = a \<and>
                   in_use r = (case map_of t pid of None \<Rightarrow> 0 | Some old \<Rightarrow> in_use old)))"
proof -
  from assms(1) have ok: "\<forall>(pid, a) \<in> set allocs. 0 \<le> a" "allocate_rows now profiles iden allocs t = (t', Inr ())"
    "\<exists>c. cap = Some c \<and> sum_list (map snd allocs) \<le> total_locked_usdc c + EPSILON"
    by (simp_all add: allocate_Inr)
  have pos: "map_of allocs pid = Some a \<Longrightarrow> 0 \<le> a" for pid a using ok(1) by (auto dest!: map_of_SomeD)
  have row: "case map_of allocs pid of None \<Rightarrow> map_of t' pid = map_of t pid
      | Some a \<Rightarrow> 0 \<le> a \<and> profiles pid = Some iden \<and>
          (\<exists>r. map_of t' pid = Some r \<and> allocated r = a \<and> p_available r + in_use r = a \<and>
               in_use r = (case map_of t pid of None \<Rightarrow> 0 | Some old \<Rightarrow> in_use old))" for pid
    using spec [OF allocate_rows_Inr [OF ok(2) assms(2)], of pid] pos [of pid] by (cases "map_of allocs pid") simp_all
  show ?thesis by (intro conjI allI ok(3) row)
qed

theorem allocation_outcome_witness:
  "\<exists>t'. allocate (Some (demo_capacity 100)) 0 [''p'' \<mapsto> ''a''] ''a'' [(''p'', 60)] [] () = (t', (), Inr ()) \<and>
        (\<exists>r. map_of t' ''p'' = Some r \<and> p_available r = 60)"
proof -
  have "snd (allocate (Some (demo_capacity 100)) 0 [''p'' \<mapsto> ''a''] ''a'' [(''p'', 60)] [] ()) = ((), Inr ())"
    by (simp add: allocate_def demo_capacity_def empty_capacity_def allocate_one_def)
  then obtain t' where r: "allocate (Some (demo_capacity 100)) 0 [''p'' \<mapsto> ''a''] ''a'' [(''p'', 60)] [] () = (t', (), Inr ())"
    by (metis prod.collapse)
  have "distinct (map fst [(''p'', 60 :: rat)])" by simp
  from spec [OF conjunct2 [OF allocation_outcome [OF r this]], of "''p''"] r show ?thesis by auto
qed

text \<open>
  The limit holds for one call only. The check adds the amounts of the call, not those allocated before:
  an identity may give all of its locked amount to one profile and, in a second call, all of it
  again to another, so that the quotas in force add up to twice what is locked.
\<close>

theorem two_allocations_exceed_locked:
  assumes "profiles pid1 = Some iden" and "profiles pid2 = Some iden" and "pid1 \<noteq> pid2"
    and "map_of t pid1 = None" and "map_of t pid2 = None" and "0 \<le> total_locked_usdc c"
  shows "\<exists>t1 t2 r1 r2.
           in_session (allocate (Some c) now profiles iden [(pid1, total_locked_usdc c)]) t () = (t1, (), Inr ()) \<and>
           in_session (allocate (Some c) now' profiles iden [(pid2, total_locked_usdc c)]) t1 () = (t2, (), Inr ()) \<and>
           map_of t2 pid1 = Some r1 \<and> map_of t2 pid2 = Some r2 \<and>
           p_available r1 + p_available r2 = 2 * total_locked_usdc c"
  using assms
  by (simp add: in_session_def allocate_def allocate_one_def map_of_put_row new_profile_row_def)

theorem two_allocations_exceed_locked_witness:
  "\<exists>t1 t2 r1 r2.
     in_session (allocate (Some (demo_capacity 100)) 0 (\<lambda>_. Some ''a'') ''a'' [(''p'', 100)]) [] () = (t1, (), Inr ()) \<and>
     in_session (allocate (Some (demo_capacity 100)) 1 (\<lambda>_. Some ''a'') ''a'' [(''q'', 100)]) t1 () = (t2, (), Inr ()) \<and>
     map_of t2 ''p'' = Some r1 \<and> map_of t2 ''q'' = Some r2 \<and> p_available r1 + p_available r2 = 200"
  using two_allocations_exceed_locked [of "\<lambda>_. Some ''a''" "''p''" "''a''" "''q''" "[]" "demo_capacity 100" 0 1]
  by (simp add: demo_capacity_def)

end
