(* ===== verification/Settlement_Rules.thy ===== *)
theory Settlement_Rules
  imports Verifier_Rules Py_Std Capacity
begin

text \<open>
  The rules a settlement is decided by: the split of an automatic arbitration with its context
  (\<^verbatim>\<open>services/auto_arbitration_rules.py\<close>), the receipt that a payout to the seller asks for
  (\<^verbatim>\<open>services/settlement_receipt_release_guard.py\<close>), the ceiling of claimed progress
  (\<^verbatim>\<open>services/progress_curve.py\<close>) and the guard against payment cycles
  (\<^verbatim>\<open>services/settlement_cycle_guard.py\<close>). Amounts and percentages are exact rationals; the JSON dump of
  a stored receipt is a field of its row.
\<close>

section \<open>Automatic arbitration\<close>

record arb_receipt =
  rr_id :: string
  rr_step :: int
  rr_status :: string
  rr_dump :: dict

record bundle_row =
  b_receipt_ids :: "string list"
  b_receipt_hashes :: "string list"
  b_total :: int
  b_successful :: int
  b_failed :: int

record arbitration_context =
  delivery_overdue :: bool
  has_success_receipt :: bool
  bundle_receipt_ids_ok :: "bool option"
  bundle_step_counts_ok :: "bool option"
  bundle_receipt_hashes_match :: "bool option"
  ctx_notes :: "string list"

text \<open>\<open>execution_receipt_bundle_digest\<close> of \<^verbatim>\<open>core/evidence/bundle_builder.py\<close>.\<close>

definition bundle_digest :: "(bytes \<Rightarrow> bytes) \<Rightarrow> arb_receipt \<Rightarrow> string" where
  "bundle_digest sha r = sha256_hex sha (canonical_json_bytes (rr_dump r))"

definition hashes_well_formed :: "string list \<Rightarrow> bool" where
  "hashes_well_formed hs \<longleftrightarrow> hs \<noteq> [] \<and> list_all (\<lambda>h. is_hex64 (lower (strip h))) hs"

definition note_if :: "bool \<Rightarrow> string \<Rightarrow> string list" where
  "note_if b s = (if b then [s] else [])"

definition build_auto_arbitration_context ::
    "(bytes \<Rightarrow> bytes) \<Rightarrow> int \<Rightarrow> bool \<Rightarrow> int option \<Rightarrow> arb_receipt list \<Rightarrow> bundle_row option \<Rightarrow> arbitration_context" where
  "build_auto_arbitration_context sha now delivered deadline receipts bundle_opt =
     (let overdue = (case deadline of None \<Rightarrow> False | Some d \<Rightarrow> d < now \<and> \<not> delivered);
          success = list_ex (\<lambda>r. rr_status r = ''success'') receipts;
          notes = note_if overdue ''delivery_deadline passed without delivered status'' @
                  note_if (\<not> success) ''no execution receipt with status success''
      in case bundle_opt of
           None \<Rightarrow> \<lparr>delivery_overdue = overdue, has_success_receipt = success, bundle_receipt_ids_ok = None,
                     bundle_step_counts_ok = None, bundle_receipt_hashes_match = None, ctx_notes = notes\<rparr>
         | Some b \<Rightarrow>
           if receipts = []
           then \<lparr>delivery_overdue = overdue, has_success_receipt = success, bundle_receipt_ids_ok = Some False,
                  bundle_step_counts_ok = Some False, bundle_receipt_hashes_match = Some False,
                  ctx_notes = notes @ [''evidence bundle present but no execution receipts stored'']\<rparr>
           else
             let ordered = sort_key rr_step receipts;
                 ids_ok = (b_receipt_ids b = map rr_id ordered);
                 n = int (length ordered);
                 counts_ok = (b_total b = n \<and> b_successful b + b_failed b \<le> n \<and> 0 \<le> b_successful b \<and> 0 \<le> b_failed b);
                 formed = hashes_well_formed (b_receipt_hashes b);
                 match = (formed \<and> map (\<lambda>h. lower (strip h)) (b_receipt_hashes b) = map (bundle_digest sha) ordered)
             in \<lparr>delivery_overdue = overdue, has_success_receipt = success, bundle_receipt_ids_ok = Some ids_ok,
                  bundle_step_counts_ok = Some counts_ok, bundle_receipt_hashes_match = Some match,
                  ctx_notes = notes @
                    note_if (\<not> ids_ok) ''evidence bundle receipt_ids order or membership mismatch vs stored receipts'' @
                    note_if (\<not> counts_ok) ''evidence bundle total_steps / success+fail counts inconsistent with stored receipts'' @
                    note_if (\<not> formed) ''evidence bundle receipt_hashes are not all 64-char lowercase hex'' @
                    note_if (formed \<and> \<not> match) ''evidence bundle receipt_hashes do not match recomputed digests of stored receipts''\<rparr>)"

text \<open>\<open>f"{x:.2f}"\<close> of a number that is not negative.\<close>

definition show_2f :: "rat \<Rightarrow> string" where
  "show_2f x = (let n = round_half_even (x * 100) in
                show_int (n div 100) @ ''.'' @ show_int (n div 10 mod 10) @ show_int (n mod 10))"

definition adjust_auto_split_for_rules :: "arbitration_context \<Rightarrow> rat \<Rightarrow> rat \<Rightarrow> rat \<times> rat \<times> string" where
  "adjust_auto_split_for_rules ctx confirmed escrow =
     (if bundle_step_counts_ok ctx = Some False
      then (0, py_round escrow 2, ''rule: evidence bundle format error (step metadata vs receipts)'')
      else
        let integrity_bad = (bundle_receipt_ids_ok ctx = Some False \<or> bundle_receipt_hashes_match ctx = Some False)
        in if integrity_bad \<and> confirmed \<le> 0
           then (0, py_round escrow 2, ''rule: evidence bundle integrity failed with no confirmed progress - buyer wins'')
           else if delivery_overdue ctx \<and> confirmed \<le> 0
           then (0, py_round escrow 2, ''rule: overdue delivery with no confirmed progress'')
           else if \<not> has_success_receipt ctx \<and> confirmed \<le> 0
           then (0, py_round escrow 2, ''rule: no successful execution receipt and no confirmed progress'')
           else if integrity_bad \<and> confirmed < 50
           then let settled = py_round (escrow * max confirmed 0 / 100) 2
                in (settled, py_round (escrow - settled) 2, ''rule: evidence bundle integrity failed - conservative partial split'')
           else if confirmed \<le> 0
           then (0, py_round escrow 2, ''auto arbitration: no confirmed progress, buyer wins'')
           else if 90 \<le> confirmed
           then (py_round escrow 2, 0, ''auto arbitration: near-complete confirmed progress, seller wins'')
           else let settled = py_round (escrow * confirmed / 100) 2
                in (settled, py_round (escrow - settled) 2,
                    ''auto arbitration: partial split by confirmed progress '' @ show_2f confirmed @ ''%''))"

text \<open>The guard of every payout to the seller; \<open>required\<close> is the setting that turns it on.\<close>

definition ensure_success_receipt :: "bool \<Rightarrow> arb_receipt list \<Rightarrow> rat \<Rightarrow> http_error + unit" where
  "ensure_success_receipt required receipts settled =
     (if \<not> required \<or> settled \<le> 1 / 10 ^ 6 then Inr ()
      else if list_ex (\<lambda>r. rr_status r = ''success'') receipts then Inr ()
      else Inl (HTTPException 409 ''at least one successful execution receipt is required before releasing funds to the seller''))"

section \<open>The curve of claimed progress\<close>

text \<open>
  A specification has a type and points; a point that is not a list is \<open>None\<close>, and so is a
  field \<open>points\<close> that is missing or not a list.
\<close>

record curve_spec =
  curve_type :: "string option"
  curve_points :: "rat list option list option"

definition UNSUPPORTED :: string where "UNSUPPORTED = ''unsupported progress_rule_spec.type''"
definition BAD_POINTS :: string where
  "BAD_POINTS = ''piecewise progress_rule_spec requires points: list of [progress, value] pairs''"
definition BAD_POINT :: string where
  "BAD_POINT = ''each piecewise point must be [progress_percent, value_percent]''"
definition BAD_COVER :: string where
  "BAD_COVER = ''piecewise points must cover 0..100 on progress axis''"

fun read_points :: "rat list option list \<Rightarrow> string + (rat \<times> rat) list" where
  "read_points [] = Inr []"
| "read_points (Some [p, v] # rest) = (case read_points rest of Inl e \<Rightarrow> Inl e | Inr ps \<Rightarrow> Inr ((p, v) # ps))"
| "read_points (_ # rest) = Inl BAD_POINT"

text \<open>The loop over the segments; the last one also takes a progress just beside its end.\<close>

fun curve_segment :: "rat \<Rightarrow> (rat \<times> rat) list \<Rightarrow> rat" where
  "curve_segment pp ((p0, v0) # (p1, v1) # rest) =
     (if p0 \<le> pp \<and> pp \<le> p1 \<or> rest = [] \<and> \<bar>pp - p1\<bar> < 1 / 10 ^ 9
      then (if \<bar>p1 - p0\<bar> < 1 / 10 ^ 12 then max v0 v1
            else v0 + (pp - p0) / (p1 - p0) * (v1 - v0))
      else curve_segment pp ((p1, v1) # rest))"
| "curve_segment pp [(p, v)] = v"
| "curve_segment pp [] = 0"

definition max_allowed_claimed_value_percent :: "rat \<Rightarrow> curve_spec option \<Rightarrow> string + rat" where
  "max_allowed_claimed_value_percent progress spec =
     (case spec of
        None \<Rightarrow> Inr progress
      | Some s \<Rightarrow>
        if curve_type s = None \<or> curve_type s = Some ''linear'' then Inr progress
        else if curve_type s \<noteq> Some ''piecewise'' then Inl UNSUPPORTED
        else case curve_points s of
          None \<Rightarrow> Inl BAD_POINTS
        | Some raw \<Rightarrow>
          if length raw < 2 then Inl BAD_POINTS
          else case read_points raw of
            Inl e \<Rightarrow> Inl e
          | Inr ps \<Rightarrow>
            (let points = sort_key fst ps
             in if 1 / 10 ^ 9 < fst (hd points) \<or> fst (last points) < 100 - 1 / 10 ^ 9 then Inl BAD_COVER
                else Inr (curve_segment (max 0 (min 100 progress)) points)))"

definition validate_claimed_against_curve :: "rat \<Rightarrow> rat \<Rightarrow> curve_spec option \<Rightarrow> string + unit" where
  "validate_claimed_against_curve progress claimed spec =
     (case max_allowed_claimed_value_percent progress spec of
        Inl e \<Rightarrow> Inl e
      | Inr cap \<Rightarrow> if cap < claimed - 1 / 10 ^ 6 then Inl ''claimed_value_percent exceeds curve ceiling'' else Inr ())"

section \<open>Payment cycles\<close>

type_synonym payments = "(string \<times> string) list"

definition workers_of :: "payments \<Rightarrow> string \<Rightarrow> string list" where
  "workers_of edges n = map snd (filter (\<lambda>(c, w). c = n) edges)"

text \<open>The loop over the stack, whose top is the head of the list.\<close>

function reach_loop :: "payments \<Rightarrow> string \<Rightarrow> string list \<Rightarrow> string list \<Rightarrow> bool" where
  "reach_loop edges buyer [] seen = False"
| "reach_loop edges buyer (n # stack) seen =
     (if n = buyer then True
      else if n \<in> set seen then reach_loop edges buyer stack seen
      else reach_loop edges buyer (rev (workers_of edges n) @ stack) (n # seen))"
  by pat_completeness auto

definition unseen_edges :: "payments \<Rightarrow> string list \<Rightarrow> nat" where
  "unseen_edges edges seen = length (filter (\<lambda>(c, w). c \<notin> set seen) edges)"

lemma unseen_edges_visit:
  assumes "n \<notin> set seen"
  shows "unseen_edges edges seen = unseen_edges edges (n # seen) + length (workers_of edges n)"
  using assms unfolding unseen_edges_def workers_of_def by (induction edges) auto

termination reach_loop
  by (relation "measures [\<lambda>(edges, buyer, stack, seen). unseen_edges edges seen, \<lambda>(edges, buyer, stack, seen). length stack]")
    (auto simp: unseen_edges_visit)

definition worker_reaches_buyer_on_edges :: "payments \<Rightarrow> string \<Rightarrow> string \<Rightarrow> bool" where
  "worker_reaches_buyer_on_edges edges worker buyer = (worker \<noteq> buyer \<and> reach_loop edges buyer [worker] [])"

text \<open>
  The guard of a lock over the settlements: task, client, worker and status of each. An edge is a
  settlement of another task that has a worker and is not over.
\<close>

type_synonym settlement_parties = "(string \<times> string \<times> string option \<times> string) list"

definition active_edges :: "settlement_parties \<Rightarrow> string \<Rightarrow> payments" where
  "active_edges settlements tid =
     concat (map (\<lambda>(t, c, w, st). case w of
        None \<Rightarrow> []
      | Some w' \<Rightarrow> if t \<noteq> tid \<and> st \<notin> {''settled'', ''refunded'', ''cancelled''} then [(c, w')] else []) settlements)"

definition assert_lock_does_not_close_payment_cycle ::
    "bool \<Rightarrow> settlement_parties \<Rightarrow> string \<Rightarrow> string \<Rightarrow> string \<Rightarrow> http_error + unit" where
  "assert_lock_does_not_close_payment_cycle switched_on settlements tid buyer worker =
     (if \<not> switched_on then Inr ()
      else if worker_reaches_buyer_on_edges (active_edges settlements tid) worker buyer
      then Inl (HTTPException 409 ''locking this worker would close a directed buyer-worker payment cycle'')
      else Inr ())"

section \<open>Lemmas: the search\<close>

lemma workers_of_iff: "w \<in> set (workers_of edges n) \<longleftrightarrow> (n, w) \<in> set edges"
  by (force simp: workers_of_def)

text \<open>A search that starts with nothing seen stops at the buyer or has seen all that it can reach.\<close>

lemma reach_loop_sound:
  "reach_loop edges buyer stack seen \<Longrightarrow> \<exists>n \<in> set stack. (n, buyer) \<in> (set edges)\<^sup>*"
proof (induction edges buyer stack seen rule: reach_loop.induct)
  case (2 edges buyer n stack seen)
  show ?case
  proof (cases "n = buyer \<or> n \<in> set seen")
    case False
    with 2 obtain m where m: "m \<in> set (rev (workers_of edges n) @ stack)" "(m, buyer) \<in> (set edges)\<^sup>*" by auto
    then show ?thesis by (auto simp: workers_of_iff intro: converse_rtrancl_into_rtrancl)
  qed (use 2 in auto)
qed simp

lemma reach_loop_complete:
  assumes "\<not> reach_loop edges buyer stack seen" and "buyer \<notin> set seen"
    and "\<And>n w. n \<in> set seen \<Longrightarrow> (n, w) \<in> set edges \<Longrightarrow> w \<in> set seen \<union> set stack"
    and "n \<in> set seen \<union> set stack"
  shows "(n, buyer) \<notin> (set edges)\<^sup>*"
  using assms
proof (induction edges buyer stack seen arbitrary: n rule: reach_loop.induct)
  case (1 edges buyer seen)
  show ?case
  proof
    assume "(n, buyer) \<in> (set edges)\<^sup>*"
    then have "buyer \<in> set seen"
      by (induction rule: rtrancl_induct) (use 1(3,4) in auto)
    with 1(2) show False by simp
  qed
next
  case (2 edges buyer k stack seen)
  then have k: "k \<noteq> buyer" by auto
  show ?case
  proof (cases "k \<in> set seen")
    case True
    show ?thesis
      by (rule 2(1) [OF k True]) (use 2(3-6) k True in auto)
  next
    case False
    show ?thesis
      by (rule 2(2) [OF k False]) (use 2(3-6) k False in \<open>auto simp: workers_of_iff\<close>)
  qed
qed

lemma worker_reaches_iff:
  "worker_reaches_buyer_on_edges edges worker buyer \<longleftrightarrow> worker \<noteq> buyer \<and> (worker, buyer) \<in> (set edges)\<^sup>+"
proof -
  have "(worker, buyer) \<notin> (set edges)\<^sup>*" if "\<not> reach_loop edges buyer [worker] []"
    by (rule reach_loop_complete [OF that]) auto
  moreover have "(worker, buyer) \<in> (set edges)\<^sup>*" if "reach_loop edges buyer [worker] []"
    using reach_loop_sound [OF that] by simp
  ultimately have "reach_loop edges buyer [worker] [] \<longleftrightarrow> (worker, buyer) \<in> (set edges)\<^sup>*" by blast
  then show ?thesis by (auto simp: worker_reaches_buyer_on_edges_def rtrancl_eq_or_trancl)
qed

section \<open>Lemmas: the split\<close>

lemma adjust_auto_split_amounts:
  "adjust_auto_split_for_rules ctx confirmed escrow = (s, r, n) \<Longrightarrow>
     (s, r) = (if bundle_step_counts_ok ctx = Some False \<or> confirmed \<le> 0 then (0, py_round escrow 2)
               else if 90 \<le> confirmed then (py_round escrow 2, 0)
               else (py_round (escrow * confirmed / 100) 2, py_round (escrow - py_round (escrow * confirmed / 100) 2) 2))"
  by (auto simp: adjust_auto_split_for_rules_def Let_def max_def split: if_splits)

lemma py_round_cents: "py_round (of_int k / 100) 2 = of_int k / 100"
  by (simp add: py_round_def)

lemma cents_of_split: "\<exists>j. py_round x 2 = of_int j / 100"
  by (auto simp: py_round_def)

lemma py_round_le_cents:
  assumes "x \<le> of_int k / 100"
  shows "py_round x 2 \<le> of_int k / 100"
  using py_round_mono [OF assms, of 2] by (simp add: py_round_cents)

lemma py_round_ge_cents:
  assumes "of_int k / 100 \<le> x"
  shows "of_int k / 100 \<le> py_round x 2"
  using py_round_mono [OF assms, of 2] by (simp add: py_round_cents)

text \<open>The rounded share of an escrow of whole cents, and what is left of it.\<close>

lemma percent_part:
  assumes "escrow = of_int k / 100" and "0 \<le> k" and "0 \<le> c" and "c \<le> 100"
  shows "0 \<le> py_round (escrow * c / 100) 2" and "py_round (escrow * c / 100) 2 \<le> escrow"
    and "py_round (escrow - py_round (escrow * c / 100) 2) 2 = escrow - py_round (escrow * c / 100) 2"
proof -
  let ?part = "py_round (escrow * c / 100) 2"
  have e: "0 \<le> escrow" using assms(1,2) by simp
  then have "escrow * c \<le> escrow * 100" using assms(4) by (intro mult_left_mono) auto
  then have "escrow * c / 100 \<le> escrow" by simp
  then show "?part \<le> escrow" using py_round_le_cents [of "escrow * c / 100" k] by (simp only: assms(1) [symmetric])
  show "0 \<le> ?part" using py_round_ge_cents [of 0 "escrow * c / 100"] e assms(3) by simp
  obtain j where "?part = of_int j / 100" using cents_of_split by blast
  then have "escrow - ?part = of_int (k - j) / 100" by (simp only: assms(1) of_int_diff diff_divide_distrib)
  then show "py_round (escrow - ?part) 2 = escrow - ?part" by (simp only: py_round_cents)
qed

section \<open>Lemmas: the curve\<close>

text \<open>A segment with ascending ends is an ascending function between its values.\<close>

definition between :: "rat \<Rightarrow> rat \<times> rat \<Rightarrow> rat \<times> rat \<Rightarrow> rat" where
  "between pp a b = (if \<bar>fst b - fst a\<bar> < 1 / 10 ^ 12 then max (snd a) (snd b)
                     else snd a + (pp - fst a) / (fst b - fst a) * (snd b - snd a))"

lemma curve_segment_step:
  "fst a \<le> pp \<Longrightarrow> curve_segment pp (a # b # rest) =
     (if pp \<le> fst b \<or> rest = [] \<and> \<bar>pp - fst b\<bar> < 1 / 10 ^ 9 then between pp a b else curve_segment pp (b # rest))"
  by (cases a; cases b) (auto simp: between_def)

lemma between_range:
  assumes "fst a \<le> pp" "pp \<le> fst b" "snd a \<le> snd b"
  shows "snd a \<le> between pp a b" "between pp a b \<le> snd b"
proof -
  define t where "t = (pp - fst a) / (fst b - fst a)"
  have "0 \<le> t" "t \<le> 1" using assms(1,2) by (auto simp: divide_le_eq t_def)
  then have "0 \<le> t * (snd b - snd a)" "t * (snd b - snd a) \<le> 1 * (snd b - snd a)"
    using assms(3) by (simp_all add: mult_left_le_one_le)
  then show "snd a \<le> between pp a b" "between pp a b \<le> snd b"
    using assms(3) by (auto simp: between_def t_def)
qed

lemma between_mono:
  assumes "fst a \<le> fst b" "snd a \<le> snd b" "pp \<le> pp'"
  shows "between pp a b \<le> between pp' a b"
proof -
  have "(pp - fst a) / (fst b - fst a) \<le> (pp' - fst a) / (fst b - fst a)" using assms by (intro divide_right_mono) auto
  then have "(pp - fst a) / (fst b - fst a) * (snd b - snd a) \<le> (pp' - fst a) / (fst b - fst a) * (snd b - snd a)"
    using assms(2) by (intro mult_right_mono) auto
  then show ?thesis by (auto simp: between_def)
qed

definition ascending :: "(rat \<times> rat) list \<Rightarrow> bool" where
  "ascending ps \<longleftrightarrow> sorted (map fst ps) \<and> sorted (map snd ps)"

lemma ascending_tail: "ascending (a # ps) \<Longrightarrow> ascending ps"
  by (simp add: ascending_def)

lemma curve_segment_range:
  "ascending (a # b # rest) \<Longrightarrow> fst a \<le> pp \<Longrightarrow> pp \<le> fst (last (b # rest)) \<Longrightarrow>
     snd a \<le> curve_segment pp (a # b # rest) \<and> curve_segment pp (a # b # rest) \<le> snd (last (b # rest))"
proof (induction rest arbitrary: a b)
  case Nil
  then show ?case using between_range [of a pp b] by (simp add: curve_segment_step ascending_def)
next
  case (Cons c rest)
  have le: "snd a \<le> snd b" "snd b \<le> snd (last (c # rest))" using Cons.prems(1) by (auto simp: ascending_def)
  show ?case
  proof (cases "pp \<le> fst b")
    case True
    with between_range [of a pp b] Cons.prems(2) le show ?thesis by (auto simp: curve_segment_step)
  next
    case False
    with Cons.IH [OF ascending_tail [OF Cons.prems(1)]] Cons.prems(2,3) le show ?thesis
      by (auto simp: curve_segment_step)
  qed
qed

lemma curve_segment_mono:
  "ascending (a # b # rest) \<Longrightarrow> fst a \<le> pp \<Longrightarrow> pp \<le> pp' \<Longrightarrow> pp' \<le> fst (last (b # rest)) \<Longrightarrow>
     curve_segment pp (a # b # rest) \<le> curve_segment pp' (a # b # rest)"
proof (induction rest arbitrary: a b)
  case Nil
  then show ?case using between_mono [of a b pp pp'] by (simp add: curve_segment_step ascending_def)
next
  case (Cons c rest)
  note tail = ascending_tail [OF Cons.prems(1)]
  have le: "fst a \<le> fst b" "snd a \<le> snd b" using Cons.prems(1) by (auto simp: ascending_def)
  consider "pp' \<le> fst b" | "pp \<le> fst b" "fst b < pp'" | "fst b < pp" by linarith
  then show ?case
  proof cases
    case 1
    with between_mono [of a b pp pp'] le Cons.prems(2,3) show ?thesis by (simp add: curve_segment_step)
  next
    case 2
    with between_range [of a pp b] le curve_segment_range [OF tail, of pp'] Cons.prems(2,3,4) show ?thesis
      by (fastforce simp: curve_segment_step)
  next
    case 3
    with Cons.IH [OF tail] le Cons.prems show ?thesis by (simp add: curve_segment_step)
  qed
qed

lemma read_points_map: "read_points (map (\<lambda>(p, v). Some [p, v]) ps) = Inr ps"
  by (induction ps) auto

lemma piecewise_ceiling:
  assumes "points = sort_key fst ps" and "2 \<le> length ps"
    and "fst (hd points) \<le> 1 / 10 ^ 9" and "100 - 1 / 10 ^ 9 \<le> fst (last points)"
  shows "max_allowed_claimed_value_percent progress
           (Some \<lparr>curve_type = Some ''piecewise'', curve_points = Some (map (\<lambda>(p, v). Some [p, v]) ps)\<rparr>) =
         Inr (curve_segment (max 0 (min 100 progress)) points)"
  using assms by (simp add: max_allowed_claimed_value_percent_def read_points_map Let_def)

section \<open>Properties\<close>

text \<open>
  C29. The cycle check is reachability: the search, which always ends, answers yes exactly when the worker
  is not the buyer and a chain of payments leads from the worker to the buyer.
\<close>

theorem cycle_check_is_reachability:
  "worker_reaches_buyer_on_edges edges worker buyer \<longleftrightarrow> worker \<noteq> buyer \<and> (worker, buyer) \<in> (set edges)\<^sup>+"
  by (rule worker_reaches_iff)

text \<open>
  C30. The guard keeps the active payments free of cycles: when they have none and a lock with another worker
  than the buyer passes the guard, they have none with the new payment either. A lock in which the
  buyer is the worker always passes, and closes a cycle of length one.
\<close>

theorem lock_keeps_payments_acyclic:
  assumes "acyclic (set (active_edges settlements tid))"
    and "assert_lock_does_not_close_payment_cycle True settlements tid buyer worker = Inr ()"
  shows "acyclic (insert (buyer, worker) (set (active_edges settlements tid))) \<longleftrightarrow> buyer \<noteq> worker"
proof -
  let ?E = "set (active_edges settlements tid)"
  have "worker = buyer \<or> (worker, buyer) \<notin> ?E\<^sup>*"
    using assms(2) by (auto simp: assert_lock_does_not_close_payment_cycle_def worker_reaches_iff rtrancl_eq_or_trancl split: if_splits)
  with assms(1) show ?thesis by auto
qed

theorem lock_keeps_payments_acyclic_witness:
  "acyclic (insert (''c'', ''d'') (set (active_edges [(''t1'', ''a'', Some ''b'', ''in_progress''), (''t2'', ''b'', Some ''c'', ''settled'')] ''t3'')))"
proof -
  let ?s = "[(''t1'', ''a'', Some ''b'', ''in_progress''), (''t2'', ''b'', Some ''c'', ''settled'')]"
  have e: "active_edges ?s ''t3'' = [(''a'', ''b'')]" by (simp add: active_edges_def)
  have "acyclic {(''a'', ''b'')}" by (simp add: wf_acyclic)
  moreover have "assert_lock_does_not_close_payment_cycle True ?s ''t3'' ''c'' ''d'' = Inr ()"
    by (simp add: assert_lock_does_not_close_payment_cycle_def e worker_reaches_buyer_on_edges_def workers_of_def)
  ultimately show ?thesis using lock_keeps_payments_acyclic [of ?s "''t3''" "''c''" "''d''"] by (simp add: e)
qed

text \<open>
  The proofs hardly matter to an automatic arbitration: of all its inputs only the step counts of
  the bundle and the confirmed percentage change the amounts. Receipt ids or hashes that do not match,
  an overdue delivery and the lack of a successful receipt only change the note.
\<close>

theorem auto_split_ignores_most_rules:
  "(fst (adjust_auto_split_for_rules ctx confirmed escrow), fst (snd (adjust_auto_split_for_rules ctx confirmed escrow))) =
     (if bundle_step_counts_ok ctx = Some False \<or> confirmed \<le> 0 then (0, py_round escrow 2)
      else if 90 \<le> confirmed then (py_round escrow 2, 0)
      else (py_round (escrow * confirmed / 100) 2, py_round (escrow - py_round (escrow * confirmed / 100) 2) 2))"
  using adjust_auto_split_amounts by (metis prod.collapse)

text \<open>
  The split of an escrow of whole cents divides it: both parts are non-negative, they add up to the
  escrow, and the seller's part grows with the confirmed percentage.
\<close>

theorem auto_split_divides_escrow:
  assumes "escrow = of_int k / 100" and "0 \<le> k"
    and "adjust_auto_split_for_rules ctx confirmed escrow = (settled, refunded, n)"
    and "adjust_auto_split_for_rules ctx confirmed' escrow = (settled', refunded', n')" and "confirmed \<le> confirmed'"
  shows "0 \<le> settled \<and> 0 \<le> refunded \<and> settled + refunded = escrow \<and> settled \<le> settled'"
proof -
  let ?part = "\<lambda>c. py_round (escrow * c / 100) 2"
  have "0 \<le> escrow" using assms(1,2) by simp
  moreover have "py_round escrow 2 = escrow" unfolding assms(1) by (rule py_round_cents)
  ultimately have e: "0 \<le> escrow" "py_round escrow 2 = escrow" .
  note part = percent_part [OF assms(1,2)]
  have mono: "?part confirmed \<le> ?part confirmed'"
    using e(1) assms(5) by (intro py_round_mono divide_right_mono mult_left_mono) auto
  from adjust_auto_split_amounts [OF assms(3)] adjust_auto_split_amounts [OF assms(4)]
  show ?thesis using part [of confirmed] part [of confirmed'] mono e assms(5) by (auto split: if_splits)
qed

definition demo_context :: arbitration_context where
  "demo_context = \<lparr>delivery_overdue = False, has_success_receipt = True, bundle_receipt_ids_ok = None,
     bundle_step_counts_ok = None, bundle_receipt_hashes_match = None, ctx_notes = []\<rparr>"

theorem auto_split_divides_escrow_witness:
  "fst (adjust_auto_split_for_rules demo_context 33 (1001 / 100)) +
     fst (snd (adjust_auto_split_for_rules demo_context 33 (1001 / 100))) = 1001 / 100"
  using auto_split_divides_escrow [of "1001 / 100" 1001 demo_context 33] by (metis order_refl prod.collapse of_int_numeral zero_le_numeral)

text \<open>
  The ceiling of a piecewise curve behaves as a ceiling: if the values ascend with the progress from
  \<open>0\<close> to \<open>100\<close>, it lies between the first and the last value, and more progress never lowers it.
\<close>

theorem curve_ceiling_ascends:
  assumes "points = sort_key fst ps" and "2 \<le> length ps" and "sorted (map snd points)"
    and "fst (hd points) \<le> 0" and "100 \<le> fst (last points)"
    and "spec = Some \<lparr>curve_type = Some ''piecewise'', curve_points = Some (map (\<lambda>(p, v). Some [p, v]) ps)\<rparr>"
    and "progress \<le> progress'"
  shows "\<exists>c c'. max_allowed_claimed_value_percent progress spec = Inr c \<and>
                max_allowed_claimed_value_percent progress' spec = Inr c' \<and>
                snd (hd points) \<le> c \<and> c \<le> c' \<and> c' \<le> snd (last points)"
proof -
  let ?f = "\<lambda>x. curve_segment (max 0 (min 100 x)) points"
  have ok: "max_allowed_claimed_value_percent x spec = Inr (?f x)" for x
    unfolding assms(6) by (rule piecewise_ceiling [OF assms(1,2)]) (use assms(4,5) in simp_all)
  have asc: "ascending points" using assms(1,3) by (simp add: ascending_def)
  have "length points = length ps" using assms(1) by simp
  with assms(2) obtain a b rest where p: "points = a # b # rest"
    by (metis One_nat_def Suc_1 Suc_le_length_iff)
  have "fst a \<le> max 0 (min 100 x)" "max 0 (min 100 x) \<le> fst (last (b # rest))" for x
    using assms(4,5) p by auto
  with curve_segment_range [OF asc [unfolded p]] curve_segment_mono [OF asc [unfolded p]] assms(7)
  have "snd a \<le> ?f progress \<and> ?f progress \<le> ?f progress' \<and> ?f progress' \<le> snd (last (b # rest))"
    unfolding p by (metis max.mono min.mono order_refl)
  with ok p show ?thesis by auto
qed

theorem curve_ceiling_ascends_witness:
  "\<exists>c. max_allowed_claimed_value_percent 30 (Some \<lparr>curve_type = Some ''piecewise'',
          curve_points = Some [Some [0, 0], Some [100, 80], Some [50, 20]]\<rparr>) = Inr c \<and> 0 \<le> c \<and> c \<le> 80"
  using curve_ceiling_ascends [of "[(0, 0), (50, 20), (100, 80)]" "[(0, 0), (100, 80), (50, 20)]" _ 30 30]
  by auto

text \<open>
  The tolerance at the start of the curve turns it over: the first point may lie at up to \<open>10\<^sup>-\<^sup>9\<close> instead
  of \<open>0\<close>, but then no segment contains the progress \<open>0\<close>, and the ceiling at no progress is the last
  value, the one of full progress.
\<close>

theorem curve_start_tolerance:
  assumes "points = sort_key fst ps" and "2 \<le> length ps" and "progress \<le> 0"
    and "0 < fst (hd points)" and "fst (hd points) \<le> 1 / 10 ^ 9" and "100 - 1 / 10 ^ 9 \<le> fst (last points)"
  shows "max_allowed_claimed_value_percent progress
           (Some \<lparr>curve_type = Some ''piecewise'', curve_points = Some (map (\<lambda>(p, v). Some [p, v]) ps)\<rparr>) =
         Inr (snd (last points))"
proof -
  have none: "list_all (\<lambda>p. 0 < fst p) qs \<Longrightarrow> qs \<noteq> [] \<Longrightarrow> 1 \<le> fst (last qs) \<Longrightarrow> curve_segment 0 qs = snd (last qs)" for qs
    by (induction "0 :: rat" qs rule: curve_segment.induct) (auto split: if_splits)
  have "points \<noteq> []" using assms(1,2) by (metis length_sort list.size(3) not_numeral_le_zero)
  moreover have "list_all (\<lambda>p. 0 < fst p) points"
  proof -
    have "sorted (map fst points)" using assms(1) by simp
    with \<open>points \<noteq> []\<close> assms(4) show ?thesis by (cases points) (auto simp: list_all_iff)
  qed
  ultimately have "curve_segment 0 points = snd (last points)" using none assms(6) by simp
  moreover have "max 0 (min 100 progress) = 0" using assms(3) by simp
  ultimately show ?thesis using piecewise_ceiling [OF assms(1,2,5,6), of progress] by simp
qed

theorem curve_start_tolerance_witness:
  "max_allowed_claimed_value_percent 0
     (Some \<lparr>curve_type = Some ''piecewise'', curve_points = Some [Some [1 / 10 ^ 10, 0], Some [100, 80]]\<rparr>) = Inr 80"
  using curve_start_tolerance [of "[(1 / 10 ^ 10, 0), (100, 80)]" "[(1 / 10 ^ 10, 0), (100, 80)]" 0] by simp

end
