(* ===== verification/Route_Base.thy ===== *)
theory Route_Base
  imports Settlement_Store Profile_Capacity Settlement_Rules
begin

text \<open>
  What the settlement and progress routes share: the database they work on, the request they serve, the
  guards of their callers (\<^verbatim>\<open>services/settlement_party_access.py\<close>, \<^verbatim>\<open>services/path_param_safety.py\<close>,
  \<^verbatim>\<open>services/task_contract_guard.py\<close>), and the steps that load a settlement, move it, resolve its
  escrow and use up its voucher. A request reads the clock once; times are in
  microseconds. The services that a route only asks for
  a verdict or tells about a settlement (delivery verification, owner confirmation, payment intents,
  reputation, the chain adapter, webhooks) are fields of the request: their outcome, nothing else, is seen.
\<close>

section \<open>Database and request\<close>

record progress_row =
  pr_id :: string
  pr_task_id :: string
  pr_seller :: string
  pr_progress :: rat
  pr_claimed :: rat
  pr_evidence_hash :: string
  pr_runtime_hash :: string
  pr_timestamp :: int
  pr_signature :: string
  pr_status :: string
  pr_confirmed_at :: "int option"

record route_db =
  settlements :: settlement_table
  transitions :: "transition_audit list"
  capacities :: capacity_table
  vouchers :: "(string \<times> voucher) list"
  quotas :: profile_table
  receipts :: "(string \<times> arb_receipt) list"
  evidence_bundles :: "(string \<times> bundle_row) list"
  progress_rows :: "progress_row list"
  contracts :: "string list"

text \<open>The process: the runtime safety mode and the security events in memory.\<close>

type_synonym route_proc = "safety_mode \<times> security_entry list"

type_synonym 'a route = "(route_db, route_proc, 'a) handler"

record request_env =
  now :: int
  caller :: "string option"
  url_path :: string
  party_binding :: bool
  confirm_requires_buyer :: bool
  lock_requires_pending :: bool
  block_payment_cycles :: bool
  payout_requires_receipt :: bool
  progress_requires_signature :: bool
  max_future_skew_seconds :: int
  max_past_hours :: int
  env_settlement_mode :: string
  env_chain_id :: "int option"
  env_contract :: "string option"
  sha256 :: "bytes \<Rightarrow> bytes"
  delivery_gate :: "string \<Rightarrow> settlement_state \<Rightarrow> string \<Rightarrow> http_error + unit"
  owner_gate :: "string option \<Rightarrow> settlement_state \<Rightarrow> http_error + unit"
  auto_gate :: "settlement_state \<Rightarrow> http_error + unit"
  follow_up :: "string \<Rightarrow> settlement_state \<Rightarrow> http_error + unit"

section \<open>Guards\<close>

text \<open>The pattern ends in \<open>$\<close>, which also matches in front of a final newline.\<close>

definition safe_char :: "char \<Rightarrow> bool" where
  "safe_char c = (let n = char_code c in
     48 \<le> n \<and> n \<le> 57 \<or> 65 \<le> n \<and> n \<le> 90 \<or> 97 \<le> n \<and> n \<le> 122 \<or> n = 95 \<or> n = 46 \<or> n = 45)"

definition safe_segment :: "string \<Rightarrow> bool" where
  "safe_segment s =
     (let t = (if s \<noteq> [] \<and> char_code (last s) = 10 then butlast s else s)
      in 1 \<le> length t \<and> length t \<le> 256 \<and> list_all safe_char t)"

definition validate_public_url_segment :: "string \<Rightarrow> string \<Rightarrow> http_error + unit" where
  "validate_public_url_segment name s =
     (if safe_segment s then Inr () else Inl (HTTPException 400 (''invalid '' @ name)))"

definition require_actor :: "request_env \<Rightarrow> http_error + string" where
  "require_actor env =
     (case caller env of
        None \<Rightarrow> Inl (HTTPException 401 ''authentication required for this operation'')
      | Some a \<Rightarrow> if a = [] then Inl (HTTPException 401 ''authentication required for this operation'') else Inr a)"

definition require_buyer :: "request_env \<Rightarrow> settlement_state \<Rightarrow> http_error + unit" where
  "require_buyer env st =
     (if \<not> party_binding env then Inr ()
      else case require_actor env of
        Inl e \<Rightarrow> Inl e
      | Inr a \<Rightarrow> if a \<noteq> client_agent_id st then Inl (HTTPException 403 ''only the settlement buyer may perform this action'')
                 else Inr ())"

definition named :: "string option \<Rightarrow> string option" where
  "named x = (case x of None \<Rightarrow> None | Some s \<Rightarrow> if s = [] then None else Some s)"

definition require_worker :: "request_env \<Rightarrow> settlement_state \<Rightarrow> http_error + unit" where
  "require_worker env st =
     (if \<not> party_binding env then Inr ()
      else case require_actor env of
        Inl e \<Rightarrow> Inl e
      | Inr a \<Rightarrow>
        (case named (worker_agent_id st) of
           None \<Rightarrow> Inl (HTTPException 409 ''settlement has no assigned worker'')
         | Some w \<Rightarrow> if a \<noteq> w then Inl (HTTPException 403 ''only the assigned worker may perform this action'') else Inr ()))"

definition require_buyer_or_worker :: "request_env \<Rightarrow> settlement_state \<Rightarrow> http_error + unit" where
  "require_buyer_or_worker env st =
     (if \<not> party_binding env then Inr ()
      else case require_actor env of
        Inl e \<Rightarrow> Inl e
      | Inr a \<Rightarrow> if a = client_agent_id st \<or> named (worker_agent_id st) = Some a then Inr ()
                 else Inl (HTTPException 403 ''only the settlement buyer or assigned worker may perform this action''))"

definition require_actor_is :: "request_env \<Rightarrow> string \<Rightarrow> string \<Rightarrow> http_error + unit" where
  "require_actor_is env iden detail =
     (if \<not> party_binding env then Inr ()
      else case require_actor env of
        Inl e \<Rightarrow> Inl e
      | Inr a \<Rightarrow> if a \<noteq> iden then Inl (HTTPException 403 detail) else Inr ())"

definition require_buyer_on_create :: "request_env \<Rightarrow> string \<Rightarrow> http_error + unit" where
  "require_buyer_on_create env client =
     require_actor_is env client ''authenticated actor must match client_agent_id when creating settlement''"

definition require_actor_matches_identity :: "request_env \<Rightarrow> string \<Rightarrow> http_error + unit" where
  "require_actor_matches_identity env iden =
     require_actor_is env iden ''authenticated actor must match the asserted identity for this operation''"

definition ensure_task_contract_exists :: "string \<Rightarrow> unit route" where
  "ensure_task_contract_exists tid =
     and_then (read_db contracts) (\<lambda>cs. require (tid \<in> set cs) 404 ''task contract not found for this task_id'')"

section \<open>Steps\<close>

definition allowed :: "string \<Rightarrow> unit route" where
  "allowed operation d p = (d, p, assert_runtime_operation_allowed (fst p) operation)"

definition audit_anchor :: "request_env \<Rightarrow> unit route" where
  "audit_anchor env d p =
     (case audit_capacity_anchor_and_maybe_trip (now env) (Some ''system'') (capacities d) (fst p) of
        (m', out) \<Rightarrow> (d, (m', snd p), out))"

text \<open>A request on the ledger, and one on the quotas, as a step.\<close>

definition on_ledger :: "(capacity_table, safety_mode, http_error, 'a) request \<Rightarrow> 'a route" where
  "on_ledger req d p =
     (case req (capacities d) (fst p) of (t', m', out) \<Rightarrow> (d\<lparr>capacities := t'\<rparr>, (m', snd p), out))"

definition on_quotas :: "'a profile_request \<Rightarrow> 'a route" where
  "on_quotas req d p = (case req (quotas d) () of (t', _, out) \<Rightarrow> (d\<lparr>quotas := t'\<rparr>, p, out))"

definition unhandled :: "store_error \<Rightarrow> http_error" where
  "unhandled e = (case e of ValueError s \<Rightarrow> UnhandledValueError s | IntegrityError \<Rightarrow> UnhandledIntegrityError)"

definition load :: "string \<Rightarrow> settlement_state route" where
  "load tid d p =
     (d, p, case postgres_get tid (settlements d) of
              Inl e \<Rightarrow> Inl (unhandled e)
            | Inr None \<Rightarrow> Inl (HTTPException 404 (''Settlement '' @ tid @ '' not found''))
            | Inr (Some st) \<Rightarrow> Inr st)"

definition save :: "settlement_state \<Rightarrow> unit route" where
  "save st d p =
     (case postgres_save st (settlements d) of
        Inl e \<Rightarrow> (d, p, Inl (unhandled e))
      | Inr rows \<Rightarrow> (d\<lparr>settlements := rows\<rparr>, p, Inr ()))"

definition record_transition :: "request_env \<Rightarrow> settlement_state \<Rightarrow> task_status option \<Rightarrow> task_status \<Rightarrow> string \<Rightarrow> string \<Rightarrow> unit route" where
  "record_transition env st from to stage why d p =
     (case record_settlement_transition_audit (now env) st from to True stage why (Some (url_path env)) (caller env)
             (transitions d, snd p) of
        (rows, evs) \<Rightarrow> (d\<lparr>transitions := rows\<rparr>, (fst p, evs), Inr ()))"

text \<open>\<open>_apply_transition\<close>; it returns the changed state.\<close>

definition apply_transition :: "request_env \<Rightarrow> settlement_state \<Rightarrow> task_status \<Rightarrow> string \<Rightarrow> settlement_state route" where
  "apply_transition env st target why d p =
     (case audited_transition ''route'' postgres_save (now env) (now env) st target why (Some (url_path env)) (caller env)
             (transitions d, snd p) (settlements d) of
        ((rows, evs), table, st', out) \<Rightarrow>
          (d\<lparr>transitions := rows, settlements := table\<rparr>, (fst p, evs),
           case out of Inl e \<Rightarrow> Inl e | Inr _ \<Rightarrow> Inr st'))"

definition receipts_of :: "(string \<times> arb_receipt) list \<Rightarrow> string \<Rightarrow> arb_receipt list" where
  "receipts_of rs tid = map snd (filter (\<lambda>(t, r). t = tid) rs)"

definition guard_payout :: "request_env \<Rightarrow> string \<Rightarrow> rat \<Rightarrow> unit route" where
  "guard_payout env tid settled d p = (d, p, ensure_success_receipt (payout_requires_receipt env) (receipts_of (receipts d) tid) settled)"

definition resolve :: "request_env \<Rightarrow> string \<Rightarrow> rat \<Rightarrow> rat \<Rightarrow> rat \<Rightarrow> capacity option route" where
  "resolve env buyer escrow settled refunded = on_ledger (apply_capacity_resolution (now env) buyer escrow settled refunded)"

definition mark_voucher_used_if_linked :: "string \<Rightarrow> unit route" where
  "mark_voucher_used_if_linked tid d p =
     (case find (\<lambda>r. r_task_id r = tid) (settlements d) of
        None \<Rightarrow> (d, p, Inr ())
      | Some r \<Rightarrow>
        (case named (r_voucher_id r) of
           None \<Rightarrow> (d, p, Inr ())
         | Some vid \<Rightarrow>
           (case map_of (vouchers d) vid of
              None \<Rightarrow> (d, p, Inr ())
            | Some v \<Rightarrow>
              if v_status v = ''accepted''
              then (d\<lparr>vouchers := put_row vid (v\<lparr>v_status := ''used''\<rparr>) (vouchers d)\<rparr>, p, Inr ())
              else (d, p, Inr ()))))"

definition confirmed_progress_percent :: "string \<Rightarrow> route_db \<Rightarrow> rat" where
  "confirmed_progress_percent tid d =
     (case map pr_claimed (filter (\<lambda>r. pr_task_id r = tid \<and> pr_status r = ''confirmed'') (progress_rows d)) of
        [] \<Rightarrow> 0 | x # xs \<Rightarrow> foldl max x xs)"

definition parties :: "route_db \<Rightarrow> settlement_parties" where
  "parties d = map (\<lambda>r. (r_task_id r, r_client_agent_id r, r_worker_agent_id r, r_status r)) (settlements d)"

end
