(* ===== verification/Settlement_Routes.thy ===== *)
theory Settlement_Routes
  imports Route_Base
begin

text \<open>
  The routes of a settlement (\<^verbatim>\<open>api/routes/settlement.py\<close>) and of its progress receipts
  (\<^verbatim>\<open>api/routes/progress.py\<close>), one handler each, in the order of their guards. What is left out: the
  queueing of the chain transaction after a lock, the webhooks, and the text that the
  response of a release gets after its last write.
\<close>

section \<open>Creation and work\<close>

definition new_settlement ::
    "request_env \<Rightarrow> string \<Rightarrow> string \<Rightarrow> string \<Rightarrow> rat \<Rightarrow> string \<Rightarrow> string option \<Rightarrow> int option \<Rightarrow> string option \<Rightarrow>
     json option \<Rightarrow> settlement_state" where
  "new_settlement env sid tid client escrow cur vid deadline pid spec =
     \<lparr>settlement_id = sid, task_id = tid, escrow_amount = escrow, currency = cur, status = DRAFT,
      client_agent_id = client, worker_agent_id = None, profile_id = pid, released_amount = None,
      refunded_amount = None, dispute_reason = None, rejection_reason_code = None, arbitration_notes = None,
      created_at = now env, updated_at = now env, released_at = None, settlement_mode = env_settlement_mode env,
      chain_id = (if env_settlement_mode env \<noteq> ''offchain'' then env_chain_id env else None),
      contract_address = env_contract env, tx_hash = None, evidence_bundle_hash = None, onchain_status = None,
      quote_id = None, voucher_id = vid, delivery_deadline_at = deadline, confirm_window_hours = None,
      confirm_deadline_at = None, progress_rule_spec = spec, funding_source = ''internal''\<rparr>"

text \<open>What a bound voucher gives to the settlement: its curve, and its profile unless the body names one.\<close>

definition bind_voucher :: "string option \<Rightarrow> string \<Rightarrow> rat \<Rightarrow> string option \<Rightarrow> (json option \<times> string option) route" where
  "bind_voucher vid client escrow pid d p =
     (d, p, case named vid of
        None \<Rightarrow> Inr (None, pid)
      | Some v \<Rightarrow>
        (case map_of (vouchers d) v of
           None \<Rightarrow> Inl (HTTPException 404 (''voucher '' @ v @ '' not found''))
         | Some row \<Rightarrow>
           if v_status row \<noteq> ''accepted'' then Inl (HTTPException 409 ''voucher must be accepted before settlement bind'')
           else if buyer_identity_id row \<noteq> client
           then Inl (HTTPException 409 ''settlement client_agent_id must match voucher buyer_identity_id'')
           else if 1 / 10 ^ 6 < \<bar>bill_credit_amount row - escrow\<bar>
           then Inl (HTTPException 409 ''escrow_amount must equal voucher bill_credit_amount when voucher_id is set'')
           else Inr (v_progress_rule_spec row,
                     if named (v_profile_id row) \<noteq> None \<and> named pid = None then v_profile_id row else pid)))"

definition valid_opt :: "string \<Rightarrow> string option \<Rightarrow> http_error + unit" where
  "valid_opt name x = (case named x of None \<Rightarrow> Inr () | Some s \<Rightarrow> validate_public_url_segment name s)"

definition create_settlement ::
    "request_env \<Rightarrow> string \<Rightarrow> string \<Rightarrow> string \<Rightarrow> rat \<Rightarrow> string \<Rightarrow> string option \<Rightarrow> int option \<Rightarrow> string option \<Rightarrow>
     settlement_state route" where
  "create_settlement env sid tid client escrow cur vid deadline pid =
     and_then (allowed ''new_task'') (\<lambda>_.
     and_then (audit_anchor env) (\<lambda>_.
     and_then (check (validate_public_url_segment ''task_id'' tid)) (\<lambda>_.
     and_then (check (validate_public_url_segment ''client_agent_id'' client)) (\<lambda>_.
     and_then (check (valid_opt ''voucher_id'' vid)) (\<lambda>_.
     and_then (check (valid_opt ''profile_id'' pid)) (\<lambda>_.
     and_then (check (require_buyer_on_create env client)) (\<lambda>_.
     and_then (ensure_task_contract_exists tid) (\<lambda>_.
     and_then (bind_voucher vid client escrow pid) (\<lambda>(spec, pid').
     let st = new_settlement env sid tid client escrow cur vid deadline pid' spec in
     and_then (read_db (\<lambda>d. postgres_get tid (settlements d))) (\<lambda>existing.
     and_then (case existing of
                 Inl e \<Rightarrow> refuse (unhandled e)
               | Inr x \<Rightarrow> require (x = None) 409 (''Settlement already exists for task '' @ tid)) (\<lambda>_.
     and_then (save st) (\<lambda>_.
     and_then (record_transition env st None DRAFT ''route'' ''settlement created'') (\<lambda>_.
     give st)))))))))))))"

text \<open>The common beginning of the task operations.\<close>

definition task_route :: "request_env \<Rightarrow> string \<Rightarrow> string \<Rightarrow> settlement_state route" where
  "task_route env operation tid =
     and_then (check (validate_public_url_segment ''task_id'' tid)) (\<lambda>_.
     and_then (allowed operation) (\<lambda>_.
     and_then (audit_anchor env) (\<lambda>_. load tid)))"

definition mark_settlement_pending :: "request_env \<Rightarrow> string \<Rightarrow> settlement_state route" where
  "mark_settlement_pending env tid =
     and_then (task_route env ''new_task'' tid) (\<lambda>st.
     and_then (check (require_buyer env st)) (\<lambda>_.
     apply_transition env st PENDING ''task moved to pending''))"

definition lock_settlement :: "request_env \<Rightarrow> string \<Rightarrow> string \<Rightarrow> settlement_state route" where
  "lock_settlement env tid worker =
     and_then (check (validate_public_url_segment ''task_id'' tid)) (\<lambda>_.
     and_then (check (validate_public_url_segment ''worker_agent_id'' worker)) (\<lambda>_.
     and_then (allowed ''new_task'') (\<lambda>_.
     and_then (audit_anchor env) (\<lambda>_.
     and_then (load tid) (\<lambda>st.
     and_then (check (require_buyer env st)) (\<lambda>_.
     and_then (require (worker \<noteq> client_agent_id st) 409 ''worker_agent_id cannot equal settlement buyer (client_agent_id)'') (\<lambda>_.
     and_then (read_db parties) (\<lambda>ps.
     and_then (check (assert_lock_does_not_close_payment_cycle (block_payment_cycles env) ps tid (client_agent_id st) worker)) (\<lambda>_.
     and_then (require (\<not> (lock_requires_pending env \<and> canonical_task_status (status st) = DRAFT)) 409
                 ''settlement must be moved to pending before lock (settlement_lock_requires_pending)'') (\<lambda>_.
     apply_transition env (st\<lparr>worker_agent_id := Some worker\<rparr>) ACCEPTED ''worker accepted settlement''))))))))))"

definition settlement_escrow_wei :: "nat \<Rightarrow> settlement_state \<Rightarrow> int" where
  "settlement_escrow_wei decimals st = (if escrow_amount st \<le> 0 then 0 else \<lfloor>escrow_amount st * 10 ^ decimals\<rfloor>)"

definition start_settlement :: "request_env \<Rightarrow> string \<Rightarrow> settlement_state route" where
  "start_settlement env tid =
     and_then (task_route env ''new_task'' tid) (\<lambda>st.
     and_then (check (require_worker env st)) (\<lambda>_.
     apply_transition env st IN_PROGRESS ''task execution started''))"

definition submit_settlement :: "request_env \<Rightarrow> string \<Rightarrow> settlement_state route" where
  "submit_settlement env tid =
     and_then (task_route env ''new_task'' tid) (\<lambda>st.
     and_then (check (require_worker env st)) (\<lambda>_.
     and_then (check (delivery_gate env tid st ''submit'')) (\<lambda>_.
     apply_transition env st DELIVERED ''delivery submitted'')))"

definition fail_settlement :: "request_env \<Rightarrow> string \<Rightarrow> settlement_state route" where
  "fail_settlement env tid =
     and_then (task_route env ''new_task'' tid) (\<lambda>st.
     and_then (check (require_buyer_or_worker env st)) (\<lambda>_.
     apply_transition env st CANCELLED ''task failed and cancelled''))"

definition get_settlement :: "string \<Rightarrow> settlement_state route" where
  "get_settlement tid = and_then (check (validate_public_url_segment ''task_id'' tid)) (\<lambda>_. load tid)"

definition list_settlement_transitions :: "string \<Rightarrow> nat \<Rightarrow> transition_audit list route" where
  "list_settlement_transitions tid limit =
     and_then (check (validate_public_url_segment ''task_id'' tid)) (\<lambda>_.
     read_db (\<lambda>d. take limit (sort_key audit_created_at (filter (\<lambda>a. audit_task_id a = tid) (transitions d)))))"

section \<open>Disputes\<close>

definition open_dispute :: "request_env \<Rightarrow> string \<Rightarrow> string option \<Rightarrow> string option \<Rightarrow> settlement_state route" where
  "open_dispute env tid why code =
     and_then (check (validate_public_url_segment ''task_id'' tid)) (\<lambda>_.
     and_then (load tid) (\<lambda>st.
     and_then (check (require_buyer env st)) (\<lambda>_.
     and_then (on_ledger (move_reserved_to_disputed (now env) (client_agent_id st) (escrow_amount st))) (\<lambda>_.
     apply_transition env (st\<lparr>dispute_reason := Some (or_else why ''buyer disputed task result''), rejection_reason_code := code\<rparr>)
       DISPUTED ''dispute opened''))))"

definition buyer_reject_settlement :: "request_env \<Rightarrow> string \<Rightarrow> string \<Rightarrow> string option \<Rightarrow> settlement_state route" where
  "buyer_reject_settlement env tid code why =
     and_then (check (validate_public_url_segment ''task_id'' tid)) (\<lambda>_.
     and_then (load tid) (\<lambda>st.
     and_then (check (require_buyer env st)) (\<lambda>_.
     and_then (require (canonical_task_status (status st) = DELIVERED) 409 ''buyer reject requires delivered status'') (\<lambda>_.
     and_then (on_ledger (move_reserved_to_disputed (now env) (client_agent_id st) (escrow_amount st))) (\<lambda>_.
     apply_transition env
       (st\<lparr>dispute_reason := Some (strip (''['' @ code @ ''] '' @ or_else why [])), rejection_reason_code := Some code\<rparr>)
       DISPUTED (''buyer rejected: '' @ code))))))"

section \<open>Release\<close>

text \<open>The amounts and notes that a decision writes into the state.\<close>

definition decided :: "request_env \<Rightarrow> rat \<Rightarrow> rat \<Rightarrow> string \<Rightarrow> settlement_state \<Rightarrow> settlement_state" where
  "decided env settled refunded notes st =
     st\<lparr>released_amount := Some settled, refunded_amount := Some refunded, arbitration_notes := Some notes,
        updated_at := now env, released_at := Some (now env)\<rparr>"

text \<open>The common end: the escrow is resolved, the voucher used up, the payment intents told.\<close>

definition conclude :: "request_env \<Rightarrow> string \<Rightarrow> string \<Rightarrow> rat \<Rightarrow> rat \<Rightarrow> settlement_state \<Rightarrow> unit route" where
  "conclude env tid buyer settled refunded st =
     and_then (resolve env buyer (escrow_amount st) settled refunded) (\<lambda>_.
     and_then (mark_voucher_used_if_linked tid) (\<lambda>_.
     check (follow_up env ''payment_intents'' st)))"

definition partial_settlement :: "request_env \<Rightarrow> string \<Rightarrow> rat \<Rightarrow> string option \<Rightarrow> settlement_state route" where
  "partial_settlement env tid pct why =
     and_then (task_route env ''new_settlement'' tid) (\<lambda>st.
     and_then (check (require_buyer env st)) (\<lambda>_.
     and_then (read_db (confirmed_progress_percent tid)) (\<lambda>confirmed.
     and_then (if 1 / 10 ^ 4 < pct
               then if 1 / 10 ^ 9 < confirmed
                    then require (pct \<le> confirmed + 1 / 10 ^ 4) 400 ''settled_value_percent exceeds confirmed claimed value ceiling''
                    else require (canonical_task_status (status st) = DELIVERED) 400
                           ''partial settlement with no confirmed progress requires delivered status''
               else give ()) (\<lambda>_.
     let settled = py_round (escrow_amount st * pct / 100) 2; refunded = py_round (escrow_amount st - settled) 2 in
     and_then (guard_payout env tid settled) (\<lambda>_.
     and_then (apply_transition env
                 (decided env settled refunded (or_else why (''partial settlement at '' @ show_2f pct @ ''%'')) st)
                 SETTLED ''manual partial settlement applied'') (\<lambda>st'.
     and_then (conclude env tid (client_agent_id st') settled refunded st') (\<lambda>_. give st')))))))"

definition regret_settlement :: "request_env \<Rightarrow> string \<Rightarrow> string option \<Rightarrow> string option \<Rightarrow> settlement_state route" where
  "regret_settlement env tid buyer why =
     and_then (task_route env ''new_settlement'' tid) (\<lambda>st.
     and_then (check (require_buyer env st)) (\<lambda>_.
     and_then (require (buyer = None \<or> buyer = Some (client_agent_id st)) 403
                 ''buyer_identity_id does not match settlement buyer (client_agent_id)'') (\<lambda>_.
     and_then (read_db (confirmed_progress_percent tid)) (\<lambda>confirmed.
     let settled = py_round (escrow_amount st * confirmed / 100) 2; refunded = py_round (escrow_amount st - settled) 2 in
     and_then (guard_payout env tid settled) (\<lambda>_.
     and_then (apply_transition env
                 (decided env settled refunded
                    (or_else why (''buyer regret with confirmed progress '' @ show_2f confirmed @ ''%''))
                    (st\<lparr>dispute_reason := Some (or_else why ''buyer regret'')\<rparr>))
                 SETTLED ''buyer regret settlement'') (\<lambda>st'.
     and_then (conclude env tid (or_else buyer (client_agent_id st')) settled refunded st') (\<lambda>_. give st')))))))"

definition or_amount :: "rat option \<Rightarrow> rat \<Rightarrow> rat" where
  "or_amount x dflt = (case x of None \<Rightarrow> dflt | Some a \<Rightarrow> if a = 0 then dflt else a)"

text \<open>The quota of the profile, if the settlement has one; its reputation is told as well.\<close>

definition release_profile_credits_if_bound :: "request_env \<Rightarrow> settlement_state \<Rightarrow> unit route" where
  "release_profile_credits_if_bound env st =
     (case named (profile_id st) of
        None \<Rightarrow> give ()
      | Some pid \<Rightarrow>
        and_then (on_quotas (release_profile_credits (now env) pid (or_amount (released_amount st) (escrow_amount st))
                    (or_amount (refunded_amount st) 0))) (\<lambda>_.
        check (follow_up env ''profile_outcome'' st)))"

definition scene_id_from_settlement :: "settlement_state \<Rightarrow> string option" where
  "scene_id_from_settlement st =
     (case progress_rule_spec st of
        Some (JObj d) \<Rightarrow> (case map_of d ''scene_id'' of
                           Some (JStr s) \<Rightarrow> if strip s = [] then None else Some (strip s)
                         | _ \<Rightarrow> None)
      | _ \<Rightarrow> None)"

text \<open>An empty specification is replaced by the hint.\<close>

definition hint_scene :: "string option \<Rightarrow> settlement_state \<Rightarrow> string option \<times> settlement_state" where
  "hint_scene scene st =
     (let hint = (case scene of None \<Rightarrow> scene_id_from_settlement st
                              | Some s \<Rightarrow> if strip s = [] then scene_id_from_settlement st else Some (strip s))
      in (hint, if hint \<noteq> None \<and> (case progress_rule_spec st of None \<Rightarrow> True | Some j \<Rightarrow> \<not> truthy j)
                then st\<lparr>progress_rule_spec := Some (JObj [(''scene_id'', JStr (the hint))])\<rparr> else st))"

definition buyer_accept_settlement :: "request_env \<Rightarrow> string \<Rightarrow> string option \<Rightarrow> settlement_state route" where
  "buyer_accept_settlement env tid scene =
     and_then (check (validate_public_url_segment ''task_id'' tid)) (\<lambda>_.
     and_then (load tid) (\<lambda>st0.
     and_then (check (require_buyer env st0)) (\<lambda>_.
     and_then (require (status st0 = DELIVERED) 409 ''buyer accept requires delivered status'') (\<lambda>_.
     and_then (allowed ''new_settlement'') (\<lambda>_.
     and_then (audit_anchor env) (\<lambda>_.
     let (hint, st) = hint_scene scene st0 in
     and_then (check (delivery_gate env tid st ''buyer-accept'')) (\<lambda>_.
     and_then (check (owner_gate env hint st)) (\<lambda>_.
     and_then (guard_payout env tid (escrow_amount st)) (\<lambda>_.
     and_then (apply_transition env
                 (decided env (py_round (escrow_amount st) 2) 0 ''buyer accepted delivery - full settlement to seller'' st)
                 SETTLED ''buyer accepted delivered work'') (\<lambda>st'.
     and_then (resolve env (client_agent_id st') (escrow_amount st') (escrow_amount st') 0) (\<lambda>_.
     and_then (release_profile_credits_if_bound env st') (\<lambda>_.
     and_then (mark_voucher_used_if_linked tid) (\<lambda>_.
     and_then (check (follow_up env ''payment_intents'' st')) (\<lambda>_.
     and_then (check (follow_up env ''reputation'' st')) (\<lambda>_. give st')))))))))))))))"

text \<open>The window is checked before the caller; hours are counted in microseconds.\<close>

definition auto_confirm_settlement :: "request_env \<Rightarrow> string \<Rightarrow> settlement_state route" where
  "auto_confirm_settlement env tid =
     and_then (check (validate_public_url_segment ''task_id'' tid)) (\<lambda>_.
     and_then (load tid) (\<lambda>st0.
     and_then (require (canonical_task_status (status st0) = DELIVERED) 409 ''auto-confirm requires delivered'') (\<lambda>_.
     and_then (require (confirm_window_hours st0 \<noteq> None) 409 ''confirm_window_hours not set'') (\<lambda>_.
     let hours = the (confirm_window_hours st0);
         st = (if confirm_deadline_at st0 = None
               then st0\<lparr>confirm_deadline_at := Some (updated_at st0 + hours * 3600000000)\<rparr> else st0) in
     and_then (require (\<not> now env < the (confirm_deadline_at st)) 409 ''confirm window not expired'') (\<lambda>_.
     and_then (check (require_buyer_or_worker env st)) (\<lambda>_.
     and_then (allowed ''new_settlement'') (\<lambda>_.
     and_then (audit_anchor env) (\<lambda>_.
     and_then (check (delivery_gate env tid st ''auto-confirm'')) (\<lambda>_.
     and_then (check (auto_gate env st)) (\<lambda>_.
     and_then (apply_transition env
                 (st\<lparr>arbitration_notes := Some (''auto-confirmed after '' @ show_int hours @ ''h window''), updated_at := now env\<rparr>)
                 AUTO_CONFIRMED (''confirm window ('' @ show_int hours @ ''h) expired'')) (\<lambda>st1.
     and_then (apply_transition env
                 (st1\<lparr>released_amount := Some (py_round (escrow_amount st1) 2), refunded_amount := Some 0,
                      released_at := Some (now env)\<rparr>)
                 SETTLED ''auto-confirmed - settled'') (\<lambda>st'.
     and_then (resolve env (client_agent_id st') (escrow_amount st') (escrow_amount st') 0) (\<lambda>_.
     and_then (release_profile_credits_if_bound env st') (\<lambda>_.
     and_then (mark_voucher_used_if_linked tid) (\<lambda>_.
     and_then (check (follow_up env ''payment_intents'' st')) (\<lambda>_.
     and_then (check (follow_up env ''reputation'' st')) (\<lambda>_. give st')))))))))))))))))"

definition arbitration_context_of :: "request_env \<Rightarrow> string \<Rightarrow> settlement_state \<Rightarrow> route_db \<Rightarrow> arbitration_context" where
  "arbitration_context_of env tid st d =
     build_auto_arbitration_context (sha256 env) (now env) (status st = DELIVERED) (delivery_deadline_at st)
       (receipts_of (receipts d) tid) (map_of (evidence_bundles d) tid)"

definition auto_arbitrate :: "request_env \<Rightarrow> string \<Rightarrow> settlement_state route" where
  "auto_arbitrate env tid =
     and_then (check (validate_public_url_segment ''task_id'' tid)) (\<lambda>_.
     and_then (load tid) (\<lambda>st0.
     and_then (check (require_buyer_or_worker env st0)) (\<lambda>_.
     and_then (apply_transition env st0 ARBITRATED ''auto arbitration started'') (\<lambda>st.
     and_then (read_db (confirmed_progress_percent tid)) (\<lambda>confirmed.
     and_then (read_db (arbitration_context_of env tid st0)) (\<lambda>ctx.
     let (settled, refunded, rule_notes) = adjust_auto_split_for_rules ctx confirmed (escrow_amount st);
         decision = (if settled \<le> 1 / 10 ^ 6 then REFUNDED else SETTLED);
         notes = (if ctx_notes ctx = [] then rule_notes else rule_notes @ '' | '' @ join ''; '' (ctx_notes ctx)) in
     and_then (guard_payout env tid settled) (\<lambda>_.
     and_then (apply_transition env
                 ((decided env settled refunded notes st)\<lparr>released_at := (if 0 < settled then Some (now env) else None)\<rparr>)
                 decision ''auto arbitration finalized'') (\<lambda>st'.
     and_then (resolve env (client_agent_id st') (escrow_amount st') settled refunded) (\<lambda>_.
     and_then (mark_voucher_used_if_linked tid) (\<lambda>_.
     and_then (if decision = SETTLED then check (follow_up env ''payment_intents'' st') else give ()) (\<lambda>_.
     give st')))))))))))"

section \<open>Progress\<close>

text \<open>\<open>validate_progress_receipt_static\<close> of \<^verbatim>\<open>services/receipt_guard.py\<close>.\<close>

definition validate_progress_receipt_static :: "request_env \<Rightarrow> progress_row \<Rightarrow> string + unit" where
  "validate_progress_receipt_static env r =
     (if \<not> is_hex64 (lower (pr_evidence_hash r)) then Inl ''progress evidence_hash must be 64-char lowercase hex''
      else if \<not> is_hex64 (lower (pr_runtime_hash r)) then Inl ''progress runtime_log_hash must be 64-char lowercase hex''
      else if progress_requires_signature env \<and> strip (pr_signature r) = [] then Inl ''progress seller_signature is required''
      else if now env + 1000000 * max 0 (max_future_skew_seconds env) < pr_timestamp r then Inl ''progress timestamp is too far in the future''
      else if pr_timestamp r < now env - 3600000000 * max 1 (max_past_hours env) then Inl ''progress timestamp is too far in the past''
      else Inr ())"

text \<open>The latest receipt of the task by timestamp.\<close>

definition latest_progress :: "string \<Rightarrow> route_db \<Rightarrow> progress_row option" where
  "latest_progress tid d =
     (case rev (sort_key pr_timestamp (filter (\<lambda>r. pr_task_id r = tid) (progress_rows d))) of [] \<Rightarrow> None | r # _ \<Rightarrow> Some r)"

definition not_before :: "progress_row \<Rightarrow> progress_row option \<Rightarrow> http_error + unit" where
  "not_before r latest =
     (case latest of
        None \<Rightarrow> Inr ()
      | Some l \<Rightarrow>
        if pr_timestamp r < pr_timestamp l then Inl (HTTPException 409 ''progress timestamp is older than latest receipt'')
        else if pr_progress r + 1 / 10 ^ 9 < pr_progress l then Inl (HTTPException 409 ''progress_percent rollback is not allowed'')
        else if pr_claimed r + 1 / 10 ^ 9 < pr_claimed l then Inl (HTTPException 409 ''claimed_value_percent rollback is not allowed'')
        else Inr ())"

text \<open>
  The curve a settlement stores as JSON, whose numbers are integers here; another type of \<open>type\<close> is
  one that no curve has.
\<close>

definition json_point :: "json \<Rightarrow> rat list option" where
  "json_point j =
     (case j of
        JList xs \<Rightarrow> if list_all (\<lambda>x. case x of JInt i \<Rightarrow> True | _ \<Rightarrow> False) xs
                    then Some (map (\<lambda>x. case x of JInt i \<Rightarrow> of_int i | _ \<Rightarrow> 0) xs) else None
      | _ \<Rightarrow> None)"

definition curve_of_json :: "json option \<Rightarrow> curve_spec option" where
  "curve_of_json spec =
     (case spec of
        Some (JObj d) \<Rightarrow>
          if d = [] then None
          else Some \<lparr>curve_type = (case map_of d ''type'' of None \<Rightarrow> None | Some JNull \<Rightarrow> None
                                    | Some (JStr s) \<Rightarrow> Some s | Some _ \<Rightarrow> Some []),
                     curve_points = (case map_of d ''points'' of Some (JList xs) \<Rightarrow> Some (map json_point xs) | _ \<Rightarrow> None)\<rparr>
      | _ \<Rightarrow> None)"

text \<open>\<open>ValueError\<close> as an HTTP error.\<close>

definition bad_request :: "string + unit \<Rightarrow> http_error + unit" where
  "bad_request r = (case r of Inl s \<Rightarrow> Inl (HTTPException 400 s) | Inr u \<Rightarrow> Inr u)"

text \<open>The status of a submitted receipt is the one in the body.\<close>

definition submit_progress_receipt :: "request_env \<Rightarrow> progress_row \<Rightarrow> progress_row route" where
  "submit_progress_receipt env r =
     and_then (check (validate_public_url_segment ''task_id'' (pr_task_id r))) (\<lambda>_.
     and_then (check (validate_public_url_segment ''progress_receipt_id'' (pr_id r))) (\<lambda>_.
     and_then (check (validate_public_url_segment ''seller_identity_id'' (pr_seller r))) (\<lambda>_.
     and_then (check (bad_request (validate_progress_receipt_static env r))) (\<lambda>_.
     and_then (read_db progress_rows) (\<lambda>rows.
     and_then (require (pr_id r \<notin> pr_id ` set rows) 409 ''Progress receipt already exists'') (\<lambda>_.
     and_then (read_db (latest_progress (pr_task_id r))) (\<lambda>latest.
     and_then (check (not_before r latest)) (\<lambda>_.
     and_then (require (\<not> list_ex (\<lambda>x. pr_task_id x = pr_task_id r \<and> pr_evidence_hash x = pr_evidence_hash r \<and>
                                     pr_runtime_hash x = pr_runtime_hash r) rows) 409
                 ''duplicate progress evidence/runtime hash pair already submitted'') (\<lambda>_.
     and_then (load (pr_task_id r)) (\<lambda>st.
     and_then (check (require_actor_matches_identity env (pr_seller r))) (\<lambda>_.
     and_then (check (bad_request (validate_claimed_against_curve (pr_progress r) (pr_claimed r)
                                     (curve_of_json (progress_rule_spec st))))) (\<lambda>_.
     and_then (require (named (worker_agent_id st) = None \<or> worker_agent_id st = Some (pr_seller r)) 409
                 ''seller_identity_id does not match settlement worker_agent_id'') (\<lambda>_.
     and_then (require (can_transition (status st) PROGRESS_SUBMITTED) 409 ''invalid status transition'') (\<lambda>_.
     and_then (write_db (\<lambda>d. d\<lparr>progress_rows := progress_rows d @ [r]\<rparr>)) (\<lambda>_.
     and_then (save (st\<lparr>status := PROGRESS_SUBMITTED\<rparr>)) (\<lambda>_. give r))))))))))))))))"

definition confirm_row :: "request_env \<Rightarrow> progress_row \<Rightarrow> progress_row" where
  "confirm_row env r = r\<lparr>pr_status := ''confirmed'', pr_confirmed_at := Some (now env)\<rparr>"

definition require_confirmer :: "request_env \<Rightarrow> settlement_state \<Rightarrow> http_error + unit" where
  "require_confirmer env st =
     (if party_binding env then require_buyer env st
      else if confirm_requires_buyer env \<and> named (caller env) \<noteq> Some (client_agent_id st)
      then Inl (HTTPException 403 ''progress confirmation must be performed by the settlement buyer'')
      else Inr ())"

definition confirm_progress_receipt :: "request_env \<Rightarrow> string \<Rightarrow> progress_row route" where
  "confirm_progress_receipt env rid =
     and_then (check (validate_public_url_segment ''progress_receipt_id'' rid)) (\<lambda>_.
     and_then (read_db (\<lambda>d. find (\<lambda>r. pr_id r = rid) (progress_rows d))) (\<lambda>found.
     case found of
       None \<Rightarrow> refuse (HTTPException 404 (''Progress receipt '' @ rid @ '' not found''))
     | Some row \<Rightarrow>
       if pr_status row = ''confirmed'' then give row
       else
         and_then (load (pr_task_id row)) (\<lambda>st.
         and_then (check (require_confirmer env st)) (\<lambda>_.
         and_then (require (can_transition (status st) PROGRESS_CONFIRMED) 409 ''invalid status transition'') (\<lambda>_.
         and_then (write_db (\<lambda>d. d\<lparr>progress_rows := map (\<lambda>r. if pr_id r = rid then confirm_row env r else r) (progress_rows d)\<rparr>)) (\<lambda>_.
         and_then (save (st\<lparr>status := PROGRESS_CONFIRMED\<rparr>)) (\<lambda>_. give (confirm_row env row))))))))"

definition overdue :: "request_env \<Rightarrow> string \<Rightarrow> int \<Rightarrow> progress_row \<Rightarrow> bool" where
  "overdue env tid pending_time r \<longleftrightarrow>
     pr_task_id r = tid \<and> pr_status r = ''pending'' \<and> pr_timestamp r \<le> now env - pending_time"

definition timeout_confirm_progress :: "request_env \<Rightarrow> string \<Rightarrow> int \<Rightarrow> progress_row list route" where
  "timeout_confirm_progress env tid pending_time =
     and_then (check (validate_public_url_segment ''task_id'' tid)) (\<lambda>_.
     and_then (load tid) (\<lambda>st.
     and_then (check (require_buyer env st)) (\<lambda>_.
     and_then (read_db (\<lambda>d. filter (overdue env tid pending_time) (progress_rows d))) (\<lambda>rows.
     and_then (require (rows = [] \<or> can_transition (status st) PROGRESS_CONFIRMED) 409 ''cannot timeout-confirm'') (\<lambda>_.
     and_then (write_db (\<lambda>d. d\<lparr>progress_rows :=
                 map (\<lambda>r. if overdue env tid pending_time r then confirm_row env r else r) (progress_rows d)\<rparr>)) (\<lambda>_.
     and_then (if rows = [] then give () else save (st\<lparr>status := PROGRESS_CONFIRMED\<rparr>)) (\<lambda>_.
     give (map (confirm_row env) rows))))))))"

definition list_progress_receipts :: "string \<Rightarrow> progress_row list route" where
  "list_progress_receipts tid =
     and_then (check (validate_public_url_segment ''task_id'' tid)) (\<lambda>_.
     read_db (\<lambda>d. sort_key pr_timestamp (filter (\<lambda>r. pr_task_id r = tid) (progress_rows d))))"

end
