(* ===== verification/Settlement_System.thy ===== *)
theory Settlement_System
  imports Settlement_Routes
begin

text \<open>
  The routes together. An abstract settlement machine on the table of settlements says what a request may
  do to a settlement at all: create a draft, or move it along an allowed transition, never into
  \<open>FROZEN\<close>, without changing its terms, and with a payout only if the task has a successful receipt. Every
  route is shown to refine this machine, and what holds of the machine (outcomes are final, payouts have
  receipts) then holds of every run of the routes.
\<close>

section \<open>Requests\<close>

datatype route_call =
    Create string string string rat string "string option" "int option" "string option"
  | Pending string
  | Lock_Worker string string
  | Start string
  | Submit string
  | Fail string
  | Partial string rat "string option"
  | Regret string "string option" "string option"
  | Dispute string "string option" "string option"
  | Buyer_Accept string "string option"
  | Auto_Confirm string
  | Buyer_Reject string string "string option"
  | Auto_Arbitrate string
  | Submit_Progress progress_row
  | Confirm_Progress string
  | Timeout_Confirm string int

definition ignore :: "'a route \<Rightarrow> unit route" where
  "ignore m = and_then m (\<lambda>_. give ())"

fun serve :: "request_env \<Rightarrow> route_call \<Rightarrow> unit route" where
  "serve env (Create sid tid client escrow cur vid deadline pid) =
     ignore (create_settlement env sid tid client escrow cur vid deadline pid)"
| "serve env (Pending tid) = ignore (mark_settlement_pending env tid)"
| "serve env (Lock_Worker tid w) = ignore (lock_settlement env tid w)"
| "serve env (Start tid) = ignore (start_settlement env tid)"
| "serve env (Submit tid) = ignore (submit_settlement env tid)"
| "serve env (Fail tid) = ignore (fail_settlement env tid)"
| "serve env (Partial tid pct why) = ignore (partial_settlement env tid pct why)"
| "serve env (Regret tid buyer why) = ignore (regret_settlement env tid buyer why)"
| "serve env (Dispute tid why code) = ignore (open_dispute env tid why code)"
| "serve env (Buyer_Accept tid scene) = ignore (buyer_accept_settlement env tid scene)"
| "serve env (Auto_Confirm tid) = ignore (auto_confirm_settlement env tid)"
| "serve env (Buyer_Reject tid code why) = ignore (buyer_reject_settlement env tid code why)"
| "serve env (Auto_Arbitrate tid) = ignore (auto_arbitrate env tid)"
| "serve env (Submit_Progress r) = ignore (submit_progress_receipt env r)"
| "serve env (Confirm_Progress rid) = ignore (confirm_progress_receipt env rid)"
| "serve env (Timeout_Confirm tid t) = ignore (timeout_confirm_progress env tid t)"

section \<open>What the steps of a route do\<close>

lemma guards_Inr [returns]:
  "allowed operation d p = (d', p', Inr u) \<longleftrightarrow> d' = d \<and> p' = p \<and> assert_runtime_operation_allowed (fst p) operation = Inr ()"
  "ensure_task_contract_exists tid d p = (d', p', Inr u) \<longleftrightarrow> d' = d \<and> p' = p \<and> tid \<in> set (contracts d)"
  "guard_payout env tid settled d p = (d', p', Inr u) \<longleftrightarrow>
     d' = d \<and> p' = p \<and> ensure_success_receipt (payout_requires_receipt env) (receipts_of (receipts d) tid) settled = Inr ()"
  by (auto simp: allowed_def ensure_task_contract_exists_def guard_payout_def returns)

lemma audit_anchor_Inr [returns]:
  "audit_anchor env d p = (d', p', Inr u) \<longleftrightarrow>
     d' = d \<and> (\<exists>m'. audit_capacity_anchor_and_maybe_trip (now env) (Some ''system'') (capacities d) (fst p) = (m', Inr ()) \<and>
                    p' = (m', snd p))"
  by (auto simp: audit_anchor_def split: prod.splits)

lemma on_ledger_Inr [returns]:
  "on_ledger req d p = (d', p', Inr a) \<longleftrightarrow>
     (\<exists>t' m'. req (capacities d) (fst p) = (t', m', Inr a) \<and> d' = d\<lparr>capacities := t'\<rparr> \<and> p' = (m', snd p))"
  by (auto simp: on_ledger_def split: prod.splits)

lemma on_quotas_Inr [returns]:
  "on_quotas req d p = (d', p', Inr a) \<longleftrightarrow> (\<exists>t' u. req (quotas d) () = (t', u, Inr a) \<and> d' = d\<lparr>quotas := t'\<rparr> \<and> p' = p)"
  by (auto simp: on_quotas_def split: prod.splits)

lemma load_Inr [returns]:
  "load tid d p = (d', p', Inr st) \<longleftrightarrow> d' = d \<and> p' = p \<and> postgres_get tid (settlements d) = Inr (Some st)"
  by (auto simp: load_def split: sum.splits option.splits)

lemma save_Inr [returns]:
  "save st d p = (d', p', Inr u) \<longleftrightarrow> (\<exists>rows. postgres_save st (settlements d) = Inr rows \<and> d' = d\<lparr>settlements := rows\<rparr> \<and> p' = p)"
  by (auto simp: save_def split: sum.splits)

lemma record_transition_Inr [returns]:
  "record_transition env st from to stage why d p = (d', p', Inr u) \<longleftrightarrow>
     (\<exists>rows evs. record_settlement_transition_audit (now env) st from to True stage why (Some (url_path env)) (caller env)
        (transitions d, snd p) = (rows, evs) \<and> d' = d\<lparr>transitions := rows\<rparr> \<and> p' = (fst p, evs))"
  by (auto simp: record_transition_def split: prod.splits)

lemma bind_voucher_Inr [returns]:
  "bind_voucher vid client escrow pid d p = (d', p', r) \<longleftrightarrow> d' = d \<and> p' = p \<and> r = snd (snd (bind_voucher vid client escrow pid d p))"
  by (auto simp: bind_voucher_def)

lemma apply_transition_Inr [returns]:
  "apply_transition env st target why d p = (d', p', Inr st') \<longleftrightarrow>
     can_transition (status st) target \<and> st' = st\<lparr>status := target, updated_at := now env\<rparr> \<and>
     (\<exists>rows table evs. postgres_save st' (settlements d) = Inr table \<and>
        record_settlement_transition_audit (now env) st' (Some (status st)) target True ''store'' why (Some (url_path env))
          (caller env) (transitions d, snd p) = (rows, evs) \<and>
        d' = d\<lparr>transitions := rows, settlements := table\<rparr> \<and> p' = (fst p, evs))"
  by (auto simp: apply_transition_def audited_transition_def Let_def split: prod.splits sum.splits store_error.splits if_splits)

text \<open>The ends of a route that touch vouchers and quotas leave everything else alone.\<close>

lemma mark_voucher_Inr:
  "mark_voucher_used_if_linked tid d p = (d', p', Inr u) \<Longrightarrow> \<exists>vs. d' = d\<lparr>vouchers := vs\<rparr> \<and> p' = p"
  by (auto simp: mark_voucher_used_if_linked_def split: option.splits if_splits intro: exI [of _ "vouchers d"])

lemma release_if_bound_Inr:
  "release_profile_credits_if_bound env st d p = (d', p', Inr u) \<Longrightarrow> \<exists>qs. d' = d\<lparr>quotas := qs\<rparr> \<and> p' = p"
  by (auto simp: release_profile_credits_if_bound_def returns split: option.splits intro: exI [of _ "quotas d"])

section \<open>The abstract machine\<close>

definition has_receipt :: "(string \<times> arb_receipt) list \<Rightarrow> string \<Rightarrow> bool" where
  "has_receipt rs tid \<longleftrightarrow> list_ex (\<lambda>r. rr_status r = ''success'') (receipts_of rs tid)"

text \<open>
  One move. \<open>paid\<close> tells for which tasks a payout is justified; a move that pays out anything else than
  before needs it.
\<close>

inductive settlement_move :: "(string \<Rightarrow> bool) \<Rightarrow> settlement_table \<Rightarrow> settlement_table \<Rightarrow> bool" for paid where
  create: "find_settlement (settlement_id st) rows = None \<Longrightarrow> postgres_save st rows = Inr rows' \<Longrightarrow> status st = DRAFT \<Longrightarrow>
    released_amount st = None \<Longrightarrow> settlement_move paid rows rows'"
| move: "postgres_get (task_id st) rows = Inr (Some st0) \<Longrightarrow> settlement_id st = settlement_id st0 \<Longrightarrow>
    escrow_amount st = escrow_amount st0 \<Longrightarrow> client_agent_id st = client_agent_id st0 \<Longrightarrow>
    can_transition (status st0) (status st) \<Longrightarrow> canonical_task_status (status st) \<noteq> FROZEN \<Longrightarrow>
    released_amount st = released_amount st0 \<or>
      (\<exists>x. released_amount st = Some x \<and> (x \<le> 1 / 10 ^ 6 \<or> paid (task_id st))) \<Longrightarrow>
    postgres_save st rows = Inr rows' \<Longrightarrow> settlement_move paid rows rows'"

lemma settlement_move_wf: "settlement_move paid rows rows' \<Longrightarrow> table_wf rows \<Longrightarrow> table_wf rows'"
  by (auto elim!: settlement_move.cases dest: postgres_save_wf)

lemma settlement_move_mono:
  "settlement_move paid rows rows' \<Longrightarrow> (\<And>t. paid t \<Longrightarrow> paid' t) \<Longrightarrow> settlement_move paid' rows rows'"
  by (induction rule: settlement_move.induct) (blast intro: settlement_move.intros)+

lemma postgres_get_task: "postgres_get tid rows = Inr (Some st) \<Longrightarrow> task_id st = tid"
  by (auto simp: postgres_get_def from_row_def find_Some_iff split: option.splits sum.splits)

lemma postgres_get_row:
  assumes "postgres_get tid rows = Inr (Some st)"
  obtains r where "r \<in> set rows" "r_task_id r = tid" "from_row r = Inr st" "r_settlement_id r = settlement_id st"
    "canonical_status_of (r_status r) = Some (status st)" "r_released_amount r = released_amount st"
    "confirm_window_hours st = None"
proof -
  from assms obtain r where r: "find (\<lambda>r. r_task_id r = tid) rows = Some r" "from_row r = Inr st"
    by (auto simp: postgres_get_def split: option.splits sum.splits)
  from r(1) have "r \<in> set rows" "r_task_id r = tid" by (auto simp: find_Some_iff)
  with r(2) show thesis by (intro that [of r]) (auto simp: from_row_def split: option.splits)
qed

text \<open>A move by the state of a route: loaded, changed in what is not a term, and moved to the target.\<close>

lemma route_move:
  assumes "postgres_save st rows = Inr rows'" and "postgres_get tid rows = Inr (Some st0)"
    and "can_transition (status st0) target" and "target \<noteq> FROZEN" and "canonical_task_status target = target"
    and "status st = target" and "settlement_id st = settlement_id st0" "task_id st = task_id st0"
      "escrow_amount st = escrow_amount st0" "client_agent_id st = client_agent_id st0"
    and "released_amount st = released_amount st0 \<or> (\<exists>x. released_amount st = Some x \<and> (x \<le> 1 / 10 ^ 6 \<or> paid tid))"
  shows "settlement_move paid rows rows'"
  using assms postgres_get_task [OF assms(2)] by (intro settlement_move.move [of st rows st0]) auto

lemma route_targets:
  "canonical_task_status PENDING = PENDING" "canonical_task_status ACCEPTED = ACCEPTED"
  "canonical_task_status IN_PROGRESS = IN_PROGRESS" "canonical_task_status DELIVERED = DELIVERED"
  "canonical_task_status CANCELLED = CANCELLED" "canonical_task_status DISPUTED = DISPUTED"
  "canonical_task_status ARBITRATED = ARBITRATED" "canonical_task_status SETTLED = SETTLED"
  "canonical_task_status REFUNDED = REFUNDED" "canonical_task_status PROGRESS_SUBMITTED = PROGRESS_SUBMITTED"
  "canonical_task_status PROGRESS_CONFIRMED = PROGRESS_CONFIRMED" "canonical_task_status AUTO_CONFIRMED = AUTO_CONFIRMED"
  by code_simp+

section \<open>The routes refine the machine\<close>

text \<open>The payouts that the guard of the payout lets through.\<close>

definition payable :: "request_env \<Rightarrow> (string \<times> arb_receipt) list \<Rightarrow> string \<Rightarrow> bool" where
  "payable env rs tid \<longleftrightarrow> payout_requires_receipt env \<longrightarrow> has_receipt rs tid"

lemma guard_payable:
  "ensure_success_receipt (payout_requires_receipt env) (receipts_of rs tid) x = Inr () \<longleftrightarrow> x \<le> 1 / 10 ^ 6 \<or> payable env rs tid"
  by (auto simp: ensure_success_receipt_def payable_def has_receipt_def)

text \<open>
  Started on these settlements and receipts, a handler that returns ends in settlements with \<open>Q\<close> and
  with the same receipts. The rules walk through a handler and collect what its guards establish.
\<close>

definition yields ::
    "settlement_table \<Rightarrow> (string \<times> arb_receipt) list \<Rightarrow> 'a route \<Rightarrow> (settlement_table \<Rightarrow> bool) \<Rightarrow> bool" where
  "yields rows rs m Q \<longleftrightarrow>
     (\<forall>d p d' p' a. settlements d = rows \<and> receipts d = rs \<longrightarrow> m d p = (d', p', Inr a) \<longrightarrow> Q (settlements d') \<and> receipts d' = rs)"

lemma and_then_assoc: "and_then (and_then m f) g = and_then m (\<lambda>a. and_then (f a) g)"
  by (intro ext) (auto simp: and_then_def split: prod.split sum.split)

lemma and_then_give: "and_then (give a) f = f a"
  by (intro ext) (simp add: and_then_def give_def)

lemma yields_and_then:
  assumes "\<And>d p d' p' a. settlements d = rows \<Longrightarrow> receipts d = rs \<Longrightarrow> m d p = (d', p', Inr a) \<Longrightarrow>
      receipts d' = rs \<and> yields (settlements d') rs (f a) Q"
  shows "yields rows rs (and_then m f) Q"
  unfolding yields_def
proof (intro allI impI)
  fix d p d2 p2 b
  assume d: "settlements d = rows \<and> receipts d = rs" and "and_then m f d p = (d2, p2, Inr b)"
  then obtain d1 p1 a where r: "m d p = (d1, p1, Inr a)" "f a d1 p1 = (d2, p2, Inr b)" unfolding and_then_Inr by blast
  from assms [OF conjunct1 [OF d] conjunct2 [OF d] r(1)]
  have "receipts d1 = rs" and y: "yields (settlements d1) rs (f a) Q" by blast+
  with y [unfolded yields_def, rule_format, OF conjI [OF refl this(1)] r(2)]
  show "Q (settlements d2) \<and> receipts d2 = rs" by blast
qed

lemma yields_end:
  assumes "\<And>d p d' p' a. settlements d = rows \<Longrightarrow> receipts d = rs \<Longrightarrow> m d p = (d', p', Inr a) \<Longrightarrow>
      receipts d' = rs \<and> Q (settlements d')"
  shows "yields rows rs m Q"
  unfolding yields_def using assms by blast

lemma yields_guards:
  "Q rows \<Longrightarrow> yields rows rs (give a) Q"
  "(\<And>x. r = Inr x \<Longrightarrow> yields rows rs (f x) Q) \<Longrightarrow> yields rows rs (and_then (check r) f) Q"
  "(b \<Longrightarrow> yields rows rs (f ()) Q) \<Longrightarrow> yields rows rs (and_then (require b c s) f) Q"
  "yields rows rs (refuse e) Q"
  "Q rows \<Longrightarrow> yields rows rs (check r) Q"
  "(\<And>st. postgres_get tid rows = Inr (Some st) \<Longrightarrow> yields rows rs (f' st) Q) \<Longrightarrow> yields rows rs (and_then (load tid) f') Q"
  "(x \<le> 1 / 10 ^ 6 \<or> payable env rs tid \<Longrightarrow> yields rows rs (f ()) Q) \<Longrightarrow>
     yields rows rs (and_then (guard_payout env tid x) f) Q"
  by (rule yields_and_then yields_end; auto simp: returns guard_payable)+

lemma yields_saves:
  "(\<And>st' rows'. can_transition (status st) target \<Longrightarrow> st' = st\<lparr>status := target, updated_at := now env\<rparr> \<Longrightarrow>
      postgres_save st' rows = Inr rows' \<Longrightarrow> yields rows' rs (f st') Q) \<Longrightarrow>
    yields rows rs (and_then (apply_transition env st target why) f) Q"
  "(\<And>st' rows'. can_transition (status st) target \<Longrightarrow> st' = st\<lparr>status := target, updated_at := now env\<rparr> \<Longrightarrow>
      postgres_save st' rows = Inr rows' \<Longrightarrow> Q rows') \<Longrightarrow>
    yields rows rs (apply_transition env st target why) Q"
  "(\<And>rows'. postgres_save st rows = Inr rows' \<Longrightarrow> yields rows' rs (g ()) Q) \<Longrightarrow> yields rows rs (and_then (save st) g) Q"
  by (rule yields_and_then yields_end; auto simp: returns)+

text \<open>The steps that leave settlements and receipts alone.\<close>

definition keeps :: "'a route \<Rightarrow> bool" where
  "keeps m \<longleftrightarrow> (\<forall>d p d' p' a. m d p = (d', p', Inr a) \<longrightarrow> settlements d' = settlements d \<and> receipts d' = receipts d)"

lemma keepsD: "keeps m \<Longrightarrow> m d p = (d', p', Inr a) \<Longrightarrow> settlements d' = settlements d \<and> receipts d' = receipts d"
  unfolding keeps_def by blast

lemma yields_keep: "keeps m \<Longrightarrow> (\<And>a. yields rows rs (f a) Q) \<Longrightarrow> yields rows rs (and_then m f) Q"
  by (rule yields_and_then, drule (1) keepsD) simp

lemma keeps_steps:
  "keeps (allowed operation)" "keeps (audit_anchor env)" "keeps (on_ledger req)" "keeps (on_quotas req')"
  "keeps (ensure_task_contract_exists tid)" "keeps (bind_voucher vid client escrow pid)" "keeps (read_db g)"
  "keeps (record_transition env st from to stage why)" "keeps (mark_voucher_used_if_linked tid)"
  "keeps (release_profile_credits_if_bound env st)" "keeps (resolve env buyer escrow settled refunded)"
  "keeps (write_db (\<lambda>d. d\<lparr>progress_rows := h d\<rparr>))"
  by (auto simp: keeps_def returns resolve_def dest!: mark_voucher_Inr release_if_bound_Inr)

lemma keeps_conclude: "keeps (conclude env tid buyer settled refunded st)"
  unfolding conclude_def keeps_def by (auto simp: returns resolve_def dest!: mark_voucher_Inr)

lemmas walk = yields_guards yields_saves keeps_steps [THEN yields_keep] keeps_conclude [THEN yields_keep]

text \<open>A handler refines the machine if whenever it returns, the settlements have made moves.\<close>

definition refines :: "request_env \<Rightarrow> 'a route \<Rightarrow> bool" where
  "refines env m \<longleftrightarrow>
     (\<forall>rows rs. table_wf rows \<longrightarrow> yields rows rs m ((settlement_move (payable env rs))\<^sup>*\<^sup>* rows))"

lemma yields_ignore: "yields rows rs m Q \<Longrightarrow> yields rows rs (ignore m) Q"
  unfolding yields_def ignore_def returns by blast

lemma refines_pending: "refines env (mark_settlement_pending env tid)"
  unfolding refines_def mark_settlement_pending_def task_route_def and_then_assoc
  by (intro allI impI walk r_into_rtranclp, erule (1) route_move [where target = PENDING]) (auto simp: route_targets)

lemma refines_lock: "refines env (lock_settlement env tid w)"
  unfolding refines_def lock_settlement_def and_then_assoc
  by (intro allI impI walk r_into_rtranclp, erule (1) route_move [where target = ACCEPTED]) (auto simp: route_targets)

lemma refines_start: "refines env (start_settlement env tid)"
  unfolding refines_def start_settlement_def task_route_def and_then_assoc
  by (intro allI impI walk r_into_rtranclp, erule (1) route_move [where target = IN_PROGRESS]) (auto simp: route_targets)

lemma refines_submit: "refines env (submit_settlement env tid)"
  unfolding refines_def submit_settlement_def task_route_def and_then_assoc
  by (intro allI impI walk r_into_rtranclp, erule (1) route_move [where target = DELIVERED]) (auto simp: route_targets)

lemma refines_fail: "refines env (fail_settlement env tid)"
  unfolding refines_def fail_settlement_def task_route_def and_then_assoc
  by (intro allI impI walk r_into_rtranclp, erule (1) route_move [where target = CANCELLED]) (auto simp: route_targets)

lemma refines_dispute: "refines env (open_dispute env tid why code)"
  unfolding refines_def open_dispute_def and_then_assoc
  by (intro allI impI walk r_into_rtranclp, erule (1) route_move [where target = DISPUTED]) (auto simp: route_targets)

lemma refines_reject: "refines env (buyer_reject_settlement env tid code why)"
  unfolding refines_def buyer_reject_settlement_def and_then_assoc
  by (intro allI impI walk r_into_rtranclp, erule (1) route_move [where target = DISPUTED]) (auto simp: route_targets)

text \<open>A decision pays out what the guard lets through.\<close>

lemma decided_simps [simp]:
  "settlement_id (decided env s r n st) = settlement_id st" "task_id (decided env s r n st) = task_id st"
  "escrow_amount (decided env s r n st) = escrow_amount st" "client_agent_id (decided env s r n st) = client_agent_id st"
  "status (decided env s r n st) = status st" "released_amount (decided env s r n st) = Some s"
  by (simp_all add: decided_def)

lemma yields_case_prod:
  "(\<And>a b. x = (a, b) \<Longrightarrow> yields rows rs (m a b) Q) \<Longrightarrow> yields rows rs (case x of (a, b) \<Rightarrow> m a b) Q"
  by (cases x) simp

lemma yields_if:
  "(b \<Longrightarrow> yields rows rs (and_then m f) Q) \<Longrightarrow> (\<not> b \<Longrightarrow> yields rows rs (and_then m' f) Q) \<Longrightarrow>
     yields rows rs (and_then (if b then m else m') f) Q"
  "yields rows rs (f ()) Q \<Longrightarrow> yields rows rs (and_then (give ()) f) Q"
  by (simp_all add: and_then_give)

lemma yields_result:
  "(\<And>x. r = Inr x \<Longrightarrow> yields rows rs (and_then (m x) f) Q) \<Longrightarrow>
     yields rows rs (and_then (case r of Inl e \<Rightarrow> refuse (g e) | Inr x \<Rightarrow> m x) f) Q"
  by (cases r) (auto intro!: yields_and_then simp: returns)

lemma yields_branch:
  "(\<And>y. r = Some y \<Longrightarrow> yields rows rs (m y) Q) \<Longrightarrow> yields rows rs (case r of None \<Rightarrow> refuse e | Some y \<Rightarrow> m y) Q"
  "(b \<Longrightarrow> yields rows rs m1 Q) \<Longrightarrow> (\<not> b \<Longrightarrow> yields rows rs m2 Q) \<Longrightarrow> yields rows rs (if b then m1 else m2) Q"
  by (auto intro: yields_guards split: option.split)

lemmas walk_cases = yields_branch yields_result yields_case_prod yields_if walk

lemma refines_partial: "refines env (partial_settlement env tid pct why)"
  unfolding refines_def partial_settlement_def task_route_def and_then_assoc Let_def
  by (intro allI impI walk_cases r_into_rtranclp; erule (1) route_move [where target = SETTLED]) (auto simp: route_targets)

lemma refines_regret: "refines env (regret_settlement env tid buyer why)"
  unfolding refines_def regret_settlement_def task_route_def and_then_assoc Let_def
  by (intro allI impI walk_cases r_into_rtranclp; erule (1) route_move [where target = SETTLED]) (auto simp: route_targets)

lemma hint_scene_same:
  "hint_scene scene st0 = (hint, st) \<Longrightarrow> settlement_id st = settlement_id st0 \<and> task_id st = task_id st0 \<and>
     escrow_amount st = escrow_amount st0 \<and> client_agent_id st = client_agent_id st0 \<and> status st = status st0 \<and>
     released_amount st = released_amount st0"
  by (auto simp: hint_scene_def Let_def split: if_splits)

lemma tiny_rounds_to_nothing: "x * 1000000 \<le> 1 \<Longrightarrow> py_round x 2 * 1000000 \<le> 1"
proof -
  assume x: "x * 1000000 \<le> 1"
  have "of_int (round_half_even (x * 100)) \<le> x * 100 + 1 / 2"
    using abs_le_D1 [OF round_half_even_error [of "x * 100"]] by simp
  also have "\<dots> < 1" using x by simp
  finally have "round_half_even (x * 100) \<le> 0" by simp
  then have "py_round x 2 \<le> 0" by (simp add: py_round_def)
  then show ?thesis by simp
qed

lemma refines_buyer_accept: "refines env (buyer_accept_settlement env tid scene)"
  unfolding refines_def buyer_accept_settlement_def and_then_assoc Let_def
  by (intro allI impI walk_cases r_into_rtranclp; erule (1) route_move [where target = SETTLED])
    (auto simp: route_targets dest!: hint_scene_same intro: tiny_rounds_to_nothing)

text \<open>The window of an automatic confirmation is not in the table, so no loaded settlement has one.\<close>

lemma auto_confirm_refuses:
  "auto_confirm_settlement env tid d p \<noteq> (d', p', Inr st)"
  by (auto simp: auto_confirm_settlement_def returns elim: postgres_get_row)

lemma refines_auto_confirm: "refines env (auto_confirm_settlement env tid)"
  unfolding refines_def yields_def by (auto simp: auto_confirm_refuses)

lemma two_route_moves:
  assumes "table_wf rows" and "postgres_save st1 rows = Inr rows1" and "postgres_get tid rows = Inr (Some st0)"
    and "postgres_save st2 rows1 = Inr rows2"
    and "can_transition (status st0) ta" and "ta \<noteq> FROZEN" and "canonical_task_status ta = ta"
    and "status st1 = ta" "settlement_id st1 = settlement_id st0" "task_id st1 = task_id st0"
      "escrow_amount st1 = escrow_amount st0" "client_agent_id st1 = client_agent_id st0" "released_amount st1 = released_amount st0"
    and "can_transition ta tb" and "tb \<noteq> FROZEN" and "canonical_task_status tb = tb"
    and "status st2 = tb" "settlement_id st2 = settlement_id st0" "task_id st2 = task_id st0"
      "escrow_amount st2 = escrow_amount st0" "client_agent_id st2 = client_agent_id st0"
    and "released_amount st2 = released_amount st1 \<or> (\<exists>x. released_amount st2 = Some x \<and> (x \<le> 1 / 10 ^ 6 \<or> paid tid))"
  shows "(settlement_move paid)\<^sup>*\<^sup>* rows rows2"
proof -
  have tid: "task_id st1 = tid" using postgres_get_task [OF assms(3)] assms(10) by simp
  have "settlement_move paid rows rows1" using assms by (intro route_move [OF assms(2,3,5,6,7)]) auto
  moreover have "settlement_move paid rows1 rows2"
    using postgres_save_get [OF assms(1,2)] assms tid
    by (intro route_move [OF assms(4), of tid "stored_form st1" tb]) (auto simp: stored_form_def)
  ultimately show ?thesis by (rule converse_rtranclp_into_rtranclp [OF _ r_into_rtranclp])
qed

lemma keeps_optional: "keeps (if b then check r else give ())"
  by (auto simp: keeps_def returns)

lemma refines_auto_arbitrate: "refines env (auto_arbitrate env tid)"
  unfolding refines_def auto_arbitrate_def and_then_assoc Let_def
  apply (intro allI impI yields_case_prod keeps_optional [THEN yields_keep] walk)
  apply (rule two_route_moves, assumption+)
  apply (simp_all add: route_targets)
  done

lemma refines_create:
  assumes "find_settlement sid rows = None"
  shows "yields rows rs (create_settlement env sid tid client escrow cur vid deadline pid) ((settlement_move (payable env rs))\<^sup>*\<^sup>* rows)"
  unfolding create_settlement_def and_then_assoc Let_def
  by (intro walk_cases r_into_rtranclp, erule settlement_move.create [rotated]) (use assms in \<open>auto simp: new_settlement_def\<close>)

lemma refines_submit_progress: "refines env (submit_progress_receipt env r)"
  unfolding refines_def submit_progress_receipt_def and_then_assoc Let_def
  by (intro allI impI walk_cases r_into_rtranclp, erule (1) route_move [where target = PROGRESS_SUBMITTED]) (auto simp: route_targets)

lemma refines_confirm_progress: "refines env (confirm_progress_receipt env rid)"
  unfolding refines_def confirm_progress_receipt_def and_then_assoc Let_def
  by (intro allI impI walk_cases rtranclp.rtrancl_refl, rule r_into_rtranclp, erule (1) route_move [where target = PROGRESS_CONFIRMED])
    (auto simp: route_targets)

lemma refines_timeout_confirm: "refines env (timeout_confirm_progress env tid t)"
  unfolding refines_def timeout_confirm_progress_def and_then_assoc Let_def
  by (intro allI impI walk_cases rtranclp.rtrancl_refl, rule r_into_rtranclp, erule (1) route_move [where target = PROGRESS_CONFIRMED])
    (auto simp: route_targets)

section \<open>Runs\<close>

text \<open>A new settlement gets an id that no settlement has.\<close>

fun fresh_call :: "route_call \<Rightarrow> settlement_table \<Rightarrow> bool" where
  "fresh_call (Create sid tid client escrow cur vid deadline pid) rows \<longleftrightarrow> find_settlement sid rows = None"
| "fresh_call _ rows \<longleftrightarrow> True"

lemma refinesD:
  "refines env m \<Longrightarrow> table_wf rows \<Longrightarrow> yields rows rs (ignore m) ((settlement_move (payable env rs))\<^sup>*\<^sup>* rows)"
  by (simp add: refines_def yields_ignore)

lemmas served = refinesD [OF refines_pending] refinesD [OF refines_lock] refinesD [OF refines_start]
  refinesD [OF refines_submit] refinesD [OF refines_fail] refinesD [OF refines_partial] refinesD [OF refines_regret]
  refinesD [OF refines_dispute] refinesD [OF refines_buyer_accept] refinesD [OF refines_auto_confirm]
  refinesD [OF refines_reject] refinesD [OF refines_auto_arbitrate] refinesD [OF refines_submit_progress]
  refinesD [OF refines_confirm_progress] refinesD [OF refines_timeout_confirm]

lemma serve_refines:
  assumes "fresh_call call rows" and "table_wf rows"
  shows "yields rows rs (serve env call) ((settlement_move (payable env rs))\<^sup>*\<^sup>* rows)"
proof (cases call)
  case (Create sid tid client escrow cur vid deadline pid)
  then have "find_settlement sid rows = None" using assms(1) by simp
  from yields_ignore [OF refines_create [OF this, of rs env tid client escrow cur vid deadline pid]] Create show ?thesis
    by simp
qed (simp_all add: served assms(2))

text \<open>
  A step of the system: a request, served in a session, or anything else that leaves the settlements
  alone and takes no receipt away. With \<open>strict\<close>, the requests run with the setting that asks for a
  receipt before a payout.
\<close>

inductive route_step :: "bool \<Rightarrow> route_db \<times> route_proc \<Rightarrow> route_db \<times> route_proc \<Rightarrow> bool" for strict where
  request: "in_session (serve env call) d p = (d', p', out) \<Longrightarrow> fresh_call call (settlements d) \<Longrightarrow>
    (strict \<Longrightarrow> payout_requires_receipt env) \<Longrightarrow> route_step strict (d, p) (d', p')"
| elsewhere: "settlements d' = settlements d \<Longrightarrow> receipts d' = receipts d @ rs \<Longrightarrow> route_step strict (d, p) (d', p')"

lemma route_step_cases:
  assumes "route_step strict (d, p) (d', p')"
  obtains (request) env call out where "in_session (serve env call) d p = (d', p', out)" "fresh_call call (settlements d)"
      "strict \<longrightarrow> payout_requires_receipt env"
  | (elsewhere) rs where "settlements d' = settlements d" "receipts d' = receipts d @ rs"
  using assms by (auto elim: route_step.cases)

definition justified :: "bool \<Rightarrow> route_db \<Rightarrow> string \<Rightarrow> bool" where
  "justified strict d tid \<longleftrightarrow> strict \<longrightarrow> has_receipt (receipts d) tid"

lemma has_receipt_append: "has_receipt rs tid \<Longrightarrow> has_receipt (rs @ rs') tid"
  by (simp add: has_receipt_def receipts_of_def)

lemma moves_mono:
  "(settlement_move paid)\<^sup>*\<^sup>* rows rows' \<Longrightarrow> (\<And>t. paid t \<Longrightarrow> paid' t) \<Longrightarrow> (settlement_move paid')\<^sup>*\<^sup>* rows rows'"
proof (induction rule: rtranclp_induct)
  case (step y z)
  then have "settlement_move paid' y z" using settlement_move_mono [of paid y z paid'] by blast
  with step show ?case by (meson rtranclp.rtrancl_into_rtrancl)
qed simp

lemma moves_wf: "(settlement_move paid)\<^sup>*\<^sup>* rows rows' \<Longrightarrow> table_wf rows \<Longrightarrow> table_wf rows'"
  by (induction rule: rtranclp_induct) (blast intro: settlement_move_wf)+

lemma step_moves:
  assumes "route_step strict (d, p) (d', p')" and "table_wf (settlements d)"
  shows "(settlement_move (justified strict d))\<^sup>*\<^sup>* (settlements d) (settlements d') \<and> (\<exists>rs. receipts d' = receipts d @ rs)"
  using assms(1)
proof (cases rule: route_step_cases)
  case (request env call out)
  show ?thesis
  proof (cases out)
    case (Inl e)
    with request(1) have "d' = d" by (simp add: in_session_Inl)
    then show ?thesis by simp
  next
    case (Inr u)
    with request(1) have run: "serve env call d p = (d', p', Inr u)" by (simp add: in_session_Inr)
    from serve_refines [OF request(2) assms(2), of "receipts d" env]
    have m: "(settlement_move (payable env (receipts d)))\<^sup>*\<^sup>* (settlements d) (settlements d')" "receipts d' = receipts d"
      using run unfolding yields_def by blast+
    have "payable env (receipts d) t \<Longrightarrow> justified strict d t" for t using request(3) by (auto simp: payable_def justified_def)
    from moves_mono [OF m(1) this] m(2) show ?thesis by simp
  qed
qed simp

lemma justified_later:
  assumes "receipts d' = receipts d @ rs" and "justified strict d t"
  shows "justified strict d' t"
  using assms has_receipt_append [of "receipts d" t rs] by (simp add: justified_def)

lemma run_moves:
  assumes "(route_step strict)\<^sup>*\<^sup>* (d, p) (d', p')" and "table_wf (settlements d)"
  shows "(settlement_move (justified strict d'))\<^sup>*\<^sup>* (settlements d) (settlements d') \<and> (\<exists>rs. receipts d' = receipts d @ rs)"
  using assms(1)
proof (induction rule: rtranclp_induct2)
  case (step d1 p1 d2 p2)
  note moves1 = conjunct1 [OF step.IH]
  note step2 = step_moves [OF step.hyps(2) moves_wf [OF moves1 assms(2)]]
  from step2 obtain rs where rs: "receipts d2 = receipts d1 @ rs" by blast
  note mono = moves_mono [OF _ justified_later [OF rs]]
  from rtranclp_trans [OF mono [OF moves1] mono [OF conjunct1 [OF step2]]] step.IH rs show ?case by auto
qed simp

section \<open>What the machine guarantees\<close>

definition over :: "settlement_row \<Rightarrow> bool" where
  "over r \<longleftrightarrow> r_status r \<in> {''settled'', ''refunded'', ''cancelled''}"

lemma over_status:
  assumes "over r" and "canonical_status_of (r_status r) = Some st"
  shows "can_transition st target \<longrightarrow> canonical_task_status target = FROZEN"
proof -
  have v: "canonical_status_of ''settled'' = Some SETTLED" "canonical_status_of ''refunded'' = Some REFUNDED"
    "canonical_status_of ''cancelled'' = Some CANCELLED" by code_simp+
  have t: "transitions_of (canonical_task_status SETTLED) = [FROZEN]" "transitions_of (canonical_task_status REFUNDED) = [FROZEN]"
    "transitions_of (canonical_task_status CANCELLED) = [FROZEN]" by code_simp+
  from assms v have "st = SETTLED \<or> st = REFUNDED \<or> st = CANCELLED" by (auto simp: over_def)
  with t show ?thesis by (auto simp: can_transition_def)
qed

text \<open>A settlement that is over keeps its row.\<close>

lemma over_move:
  assumes "settlement_move paid rows rows'" and "table_wf rows" and "find_settlement sid rows = Some r" and "over r"
  shows "find_settlement sid rows' = Some r"
  using assms(1)
proof cases
  case (create st)
  from create(2) show ?thesis
  proof (cases rule: postgres_save_cases)
    case insert
    with assms(3) show ?thesis by (simp add: find_settlement_append)
  qed (use create(1) in simp)
next
  case (move st st0)
  obtain r0 where r0: "r0 \<in> set rows" "r_settlement_id r0 = settlement_id st0" "canonical_status_of (r_status r0) = Some (status st0)"
    using move(1) by (rule postgres_get_row) blast
  have "sid \<noteq> settlement_id st"
  proof
    assume "sid = settlement_id st"
    with r0 assms(2,3) move(2) find_settlement_Some [OF assms(3)] have "r0 = r"
      using inj_onD [of r_settlement_id "set rows" r0 r] by (simp add: table_wf_def distinct_map)
    with over_status [OF assms(4), of "status st0" "status st"] r0(3) move(5,6) show False by simp
  qed
  from move(8) show ?thesis
  proof (cases rule: postgres_save_cases)
    case insert
    with assms(3) show ?thesis by (simp add: find_settlement_append)
  next
    case (update r1 es)
    with \<open>sid \<noteq> settlement_id st\<close> assms(3) show ?thesis by (simp add: find_settlement_replace)
  qed
qed

lemma over_moves:
  "(settlement_move paid)\<^sup>*\<^sup>* rows rows' \<Longrightarrow> table_wf rows \<Longrightarrow> find_settlement sid rows = Some r \<Longrightarrow> over r \<Longrightarrow>
     find_settlement sid rows' = Some r"
proof (induction rule: rtranclp_induct)
  case (step y z)
  from over_move [OF step.hyps(2) moves_wf [OF step.hyps(1) step.prems(1)]] step show ?case by blast
qed simp

text \<open>A payout of more than the tolerance is justified.\<close>

definition payout_ok :: "(string \<Rightarrow> bool) \<Rightarrow> string \<Rightarrow> rat option \<Rightarrow> bool" where
  "payout_ok paid tid amount \<longleftrightarrow> (\<forall>x. amount = Some x \<longrightarrow> x \<le> 1 / 10 ^ 6 \<or> paid tid)"

definition payouts_ok :: "(string \<Rightarrow> bool) \<Rightarrow> settlement_table \<Rightarrow> bool" where
  "payouts_ok paid rows \<longleftrightarrow> (\<forall>r \<in> set rows. payout_ok paid (r_task_id r) (r_released_amount r))"

lemma payouts_save:
  assumes "postgres_save st rows = Inr rows'" and "payouts_ok paid rows" and "payout_ok paid (task_id st) (released_amount st)"
  shows "payouts_ok paid rows'"
proof -
  have "set rows' \<subseteq> insert (to_row st) (set rows)"
    using assms(1) by (cases rule: postgres_save_cases) (auto simp: replace_row_def)
  moreover have "r_released_amount (to_row st) = released_amount st" by (simp add: to_row_def)
  ultimately show ?thesis using assms(2,3) unfolding payouts_ok_def by (metis insert_iff subsetD to_row_ids(2))
qed

lemma payouts_move:
  assumes "settlement_move paid rows rows'" and "payouts_ok paid rows"
  shows "payouts_ok paid rows'"
  using assms(1)
proof cases
  case (create st)
  have "payout_ok paid (task_id st) (released_amount st)" using create(4) by (simp add: payout_ok_def)
  from payouts_save [OF create(2) assms(2) this] show ?thesis .
next
  case (move st st0)
  obtain r0 where r0: "r0 \<in> set rows" "r_task_id r0 = task_id st" "r_released_amount r0 = released_amount st0"
    using move(1) by (rule postgres_get_row) blast
  with assms(2) have "payout_ok paid (task_id st) (released_amount st0)" by (auto simp: payouts_ok_def)
  with move(7) have "payout_ok paid (task_id st) (released_amount st)" by (auto simp: payout_ok_def)
  from payouts_save [OF move(8) assms(2) this] show ?thesis .
qed

lemma payouts_moves: "(settlement_move paid)\<^sup>*\<^sup>* rows rows' \<Longrightarrow> payouts_ok paid rows \<Longrightarrow> payouts_ok paid rows'"
  by (induction rule: rtranclp_induct) (blast intro: payouts_move)+

end
