(* ===== verification/Settlement_Properties.thy ===== *)
theory Settlement_Properties
  imports Settlement_System
begin

text \<open>
  The properties of the settlement routes, of single requests and of whole runs, with a small trade on
  which they are exercised: a buyer \<open>b\<close>, a worker \<open>w\<close>, a task \<open>t\<close> with a stored successful receipt.
\<close>

section \<open>A trade\<close>

definition demo_env :: "string \<Rightarrow> int \<Rightarrow> request_env" where
  "demo_env who t =
     \<lparr>now = t, caller = Some who, url_path = ''/v1'', party_binding = True, confirm_requires_buyer = True,
      lock_requires_pending = False, block_payment_cycles = True, payout_requires_receipt = True,
      progress_requires_signature = False, max_future_skew_seconds = 60, max_past_hours = 24,
      env_settlement_mode = ''offchain'', env_chain_id = None, env_contract = None, sha256 = (\<lambda>bs. bs),
      delivery_gate = (\<lambda>_ _ _. Inr ()), owner_gate = (\<lambda>_ _. Inr ()), auto_gate = (\<lambda>_. Inr ()),
      follow_up = (\<lambda>_ _. Inr ())\<rparr>"

definition demo_db :: route_db where
  "demo_db = \<lparr>settlements = [], transitions = [],
     capacities = [(''b'', (empty_capacity 0)\<lparr>total_locked_usdc := 100, total_bill_credits := 100, reserved_credits := 100\<rparr>)],
     vouchers = [(''v'', demo_voucher\<lparr>v_status := ''accepted'', buyer_identity_id := ''b'', bill_credit_amount := 100\<rparr>)],
     quotas = [], receipts = [(''t'', \<lparr>rr_id = ''r'', rr_step = 1, rr_status = ''success'', rr_dump = []\<rparr>)],
     evidence_bundles = [], progress_rows = [], contracts = [''t'']\<rparr>"

fun session_run :: "(request_env \<times> route_call) list \<Rightarrow> route_db \<times> route_proc \<Rightarrow> route_db \<times> route_proc" where
  "session_run [] s = s"
| "session_run ((env, call) # rest) s =
     session_run rest (case in_session (serve env call) (fst s) (snd s) of (d', p', _) \<Rightarrow> (d', p'))"

definition new_process :: route_proc where
  "new_process = (initial_safety_mode, [])"

definition demo_trade :: "(request_env \<times> route_call) list" where
  "demo_trade =
     [(demo_env ''b'' 1, Create ''s'' ''t'' ''b'' 100 ''USD'' (Some ''v'') None None), (demo_env ''b'' 2, Lock_Worker ''t'' ''w''),
      (demo_env ''w'' 3, Start ''t''), (demo_env ''w'' 4, Submit ''t''), (demo_env ''b'' 5, Buyer_Accept ''t'' None)]"

text \<open>What one looks at: status and release, the ledger rows, the statuses of the vouchers.\<close>

fun view :: "route_db \<times> route_proc \<Rightarrow>
    (string \<times> string \<times> rat option) list \<times> (rat \<times> rat \<times> rat) list \<times> string list" where
  "view (d, p) =
     (map (\<lambda>r. (r_task_id r, r_status r, r_released_amount r)) (settlements d),
      map (\<lambda>(k, c). (total_locked_usdc c, reserved_credits c, burned_credits c)) (capacities d),
      map (v_status \<circ> snd) (vouchers d))"

lemma session_run_steps:
  "list_all (\<lambda>(env, call). payout_requires_receipt env \<and> (\<forall>rows. fresh_call call rows)) cs \<Longrightarrow>
     (route_step True)\<^sup>*\<^sup>* s (session_run cs s)"
proof (induction cs arbitrary: s)
  case (Cons c cs)
  obtain env call d p where [simp]: "c = (env, call)" "s = (d, p)" by (cases c; cases s) auto
  obtain d' p' out where run: "in_session (serve env call) d p = (d', p', out)" by (metis surj_pair)
  have "route_step True (d, p) (d', p')" by (rule route_step.request [OF run]) (use Cons.prems in auto)
  with Cons.IH [of "(d', p')"] Cons.prems run show ?case
    by (auto intro: converse_rtranclp_into_rtranclp)
qed simp

lemma session_run_first:
  "fresh_call call (settlements d) \<Longrightarrow> payout_requires_receipt env \<Longrightarrow>
     list_all (\<lambda>(env, call). payout_requires_receipt env \<and> (\<forall>rows. fresh_call call rows)) cs \<Longrightarrow>
     (route_step True)\<^sup>*\<^sup>* (d, p) (session_run ((env, call) # cs) (d, p))"
proof -
  assume fresh: "fresh_call call (settlements d)" "payout_requires_receipt env"
    and cs: "list_all (\<lambda>(env, call). payout_requires_receipt env \<and> (\<forall>rows. fresh_call call rows)) cs"
  obtain d' p' out where run: "in_session (serve env call) d p = (d', p', out)" by (metis surj_pair)
  have "route_step True (d, p) (d', p')" by (rule route_step.request [OF run]) (use fresh in auto)
  with session_run_steps [OF cs, of "(d', p')"] run show ?thesis by (auto intro: converse_rtranclp_into_rtranclp)
qed

lemma demo_trade_run: "view (session_run demo_trade (demo_db, new_process)) = ([(''t'', ''settled'', Some 100)], [(0, 0, 100)], [''used''])"
  by code_simp

lemma demo_trade_steps: "(route_step True)\<^sup>*\<^sup>* (demo_db, new_process) (session_run demo_trade (demo_db, new_process))"
  unfolding demo_trade_def by (rule session_run_first) (auto simp: demo_db_def demo_env_def find_settlement_def)

lemma foldl_max_ge: "x \<le> foldl max x xs \<and> (\<forall>y \<in> set xs. y \<le> foldl max x (xs :: rat list))"
proof (induction xs arbitrary: x)
  case (Cons z zs)
  from Cons.IH [of "max x z"] show ?case by auto
qed simp

lemma confirmed_progress_ge:
  assumes "r \<in> set (progress_rows d)" and "pr_status r = ''confirmed''" and "pr_task_id r = tid"
  shows "pr_claimed r \<le> confirmed_progress_percent tid d"
proof -
  let ?L = "map pr_claimed (filter (\<lambda>r. pr_task_id r = tid \<and> pr_status r = ''confirmed'') (progress_rows d))"
  have "pr_claimed r \<in> set ?L" using assms by auto
  moreover have "y \<le> (case L of [] \<Rightarrow> 0 | x # xs \<Rightarrow> foldl max x xs)" if "y \<in> set L" for y and L :: "rat list"
    using that foldl_max_ge by (cases L) auto
  ultimately show ?thesis unfolding confirmed_progress_percent_def by blast
qed

section \<open>Runs\<close>

text \<open>
  C2. The routes refine the abstract machine: whatever requests are served, in sessions that roll back
  when one fails, the table of settlements only changes by moves of the machine, and stays well formed.
\<close>

theorem routes_refine_machine:
  assumes "(route_step strict)\<^sup>*\<^sup>* (d, p) (d', p')" and "table_wf (settlements d)"
  shows "(settlement_move (justified strict d'))\<^sup>*\<^sup>* (settlements d) (settlements d') \<and> table_wf (settlements d')"
  using run_moves [OF assms] moves_wf assms(2) by blast

theorem routes_refine_machine_witness:
  "(settlement_move (justified True (fst (session_run demo_trade (demo_db, new_process)))))\<^sup>*\<^sup>*
     [] (settlements (fst (session_run demo_trade (demo_db, new_process))))"
proof -
  obtain d' p' where r: "session_run demo_trade (demo_db, new_process) = (d', p')" by (metis surj_pair)
  have "table_wf (settlements demo_db)" by (simp add: demo_db_def table_wf_def)
  from routes_refine_machine [OF demo_trade_steps [unfolded r] this] r show ?thesis by (simp add: demo_db_def)
qed





section \<open>Requests\<close>

text \<open>
  The automatic confirmation never happens: the window it waits for has no column in the table, so every
  settlement is loaded without one and every request is refused, whatever the database and the caller.
\<close>

theorem auto_confirm_never_succeeds:
  "\<nexists>d' p' st. auto_confirm_settlement env tid d p = (d', p', Inr st)"
  using auto_confirm_refuses by blast

text \<open>
  A seller can confirm its own progress: the status of a submitted receipt is taken from the body, so
  after a submission that says it is confirmed, the confirmed percentage of the task is at least the
  claimed one, although the caller is the seller.
\<close>

theorem seller_confirms_own_progress:
  assumes "submit_progress_receipt env r d p = (d', p', Inr r')" and "pr_status r = ''confirmed''" and "party_binding env"
  shows "caller env = Some (pr_seller r) \<and> pr_claimed r \<le> confirmed_progress_percent (pr_task_id r) d'"
proof -
  have rows: "progress_rows d' = progress_rows d @ [r]" and actor: "require_actor_matches_identity env (pr_seller r) = Inr ()"
    using assms(1) by (auto simp: submit_progress_receipt_def returns)
  have "pr_claimed r \<le> confirmed_progress_percent (pr_task_id r) d'"
    by (rule confirmed_progress_ge) (simp_all add: rows assms(2))
  with actor assms(3) show ?thesis
    by (auto simp: require_actor_matches_identity_def require_actor_is_def require_actor_def split: option.splits if_splits)
qed

definition own_progress :: progress_row where
  "own_progress = \<lparr>pr_id = ''p'', pr_task_id = ''t1'', pr_seller = ''w'', pr_progress = 100, pr_claimed = 100,
     pr_evidence_hash = replicate 64 (CHR ''0''), pr_runtime_hash = replicate 64 (CHR ''0''), pr_timestamp = 4,
     pr_signature = [], pr_status = ''confirmed'', pr_confirmed_at = None\<rparr>"

definition work_db :: route_db where
  "work_db = demo_db\<lparr>settlements := [to_row (demo_state\<lparr>status := IN_PROGRESS\<rparr>)]\<rparr>"

theorem seller_confirms_own_progress_witness:
  "\<exists>d' p'. submit_progress_receipt (demo_env ''w'' 4) own_progress work_db new_process = (d', p', Inr own_progress) \<and>
           100 \<le> confirmed_progress_percent ''t1'' d'"
proof -
  have "snd (snd (submit_progress_receipt (demo_env ''w'' 4) own_progress work_db new_process)) = Inr own_progress"
    by code_simp
  then obtain d' p' where r: "submit_progress_receipt (demo_env ''w'' 4) own_progress work_db new_process = (d', p', Inr own_progress)"
    by (metis prod.collapse)
  from seller_confirms_own_progress [OF r] r show ?thesis by (simp add: own_progress_def demo_env_def)
qed

text \<open>
  A cancelled settlement keeps its escrow reserved: the cancellation touches neither ledger nor quotas nor
  vouchers, and since the outcome is final, no later request of any run resolves the escrow.
\<close>

theorem cancelled_escrow_stays_reserved:
  assumes "fail_settlement env tid d p = (d1, p1, Inr st)" and "table_wf (settlements d)"
    and "(route_step strict)\<^sup>*\<^sup>* (d1, p1) (d2, p2)"
  shows "capacities d1 = capacities d \<and> quotas d1 = quotas d \<and> vouchers d1 = vouchers d \<and>
         (\<exists>r. find_settlement (settlement_id st) (settlements d2) = Some r \<and> r_status r = ''cancelled'')"
proof -
  obtain table where save: "postgres_save st (settlements d) = Inr table" and st: "status st = CANCELLED"
    and d1: "settlements d1 = table" "capacities d1 = capacities d" "quotas d1 = quotas d" "vouchers d1 = vouchers d"
    using assms(1) by (auto simp: fail_settlement_def task_route_def returns)
  let ?r = "to_row st"
  note wf = postgres_save_wf [OF assms(2) save]
  have s: "r_status ?r = ''cancelled''" using st by (simp add: to_row_def canonical_task_status_def LEGACY_TO_CANONICAL_STATUS_def)
  have "find_settlement (settlement_id st) table = Some ?r"
    unfolding find_settlement_def by (rule find_unique) (use wf in \<open>simp_all add: table_wf_def\<close>)
  moreover have "over ?r" using s by (simp add: over_def)
  ultimately have "find_settlement (settlement_id st) (settlements d2) = Some ?r"
    using over_moves [OF conjunct1 [OF run_moves [OF assms(3)]]] wf d1(1) by simp
  with s d1 show ?thesis by simp
qed

theorem cancelled_escrow_stays_reserved_witness:
  "\<exists>d1 p1 st. fail_settlement (demo_env ''w'' 4) ''t1'' work_db new_process = (d1, p1, Inr st) \<and> capacities d1 = capacities work_db"
proof -
  have "case snd (snd (fail_settlement (demo_env ''w'' 4) ''t1'' work_db new_process)) of Inl _ \<Rightarrow> False | Inr _ \<Rightarrow> True"
    by code_simp
  then obtain d1 p1 st where r: "fail_settlement (demo_env ''w'' 4) ''t1'' work_db new_process = (d1, p1, Inr st)"
    by (cases "fail_settlement (demo_env ''w'' 4) ''t1'' work_db new_process") (auto split: sum.splits)
  have "table_wf (settlements work_db)" by (simp add: work_db_def table_wf_def)
  from cancelled_escrow_stays_reserved [OF r this rtranclp.rtrancl_refl] r show ?thesis by blast
qed

text \<open>
  A voucher backs as many settlements as one likes: a settlement created on a voucher leaves the vouchers as
  they were, so the voucher binds to the next one just as well; it is used up only when one of them is paid.
\<close>

theorem voucher_binds_again:
  assumes "create_settlement env sid tid client escrow cur (Some vid) deadline pid d p = (d', p', Inr st)" and "vid \<noteq> []"
  shows "\<exists>v. map_of (vouchers d') vid = Some v \<and> v_status v = ''accepted'' \<and>
             (\<exists>x. bind_voucher (Some vid) client escrow pid d' p' = (d', p', Inr x))"
proof -
  obtain x q where vs: "vouchers d' = vouchers d" and b: "Inr x = snd (snd (bind_voucher (Some vid) client escrow pid d q))"
    using assms(1) by (auto simp: create_settlement_def Let_def returns split: prod.splits sum.splits)
  with assms(2) show ?thesis
    by (auto simp: bind_voucher_def named_def split: option.splits if_splits)
qed

theorem voucher_binds_again_witness:
  "\<exists>d' p' st v. create_settlement (demo_env ''b'' 1) ''s'' ''t'' ''b'' 100 ''USD'' (Some ''v'') None None demo_db new_process = (d', p', Inr st) \<and>
     map_of (vouchers d') ''v'' = Some v \<and> v_status v = ''accepted''"
proof -
  let ?c = "create_settlement (demo_env ''b'' 1) ''s'' ''t'' ''b'' 100 ''USD'' (Some ''v'') None None demo_db new_process"
  have "case snd (snd ?c) of Inl _ \<Rightarrow> False | Inr _ \<Rightarrow> True" by code_simp
  then obtain d' p' st where r: "?c = (d', p', Inr st)" by (cases ?c) (auto split: sum.splits)
  from voucher_binds_again [OF r] r show ?thesis by blast
qed

text \<open>
  A negative escrow makes money. Nothing asks the escrow of a settlement without a voucher to be positive.
  A buyer whose ledger row is empty creates a settlement over \<open>- 100\<close>, locks a worker, disputes it
  and has it arbitrated; the refund of \<open>- 100\<close> then adds \<open>100\<close> to its locked and reserved credits.
\<close>

theorem negative_escrow_mints_credits:
  "view (session_run
      [(demo_env ''b'' 1, Create ''s'' ''t'' ''b'' (- 100) ''USD'' None None None), (demo_env ''b'' 2, Lock_Worker ''t'' ''w''),
       (demo_env ''b'' 3, Dispute ''t'' None None), (demo_env ''b'' 4, Auto_Arbitrate ''t'')]
      (demo_db\<lparr>capacities := [(''b'', empty_capacity 0)]\<rparr>, new_process)) =
   ([(''t'', ''refunded'', Some 0)], [(100, 100, 0)], [''accepted''])"
  by code_simp

end
