(* ===== verification/Arbitration_Pool.thy ===== *)
theory Arbitration_Pool
  imports Settlement_Routes
begin

text \<open>
  The arbitration pool (\<^verbatim>\<open>api/routes/arbitration.py\<close>): arbitrators join the pool, a disputed settlement becomes
  a case, arbitrators are assigned to it, the parties submit material, the arbitrators vote, and the decision
  is executed into the settlement. The database has the tables of the settlement routes (\<open>trade\<close>) and those of
  the pool. The bounds that the request models put on numbers are the first step of a handler; identifiers
  generated for new rows are arguments, \<open>uuid\<close> numbers those of one request. A case keeps its status and outcome as
  the strings of the table. The listings return rows in the order of the table they read.
\<close>

section \<open>Tables\<close>

record pool_member =
  pm_stake :: rat
  pm_status :: string
  pm_joined_at :: int
  pm_updated_at :: int

record arb_case =
  ac_task_id :: string
  ac_settlement_id :: string
  ac_opened_by :: string
  ac_reason :: "string option"
  ac_status :: string
  ac_required :: nat
  ac_outcome :: "string option"
  ac_percent :: "rat option"
  ac_created_at :: int
  ac_updated_at :: int
  ac_executed_at :: "int option"

record arb_assignment =
  as_id :: string
  as_case :: string
  as_arbitrator :: string
  as_at :: int
  as_status :: string

record arb_material =
  am_id :: string
  am_case :: string
  am_task :: string
  am_submitted_by :: string
  am_bundle :: "string option"
  am_progress :: "string list"
  am_hashes :: "string list"
  am_package_hash :: string
  am_storage :: "string option"
  am_format :: string
  am_at :: int

record arb_vote =
  vt_id :: string
  vt_case :: string
  vt_arbitrator :: string
  vt_decision :: string
  vt_percent :: "rat option"
  vt_rationale :: "string option"
  vt_at :: int

datatype case_event_type = Case_Created | Arbitrators_Assigned | Material_Submitted | Vote_Cast | Case_Decided | Case_Executed

datatype meta_value = Meta_None | Meta_Str string | Meta_Int int | Meta_Num rat | Meta_Strs "string list"

record case_event =
  ce_id :: string
  ce_case :: string
  ce_type :: case_event_type
  ce_detail :: string
  ce_metadata :: "(string \<times> meta_value) list"
  ce_at :: int

record pool_db =
  trade :: route_db
  members :: "(string \<times> pool_member) list"
  cases :: "(string \<times> arb_case) list"
  assignments :: "arb_assignment list"
  votes :: "arb_vote list"
  materials :: "arb_material list"
  case_events :: "case_event list"

type_synonym 'a pool_route = "(pool_db, route_proc, 'a) handler"

datatype vote_decision = Buyer_Wins | Seller_Wins | Partial_Split

primrec decision_value :: "vote_decision \<Rightarrow> string" where
  "decision_value Buyer_Wins = ''buyer_wins''"
| "decision_value Seller_Wins = ''seller_wins''"
| "decision_value Partial_Split = ''partial''"

definition meta_num :: "rat option \<Rightarrow> meta_value" where
  "meta_num x = (case x of None \<Rightarrow> Meta_None | Some r \<Rightarrow> Meta_Num r)"

section \<open>Steps\<close>

text \<open>A step of the settlement routes, on their part of the database.\<close>

definition on_trade :: "'a route \<Rightarrow> 'a pool_route" where
  "on_trade m d p = (case m (trade d) p of (t', p', out) \<Rightarrow> (d\<lparr>trade := t'\<rparr>, p', out))"

definition load_case :: "string \<Rightarrow> arb_case pool_route" where
  "load_case cid d p =
     (d, p, case map_of (cases d) cid of
              None \<Rightarrow> Inl (HTTPException 404 (''arbitration case '' @ cid @ '' not found''))
            | Some c \<Rightarrow> Inr c)"

definition load_settlement :: "string \<Rightarrow> settlement_state pool_route" where
  "load_settlement tid d p =
     (d, p, case postgres_get tid (settlements (trade d)) of
              Inl e \<Rightarrow> Inl (unhandled e)
            | Inr None \<Rightarrow> Inl (HTTPException 404 (''settlement '' @ tid @ '' not found''))
            | Inr (Some st) \<Rightarrow> Inr st)"

definition put_case :: "string \<Rightarrow> arb_case \<Rightarrow> unit pool_route" where
  "put_case cid c = write_db (\<lambda>d. d\<lparr>cases := put_row cid c (cases d)\<rparr>)"

definition append_case_event ::
    "request_env \<Rightarrow> string \<Rightarrow> string \<Rightarrow> case_event_type \<Rightarrow> string \<Rightarrow> (string \<times> meta_value) list \<Rightarrow> unit pool_route" where
  "append_case_event env eid cid typ detail metadata =
     write_db (\<lambda>d. d\<lparr>case_events := case_events d @
       [\<lparr>ce_id = eid, ce_case = cid, ce_type = typ, ce_detail = detail, ce_metadata = metadata, ce_at = now env\<rparr>]\<rparr>)"

definition not_finalized :: "arb_case \<Rightarrow> unit pool_route" where
  "not_finalized c = require (ac_status c \<notin> {''decided'', ''executed''}) 409 (''arbitration case already finalized: '' @ ac_status c)"

section \<open>Handlers\<close>

definition join_arbitration_pool :: "request_env \<Rightarrow> string \<Rightarrow> rat \<Rightarrow> pool_member pool_route" where
  "join_arbitration_pool env iden stake =
     and_then (require (0 \<le> stake) 422 ''stake_amount'') (\<lambda>_.
     and_then (read_db (\<lambda>d. case map_of (members d) iden of
                  None \<Rightarrow> \<lparr>pm_stake = stake, pm_status = ''active'', pm_joined_at = now env, pm_updated_at = now env\<rparr>
                | Some m \<Rightarrow> m\<lparr>pm_stake := stake, pm_status := ''active'', pm_updated_at := now env\<rparr>)) (\<lambda>m.
     and_then (write_db (\<lambda>d. d\<lparr>members := put_row iden m (members d)\<rparr>)) (\<lambda>_. give m)))"

definition new_case :: "request_env \<Rightarrow> settlement_state \<Rightarrow> string \<Rightarrow> string \<Rightarrow> string option \<Rightarrow> nat \<Rightarrow> arb_case" where
  "new_case env st tid opener why required =
     \<lparr>ac_task_id = tid, ac_settlement_id = settlement_id st, ac_opened_by = opener, ac_reason = why, ac_status = ''open'',
      ac_required = required, ac_outcome = None, ac_percent = None, ac_created_at = now env, ac_updated_at = now env,
      ac_executed_at = None\<rparr>"

definition create_arbitration_case ::
    "request_env \<Rightarrow> (nat \<Rightarrow> string) \<Rightarrow> string \<Rightarrow> string \<Rightarrow> string option \<Rightarrow> nat \<Rightarrow> arb_case pool_route" where
  "create_arbitration_case env uuid tid opener why required =
     and_then (require (1 \<le> required \<and> required \<le> 21) 422 ''required_arbitrators'') (\<lambda>_.
     and_then (read_db cases) (\<lambda>cs.
     and_then (require (\<not> list_ex (\<lambda>(k, c). ac_task_id c = tid) cs) 409 (''arbitration case already exists for task '' @ tid)) (\<lambda>_.
     and_then (load_settlement tid) (\<lambda>st.
     and_then (require (status st \<in> {DISPUTED, ARBITRATED}) 409 ''settlement must be disputed before arbitration case creation'') (\<lambda>_.
     and_then (if status st = DISPUTED
               then and_then (require (can_transition (status st) ARBITRATED) 409 ''invalid settlement transition to arbitration'')
                      (\<lambda>_. on_trade (save (st\<lparr>status := ARBITRATED, updated_at := now env\<rparr>)))
               else give ()) (\<lambda>_.
     and_then (check (if map_of cs (uuid 0) = None then Inr () else Inl UnhandledIntegrityError)) (\<lambda>_.
     let c = new_case env st tid opener why required in
     and_then (put_case (uuid 0) c) (\<lambda>_.
     and_then (append_case_event env (uuid 1) (uuid 0) Case_Created ''arbitration case created''
                 [(''task_id'', Meta_Str tid), (''opened_by'', Meta_Str opener), (''required_arbitrators'', Meta_Int (int required))])
     (\<lambda>_. give c)))))))))"

text \<open>The members that can be assigned, the longest in the pool first.\<close>

definition case_candidates :: "string \<Rightarrow> pool_db \<Rightarrow> string list" where
  "case_candidates cid d =
     (let existing = map as_arbitrator (filter (\<lambda>a. as_case a = cid) (assignments d))
      in filter (\<lambda>i. i \<notin> set existing)
           (map fst (sort_key (pm_joined_at \<circ> snd) (filter (\<lambda>(i, m). pm_status m = ''active'') (members d)))))"

fun number_from :: "nat \<Rightarrow> 'a list \<Rightarrow> (nat \<times> 'a) list" where
  "number_from n [] = []"
| "number_from n (x # xs) = (n, x) # number_from (Suc n) xs"

definition assign_arbitrators :: "request_env \<Rightarrow> (nat \<Rightarrow> string) \<Rightarrow> string \<Rightarrow> nat \<Rightarrow> arb_assignment list pool_route" where
  "assign_arbitrators env uuid cid n =
     and_then (require (1 \<le> n \<and> n \<le> 21) 422 ''count'') (\<lambda>_.
     and_then (load_case cid) (\<lambda>c.
     and_then (not_finalized c) (\<lambda>_.
     and_then (read_db (case_candidates cid)) (\<lambda>candidates.
     let selected = take n candidates;
         rows = map (\<lambda>(k, i). \<lparr>as_id = uuid k, as_case = cid, as_arbitrator = i, as_at = now env, as_status = ''assigned''\<rparr>)
                  (number_from 1 selected) in
     and_then (require (selected \<noteq> []) 409 ''no active arbitrators available for assignment'') (\<lambda>_.
     and_then (write_db (\<lambda>d. d\<lparr>assignments := assignments d @ rows\<rparr>)) (\<lambda>_.
     and_then (put_case cid (c\<lparr>ac_status := ''voting'', ac_updated_at := now env\<rparr>)) (\<lambda>_.
     and_then (append_case_event env (uuid 0) cid Arbitrators_Assigned ''arbitrators auto-assigned to case''
                 [(''assigned_count'', Meta_Int (int (length rows))), (''arbitrator_identity_ids'', Meta_Strs selected)])
     (\<lambda>_. give rows))))))))"

definition clean_strings :: "(string \<Rightarrow> string) \<Rightarrow> string list \<Rightarrow> string list" where
  "clean_strings f xs = sort (remdups (map f (filter (\<lambda>x. x \<noteq> [] \<and> strip x \<noteq> []) xs)))"

definition package_hash_of ::
    "(bytes \<Rightarrow> bytes) \<Rightarrow> string \<Rightarrow> string \<Rightarrow> string option \<Rightarrow> string list \<Rightarrow> string list \<Rightarrow> string \<Rightarrow> string" where
  "package_hash_of sha cid tid bid progress hashes fmt =
     sha256_hex sha (canonical_json_bytes
       [(''case_id'', JStr cid), (''task_id'', JStr tid), (''bundle_id'', case bid of None \<Rightarrow> JNull | Some b \<Rightarrow> JStr b),
        (''progress_receipt_ids'', JList (map JStr progress)), (''evidence_hashes'', JList (map JStr hashes)),
        (''format_version'', JStr fmt)])"

definition submit_material ::
    "request_env \<Rightarrow> (nat \<Rightarrow> string) \<Rightarrow> string \<Rightarrow> string \<Rightarrow> string option \<Rightarrow> string list \<Rightarrow> string list \<Rightarrow> string option \<Rightarrow> string \<Rightarrow>
     arb_material pool_route" where
  "submit_material env uuid cid who bid progress hashes storage fmt =
     and_then (load_case cid) (\<lambda>c.
     and_then (require (ac_status c \<notin> {''executed'', ''cancelled''}) 409 (''cannot submit material for case status '' @ ac_status c)) (\<lambda>_.
     let normalized = clean_strings (lower \<circ> strip) hashes; progress_ids = clean_strings strip progress in
     and_then (require (named bid \<noteq> None \<or> normalized \<noteq> [] \<or> progress_ids \<noteq> []) 400
                 ''at least one of bundle_id, progress_receipt_ids, evidence_hashes must be provided'') (\<lambda>_.
     let h = package_hash_of (sha256 env) cid (ac_task_id c) bid progress_ids normalized fmt;
         row = \<lparr>am_id = uuid 0, am_case = cid, am_task = ac_task_id c, am_submitted_by = who, am_bundle = bid,
                am_progress = progress_ids, am_hashes = normalized, am_package_hash = h, am_storage = storage,
                am_format = fmt, am_at = now env\<rparr> in
     and_then (read_db materials) (\<lambda>ms.
     and_then (require (\<not> list_ex (\<lambda>m. am_case m = cid \<and> am_package_hash m = h) ms) 409 ''duplicate arbitration material package hash'') (\<lambda>_.
     and_then (write_db (\<lambda>d. d\<lparr>materials := materials d @ [row]\<rparr>)) (\<lambda>_.
     and_then (append_case_event env (uuid 1) cid Material_Submitted ''arbitration material submitted''
                 [(''material_id'', Meta_Str (uuid 0)), (''submitted_by'', Meta_Str who), (''package_hash'', Meta_Str h)])
     (\<lambda>_. give row)))))))"

text \<open>The outcome of the votes of a case and the percentage it settles.\<close>

definition decide_votes :: "arb_vote list \<Rightarrow> vote_decision \<times> rat option" where
  "decide_votes vs =
     (let voted = (\<lambda>x. filter (\<lambda>v. vt_decision v = decision_value x) vs);
          buyer_votes = length (voted Buyer_Wins); seller_votes = length (voted Seller_Wins)
      in if seller_votes < buyer_votes then (Buyer_Wins, None)
         else if buyer_votes < seller_votes then (Seller_Wins, None)
         else let partial_values = List.map_filter vt_percent (voted Partial_Split)
              in (Partial_Split, Some (if partial_values = [] then 50
                                       else py_round (sum_list partial_values / of_nat (length partial_values)) 2)))"

definition votes_of :: "string \<Rightarrow> pool_db \<Rightarrow> arb_vote list" where
  "votes_of cid d = filter (\<lambda>v. vt_case v = cid) (votes d)"

definition new_vote :: "request_env \<Rightarrow> string \<Rightarrow> string \<Rightarrow> string \<Rightarrow> vote_decision \<Rightarrow> rat option \<Rightarrow> string option \<Rightarrow> arb_vote" where
  "new_vote env vid cid who x pct why =
     \<lparr>vt_id = vid, vt_case = cid, vt_arbitrator = who, vt_decision = decision_value x, vt_percent = pct, vt_rationale = why,
      vt_at = now env\<rparr>"

definition insert_vote :: "arb_vote \<Rightarrow> unit pool_route" where
  "insert_vote v d p =
     (if list_ex (\<lambda>w. vt_case w = vt_case v \<and> vt_arbitrator w = vt_arbitrator v) (votes d)
      then (d, p, Inl (HTTPException 409 ''duplicate vote for arbitrator in this case''))
      else (d\<lparr>votes := votes d @ [v]\<rparr>, p, Inr ()))"

text \<open>The end of a vote: with the votes of the case the case may be decided.\<close>

definition count_votes :: "request_env \<Rightarrow> (nat \<Rightarrow> string) \<Rightarrow> string \<Rightarrow> arb_case \<Rightarrow> arb_case pool_route" where
  "count_votes env uuid cid c =
     and_then (read_db (votes_of cid)) (\<lambda>vs.
     if ac_required c \<le> length vs
     then let (outcome, percent) = decide_votes vs;
              c' = c\<lparr>ac_status := ''decided'', ac_outcome := Some (decision_value outcome), ac_percent := percent,
                     ac_updated_at := now env\<rparr> in
          and_then (put_case cid c') (\<lambda>_.
          and_then (append_case_event env (uuid 2) cid Case_Decided ''arbitration case reached decision''
                      [(''decided_outcome'', Meta_Str (decision_value outcome)), (''final_partial_percent'', meta_num percent),
                       (''vote_count'', Meta_Int (int (length vs))), (''required_arbitrators'', Meta_Int (int (ac_required c)))])
          (\<lambda>_. give c'))
     else if ac_status c = ''open''
     then let c' = c\<lparr>ac_status := ''voting'', ac_updated_at := now env\<rparr> in and_then (put_case cid c') (\<lambda>_. give c')
     else give c)"

definition cast_vote ::
    "request_env \<Rightarrow> (nat \<Rightarrow> string) \<Rightarrow> string \<Rightarrow> string \<Rightarrow> vote_decision \<Rightarrow> rat option \<Rightarrow> string option \<Rightarrow> arb_case pool_route" where
  "cast_vote env uuid cid who x pct why =
     and_then (require (case pct of None \<Rightarrow> True | Some y \<Rightarrow> 0 \<le> y \<and> y \<le> 100) 422 ''partial_percent'') (\<lambda>_.
     and_then (load_case cid) (\<lambda>c.
     and_then (not_finalized c) (\<lambda>_.
     and_then (read_db assignments) (\<lambda>as.
     and_then (require (list_ex (\<lambda>a. as_case a = cid \<and> as_arbitrator a = who) as) 403 ''arbitrator is not assigned to this case'') (\<lambda>_.
     and_then (require (x = Partial_Split \<longrightarrow> pct \<noteq> None) 400 ''partial_percent is required when decision is partial'') (\<lambda>_.
     and_then (require (x \<noteq> Partial_Split \<longrightarrow> pct = None) 400 ''partial_percent is only allowed for partial decision'') (\<lambda>_.
     and_then (insert_vote (new_vote env (uuid 0) cid who x pct why)) (\<lambda>_.
     and_then (append_case_event env (uuid 1) cid Vote_Cast ''arbitration vote cast''
                 [(''vote_id'', Meta_Str (uuid 0)), (''arbitrator_identity_id'', Meta_Str who),
                  (''decision'', Meta_Str (decision_value x)), (''partial_percent'', meta_num pct)]) (\<lambda>_.
     count_votes env uuid cid c)))))))))"

text \<open>What a decision makes of the escrow: the status, the settled and the refunded amount, the notes.\<close>

definition pool_award :: "arb_case \<Rightarrow> rat \<Rightarrow> task_status \<times> rat \<times> rat \<times> string" where
  "pool_award c escrow =
     (if ac_outcome c = Some (decision_value Buyer_Wins)
      then (REFUNDED, 0, py_round escrow 2, ''decentralized pool decision: buyer_wins'')
      else if ac_outcome c = Some (decision_value Seller_Wins)
      then (SETTLED, py_round escrow 2, 0, ''decentralized pool decision: seller_wins'')
      else let percent = (case ac_percent c of None \<Rightarrow> 50 | Some x \<Rightarrow> x); settled = py_round (escrow * percent / 100) 2
           in (SETTLED, settled, py_round (escrow - settled) 2, ''decentralized pool decision: partial '' @ show_2f percent @ ''%''))"

definition awarded :: "request_env \<Rightarrow> arb_case \<Rightarrow> settlement_state \<Rightarrow> settlement_state" where
  "awarded env c st =
     (case pool_award c (escrow_amount st) of
        (target, settled, refunded, notes) \<Rightarrow>
          st\<lparr>status := target, released_amount := Some settled, refunded_amount := Some refunded,
             arbitration_notes := Some notes, updated_at := now env,
             released_at := (if 0 < settled then Some (now env) else None)\<rparr>)"

definition execute_arbitration_case :: "request_env \<Rightarrow> (nat \<Rightarrow> string) \<Rightarrow> string \<Rightarrow> settlement_state pool_route" where
  "execute_arbitration_case env uuid cid =
     and_then (load_case cid) (\<lambda>c.
     and_then (require (ac_status c = ''decided'') 409 (''arbitration case status must be decided, got '' @ ac_status c)) (\<lambda>_.
     and_then (require (named (ac_outcome c) \<noteq> None) 409 ''arbitration decision is missing'') (\<lambda>_.
     and_then (load_settlement (ac_task_id c)) (\<lambda>st.
     and_then (require (status st \<noteq> DISPUTED \<or> can_transition (status st) ARBITRATED) 409 ''cannot transition settlement to arbitration'') (\<lambda>_.
     let st0 = (if status st = DISPUTED then st\<lparr>status := ARBITRATED\<rparr> else st); st' = awarded env c st0 in
     and_then (require (can_transition (status st0) (status st')) 409
                 (''invalid settlement transition: '' @ task_status_value (status st0) @ '' -> '' @ task_status_value (status st'))) (\<lambda>_.
     and_then (on_trade (save st')) (\<lambda>_.
     and_then (on_trade (resolve env (client_agent_id st') (escrow_amount st') (the (released_amount st')) (the (refunded_amount st')))) (\<lambda>_.
     and_then (on_trade (mark_voucher_used_if_linked (ac_task_id c))) (\<lambda>_.
     and_then (put_case cid (c\<lparr>ac_status := ''executed'', ac_executed_at := Some (now env), ac_updated_at := now env\<rparr>)) (\<lambda>_.
     and_then (append_case_event env (uuid 0) cid Case_Executed ''arbitration decision executed into settlement''
                 [(''settlement_status'', Meta_Str (task_status_value (status st'))), (''released_amount'', meta_num (released_amount st')),
                  (''refunded_amount'', meta_num (refunded_amount st')),
                  (''arbitration_notes'', case arbitration_notes st' of None \<Rightarrow> Meta_None | Some n \<Rightarrow> Meta_Str n)])
     (\<lambda>_. give st')))))))))))"

section \<open>Listings\<close>

definition list_arbitration_pool :: "(string \<times> pool_member) list pool_route" where
  "list_arbitration_pool =
     read_db (\<lambda>d. sort_key (pm_status \<circ> snd) (sort_key (pm_joined_at \<circ> snd) (members d)))"

definition get_arbitration_case :: "string \<Rightarrow> arb_case pool_route" where
  "get_arbitration_case cid = load_case cid"

definition list_case_assignments :: "string \<Rightarrow> arb_assignment list pool_route" where
  "list_case_assignments cid = read_db (\<lambda>d. sort_key as_at (filter (\<lambda>a. as_case a = cid) (assignments d)))"

definition list_case_events :: "string \<Rightarrow> nat \<Rightarrow> case_event list pool_route" where
  "list_case_events cid limit =
     and_then (require (1 \<le> limit \<and> limit \<le> 1000) 422 ''limit'') (\<lambda>_.
     and_then (load_case cid) (\<lambda>_.
     read_db (\<lambda>d. take limit (sort_key ce_at (filter (\<lambda>e. ce_case e = cid) (case_events d))))))"

definition list_materials :: "string \<Rightarrow> arb_material list pool_route" where
  "list_materials cid = read_db (\<lambda>d. sort_key am_at (filter (\<lambda>m. am_case m = cid) (materials d)))"

end
