(* ===== verification/Arbitration_System.thy ===== *)
theory Arbitration_System
  imports Arbitration_Pool Settlement_System
begin

text \<open>
  The arbitration pool together with the settlement routes: the requests of both, what each does to the tables
  of the pool and to the settlements, the refinement of the abstract settlement machine, and the invariants
  of the tables of the pool. The pool does not ask for a receipt before it pays, so it refines the machine whose
  payouts need no justification.
\<close>

section \<open>Requests\<close>

datatype pool_call =
    Join string rat
  | Open_Case string string "string option" nat
  | Assign string nat
  | Material string string "string option" "string list" "string list" "string option" string
  | Vote string string vote_decision "rat option" "string option"
  | Execute string
  | Trade route_call

definition quiet :: "'a pool_route \<Rightarrow> unit pool_route" where
  "quiet m = and_then m (\<lambda>_. give ())"

fun serve_pool :: "request_env \<Rightarrow> (nat \<Rightarrow> string) \<Rightarrow> pool_call \<Rightarrow> unit pool_route" where
  "serve_pool env uuid (Join iden stake) = quiet (join_arbitration_pool env iden stake)"
| "serve_pool env uuid (Open_Case tid opener why n) = quiet (create_arbitration_case env uuid tid opener why n)"
| "serve_pool env uuid (Assign cid n) = quiet (assign_arbitrators env uuid cid n)"
| "serve_pool env uuid (Material cid who bid progress hashes storage fmt) =
     quiet (submit_material env uuid cid who bid progress hashes storage fmt)"
| "serve_pool env uuid (Vote cid who x pct why) = quiet (cast_vote env uuid cid who x pct why)"
| "serve_pool env uuid (Execute cid) = quiet (execute_arbitration_case env uuid cid)"
| "serve_pool env uuid (Trade call) = on_trade (serve env call)"

fun fresh_pool_call :: "pool_call \<Rightarrow> pool_db \<Rightarrow> bool" where
  "fresh_pool_call (Trade call) d \<longleftrightarrow> fresh_call call (settlements (trade d))"
| "fresh_pool_call _ d \<longleftrightarrow> True"

text \<open>A step: a request in its session, or another part of the program that leaves settlements and pool alone.\<close>

inductive pool_step :: "pool_db \<times> route_proc \<Rightarrow> pool_db \<times> route_proc \<Rightarrow> bool" where
  request: "in_session (serve_pool env uuid call) d p = (d', p', out) \<Longrightarrow> fresh_pool_call call d \<Longrightarrow> pool_step (d, p) (d', p')"
| elsewhere: "settlements t = settlements (trade d) \<Longrightarrow> pool_step (d, p) (d\<lparr>trade := t\<rparr>, p')"

section \<open>What the handlers do\<close>

lemma pool_steps_Inr [returns]:
  "on_trade m d p = (d', p', Inr a) \<longleftrightarrow> (\<exists>t'. m (trade d) p = (t', p', Inr a) \<and> d' = d\<lparr>trade := t'\<rparr>)"
  "load_case cid d p = (d', p', Inr c) \<longleftrightarrow> d' = d \<and> p' = p \<and> map_of (cases d) cid = Some c"
  "load_settlement tid d p = (d', p', Inr st) \<longleftrightarrow> d' = d \<and> p' = p \<and> postgres_get tid (settlements (trade d)) = Inr (Some st)"
  "put_case cid c d p = (d', p', Inr u) \<longleftrightarrow> d' = d\<lparr>cases := put_row cid c (cases d)\<rparr> \<and> p' = p"
  "append_case_event env eid cid typ detail metadata d p = (d', p', Inr u) \<longleftrightarrow>
     d' = d\<lparr>case_events := case_events d @
       [\<lparr>ce_id = eid, ce_case = cid, ce_type = typ, ce_detail = detail, ce_metadata = metadata, ce_at = now env\<rparr>]\<rparr> \<and> p' = p"
  "not_finalized c d p = (d', p', Inr u) \<longleftrightarrow> d' = d \<and> p' = p \<and> ac_status c \<noteq> ''decided'' \<and> ac_status c \<noteq> ''executed''"
  "insert_vote v d p = (d', p', Inr u) \<longleftrightarrow>
     (\<forall>w \<in> set (votes d). vt_case w = vt_case v \<longrightarrow> vt_arbitrator w \<noteq> vt_arbitrator v) \<and> d' = d\<lparr>votes := votes d @ [v]\<rparr> \<and> p' = p"
  by (auto simp: on_trade_def load_case_def load_settlement_def put_case_def append_case_event_def not_finalized_def
      insert_vote_def list_ex_iff write_db_def require_def split: prod.splits sum.splits option.splits)

text \<open>The part of the database the invariants speak of.\<close>

definition pool_part :: "pool_db \<Rightarrow> settlement_table \<times> (string \<times> arb_case) list \<times> arb_assignment list \<times> arb_vote list" where
  "pool_part d = (settlements (trade d), cases d, assignments d, votes d)"

lemma join_effect:
  "join_arbitration_pool env iden stake d p = (d', p', Inr m) \<Longrightarrow> pool_part d' = pool_part d \<and> (\<exists>m. members d' = put_row iden m (members d))"
  by (auto simp: join_arbitration_pool_def returns pool_part_def)

lemma create_case_effect:
  assumes "create_arbitration_case env uuid tid opener why n d p = (d', p', Inr c)"
  shows "\<exists>st. 1 \<le> n \<and> postgres_get tid (settlements (trade d)) = Inr (Some st) \<and> map_of (cases d) (uuid 0) = None \<and>
    \<not> list_ex (\<lambda>(k, c). ac_task_id c = tid) (cases d) \<and>
    (status st = DISPUTED \<and>
       postgres_save (st\<lparr>status := ARBITRATED, updated_at := now env\<rparr>) (settlements (trade d)) = Inr (settlements (trade d')) \<or>
     status st = ARBITRATED \<and> settlements (trade d') = settlements (trade d)) \<and>
    pool_part d' = (settlements (trade d'), put_row (uuid 0) (new_case env st tid opener why n) (cases d), assignments d, votes d) \<and>
    members d' = members d"
  using assms unfolding create_arbitration_case_def Let_def and_then_Inr
  by (elim exE conjE) (auto simp: returns pool_part_def split: if_splits)

lemma number_from_snd: "map snd (number_from k xs) = xs"
  by (induction xs arbitrary: k) auto

lemma assign_effect:
  assumes "assign_arbitrators env uuid cid n d p = (d', p', Inr rows)"
  shows "\<exists>c. map_of (cases d) cid = Some c \<and> ac_status c \<notin> {''decided'', ''executed''} \<and>
    map (\<lambda>a. (as_case a, as_arbitrator a)) rows = map (Pair cid) (take n (case_candidates cid d)) \<and>
    pool_part d' = (settlements (trade d), put_row cid (c\<lparr>ac_status := ''voting'', ac_updated_at := now env\<rparr>) (cases d),
       assignments d @ rows, votes d) \<and> members d' = members d"
proof -
  have "map (\<lambda>x. (cid, snd x)) (number_from k xs) = map (Pair cid) xs" for k and xs :: "string list"
    using arg_cong [OF number_from_snd, of "map (Pair cid)" k xs] by (simp add: o_def)
  with assms show ?thesis
    unfolding assign_arbitrators_def Let_def and_then_Inr
    by (elim exE conjE) (auto simp: returns pool_part_def case_prod_unfold o_def)
qed

lemma material_effect:
  "submit_material env uuid cid who bid progress hashes storage fmt d p = (d', p', Inr m) \<Longrightarrow>
     pool_part d' = pool_part d \<and> members d' = members d"
  unfolding submit_material_def Let_def and_then_Inr by (elim exE conjE) (auto simp: returns pool_part_def)

text \<open>A case after a vote.\<close>

definition voted_case :: "request_env \<Rightarrow> arb_vote list \<Rightarrow> arb_case \<Rightarrow> arb_case" where
  "voted_case env vs c =
     (if ac_required c \<le> length vs
      then case decide_votes vs of (x, pct) \<Rightarrow>
             c\<lparr>ac_status := ''decided'', ac_outcome := Some (decision_value x), ac_percent := pct, ac_updated_at := now env\<rparr>
      else if ac_status c = ''open'' then c\<lparr>ac_status := ''voting'', ac_updated_at := now env\<rparr> else c)"

lemma count_votes_Inr:
  assumes "count_votes env uuid cid c d p = (d', p', Inr c')" and "map_of (cases d) cid = Some c"
  shows "c' = voted_case env (votes_of cid d) c \<and> map_of (cases d') = (map_of (cases d))(cid \<mapsto> c') \<and>
    map fst (cases d') = map fst (cases d) \<and> votes d' = votes d \<and> assignments d' = assignments d \<and>
    trade d' = trade d \<and> members d' = members d"
proof -
  have keys: "map fst (put_row cid y (cases d)) = map fst (cases d)" for y
    using assms(2) by (auto simp: put_row_def intro!: map_cong)
  from assms show ?thesis
    unfolding count_votes_def
    by (auto simp: returns Let_def voted_case_def map_of_put_row keys fun_upd_idem split: if_splits prod.splits)
qed

lemma vote_effect:
  assumes "cast_vote env uuid cid who x pct why d p = (d', p', Inr c')" and "v = new_vote env (uuid 0) cid who x pct why"
  shows "\<exists>c. map_of (cases d) cid = Some c \<and> ac_status c \<notin> {''decided'', ''executed''} \<and>
    list_ex (\<lambda>a. as_case a = cid \<and> as_arbitrator a = who) (assignments d) \<and>
    (\<forall>w \<in> set (votes d). vt_case w = cid \<longrightarrow> vt_arbitrator w \<noteq> who) \<and>
    c' = voted_case env (votes_of cid d @ [v]) c \<and> votes d' = votes d @ [v] \<and> assignments d' = assignments d \<and>
    trade d' = trade d \<and> members d' = members d \<and>
    map_of (cases d') = (map_of (cases d))(cid \<mapsto> c') \<and> map fst (cases d') = map fst (cases d)"
proof -
  have v: "vt_case v = cid" "vt_arbitrator v = who" by (simp_all add: assms(2) new_vote_def)
  from assms(1) obtain c es where c: "map_of (cases d) cid = Some c" "ac_status c \<notin> {''decided'', ''executed''}"
      "list_ex (\<lambda>a. as_case a = cid \<and> as_arbitrator a = who) (assignments d)"
      "\<forall>w \<in> set (votes d). vt_case w = cid \<longrightarrow> vt_arbitrator w \<noteq> who"
    and tail: "count_votes env uuid cid c (d\<lparr>votes := votes d @ [v], case_events := es\<rparr>) p = (d', p', Inr c')"
    unfolding cast_vote_def and_then_Inr by (elim exE conjE) (simp add: returns v assms(2) [symmetric])
  from count_votes_Inr [OF tail] c v show ?thesis by (simp add: votes_of_def)
qed

lemma execute_effect:
  assumes "execute_arbitration_case env uuid cid d p = (d', p', Inr st')"
  shows "\<exists>c st. map_of (cases d) cid = Some c \<and> ac_status c = ''decided'' \<and> ac_outcome c \<noteq> None \<and>
    postgres_get (ac_task_id c) (settlements (trade d)) = Inr (Some st) \<and>
    st' = awarded env c (if status st = DISPUTED then st\<lparr>status := ARBITRATED\<rparr> else st) \<and>
    can_transition (if status st = DISPUTED then ARBITRATED else status st) (status st') \<and>
    postgres_save st' (settlements (trade d)) = Inr (settlements (trade d')) \<and>
    cases d' = put_row cid (c\<lparr>ac_status := ''executed'', ac_executed_at := Some (now env), ac_updated_at := now env\<rparr>) (cases d) \<and>
    assignments d' = assignments d \<and> votes d' = votes d \<and> members d' = members d"
  using assms unfolding execute_arbitration_case_def Let_def and_then_Inr
  apply (elim exE conjE)
  apply (auto simp: returns resolve_def named_def dest!: mark_voucher_Inr split: if_splits option.splits)
  done

section \<open>The pool refines the machine\<close>

lemma saved_status:
  assumes "table_wf rows" and "postgres_get tid rows = Inr (Some st0)" and "postgres_save st rows = Inr rows'"
    and "settlement_id st = settlement_id st0"
  shows "status st0 = canonical_task_status (status st) \<or> can_transition (status st0) (canonical_task_status (status st))"
proof -
  obtain r0 where r0: "r0 \<in> set rows" "r_settlement_id r0 = settlement_id st0" "canonical_status_of (r_status r0) = Some (status st0)"
    using assms(2) by (rule postgres_get_row) blast
  then have found: "find_settlement (settlement_id st) rows = Some r0"
    unfolding find_settlement_def by (intro find_unique) (use assms(1,4) in \<open>simp_all add: table_wf_def\<close>)
  from assms(3) show ?thesis by (cases rule: postgres_save_cases) (use found r0(3) in simp_all)
qed

lemma award_target: "fst (pool_award c escrow) \<in> {SETTLED, REFUNDED}"
  by (simp add: pool_award_def Let_def)

lemma awarded_simps [simp]:
  "settlement_id (awarded env c st) = settlement_id st" "task_id (awarded env c st) = task_id st"
  "escrow_amount (awarded env c st) = escrow_amount st" "client_agent_id (awarded env c st) = client_agent_id st"
  "status (awarded env c st) = fst (pool_award c (escrow_amount st))"
  "released_amount (awarded env c st) = Some (fst (snd (pool_award c (escrow_amount st))))"
  "refunded_amount (awarded env c st) = Some (fst (snd (snd (pool_award c (escrow_amount st)))))"
  by (simp_all add: awarded_def split: prod.splits)

text \<open>An execution returns only from a settlement that the table has as arbitrated or later.\<close>

lemma execute_move:
  assumes "execute_arbitration_case env uuid cid d p = (d', p', Inr st')" and "table_wf (settlements (trade d))"
    and c: "map_of (cases d) cid = Some c"
  obtains st where "postgres_get (ac_task_id c) (settlements (trade d)) = Inr (Some st)" "st' = awarded env c st"
    "can_transition (status st) (status st')" "postgres_save st' (settlements (trade d)) = Inr (settlements (trade d'))"
    "settlement_move (\<lambda>_. True) (settlements (trade d)) (settlements (trade d'))"
proof -
  from execute_effect [OF assms(1)] c obtain st where
    st: "postgres_get (ac_task_id c) (settlements (trade d)) = Inr (Some st)"
      "st' = awarded env c (if status st = DISPUTED then st\<lparr>status := ARBITRATED\<rparr> else st)"
      "can_transition (if status st = DISPUTED then ARBITRATED else status st) (status st')"
      "postgres_save st' (settlements (trade d)) = Inr (settlements (trade d'))" by auto
  have target: "status st' \<in> {SETTLED, REFUNDED}" using st(2) award_target by simp
  have no: "\<not> can_transition DISPUTED SETTLED" "\<not> can_transition DISPUTED REFUNDED" by code_simp+
  have "status st \<noteq> DISPUTED"
  proof
    assume dis: "status st = DISPUTED"
    with saved_status [OF assms(2) st(1,4)] st(2) target no route_targets show False by auto
  qed
  with st have moved: "st' = awarded env c st" "can_transition (status st) (status st')" by simp_all
  have "settlement_move (\<lambda>_. True) (settlements (trade d)) (settlements (trade d'))"
    using st(1,4) moved target
    by (intro route_move [where target = "status st'", OF st(4,1)]) (auto simp: route_targets)
  with st moved show thesis by (intro that) auto
qed

lemma create_case_move:
  assumes "create_arbitration_case env uuid tid opener why n d p = (d', p', Inr c)"
  shows "(settlement_move (\<lambda>_. True))\<^sup>*\<^sup>* (settlements (trade d)) (settlements (trade d'))"
proof -
  from create_case_effect [OF assms] obtain st where st: "postgres_get tid (settlements (trade d)) = Inr (Some st)"
    and cases: "status st = DISPUTED \<and>
         postgres_save (st\<lparr>status := ARBITRATED, updated_at := now env\<rparr>) (settlements (trade d)) = Inr (settlements (trade d')) \<or>
       settlements (trade d') = settlements (trade d)" by blast
  have yes: "can_transition DISPUTED ARBITRATED" by code_simp
  show ?thesis
  proof (cases "settlements (trade d') = settlements (trade d)")
    case False
    with cases have dis: "status st = DISPUTED"
      and save: "postgres_save (st\<lparr>status := ARBITRATED, updated_at := now env\<rparr>) (settlements (trade d)) = Inr (settlements (trade d'))" by auto
    have "settlement_move (\<lambda>_. True) (settlements (trade d)) (settlements (trade d'))"
      by (rule route_move [where target = ARBITRATED, OF save st]) (simp_all add: dis yes route_targets)
    then show ?thesis by blast
  qed simp
qed

lemma quiet_Inr [returns]: "quiet m d p = (d', p', Inr u) \<longleftrightarrow> (\<exists>a. m d p = (d', p', Inr a))"
  by (auto simp: quiet_def returns)

lemma serve_pool_moves:
  assumes "serve_pool env uuid call d p = (d', p', Inr u)" and "fresh_pool_call call d" and "table_wf (settlements (trade d))"
  shows "(settlement_move (\<lambda>_. True))\<^sup>*\<^sup>* (settlements (trade d)) (settlements (trade d'))"
proof (cases call)
  case (Trade c)
  with assms(1) obtain t' where run: "serve env c (trade d) p = (t', p', Inr u)" and d': "d' = d\<lparr>trade := t'\<rparr>" by (auto simp: returns)
  have "fresh_call c (settlements (trade d))" using assms(2) Trade by simp
  note refined = serve_refines [OF this assms(3), of "receipts (trade d)" env, unfolded yields_def, rule_format, OF conjI [OF refl refl] run]
  from moves_mono [OF conjunct1 [OF refined], of "\<lambda>_. True"] d' show ?thesis by simp
next
  case (Execute cid)
  with assms(1) obtain st' where run: "execute_arbitration_case env uuid cid d p = (d', p', Inr st')" by (auto simp: returns)
  from execute_effect [OF run] obtain c where "map_of (cases d) cid = Some c" by blast
  from execute_move [OF run assms(3) this] show ?thesis by blast
next
  case (Open_Case tid opener why n)
  with assms(1) show ?thesis by (auto simp: returns intro: create_case_move)
qed (use assms(1) in \<open>auto simp: returns pool_part_def dest!: join_effect assign_effect material_effect vote_effect [OF _ refl]\<close>)

lemma pool_step_moves:
  assumes "pool_step (d, p) (d', p')" and "table_wf (settlements (trade d))"
  shows "(settlement_move (\<lambda>_. True))\<^sup>*\<^sup>* (settlements (trade d)) (settlements (trade d'))"
  using assms(1)
proof cases
  case (request env uuid call out)
  show ?thesis
  proof (cases out)
    case (Inl e)
    with request(1) have "d' = d" by (simp add: in_session_Inl)
    then show ?thesis by simp
  next
    case (Inr u)
    with request assms(2) show ?thesis
      by (intro serve_pool_moves [of env uuid call d p d' p' u]) (simp_all add: in_session_Inr)
  qed
qed simp

lemma pool_run_moves:
  assumes "pool_step\<^sup>*\<^sup>* (d, p) (d', p')" and "table_wf (settlements (trade d))"
  shows "(settlement_move (\<lambda>_. True))\<^sup>*\<^sup>* (settlements (trade d)) (settlements (trade d'))"
  using assms(1)
proof (induction rule: rtranclp_induct2)
  case (step d1 p1 d2 p2)
  from pool_step_moves [OF step.hyps(2) moves_wf [OF step.IH assms(2)]] step.IH show ?case by (rule rtranclp_trans [rotated])
qed simp

section \<open>The tables of the pool\<close>

text \<open>A case before its decision has too few votes and no outcome; afterwards its outcome is that of its votes.\<close>

definition tally :: "arb_vote list \<Rightarrow> string option \<times> rat option" where
  "tally vs = (case decide_votes vs of (x, pct) \<Rightarrow> (Some (decision_value x), pct))"

definition case_ok :: "arb_vote list \<Rightarrow> arb_case \<Rightarrow> bool" where
  "case_ok vs c \<longleftrightarrow>
     ac_status c \<in> {''open'', ''voting''} \<and> ac_outcome c = None \<and> length vs < ac_required c \<or>
     ac_status c \<in> {''decided'', ''executed''} \<and> (ac_outcome c, ac_percent c) = tally vs \<and> length vs = ac_required c"

definition votes_in :: "string \<Rightarrow> arb_vote list \<Rightarrow> arb_vote list" where
  "votes_in cid vs = filter (\<lambda>v. vt_case v = cid) vs"

definition cases_ok :: "(string \<rightharpoonup> arb_case) \<Rightarrow> arb_vote list \<Rightarrow> bool" where
  "cases_ok M vs \<longleftrightarrow> (\<forall>cid c. M cid = Some c \<longrightarrow> case_ok (votes_in cid vs) c)"

definition voters_ok :: "(string \<rightharpoonup> arb_case) \<Rightarrow> arb_assignment list \<Rightarrow> arb_vote list \<Rightarrow> bool" where
  "voters_ok M as vs \<longleftrightarrow>
     distinct (map (\<lambda>a. (as_case a, as_arbitrator a)) as) \<and> distinct (map (\<lambda>v. (vt_case v, vt_arbitrator v)) vs) \<and>
     (\<forall>v \<in> set vs. M (vt_case v) \<noteq> None \<and> (vt_case v, vt_arbitrator v) \<in> set (map (\<lambda>a. (as_case a, as_arbitrator a)) as))"

definition pool_inv :: "pool_db \<Rightarrow> bool" where
  "pool_inv d \<longleftrightarrow>
     distinct (map fst (cases d)) \<and> distinct (map fst (members d)) \<and>
     cases_ok (map_of (cases d)) (votes d) \<and> voters_ok (map_of (cases d)) (assignments d) (votes d)"

lemma pool_inv_same:
  "pool_inv d \<Longrightarrow> cases d' = cases d \<Longrightarrow> members d' = members d \<Longrightarrow> assignments d' = assignments d \<Longrightarrow> votes d' = votes d \<Longrightarrow>
     pool_inv d'"
  unfolding pool_inv_def by (simp only:)

lemma cases_ok_upd: "cases_ok M vs \<Longrightarrow> case_ok (votes_in cid vs) c \<Longrightarrow> cases_ok (M(cid \<mapsto> c)) vs"
  by (simp add: cases_ok_def)

lemma cases_okD: "cases_ok M vs \<Longrightarrow> M cid = Some c \<Longrightarrow> case_ok (votes_in cid vs) c"
  by (simp add: cases_ok_def)

lemma voters_ok_upd: "voters_ok M as vs \<Longrightarrow> voters_ok (M(cid \<mapsto> c)) as vs"
  by (auto simp: voters_ok_def)

lemma pool_inv_put:
  assumes "pool_inv d" and "case_ok (votes_in cid (votes d)) c" and "cases d' = put_row cid c (cases d)" and "members d' = members d"
    and "assignments d' = assignments d" and "votes d' = votes d"
  shows "pool_inv d'"
  using assms unfolding pool_inv_def assms(3-6) map_of_put_row by (blast intro: keys_put_row cases_ok_upd voters_ok_upd)

lemma pool_inv_create:
  assumes "create_arbitration_case env uuid tid opener why n d p = (d', p', Inr c)" and "pool_inv d"
  shows "pool_inv d'"
proof -
  from create_case_effect [OF assms(1)] obtain st where e: "1 \<le> n" "map_of (cases d) (uuid 0) = None"
      "cases d' = put_row (uuid 0) (new_case env st tid opener why n) (cases d)" "assignments d' = assignments d"
      "votes d' = votes d" "members d' = members d" by (auto simp: pool_part_def)
  have "voters_ok (map_of (cases d)) (assignments d) (votes d)" using assms(2) by (simp add: pool_inv_def)
  with e(2) have "votes_in (uuid 0) (votes d) = []" by (fastforce simp: voters_ok_def votes_in_def filter_empty_conv)
  with e(1) have "case_ok (votes_in (uuid 0) (votes d)) (new_case env st tid opener why n)" by (simp add: case_ok_def new_case_def)
  from pool_inv_put [OF assms(2) this e(3,6,4,5)] show ?thesis .
qed

lemma candidates_fresh:
  "distinct (map fst (members d)) \<Longrightarrow> distinct (case_candidates cid d)"
  "i \<in> set (case_candidates cid d) \<Longrightarrow> (cid, i) \<notin> set (map (\<lambda>a. (as_case a, as_arbitrator a)) (assignments d))"
proof -
  assume "distinct (map fst (members d))"
  then have "distinct (map fst (filter (\<lambda>(i, m). pm_status m = ''active'') (members d)))" by (rule distinct_map_filter)
  moreover have "mset (map fst (sort_key f xs)) = mset (map fst xs)" for f :: "string \<times> pool_member \<Rightarrow> int" and xs by simp
  ultimately have "distinct (map fst (sort_key (pm_joined_at \<circ> snd) (filter (\<lambda>(i, m). pm_status m = ''active'') (members d))))"
    using mset_eq_imp_distinct_iff by blast
  then show "distinct (case_candidates cid d)" by (simp only: case_candidates_def Let_def distinct_filter)
qed (auto simp: case_candidates_def Let_def)

lemma voters_ok_assign:
  assumes "voters_ok M as vs" and "map (\<lambda>a. (as_case a, as_arbitrator a)) rows = map (Pair cid) ids" and "distinct ids"
    and "\<And>i. i \<in> set ids \<Longrightarrow> (cid, i) \<notin> set (map (\<lambda>a. (as_case a, as_arbitrator a)) as)"
  shows "voters_ok M (as @ rows) vs"
proof -
  have "distinct (map (Pair cid) ids)" using assms(3) by (simp add: distinct_map inj_on_def)
  then show ?thesis
    using assms(1,4) unfolding voters_ok_def map_append assms(2) distinct_append set_append set_map by blast
qed

lemma pool_inv_assign:
  assumes "assign_arbitrators env uuid cid n d p = (d', p', Inr rows)" and "pool_inv d"
  shows "pool_inv d'"
proof -
  from assign_effect [OF assms(1)] obtain c where e: "map_of (cases d) cid = Some c" "ac_status c \<notin> {''decided'', ''executed''}"
      "map (\<lambda>a. (as_case a, as_arbitrator a)) rows = map (Pair cid) (take n (case_candidates cid d))"
      "cases d' = put_row cid (c\<lparr>ac_status := ''voting'', ac_updated_at := now env\<rparr>) (cases d)"
      "assignments d' = assignments d @ rows" "votes d' = votes d" "members d' = members d" by (auto simp: pool_part_def)
  have inv: "distinct (map fst (members d))" "cases_ok (map_of (cases d)) (votes d)"
      "voters_ok (map_of (cases d)) (assignments d) (votes d)" "distinct (map fst (cases d))" using assms(2) by (simp_all add: pool_inv_def)
  have "voters_ok (map_of (cases d)) (assignments d @ rows) (votes d)"
    by (rule voters_ok_assign [OF inv(3) e(3)]) (use candidates_fresh(1) [OF inv(1)] candidates_fresh(2) in \<open>blast intro: distinct_take dest: in_set_takeD\<close>)+
  moreover have "case_ok (votes_in cid (votes d)) (c\<lparr>ac_status := ''voting'', ac_updated_at := now env\<rparr>)"
    using cases_okD [OF inv(2) e(1)] e(2) by (auto simp: case_ok_def)
  ultimately show ?thesis
    unfolding pool_inv_def e(4-7) map_of_put_row using inv by (blast intro: keys_put_row cases_ok_upd voters_ok_upd)
qed

lemma case_ok_voted:
  assumes "case_ok vs c" and "ac_status c \<notin> {''decided'', ''executed''}"
  shows "case_ok (vs @ [v]) (voted_case env (vs @ [v]) c)"
  using assms by (auto simp: case_ok_def voted_case_def tally_def split: prod.splits)

lemma pool_inv_vote:
  assumes "cast_vote env uuid cid who x pct why d p = (d', p', Inr c')" and "pool_inv d"
  shows "pool_inv d'"
proof -
  define v where "v = new_vote env (uuid 0) cid who x pct why"
  from vote_effect [OF assms(1) v_def] obtain c where c: "map_of (cases d) cid = Some c" "ac_status c \<notin> {''decided'', ''executed''}"
      "list_ex (\<lambda>a. as_case a = cid \<and> as_arbitrator a = who) (assignments d)"
      "\<forall>w \<in> set (votes d). vt_case w = cid \<longrightarrow> vt_arbitrator w \<noteq> who"
    and d': "c' = voted_case env (votes_of cid d @ [v]) c" "votes d' = votes d @ [v]" "assignments d' = assignments d"
      "members d' = members d" "map_of (cases d') = (map_of (cases d))(cid \<mapsto> c')" "map fst (cases d') = map fst (cases d)" by blast
  have v: "vt_case v = cid" "vt_arbitrator v = who" by (simp_all add: v_def new_vote_def)
  have inv: "cases_ok (map_of (cases d)) (votes d)" "voters_ok (map_of (cases d)) (assignments d) (votes d)"
    using assms(2) by (simp_all add: pool_inv_def)
  have assigned: "(cid, who) \<in> set (map (\<lambda>a. (as_case a, as_arbitrator a)) (assignments d))"
    using c(3) by (force simp: list_ex_iff)
  have vs: "votes_in k (votes d @ [v]) = (if k = cid then votes_in cid (votes d) @ [v] else votes_in k (votes d))" for k
    by (simp add: votes_in_def v)
  have c': "c' = voted_case env (votes_in cid (votes d) @ [v]) c" by (simp add: d' votes_of_def votes_in_def)
  have "cases_ok ((map_of (cases d))(cid \<mapsto> c')) (votes d @ [v])"
    using inv(1) case_ok_voted [OF cases_okD [OF inv(1) c(1)] c(2), of v env] unfolding cases_ok_def vs c' by simp
  moreover have "voters_ok ((map_of (cases d))(cid \<mapsto> c')) (assignments d) (votes d @ [v])"
    using inv(2) c(4) v assigned unfolding voters_ok_def by auto
  ultimately show ?thesis using assms(2) unfolding pool_inv_def d'(2-6) by blast
qed

lemma pool_inv_execute:
  assumes "execute_arbitration_case env uuid cid d p = (d', p', Inr st)" and "pool_inv d"
  shows "pool_inv d'"
proof -
  from execute_effect [OF assms(1)] obtain c where e: "map_of (cases d) cid = Some c" "ac_status c = ''decided''"
      "cases d' = put_row cid (c\<lparr>ac_status := ''executed'', ac_executed_at := Some (now env), ac_updated_at := now env\<rparr>) (cases d)"
      "assignments d' = assignments d" "votes d' = votes d" "members d' = members d" by blast
  have "cases_ok (map_of (cases d)) (votes d)" using assms(2) by (simp add: pool_inv_def)
  from cases_okD [OF this e(1)] e(2)
  have "case_ok (votes_in cid (votes d)) (c\<lparr>ac_status := ''executed'', ac_executed_at := Some (now env), ac_updated_at := now env\<rparr>)"
    by (simp add: case_ok_def)
  from pool_inv_put [OF assms(2) this e(3,6,4,5)] show ?thesis .
qed

lemma serve_pool_inv:
  assumes "serve_pool env uuid call d p = (d', p', Inr u)" and "pool_inv d"
  shows "pool_inv d'"
proof (cases call)
  case (Join iden stake)
  with assms show ?thesis by (auto simp: returns pool_part_def pool_inv_def keys_put_row dest!: join_effect)
next
  case (Trade c)
  with assms show ?thesis by (auto simp: returns intro: pool_inv_same)
next
  case (Material cid who bid progress hashes storage fmt)
  with assms show ?thesis by (auto simp: returns pool_part_def dest!: material_effect intro: pool_inv_same)
qed (use assms in \<open>auto simp: returns intro: pool_inv_create pool_inv_assign pool_inv_vote pool_inv_execute\<close>)

lemma pool_step_inv:
  assumes "pool_step (d, p) (d', p')" and "pool_inv d"
  shows "pool_inv d'"
  using assms(1)
proof cases
  case (request env uuid call out)
  show ?thesis
  proof (cases out)
    case (Inl e)
    with request(1) have "d' = d" by (simp add: in_session_Inl)
    with assms(2) show ?thesis by simp
  next
    case (Inr u)
    with request(1) assms(2) show ?thesis by (intro serve_pool_inv [of env uuid call d p d' p' u]) (simp_all add: in_session_Inr)
  qed
qed (use assms(2) in \<open>simp add: pool_inv_def\<close>)

section \<open>Executed cases\<close>

text \<open>An executed case has its award in the table of settlements.\<close>

definition execution_ok :: "settlement_table \<Rightarrow> arb_case \<Rightarrow> bool" where
  "execution_ok rows c \<longleftrightarrow> ac_status c = ''executed'' \<longrightarrow>
     (\<exists>r \<in> set rows. r_task_id r = ac_task_id c \<and>
        (case pool_award c (r_escrow_amount r) of (target, settled, refunded, notes) \<Rightarrow>
           r_status r = task_status_value target \<and> r_released_amount r = Some settled \<and> r_refunded_amount r = Some refunded))"

definition executions_ok :: "settlement_table \<Rightarrow> (string \<rightharpoonup> arb_case) \<Rightarrow> bool" where
  "executions_ok rows M \<longleftrightarrow> (\<forall>cid c. M cid = Some c \<longrightarrow> execution_ok rows c)"

lemma executions_ok_upd: "executions_ok rows M \<Longrightarrow> execution_ok rows c \<Longrightarrow> executions_ok rows (M(cid \<mapsto> c))"
  by (simp add: executions_ok_def)

lemma award_over:
  assumes "pool_award c x = (target, settled, refunded, notes)" and "r_status r = task_status_value target"
  shows "over r"
  using award_target [of c x] assms by (auto simp: over_def)

lemma execution_ok_moves:
  assumes "(settlement_move paid)\<^sup>*\<^sup>* rows rows'" and "table_wf rows" and "execution_ok rows c"
  shows "execution_ok rows' c"
  unfolding execution_ok_def
proof
  assume "ac_status c = ''executed''"
  with assms(3) obtain r target settled refunded why where r: "r \<in> set rows" "r_task_id r = ac_task_id c"
      "pool_award c (r_escrow_amount r) = (target, settled, refunded, why)" "r_status r = task_status_value target"
      "r_released_amount r = Some settled" "r_refunded_amount r = Some refunded" by (auto simp: execution_ok_def)
  have "find_settlement (r_settlement_id r) rows = Some r"
    unfolding find_settlement_def by (rule find_unique) (use assms(2) r(1) in \<open>simp_all add: table_wf_def\<close>)
  from over_moves [OF assms(1,2) this award_over [OF r(3,4)]] find_settlement_Some have "r \<in> set rows'" by blast
  with r show "\<exists>r \<in> set rows'. r_task_id r = ac_task_id c \<and>
        (case pool_award c (r_escrow_amount r) of (target, settled, refunded, notes) \<Rightarrow>
           r_status r = task_status_value target \<and> r_released_amount r = Some settled \<and> r_refunded_amount r = Some refunded)"
    by (intro bexI [of _ r]) auto
qed

lemma executions_ok_moves:
  "(settlement_move paid)\<^sup>*\<^sup>* rows rows' \<Longrightarrow> table_wf rows \<Longrightarrow> executions_ok rows M \<Longrightarrow> executions_ok rows' M"
  by (auto simp: executions_ok_def intro: execution_ok_moves)

lemma executed_case_ok:
  assumes "execute_arbitration_case env uuid cid d p = (d', p', Inr st')" and "table_wf (settlements (trade d))"
    and c: "map_of (cases d) cid = Some c"
  shows "execution_ok (settlements (trade d')) (c\<lparr>ac_status := ''executed'', ac_executed_at := t, ac_updated_at := t'\<rparr>)"
proof -
  from execute_move [OF assms] obtain st where st: "postgres_get (ac_task_id c) (settlements (trade d)) = Inr (Some st)"
    "st' = awarded env c st" "postgres_save st' (settlements (trade d)) = Inr (settlements (trade d'))" by blast
  let ?r = "to_row st'"
  have row: "?r \<in> set (settlements (trade d'))" using postgres_save_wf [OF assms(2) st(3)] by blast
  have target: "canonical_task_status (status st') = status st'"
    using award_target [of c "escrow_amount st"] st(2) route_targets by auto
  have "r_task_id ?r = ac_task_id c" using postgres_get_task [OF st(1)] st(2) by simp
  moreover have "r_escrow_amount ?r = escrow_amount st" "r_status ?r = task_status_value (fst (pool_award c (escrow_amount st)))"
    "r_released_amount ?r = Some (fst (snd (pool_award c (escrow_amount st))))"
    "r_refunded_amount ?r = Some (fst (snd (snd (pool_award c (escrow_amount st)))))"
    using target st(2) by (simp_all add: to_row_def)
  moreover have "pool_award (c\<lparr>ac_status := ''executed'', ac_executed_at := t, ac_updated_at := t'\<rparr>) x = pool_award c x" for x
    by (simp add: pool_award_def)
  ultimately show ?thesis using row unfolding execution_ok_def by (intro impI bexI [of _ ?r]) (simp_all add: case_prod_unfold)
qed

lemma voted_not_executed: "ac_status c \<notin> {''decided'', ''executed''} \<Longrightarrow> ac_status (voted_case env vs c) \<noteq> ''executed''"
  by (auto simp: voted_case_def split: prod.splits)

lemma serve_pool_executions:
  assumes "serve_pool env uuid call d p = (d', p', Inr u)" and "fresh_pool_call call d" and "table_wf (settlements (trade d))"
    and "executions_ok (settlements (trade d)) (map_of (cases d))"
  shows "executions_ok (settlements (trade d')) (map_of (cases d'))"
proof -
  note moved = executions_ok_moves [OF serve_pool_moves [OF assms(1-3)] assms(3,4)]
  show ?thesis
  proof (cases call)
    case (Open_Case tid opener why n)
    with assms(1) obtain c where "create_arbitration_case env uuid tid opener why n d p = (d', p', Inr c)" by (auto simp: returns)
    from create_case_effect [OF this] obtain st where "cases d' = put_row (uuid 0) (new_case env st tid opener why n) (cases d)"
      by (auto simp: pool_part_def)
    with moved show ?thesis
      by (simp only: map_of_put_row) (rule executions_ok_upd, simp_all add: execution_ok_def new_case_def)
  next
    case (Assign cid n)
    with assms(1) obtain rows where "assign_arbitrators env uuid cid n d p = (d', p', Inr rows)" by (auto simp: returns)
    from assign_effect [OF this] obtain c where "cases d' = put_row cid (c\<lparr>ac_status := ''voting'', ac_updated_at := now env\<rparr>) (cases d)"
      by (auto simp: pool_part_def)
    with moved show ?thesis by (simp only: map_of_put_row) (rule executions_ok_upd, simp_all add: execution_ok_def)
  next
    case (Vote cid who x pct why)
    with assms(1) obtain c' where run: "cast_vote env uuid cid who x pct why d p = (d', p', Inr c')" by (auto simp: returns)
    from vote_effect [OF run refl] have "map_of (cases d') = (map_of (cases d))(cid \<mapsto> c')" "ac_status c' \<noteq> ''executed''"
      using voted_not_executed by blast+
    with moved show ?thesis by (simp only:) (rule executions_ok_upd, simp_all add: execution_ok_def)
  next
    case (Execute cid)
    with assms(1) obtain st' where run: "execute_arbitration_case env uuid cid d p = (d', p', Inr st')" by (auto simp: returns)
    from execute_effect [OF run] obtain c where c: "map_of (cases d) cid = Some c"
      "cases d' = put_row cid (c\<lparr>ac_status := ''executed'', ac_executed_at := Some (now env), ac_updated_at := now env\<rparr>) (cases d)" by blast
    show ?thesis unfolding c(2) map_of_put_row by (rule executions_ok_upd [OF moved executed_case_ok [OF run assms(3) c(1)]])
  next
    case (Join iden stake)
    with assms(1) moved show ?thesis by (auto simp: returns pool_part_def dest!: join_effect)
  next
    case (Material cid who bid progress hashes storage fmt)
    with assms(1) moved show ?thesis by (auto simp: returns pool_part_def dest!: material_effect)
  next
    case (Trade c)
    with assms(1) moved show ?thesis by (auto simp: returns)
  qed
qed

section \<open>Runs\<close>

definition pool_state_inv :: "pool_db \<times> route_proc \<Rightarrow> bool" where
  "pool_state_inv s \<longleftrightarrow> pool_inv (fst s) \<and> table_wf (settlements (trade (fst s))) \<and>
     executions_ok (settlements (trade (fst s))) (map_of (cases (fst s)))"

lemma pool_state_inv_step:
  assumes "pool_step s t" and "pool_state_inv s"
  shows "pool_state_inv t"
proof -
  obtain d p d' p' where st: "s = (d, p)" "t = (d', p')" by (cases s; cases t) auto
  note inv = assms(2) [unfolded pool_state_inv_def st fst_conv]
  have step: "pool_step (d, p) (d', p')" using assms(1) st by simp
  have wf: "table_wf (settlements (trade d'))" using moves_wf [OF pool_step_moves [OF step]] inv by blast
  from step have "executions_ok (settlements (trade d')) (map_of (cases d'))"
  proof cases
    case (request env uuid call out)
    show ?thesis
    proof (cases out)
      case (Inl e)
      with request(1) have "d' = d" by (simp add: in_session_Inl)
      with inv show ?thesis by simp
    next
      case (Inr u)
      with request inv show ?thesis
        by (intro serve_pool_executions [of env uuid call d p d' p' u]) (simp_all add: in_session_Inr)
    qed
  qed (use inv in simp)
  with pool_step_inv [OF step] inv wf show ?thesis by (simp add: pool_state_inv_def st)
qed

interpretation pool: step_invariant pool_step pool_state_inv
  by unfold_locales (rule pool_state_inv_step)

lemma votes_step: "pool_step s t \<Longrightarrow> prefix (votes (fst s)) (votes (fst t))"
proof (induction rule: pool_step.induct)
  case (request env uuid call d p d' p' out)
  show ?case
  proof (cases out)
    case (Inl e)
    with request(1) have "d' = d" by (simp add: in_session_Inl)
    then show ?thesis by simp
  next
    case (Inr u)
    with request(1) have "serve_pool env uuid call d p = (d', p', Inr u)" by (simp add: in_session_Inr)
    then show ?thesis
      by (cases call)
        (auto simp: returns pool_part_def dest!: join_effect create_case_effect assign_effect material_effect vote_effect [OF _ refl] execute_effect)
  qed
qed simp

interpretation ballots: append_only pool_step "\<lambda>s. votes (fst s)"
  by unfold_locales (rule votes_step)

end
