(* ===== verification/Arbitration_Properties.thy ===== *)
theory Arbitration_Properties
  imports Arbitration_System Settlement_Properties
begin

text \<open>
  The properties of the arbitration pool, of its decision rule and of whole runs together with the settlement
  routes, exercised on a disputed settlement of a buyer \<open>c\<close> and a worker \<open>w\<close>.
\<close>

section \<open>A disputed settlement\<close>

definition demo_pool :: pool_db where
  "demo_pool =
     \<lparr>trade = demo_db\<lparr>settlements := [to_row (demo_state\<lparr>status := DISPUTED\<rparr>)], receipts := [],
        capacities := [(''c'', (empty_capacity 0)\<lparr>total_locked_usdc := 100, total_bill_credits := 100, disputed_credits := 100\<rparr>)]\<rparr>,
      members = [], cases = [], assignments = [], votes = [], materials = [], case_events = []\<rparr>"

definition uuids :: "string \<Rightarrow> nat \<Rightarrow> string" where
  "uuids tag k = tag @ show_nat k"

fun pool_run :: "(request_env \<times> string \<times> pool_call) list \<Rightarrow> pool_db \<times> route_proc \<Rightarrow> pool_db \<times> route_proc" where
  "pool_run [] s = s"
| "pool_run ((env, tag, call) # rest) s =
     pool_run rest (case in_session (serve_pool env (uuids tag) call) (fst s) (snd s) of (d', p', _) \<Rightarrow> (d', p'))"

text \<open>One arbitrator joins, the case is opened for one vote, assigned, decided and executed.\<close>

definition demo_case :: "string \<Rightarrow> vote_decision \<Rightarrow> (request_env \<times> string \<times> pool_call) list" where
  "demo_case who x =
     [(demo_env who 1, ''a'', Join who 0), (demo_env who 2, ''k'', Open_Case ''t1'' who None 1),
      (demo_env who 3, ''b'', Assign ''k0'' 1), (demo_env who 4, ''v'', Vote ''k0'' who x None None),
      (demo_env who 5, ''e'', Execute ''k0'')]"

lemma pool_run_steps:
  "list_all (\<lambda>(env, tag, call). \<forall>d. fresh_pool_call call d) cs \<Longrightarrow> pool_step\<^sup>*\<^sup>* s (pool_run cs s)"
proof (induction cs arbitrary: s)
  case (Cons c cs)
  obtain env tag call d p where [simp]: "c = (env, tag, call)" "s = (d, p)" by (cases c; cases s) auto
  obtain d' p' out where run: "in_session (serve_pool env (uuids tag) call) d p = (d', p', out)" by (metis surj_pair)
  have "pool_step (d, p) (d', p')" by (rule pool_step.request [OF run]) (use Cons.prems in simp)
  with Cons.IH [of "(d', p')"] Cons.prems run show ?case by (auto intro: converse_rtranclp_into_rtranclp)
qed simp

lemma demo_case_steps: "pool_step\<^sup>*\<^sup>* s (pool_run (demo_case who x) s)"
  by (rule pool_run_steps) (auto simp: demo_case_def)

lemma demo_pool_inv: "pool_state_inv (demo_pool, p)"
  by (simp add: demo_pool_def pool_state_inv_def pool_inv_def table_wf_def cases_ok_def voters_ok_def executions_ok_def)

text \<open>What one looks at: the settlements with what they released, and the cases with their outcomes.\<close>

fun pool_view :: "pool_db \<times> route_proc \<Rightarrow> (string \<times> rat option \<times> rat option) list \<times> (string \<times> string \<times> string option) list" where
  "pool_view (d, p) =
     (map (\<lambda>r. (r_status r, r_released_amount r, r_refunded_amount r)) (settlements (trade d)),
      map (\<lambda>(k, c). (k, ac_status c, ac_outcome c)) (cases d))"

lemma demo_case_view:
  "pool_view (pool_run (demo_case ''w'' Seller_Wins) (demo_pool, new_process)) =
     ([(''settled'', Some 100, Some 0)], [(''k0'', ''executed'', Some ''seller_wins'')])"
  by code_simp

section \<open>The decision rule\<close>

lemma map_filter_mset: "mset xs = mset ys \<Longrightarrow> mset (List.map_filter f xs) = mset (List.map_filter f ys)"
proof -
  have "mset (List.map_filter f zs) = image_mset (the \<circ> f) (filter_mset (\<lambda>x. f x \<noteq> None) (mset zs))" for zs
    by (simp add: List.map_filter_def)
  then show "mset xs = mset ys \<Longrightarrow> ?thesis" by simp
qed

lemma mset_same_sum: "mset xs = mset ys \<Longrightarrow> sum_list xs = sum_list (ys :: rat list) \<and> length xs = length ys \<and> (xs = [] \<longleftrightarrow> ys = [])"
  using mset_eq_length sum_mset_sum_list by (metis length_0_conv)

text \<open>The decision on the votes does not depend on the order in which they were cast.\<close>

theorem decision_ignores_order:
  assumes "mset vs = mset vs'"
  shows "decide_votes vs = decide_votes vs'"
proof -
  have f: "mset (filter P vs) = mset (filter P vs')" for P using assms by simp
  have "length (filter P vs) = length (filter P vs')" for P using mset_eq_length [OF f] .
  with mset_same_sum [OF map_filter_mset [OF f]] show ?thesis by (simp add: decide_votes_def Let_def)
qed

theorem decision_ignores_order_witness:
  "decide_votes [new_vote (demo_env ''a'' 1) ''1'' ''k'' ''a'' Partial_Split (Some 30) None, new_vote (demo_env ''b'' 2) ''2'' ''k'' ''b'' Partial_Split (Some 40) None] =
   decide_votes [new_vote (demo_env ''b'' 2) ''2'' ''k'' ''b'' Partial_Split (Some 40) None, new_vote (demo_env ''a'' 1) ''1'' ''k'' ''a'' Partial_Split (Some 30) None]"
  by (rule decision_ignores_order) simp

text \<open>
  A single vote decides against any majority for a division: with one vote for the buyer, none for the seller and
  any number of votes for a partial settlement, the buyer wins the whole escrow.
\<close>

theorem one_vote_beats_partial:
  assumes "vt_decision v = ''buyer_wins''" and "list_all (\<lambda>w. vt_decision w = ''partial'') ws"
  shows "decide_votes (v # ws) = (Buyer_Wins, None)"
proof -
  have "filter (\<lambda>w. vt_decision w = ''buyer_wins'') ws = []" "filter (\<lambda>w. vt_decision w = ''seller_wins'') ws = []"
    using assms(2) by (auto simp: filter_empty_conv list_all_iff)
  with assms(1) show ?thesis by (simp add: decide_votes_def Let_def)
qed

theorem one_vote_beats_partial_witness:
  "decide_votes (new_vote (demo_env ''a'' 1) ''0'' ''k'' ''a'' Buyer_Wins None None #
     replicate 20 (new_vote (demo_env ''b'' 1) ''1'' ''k'' ''b'' Partial_Split (Some 90) None)) = (Buyer_Wins, None)"
  by (rule one_vote_beats_partial) (auto simp: new_vote_def list_all_iff)

lemma sum_list_bounds:
  assumes "\<And>x. x \<in> set xs \<Longrightarrow> 0 \<le> x \<and> x \<le> (100 :: rat)"
  shows "0 \<le> sum_list xs" and "sum_list xs \<le> 100 * of_nat (length xs)"
  using assms by (induction xs) (auto simp: algebra_simps add_mono add_increasing)

lemma decided_percent_bounds:
  assumes "decide_votes vs = (x, Some pct)" and "list_all (\<lambda>v. \<forall>y. vt_percent v = Some y \<longrightarrow> 0 \<le> y \<and> y \<le> 100) vs"
  shows "0 \<le> pct \<and> pct \<le> 100"
proof -
  let ?P = "List.map_filter vt_percent (filter (\<lambda>v. vt_decision v = ''partial'') vs)"
  let ?mean = "sum_list ?P / of_nat (length ?P)"
  have range: "0 \<le> y \<and> y \<le> 100" if "y \<in> set ?P" for y
    using that assms(2) by (fastforce simp: List.map_filter_def list_all_iff)
  have mean: "0 \<le> ?mean" "?mean \<le> 100" if "?P \<noteq> []"
    using sum_list_bounds [OF range] that by (simp_all add: divide_le_eq)
  from assms(1) have "pct = (if ?P = [] then 50 else py_round ?mean 2)"
    by (simp add: decide_votes_def Let_def split: if_splits)
  with mean py_round_ge [of 0 ?mean 2] py_round_le [of ?mean 100 2] show ?thesis by (simp split: if_splits)
qed

text \<open>
  C31. The award of a decided case divides an escrow of whole cents: both parts are non-negative and they add up to the
  escrow, whatever the votes were.
\<close>

theorem award_divides_escrow:
  assumes "escrow = of_int k / 100" and "0 \<le> k" and "(ac_outcome c, ac_percent c) = tally vs"
    and "list_all (\<lambda>v. \<forall>y. vt_percent v = Some y \<longrightarrow> 0 \<le> y \<and> y \<le> 100) vs"
    and "pool_award c escrow = (target, settled, refunded, n)"
  shows "0 \<le> settled \<and> 0 \<le> refunded \<and> settled + refunded = escrow \<and> (target = REFUNDED \<longrightarrow> settled = 0)"
proof -
  obtain x pct where d: "decide_votes vs = (x, pct)" by (metis surj_pair)
  have cents: "py_round escrow 2 = escrow" unfolding assms(1) by (rule py_round_cents)
  have pos: "0 \<le> escrow" using assms(1,2) by simp
  have c: "ac_outcome c = Some (decision_value x)" "ac_percent c = pct" using assms(3) d by (simp_all add: tally_def)
  show ?thesis
  proof (cases x)
    case Partial_Split
    with d obtain y where y: "pct = Some y" by (auto simp: decide_votes_def Let_def split: if_splits)
    note bounds = decided_percent_bounds [OF d [unfolded y] assms(4)]
    from percent_part [OF assms(1,2), of y] bounds assms(5) c Partial_Split y show ?thesis by (auto simp: pool_award_def Let_def)
  qed (use assms(5) c cents pos in \<open>auto simp: pool_award_def\<close>)
qed

definition demo_decided :: arb_case where
  "demo_decided = new_case (demo_env ''a'' 1) demo_state ''t1'' ''a'' None 1\<lparr>ac_outcome := Some ''partial'', ac_percent := Some 33\<rparr>"

theorem award_divides_escrow_witness:
  "\<exists>target settled refunded n. pool_award demo_decided (1001 / 100) = (target, settled, refunded, n) \<and> settled + refunded = 1001 / 100"
proof -
  let ?vs = "[new_vote (demo_env ''a'' 1) ''0'' ''k'' ''a'' Partial_Split (Some 33) None]"
  obtain target settled refunded n where award: "pool_award demo_decided (1001 / 100) = (target, settled, refunded, n)"
    by (metis surj_pair)
  have "(ac_outcome demo_decided, ac_percent demo_decided) = tally ?vs" by code_simp
  moreover have "list_all (\<lambda>v. \<forall>y. vt_percent v = Some y \<longrightarrow> 0 \<le> y \<and> y \<le> 100) ?vs" by (simp add: new_vote_def)
  moreover have "(1001 / 100 :: rat) = of_int 1001 / 100" "(0 :: int) \<le> 1001" by simp_all
  ultimately show ?thesis using award_divides_escrow [OF _ _ _ _ award] award by blast
qed

section \<open>Runs\<close>

text \<open>
  C8. In every run of requests of the pool and of the settlement routes that starts with empty tables of the pool, a
  decided case has exactly as many votes as it asked for, by different arbitrators who were assigned to it, and its
  outcome is the one of these votes; a case before that has no outcome and fewer votes.
\<close>

theorem pool_cases_follow_votes:
  assumes "pool_step\<^sup>*\<^sup>* (d, p) (d', p')" and "pool_state_inv (d, p)" and "map_of (cases d') cid = Some c"
  shows "if ac_status c \<in> {''decided'', ''executed''}
         then length (votes_of cid d') = ac_required c \<and> distinct (map vt_arbitrator (votes_of cid d')) \<and>
              set (map vt_arbitrator (votes_of cid d')) \<subseteq> set (map as_arbitrator (filter (\<lambda>a. as_case a = cid) (assignments d'))) \<and>
              (ac_outcome c, ac_percent c) = tally (votes_of cid d')
         else ac_outcome c = None \<and> length (votes_of cid d') < ac_required c"
proof -
  from pool.inv_run [OF assms(1,2)] have inv: "cases_ok (map_of (cases d')) (votes d')"
      "voters_ok (map_of (cases d')) (assignments d') (votes d')" by (simp_all add: pool_state_inv_def pool_inv_def)
  have vs: "votes_of cid d' = votes_in cid (votes d')" by (simp add: votes_of_def votes_in_def)
  have ok: "case_ok (votes_in cid (votes d')) c" using cases_okD [OF inv(1) assms(3)] .
  have "distinct (map (\<lambda>v. (vt_case v, vt_arbitrator v)) (votes_in cid (votes d')))"
    unfolding votes_in_def by (rule distinct_map_filter) (use inv(2) in \<open>simp add: voters_ok_def\<close>)
  then have dist: "distinct (map vt_arbitrator (votes_in cid (votes d')))"
    by (auto simp: votes_in_def distinct_map inj_on_def)
  have voters: "set (map vt_arbitrator (votes_in cid (votes d'))) \<subseteq> set (map as_arbitrator (filter (\<lambda>a. as_case a = cid) (assignments d')))"
    using inv(2) by (force simp: voters_ok_def votes_in_def)
  from ok dist voters show ?thesis unfolding vs by (auto simp: case_ok_def)
qed

theorem pool_cases_follow_votes_witness:
  "\<exists>d' p' c. pool_run (demo_case ''w'' Seller_Wins) (demo_pool, new_process) = (d', p') \<and> map_of (cases d') ''k0'' = Some c \<and>
     ac_status c = ''executed'' \<and> length (votes_of ''k0'' d') = 1"
proof -
  obtain d' p' where run: "pool_run (demo_case ''w'' Seller_Wins) (demo_pool, new_process) = (d', p')" by (metis surj_pair)
  from demo_case_view run obtain c where c: "cases d' = [(''k0'', c)]" "ac_status c = ''executed''" by auto
  have req: "map (ac_required \<circ> snd) (cases (fst (pool_run (demo_case ''w'' Seller_Wins) (demo_pool, new_process)))) = [1]" by code_simp
  from pool_cases_follow_votes [OF demo_case_steps [of "(demo_pool, new_process)" "''w''" Seller_Wins, unfolded run] demo_pool_inv, of "''k0''" c] c req run
  show ?thesis by auto
qed

text \<open>
  C7. An executed case stays executed as decided: in every state of such a run the settlement of its task has the
  status, the released and the refunded amount of the award.
\<close>

theorem executed_cases_are_paid:
  assumes "pool_step\<^sup>*\<^sup>* (d, p) (d', p')" and "pool_state_inv (d, p)" and "map_of (cases d') cid = Some c"
    and "ac_status c = ''executed''"
  shows "\<exists>r \<in> set (settlements (trade d')). r_task_id r = ac_task_id c \<and>
           (case pool_award c (r_escrow_amount r) of (target, settled, refunded, n) \<Rightarrow>
              r_status r = task_status_value target \<and> r_released_amount r = Some settled \<and> r_refunded_amount r = Some refunded)"
proof -
  from pool.inv_run [OF assms(1,2)] have "executions_ok (settlements (trade d')) (map_of (cases d'))" by (simp add: pool_state_inv_def)
  with assms(3,4) show ?thesis unfolding executions_ok_def execution_ok_def by blast
qed

theorem executed_cases_are_paid_witness:
  "\<exists>d' p'. pool_run (demo_case ''w'' Seller_Wins) (demo_pool, new_process) = (d', p') \<and>
     (\<exists>r \<in> set (settlements (trade d')). r_status r = ''settled'' \<and> r_released_amount r = Some 100)"
proof -
  obtain d' p' where run: "pool_run (demo_case ''w'' Seller_Wins) (demo_pool, new_process) = (d', p')" by (metis surj_pair)
  from demo_case_view run obtain c where c: "cases d' = [(''k0'', c)]" "ac_status c = ''executed''" "ac_outcome c = Some ''seller_wins''" by auto
  have escrow: "map r_escrow_amount (settlements (trade (fst (pool_run (demo_case ''w'' Seller_Wins) (demo_pool, new_process))))) = [100]" by code_simp
  have round: "py_round 100 2 = 100" "task_status_value SETTLED = ''settled''" by code_simp+
  from executed_cases_are_paid [OF demo_case_steps [of "(demo_pool, new_process)" "''w''" Seller_Wins, unfolded run] demo_pool_inv, of "''k0''" c] c
  obtain r where r: "r \<in> set (settlements (trade d'))" "case pool_award c (r_escrow_amount r) of (target, settled, refunded, n) \<Rightarrow>
      r_status r = task_status_value target \<and> r_released_amount r = Some settled \<and> r_refunded_amount r = Some refunded" by auto
  with escrow run have "r_escrow_amount r = 100" by auto
  with r c(3) round have "r_status r = ''settled'' \<and> r_released_amount r = Some 100" by (simp add: pool_award_def)
  with r(1) run show ?thesis by blast
qed

text \<open>
  C6. The pool and the settlement routes together still refine the abstract machine, and an outcome is final for both:
  a settlement that is settled, refunded or cancelled keeps its row.
\<close>

theorem pool_refines_machine:
  assumes "pool_step\<^sup>*\<^sup>* (d, p) (d', p')" and "table_wf (settlements (trade d))"
  shows "(settlement_move (\<lambda>_. True))\<^sup>*\<^sup>* (settlements (trade d)) (settlements (trade d')) \<and> table_wf (settlements (trade d')) \<and>
    (\<forall>r \<in> set (settlements (trade d)). r_status r \<in> {''settled'', ''refunded'', ''cancelled''} \<longrightarrow> r \<in> set (settlements (trade d')))"
proof -
  note moves = pool_run_moves [OF assms]
  have "r \<in> set (settlements (trade d'))" if "r \<in> set (settlements (trade d))" "r_status r \<in> {''settled'', ''refunded'', ''cancelled''}" for r
  proof -
    have "find_settlement (r_settlement_id r) (settlements (trade d)) = Some r"
      unfolding find_settlement_def by (rule find_unique) (use assms(2) that(1) in \<open>simp_all add: table_wf_def\<close>)
    from over_moves [OF moves assms(2) this] that(2) find_settlement_Some show ?thesis by (auto simp: over_def)
  qed
  with moves moves_wf [OF moves assms(2)] show ?thesis by blast
qed

theorem pool_refines_machine_witness:
  "(settlement_move (\<lambda>_. True))\<^sup>*\<^sup>* (settlements (trade demo_pool))
     (settlements (trade (fst (pool_run (demo_case ''w'' Seller_Wins) (demo_pool, new_process)))))"
proof -
  obtain d' p' where run: "pool_run (demo_case ''w'' Seller_Wins) (demo_pool, new_process) = (d', p')" by (metis surj_pair)
  have "table_wf (settlements (trade demo_pool))" by (simp add: demo_pool_def table_wf_def)
  from pool_refines_machine [OF demo_case_steps [of "(demo_pool, new_process)" "''w''" Seller_Wins, unfolded run] this] run show ?thesis
    by simp
qed

text \<open>
  A party judges its own case: nothing keeps the worker of a disputed settlement from joining the pool, opening the
  case for a single arbitrator, being assigned to it, and deciding and executing it for himself. He is paid the whole
  escrow although the task has no receipt at all and the setting asks for one before every payout.
\<close>

theorem worker_awards_himself:
  "pool_step\<^sup>*\<^sup>* (demo_pool, new_process) (pool_run (demo_case ''w'' Seller_Wins) (demo_pool, new_process)) \<and>
   pool_view (pool_run (demo_case ''w'' Seller_Wins) (demo_pool, new_process)) =
     ([(''settled'', Some 100, Some 0)], [(''k0'', ''executed'', Some ''seller_wins'')]) \<and>
   receipts (trade demo_pool) = [] \<and> map r_worker_agent_id (settlements (trade demo_pool)) = [Some ''w''] \<and>
   list_all (\<lambda>(env, tag, call). payout_requires_receipt env \<and> caller env = Some ''w'') (demo_case ''w'' Seller_Wins)"
  by (intro conjI demo_case_steps demo_case_view)
    (simp_all add: demo_pool_def demo_case_def demo_env_def demo_state_def to_row_def)

end
