(* ===== verification/Arbitration_Ops.thy ===== *)
theory Arbitration_Ops
  imports Arbitration_Pool "HOL-Library.Option_ord"
begin

text \<open>
  The operations reports of the arbitration pool (the \<^verbatim>\<open>/cases/ops\<close> endpoints of \<^verbatim>\<open>api/routes/arbitration.py\<close>):
  counts of cases and outcomes, backlog alerts, the activity of arbitrators and the overdue cases. They only read.
  Times are in microseconds. Groups appear in the order of the rows they are counted from; the generated id of an alert
  is left out.
\<close>

section \<open>Counting\<close>

text \<open>\<open>GROUP BY\<close> with a count, the groups in the order of their first row.\<close>

definition group_counts :: "'a list \<Rightarrow> ('a \<times> nat) list" where
  "group_counts xs = map (\<lambda>x. (x, count_list xs x)) (rev (remdups (rev xs)))"

definition count_of :: "(string \<times> nat) list \<Rightarrow> string \<Rightarrow> nat" where
  "count_of cs k = (case map_of cs k of None \<Rightarrow> 0 | Some n \<Rightarrow> n)"

definition status_counts :: "pool_db \<Rightarrow> (string \<times> nat) list" where
  "status_counts d = group_counts (map (ac_status \<circ> snd) (cases d))"

definition decision_counts :: "pool_db \<Rightarrow> (string \<times> nat) list" where
  "decision_counts d = group_counts (List.map_filter (\<lambda>(k, c). named (ac_outcome c)) (cases d))"

definition hours :: "int \<Rightarrow> int" where
  "hours n = n * 3600 * 10 ^ 6"

text \<open>\<open>sorted(..., reverse=True)\<close> keeps the order of equal elements.\<close>

definition sort_desc :: "('a \<Rightarrow> 'k::linorder) \<Rightarrow> 'a list \<Rightarrow> 'a list" where
  "sort_desc f xs = rev (sort_key f (rev xs))"

section \<open>Alerts\<close>

datatype alert_severity = Sev_Info | Sev_Medium | Sev_High

datatype alert_type = Open_Case_Backlog | Voting_Case_Backlog | Decision_Timeout_Risk | Decision_Partial_Spike

record ops_alert =
  oa_severity :: alert_severity
  oa_type :: alert_type
  oa_message :: string
  oa_metadata :: "(string \<times> meta_value) list"
  oa_at :: int

primrec severity_order :: "alert_severity \<Rightarrow> int" where
  "severity_order Sev_High = 3"
| "severity_order Sev_Medium = 2"
| "severity_order Sev_Info = 1"

definition backlog_alert ::
    "int \<Rightarrow> nat \<Rightarrow> int \<Rightarrow> alert_severity \<Rightarrow> alert_type \<Rightarrow> string \<Rightarrow> string \<Rightarrow> ops_alert list" where
  "backlog_alert tm n threshold sev typ message key =
     (if max 1 threshold \<le> int n
      then [\<lparr>oa_severity = sev, oa_type = typ, oa_message = message @ show_nat n,
             oa_metadata = [(key, Meta_Int (int n)), (''threshold'', Meta_Int (max 1 threshold))], oa_at = tm\<rparr>]
      else [])"

definition partial_spike_alert :: "int \<Rightarrow> (string \<times> nat) list \<Rightarrow> rat \<Rightarrow> ops_alert list" where
  "partial_spike_alert tm decisions threshold =
     (let partial_count = count_of decisions ''partial''; decided_total = sum_list (map snd decisions);
          ratio = (if 0 < decided_total then of_nat partial_count / of_nat decided_total else 0 :: rat);
          limit = max (1 / 100) (min threshold 1)
      in if 0 < decided_total \<and> limit \<le> ratio
         then [\<lparr>oa_severity = Sev_Medium, oa_type = Decision_Partial_Spike,
                oa_message = ''partial decision ratio elevated: '' @ show_2f (ratio * 100) @ ''%'',
                oa_metadata = [(''partial_count'', Meta_Int (int partial_count)), (''decided_total'', Meta_Int (int decided_total)),
                               (''partial_ratio'', Meta_Num (py_round ratio 4)), (''threshold'', Meta_Num limit)],
                oa_at = tm\<rparr>]
         else [])"

definition build_arbitration_ops_alerts ::
    "(string \<times> nat) list \<Rightarrow> (string \<times> nat) list \<Rightarrow> int \<Rightarrow> int \<Rightarrow> int \<Rightarrow> int \<Rightarrow> rat \<Rightarrow> ops_alert list" where
  "build_arbitration_ops_alerts statuses decisions tm open_threshold voting_threshold decided_threshold ratio_threshold =
     sort_desc (\<lambda>a. (severity_order (oa_severity a), oa_at a))
       (backlog_alert tm (count_of statuses ''open'') open_threshold Sev_Medium Open_Case_Backlog
          ''arbitration open-case backlog: '' ''open_cases'' @
        backlog_alert tm (count_of statuses ''voting'') voting_threshold Sev_High Voting_Case_Backlog
          ''arbitration voting-case backlog: '' ''voting_cases'' @
        backlog_alert tm (count_of statuses ''decided'') decided_threshold Sev_High Decision_Timeout_Risk
          ''decided cases pending execution: '' ''decided_cases'' @
        partial_spike_alert tm decisions ratio_threshold)"

section \<open>Activity of arbitrators\<close>

record arbitrator_activity =
  aa_id :: string
  aa_assigned :: nat
  aa_votes :: nat
  aa_last_assigned :: "int option"
  aa_last_voted :: "int option"
  aa_last :: "int option"

text \<open>One group: who, how many rows, the latest.\<close>

definition latest_groups :: "(string \<times> int) list \<Rightarrow> (string \<times> nat \<times> int) list" where
  "latest_groups xs = map (\<lambda>(i, n). (i, n, Max (set (map snd (filter (\<lambda>(j, t). j = i) xs))))) (group_counts (map fst xs))"

definition add_votes :: "(string \<times> arbitrator_activity) list \<Rightarrow> string \<times> nat \<times> int \<Rightarrow> (string \<times> arbitrator_activity) list" where
  "add_votes summaries g =
     (case g of (i, n, t) \<Rightarrow>
        let existing = (case map_of summaries i of Some a \<Rightarrow> a
                        | None \<Rightarrow> \<lparr>aa_id = i, aa_assigned = 0, aa_votes = 0, aa_last_assigned = None, aa_last_voted = None, aa_last = None\<rparr>);
            latest = (case aa_last existing of None \<Rightarrow> Some t | Some l \<Rightarrow> if l < t then Some t else Some l)
        in put_row i (existing\<lparr>aa_votes := n, aa_last_voted := Some t, aa_last := latest\<rparr>) summaries)"

definition list_arbitrator_activity :: "int \<Rightarrow> int \<Rightarrow> int \<Rightarrow> pool_db \<Rightarrow> arbitrator_activity list" where
  "list_arbitrator_activity tm window_hours limit d =
     (let cutoff = tm - hours (max 1 (min window_hours 720));
          assigned = latest_groups (filter (\<lambda>(i, t). cutoff \<le> t) (map (\<lambda>a. (as_arbitrator a, as_at a)) (assignments d)));
          voted = latest_groups (filter (\<lambda>(i, t). cutoff \<le> t) (map (\<lambda>v. (vt_arbitrator v, vt_at v)) (votes d)));
          summaries = map (\<lambda>(i, n, t). (i, \<lparr>aa_id = i, aa_assigned = n, aa_votes = 0, aa_last_assigned = Some t,
                                            aa_last_voted = None, aa_last = Some t\<rparr>)) assigned
      in take (nat (max 1 (min limit 200)))
           (sort_desc (\<lambda>a. (aa_last a, aa_votes a, aa_assigned a)) (map snd (foldl add_votes summaries voted))))"

section \<open>Overdue cases\<close>

datatype overdue_stage = Stage_Open | Stage_Voting | Stage_Decided_Pending_Execution

record overdue_item =
  oi_case_id :: string
  oi_task_id :: string
  oi_status :: string
  oi_opened_by :: string
  oi_outcome :: "string option"
  oi_stage :: overdue_stage
  oi_age_hours :: rat
  oi_threshold :: int
  oi_created_at :: int
  oi_updated_at :: int

definition overdue_case :: "int \<Rightarrow> int \<Rightarrow> int \<Rightarrow> int \<Rightarrow> arb_case \<Rightarrow> bool" where
  "overdue_case tm open_hours voting_hours decided_hours c \<longleftrightarrow>
     ac_status c = ''open'' \<and> ac_created_at c \<le> tm - hours open_hours \<or>
     ac_status c = ''voting'' \<and> ac_updated_at c \<le> tm - hours voting_hours \<or>
     ac_status c = ''decided'' \<and> ac_updated_at c \<le> tm - hours decided_hours"

definition overdue_entry :: "int \<Rightarrow> int \<Rightarrow> int \<Rightarrow> int \<Rightarrow> string \<times> arb_case \<Rightarrow> overdue_item" where
  "overdue_entry tm open_hours voting_hours decided_hours kc =
     (case kc of (k, c) \<Rightarrow>
        let (stage, base, threshold) =
              (if ac_status c = ''open'' then (Stage_Open, ac_created_at c, open_hours)
               else if ac_status c = ''voting'' then (Stage_Voting, ac_updated_at c, voting_hours)
               else (Stage_Decided_Pending_Execution, ac_updated_at c, decided_hours))
        in \<lparr>oi_case_id = k, oi_task_id = ac_task_id c, oi_status = ac_status c, oi_opened_by = ac_opened_by c,
            oi_outcome = named (ac_outcome c), oi_stage = stage,
            oi_age_hours = py_round (max 0 (of_int (tm - base) / of_int (hours 1))) 2, oi_threshold = threshold,
            oi_created_at = ac_created_at c, oi_updated_at = ac_updated_at c\<rparr>)"

definition list_overdue_cases :: "int \<Rightarrow> int \<Rightarrow> int \<Rightarrow> int \<Rightarrow> int \<Rightarrow> pool_db \<Rightarrow> overdue_item list" where
  "list_overdue_cases tm limit open_overdue voting_overdue decided_overdue d =
     (let o_h = max 1 open_overdue; v_h = max 1 voting_overdue; d_h = max 1 decided_overdue
      in map (overdue_entry tm o_h v_h d_h)
           (take (nat (max 1 (min limit 200)))
              (sort_key (\<lambda>(k, c). (ac_updated_at c, ac_created_at c)) (filter (\<lambda>(k, c). overdue_case tm o_h v_h d_h c) (cases d)))))"

section \<open>The report\<close>

record ops_report =
  or_window_hours :: int
  or_total :: nat
  or_statuses :: "(string \<times> nat) list"
  or_decisions :: "(string \<times> nat) list"
  or_events :: "case_event list"
  or_alerts :: "ops_alert list"
  or_activity :: "arbitrator_activity list"
  or_overdue :: "overdue_item list"
  or_at :: int

definition build_arbitration_case_ops_report ::
    "int \<Rightarrow> int \<Rightarrow> int \<Rightarrow> int \<Rightarrow> int \<Rightarrow> int \<Rightarrow> int \<Rightarrow> int \<Rightarrow> int \<Rightarrow> int \<Rightarrow> int \<Rightarrow> rat \<Rightarrow> pool_db \<Rightarrow> ops_report" where
  "build_arbitration_case_ops_report tm window_hours events_limit arbitrator_limit overdue_limit open_hours voting_hours decided_hours
       open_threshold voting_threshold decided_threshold ratio_threshold d =
     (let window = max 1 (min window_hours 720); cutoff = tm - hours window
      in \<lparr>or_window_hours = window, or_total = length (cases d), or_statuses = status_counts d, or_decisions = decision_counts d,
          or_events = rev (take (nat (max 1 (min events_limit 1000)))
                        (sort_desc ce_at (filter (\<lambda>e. cutoff \<le> ce_at e) (case_events d)))),
          or_alerts = build_arbitration_ops_alerts (status_counts d) (decision_counts d) tm open_threshold voting_threshold
                        decided_threshold ratio_threshold,
          or_activity = list_arbitrator_activity tm window arbitrator_limit d,
          or_overdue = list_overdue_cases tm overdue_limit open_hours voting_hours decided_hours d, or_at = tm\<rparr>)"

text \<open>The endpoints, with the defaults the code passes.\<close>

definition get_arbitration_case_ops_report :: "request_env \<Rightarrow> int \<Rightarrow> int \<Rightarrow> int \<Rightarrow> int \<Rightarrow> int \<Rightarrow> int \<Rightarrow> int \<Rightarrow> ops_report pool_route" where
  "get_arbitration_case_ops_report env window events_limit arbitrator_limit overdue_limit open_hours voting_hours decided_hours =
     read_db (build_arbitration_case_ops_report (now env) window events_limit arbitrator_limit overdue_limit open_hours voting_hours
                decided_hours 5 5 3 (1 / 2))"

definition get_arbitration_case_ops_alerts :: "request_env \<Rightarrow> int \<Rightarrow> int \<Rightarrow> int \<Rightarrow> int \<Rightarrow> rat \<Rightarrow> ops_alert list pool_route" where
  "get_arbitration_case_ops_alerts env window open_threshold voting_threshold decided_threshold ratio_threshold =
     read_db (or_alerts \<circ> build_arbitration_case_ops_report (now env) window 50 20 20 24 24 12 open_threshold voting_threshold
                decided_threshold ratio_threshold)"

definition get_arbitration_case_ops_arbitrators :: "request_env \<Rightarrow> int \<Rightarrow> int \<Rightarrow> arbitrator_activity list pool_route" where
  "get_arbitration_case_ops_arbitrators env window limit = read_db (list_arbitrator_activity (now env) window limit)"

definition get_arbitration_case_ops_overdue :: "request_env \<Rightarrow> int \<Rightarrow> int \<Rightarrow> int \<Rightarrow> int \<Rightarrow> overdue_item list pool_route" where
  "get_arbitration_case_ops_overdue env limit open_hours voting_hours decided_hours =
     read_db (list_overdue_cases (now env) limit open_hours voting_hours decided_hours)"

section \<open>What the reports say\<close>

lemma group_counts_sum: "sum_list (map snd (group_counts xs)) = length xs"
proof -
  have "sum_list (map (\<lambda>x. count_list xs x) (rev (remdups (rev xs)))) = (\<Sum>x\<in>set xs. count_list xs x)"
    by (simp add: sum_list_distinct_conv_sum_set)
  also have "\<dots> = length xs" by (simp add: sum_count_set)
  finally show ?thesis by (simp add: group_counts_def o_def)
qed

lemma count_of_group: "count_of (group_counts xs) k = count_list xs k"
proof -
  have "map_of (map (\<lambda>x. (x, count_list xs x)) ys) k = (if k \<in> set ys then Some (count_list xs k) else None)" for ys
    by (induction ys) auto
  then show ?thesis by (simp add: count_of_def group_counts_def)
qed

text \<open>
  The report counts every case once, and its list of overdue cases is exactly the cases past the limit of their
  stage, oldest first, when the limit leaves room for them.
\<close>

theorem overdue_report_exact:
  assumes "length (cases d) \<le> nat (max 1 (min limit 200))"
  shows "sum_list (map snd (status_counts d)) = length (cases d) \<and>
    set (map oi_case_id (list_overdue_cases tm limit o_h v_h d_h d)) =
      {k. \<exists>c. (k, c) \<in> set (cases d) \<and> overdue_case tm (max 1 o_h) (max 1 v_h) (max 1 d_h) c} \<and>
    sorted (map oi_updated_at (list_overdue_cases tm limit o_h v_h d_h d))"
proof -
  let ?F = "filter (\<lambda>(k, c). overdue_case tm (max 1 o_h) (max 1 v_h) (max 1 d_h) c) (cases d)"
  let ?S = "sort_key (\<lambda>(k, c). (ac_updated_at c, ac_created_at c)) ?F"
  have "length ?S \<le> nat (max 1 (min limit 200))" using le_trans [OF length_filter_le assms] by simp
  then have all: "list_overdue_cases tm limit o_h v_h d_h d = map (overdue_entry tm (max 1 o_h) (max 1 v_h) (max 1 d_h)) ?S"
    by (simp add: list_overdue_cases_def Let_def)
  have proj: "oi_case_id (overdue_entry tm a b e kc) = fst kc" "oi_updated_at (overdue_entry tm a b e kc) = ac_updated_at (snd kc)" for a b e kc
    by (simp_all add: overdue_entry_def Let_def split: prod.splits)
  have "sorted (map (\<lambda>(k, c). (ac_updated_at c, ac_created_at c)) ?S)" by (rule sorted_sort_key)
  then have "sorted (map fst (map (\<lambda>(k, c). (ac_updated_at c, ac_created_at c)) ?S))"
    by (rule sorted_map_mono) (auto simp: mono_on_def less_eq_prod_def)
  then have "sorted (map (ac_updated_at \<circ> snd) ?S)" by (simp add: o_def case_prod_unfold)
  moreover have "set (map fst ?S) = {k. \<exists>c. (k, c) \<in> set (cases d) \<and> overdue_case tm (max 1 o_h) (max 1 v_h) (max 1 d_h) c}"
    by force
  ultimately show ?thesis unfolding all by (simp add: status_counts_def group_counts_sum proj o_def)
qed

definition demo_open_case :: arb_case where
  "demo_open_case = \<lparr>ac_task_id = ''t'', ac_settlement_id = ''s'', ac_opened_by = ''b'', ac_reason = None, ac_status = ''open'',
     ac_required = 3, ac_outcome = None, ac_percent = None, ac_created_at = 0, ac_updated_at = 0, ac_executed_at = None\<rparr>"

definition demo_ops_db :: "route_db \<Rightarrow> pool_db" where
  "demo_ops_db t = \<lparr>trade = t, members = [], cases = [(''k'', demo_open_case)], assignments = [], votes = [], materials = [], case_events = []\<rparr>"

theorem overdue_report_exact_witness:
  "\<forall>t. set (map oi_case_id (list_overdue_cases (hours 25) 20 24 24 12 (demo_ops_db t))) = {''k''}"
proof
  fix t
  have "length (cases (demo_ops_db t)) \<le> nat (max 1 (min 20 200))" by (simp add: demo_ops_db_def)
  from overdue_report_exact [OF this, of "hours 25" 24 24 12]
  show "set (map oi_case_id (list_overdue_cases (hours 25) 20 24 24 12 (demo_ops_db t))) = {''k''}"
    by (simp add: demo_ops_db_def demo_open_case_def overdue_case_def hours_def)
qed

end
