(* ===== verification/Delivery_Verification.thy ===== *)
theory Delivery_Verification
  imports Verifier_Attestation Db_Session
begin

text \<open>
  Delivery verification (\<^verbatim>\<open>services/delivery_verification.py\<close>): a session per task collects events and proofs from
  seller, logistics and buyer until the delivery counts as verified. Three modes of scenes ask for different chains:
  physical goods (ship, intake, delivery with a proof, receipt), tickets, and digital work or rides. The catalog of scenes is a
  JSON document and an argument, as are HMAC-SHA256, random tokens, the important-field captures, the fields a scene asks for and
  the breach quote. Times are in microseconds; what the code keeps as an ISO time is kept in whole seconds, and printed where the
  text itself is signed. The notes for display and the file the sessions are written to are left out; an operation holds
  the lock from its checks to its changes.
\<close>

section \<open>Scenes\<close>

text \<open>\<open>{**a, **b}\<close>, and a value used as a dictionary, a list of strings, an integer.\<close>

definition dict_merge :: "dict \<Rightarrow> dict \<Rightarrow> dict" where
  "dict_merge a b = foldl (\<lambda>d (k, v). put_row k v d) a b"

definition as_dict :: "json \<Rightarrow> dict" where
  "as_dict j = (case j of JObj d \<Rightarrow> d | _ \<Rightarrow> [])"

definition as_strings :: "json \<Rightarrow> string list" where
  "as_strings j = (case j of JList xs \<Rightarrow> concat (map (\<lambda>x. case x of JStr s \<Rightarrow> [s] | _ \<Rightarrow> []) xs) | _ \<Rightarrow> [])"

definition as_int :: "json \<Rightarrow> int option" where
  "as_int j = (case j of JInt i \<Rightarrow> Some i | _ \<Rightarrow> None)"

definition as_string_or :: "json \<Rightarrow> string \<Rightarrow> string" where
  "as_string_or j dflt = (case j of JStr s \<Rightarrow> if s = [] then dflt else s | _ \<Rightarrow> dflt)"

definition unknown_scene :: "string \<Rightarrow> dict" where
  "unknown_scene sid =
     [(''scene_id'', JStr sid), (''mode'', JStr ''digital_light''), (''unknown_scene'', JBool True),
      (''buyer_silent_confirm_seconds'', JInt 0),
      (''required_events'', JList [JStr ''execution_receipt_success'', JStr ''proof_fields_covered''])]"

definition merge_loss :: "dict \<Rightarrow> string \<times> json \<Rightarrow> dict" where
  "merge_loss base kv =
     (case kv of
        (k, JObj v) \<Rightarrow> (case map_of base k of Some (JObj b) \<Rightarrow> put_row k (JObj (dict_merge b v)) base | _ \<Rightarrow> put_row k (JObj v) base)
      | (k, v) \<Rightarrow> put_row k v base)"

definition scene_policy :: "dict \<Rightarrow> string \<Rightarrow> dict" where
  "scene_policy cat sid =
     (let defaults = as_dict (dict_get cat ''global_defaults''); scenes = as_dict (dict_get cat ''scenes'');
          scene = (case map_of scenes sid of None \<Rightarrow> unknown_scene sid | Some j \<Rightarrow> as_dict j);
          loss = foldl merge_loss (as_dict (dict_get defaults ''loss_share'')) (as_dict (dict_get scene ''loss_share''));
          merged = put_row ''loss_share'' (JObj loss) (dict_merge defaults scene)
      in put_row ''mode'' (JStr (as_string_or (dict_get scene ''mode'') ''digital_light'')) (put_row ''scene_id'' (JStr sid) merged))"

definition PHYSICAL_MODES :: "string list" where "PHYSICAL_MODES = [''physical_triple'']"
definition TICKET_MODES :: "string list" where "TICKET_MODES = [''ticket_stub'']"
definition DIGITAL_MODES :: "string list" where "DIGITAL_MODES = [''digital_light'', ''ride_track'']"

section \<open>Sessions\<close>

datatype delivery_error = DeliveryVerificationError string

record delivery_event =
  ev_kind :: string
  ev_at :: int
  ev_extra :: dict

record delivery_proof =
  pf_hash :: string
  pf_uri :: "string option"
  pf_role :: string
  pf_actor :: string
  pf_nonce :: "string option"
  pf_captured :: "string option"
  pf_geo :: "string option"
  pf_tag :: "string option"
  pf_meta :: dict
  pf_at :: int

record capture_challenge =
  ch_role :: string
  ch_nonce :: string
  ch_captured :: string
  ch_geo :: "string option"
  ch_tag :: string
  ch_overlay :: string
  ch_expires :: int

record loss_share =
  ls_logistics_bps :: int
  ls_seller_bps :: int
  ls_logistics_amount :: rat
  ls_seller_amount :: rat

record delivery_session =
  dv_task :: string
  dv_scene :: string
  dv_mode :: string
  dv_status :: string
  dv_seller :: string
  dv_buyer :: string
  dv_logistics :: "string option"
  dv_capture :: "string option"
  dv_amount :: "rat option"
  dv_required :: "string list"
  dv_silent :: "int option"
  dv_events :: "delivery_event list"
  dv_proofs :: "(string \<times> delivery_proof) list"
  dv_challenges :: "(string \<times> capture_challenge) list"
  dv_created_at :: int
  dv_updated_at :: int
  dv_deadline :: "int option"
  dv_verified_at :: "int option"
  dv_liability :: "json option"
  dv_loss :: "loss_share option"
  dv_high_risk :: bool
  dv_receipt_ok :: bool
  dv_fields_ok :: bool
  dv_fields_missing :: "string list"

type_synonym delivery_store = "(string \<times> delivery_session) list"

record delivery_env =
  dv_now :: int
  dv_catalog :: dict
  dv_tag_key :: "string option"
  dv_app_env :: "string option"
  dv_karma_env :: "string option"
  dv_sha :: "bytes \<Rightarrow> bytes"
  dv_hmac :: "bytes \<Rightarrow> bytes \<Rightarrow> bytes"
  dv_capture_of :: "string \<Rightarrow> string + (string \<times> string option)"
  dv_fields_of :: "string \<Rightarrow> string list"
  dv_breach :: "string \<Rightarrow> string \<Rightarrow> rat \<Rightarrow> rat \<Rightarrow> json option"

definition seconds :: "int \<Rightarrow> int" where
  "seconds t = t div 10 ^ 6"

text \<open>\<open>datetime.isoformat\<close> of whole seconds since 1970 in UTC, with \<open>Z\<close>.\<close>

definition pad2 :: "int \<Rightarrow> string" where
  "pad2 n = (if n < 10 then CHR ''0'' # show_int n else show_int n)"

definition civil_date :: "int \<Rightarrow> int \<times> int \<times> int" where
  "civil_date days =
     (let z = days + 719468; era = z div 146097; doe = z mod 146097;
          yoe = (doe - doe div 1460 + doe div 36524 - doe div 146096) div 365;
          doy = doe - (365 * yoe + yoe div 4 - yoe div 100); mp = (5 * doy + 2) div 153;
          m = (if mp < 10 then mp + 3 else mp - 9)
      in (yoe + era * 400 + (if m \<le> 2 then 1 else 0), m, doy - (153 * mp + 2) div 5 + 1))"

definition iso_time :: "int \<Rightarrow> string" where
  "iso_time s =
     (let (y, m, d) = civil_date (s div 86400); r = s mod 86400
      in show_int y @ ''-'' @ pad2 m @ ''-'' @ pad2 d @ ''T'' @ pad2 (r div 3600) @ '':'' @ pad2 (r div 60 mod 60) @ '':'' @
         pad2 (r mod 60) @ ''Z'')"

lemma iso_time_examples:
  "iso_time 0 = ''1970-01-01T00:00:00Z''" "iso_time 951825599 = ''2000-02-29T11:59:59Z''"
  by code_simp+

definition given :: "string option \<Rightarrow> string option" where
  "given x = (case x of Some s \<Rightarrow> if s = [] then None else Some s | None \<Rightarrow> None)"

definition tag_master_key :: "delivery_env \<Rightarrow> delivery_error + bytes" where
  "tag_master_key env =
     (let raw = strip (case dv_tag_key env of None \<Rightarrow> [] | Some s \<Rightarrow> s) in
      if raw \<noteq> [] then Inr (if is_hex64 (lower raw) then the (from_hex raw) else dv_sha env raw)
      else let mode = lower (case given (dv_app_env env) of Some s \<Rightarrow> s
                             | None \<Rightarrow> (case given (dv_karma_env env) of Some s \<Rightarrow> s | None \<Rightarrow> ''dev''))
           in if mode \<in> {''prod'', ''production'', ''staging''}
              then Inl (DeliveryVerificationError ''KARMA_DELIVERY_TAG_KEY required in production/staging'')
              else Inr (dv_sha env ''karma-delivery-tag-dev-only''))"

definition append_event :: "delivery_env \<Rightarrow> string \<Rightarrow> dict \<Rightarrow> delivery_session \<Rightarrow> delivery_session" where
  "append_event env kind extra s =
     s\<lparr>dv_events := dv_events s @ [\<lparr>ev_kind = kind, ev_at = seconds (dv_now env), ev_extra = extra\<rparr>],
       dv_updated_at := seconds (dv_now env)\<rparr>"

definition has_event :: "delivery_session \<Rightarrow> string \<Rightarrow> bool" where
  "has_event s kind \<longleftrightarrow> list_ex (\<lambda>e. ev_kind e = kind) (dv_events s)"

definition has_proof :: "delivery_session \<Rightarrow> string \<Rightarrow> bool" where
  "has_proof s k \<longleftrightarrow> k \<in> set (map fst (dv_proofs s))"

section \<open>Operations on a session\<close>

definition session_of_task :: "delivery_store \<Rightarrow> string \<Rightarrow> (string \<times> delivery_session) option" where
  "session_of_task st tid = find (\<lambda>(k, s). dv_task s = tid) st"

definition first_status :: "string \<Rightarrow> string" where
  "first_status mode =
     (if mode \<in> set PHYSICAL_MODES \<or> mode \<in> set TICKET_MODES \<or> mode = ''ride_track'' then ''AWAITING_SELLER_SHIP'' else ''CREATED'')"

definition new_session ::
    "delivery_env \<Rightarrow> string \<Rightarrow> string \<Rightarrow> string \<Rightarrow> string \<Rightarrow> string option \<Rightarrow> string option \<Rightarrow> rat option \<Rightarrow> delivery_session" where
  "new_session env tid sid seller buyer logistics cap amount =
     (let pol = scene_policy (dv_catalog env) sid; mode = as_string_or (dict_get pol ''mode'') ''digital_light''; t = seconds (dv_now env)
      in \<lparr>dv_task = tid, dv_scene = sid, dv_mode = mode, dv_status = first_status mode, dv_seller = seller, dv_buyer = buyer,
          dv_logistics = logistics, dv_capture = cap, dv_amount = amount, dv_required = as_strings (dict_get pol ''required_events''),
          dv_silent = as_int (dict_get pol ''buyer_silent_confirm_seconds''), dv_events = [], dv_proofs = [], dv_challenges = [],
          dv_created_at = t, dv_updated_at = t, dv_deadline = None, dv_verified_at = None, dv_liability = None, dv_loss = None,
          dv_high_risk = truthy (dict_get pol ''high_risk''), dv_receipt_ok = False, dv_fields_ok = False, dv_fields_missing = []\<rparr>)"

definition capture_matches :: "delivery_env \<Rightarrow> string \<Rightarrow> string \<Rightarrow> delivery_error + unit" where
  "capture_matches env sid cap =
     (case dv_capture_of env cap of
        Inl e \<Rightarrow> Inl (DeliveryVerificationError e)
      | Inr (st, scene) \<Rightarrow>
        if st \<noteq> ''MATCHED'' then Inl (DeliveryVerificationError (''important fields capture must be MATCHED, got '' @ st))
        else if given scene \<noteq> None \<and> given scene \<noteq> Some sid then Inl (DeliveryVerificationError ''capture scene_id mismatch'')
        else Inr ())"

text \<open>An open session of the task is returned instead of a new one; the result names the session.\<close>

definition create_verification_session ::
    "delivery_env \<Rightarrow> string \<Rightarrow> string \<Rightarrow> string \<Rightarrow> string \<Rightarrow> string \<Rightarrow> string option \<Rightarrow> string option \<Rightarrow> rat option \<Rightarrow>
     delivery_store \<Rightarrow> delivery_store \<times> (delivery_error + string)" where
  "create_verification_session env token tid sid seller buyer logistics cap amount st =
     (let s = new_session env tid sid seller buyer logistics cap amount; pol = scene_policy (dv_catalog env) sid in
      if dv_mode s \<in> set PHYSICAL_MODES \<and> given logistics = None
      then (st, Inl (DeliveryVerificationError ''physical_triple mode requires logistics_agent_id''))
      else if given logistics \<noteq> None \<and> logistics \<in> {Some seller, Some buyer}
      then (st, Inl (DeliveryVerificationError ''logistics_agent_id must be distinct from buyer/seller (anti-collusion)''))
      else case (case given cap of Some c \<Rightarrow> if truthy (dict_get pol ''require_matched_if_capture'') then capture_matches env sid c else Inr ()
                                 | None \<Rightarrow> Inr ()) of
        Inl e \<Rightarrow> (st, Inl e)
      | Inr _ \<Rightarrow>
        (case session_of_task st tid of
           Some (k, old) \<Rightarrow>
             if dv_status old \<notin> {''VERIFIED'', ''FAILED'', ''REJECTED''} then (st, Inr k)
             else (put_row (''dv_'' @ token) s st, Inr (''dv_'' @ token))
         | None \<Rightarrow> (put_row (''dv_'' @ token) s st, Inr (''dv_'' @ token))))"

definition tag_material :: "string \<Rightarrow> delivery_session \<Rightarrow> string \<Rightarrow> string \<Rightarrow> string \<Rightarrow> string \<Rightarrow> string" where
  "tag_material vid s role nonce captured geo = join ''|'' [vid, dv_task s, role, nonce, captured, geo]"

definition tag_of :: "delivery_env \<Rightarrow> bytes \<Rightarrow> string \<Rightarrow> string" where
  "tag_of env key material = hex (dv_hmac env key material)"

definition issue_capture_challenge ::
    "delivery_env \<Rightarrow> string \<Rightarrow> string \<Rightarrow> string \<Rightarrow> string option \<Rightarrow> string \<Rightarrow> delivery_session \<Rightarrow> delivery_error + delivery_session" where
  "issue_capture_challenge env nonce cid party geo_hash vid s =
     (let role = strip (lower party); geo = strip (case geo_hash of None \<Rightarrow> [] | Some g \<Rightarrow> g); t = iso_time (seconds (dv_now env)) in
      if role \<notin> {''seller'', ''logistics'', ''buyer''} then Inl (DeliveryVerificationError ''party_role must be seller|logistics|buyer'')
      else case tag_master_key env of
        Inl e \<Rightarrow> Inl e
      | Inr key \<Rightarrow>
        Inr (s\<lparr>dv_challenges := put_row (''ch_'' @ cid)
                 \<lparr>ch_role = role, ch_nonce = nonce, ch_captured = t, ch_geo = given (Some geo),
                  ch_tag = tag_of env key (tag_material vid s role nonce t geo),
                  ch_overlay = ''KARMA|'' @ take 12 (dv_task s) @ ''|'' @ role @ ''|'' @ take 8 nonce @ ''|'' @ t,
                  ch_expires = seconds (dv_now env + 15 * 60 * 10 ^ 6)\<rparr> (dv_challenges s),
               dv_updated_at := seconds (dv_now env)\<rparr>))"

definition verify_tag ::
    "delivery_env \<Rightarrow> string \<Rightarrow> delivery_session \<Rightarrow> string \<Rightarrow> string \<Rightarrow> string \<Rightarrow> string option \<Rightarrow> string \<Rightarrow> delivery_error + unit" where
  "verify_tag env vid s role nonce captured geo_hash tag =
     (case tag_master_key env of
        Inl e \<Rightarrow> Inl e
      | Inr key \<Rightarrow>
        if tag_of env key (tag_material vid s role nonce captured (strip (case geo_hash of None \<Rightarrow> [] | Some g \<Rightarrow> g))) \<noteq> tag
        then Inl (DeliveryVerificationError ''anti-forge photo tag HMAC mismatch'')
        else case find (\<lambda>(k, ch). ch_nonce ch = nonce \<and> ch_role ch = role) (dv_challenges s) of
          None \<Rightarrow> Inl (DeliveryVerificationError ''unknown capture challenge nonce'')
        | Some (k, ch) \<Rightarrow>
          if ch_expires ch * 10 ^ 6 < dv_now env then Inl (DeliveryVerificationError ''capture challenge expired - re-issue challenge'')
          else Inr ())"

record proof_body =
  pb_type :: string
  pb_hash :: string
  pb_actor :: string
  pb_role :: string
  pb_uri :: "string option"
  pb_nonce :: "string option"
  pb_captured :: "string option"
  pb_geo :: "string option"
  pb_tag :: "string option"
  pb_meta :: dict

definition ends_with :: "string \<Rightarrow> string \<Rightarrow> bool" where
  "ends_with x s \<longleftrightarrow> length x \<le> length s \<and> drop (length s - length x) s = x"

definition submit_proof :: "delivery_env \<Rightarrow> string \<Rightarrow> proof_body \<Rightarrow> delivery_session \<Rightarrow> delivery_error + delivery_session" where
  "submit_proof env vid b s =
     (let role = strip (lower (pb_role b)); ptype = strip (pb_type b) in
      if ptype = [] \<or> pb_hash b = [] then Inl (DeliveryVerificationError ''proof_type and content_hash required'')
      else if length (pb_hash b) < 16 then Inl (DeliveryVerificationError ''content_hash too short'')
      else case (if ends_with ''_tagged'' ptype
                 then case (given (pb_nonce b), given (pb_captured b), given (pb_tag b)) of
                        (Some nonce, Some captured, Some tag) \<Rightarrow> verify_tag env vid s role nonce captured (pb_geo b) tag
                      | _ \<Rightarrow> Inl (DeliveryVerificationError ''tagged photo requires nonce, captured_at, tag_hmac from capture-challenge'')
                 else Inr ()) of
        Inl e \<Rightarrow> Inl e
      | Inr _ \<Rightarrow>
        Inr (append_event env (''proof:'' @ ptype) [(''actor_agent_id'', JStr (pb_actor b)), (''content_hash'', JStr (pb_hash b))]
               (s\<lparr>dv_proofs := put_row ptype
                    \<lparr>pf_hash = pb_hash b, pf_uri = pb_uri b, pf_role = role, pf_actor = pb_actor b, pf_nonce = pb_nonce b,
                     pf_captured = pb_captured b, pf_geo = pb_geo b, pf_tag = pb_tag b, pf_meta = pb_meta b,
                     pf_at = seconds (dv_now env)\<rparr> (dv_proofs s)\<rparr>)))"

definition by_actor :: "string \<Rightarrow> dict \<Rightarrow> dict" where
  "by_actor a extra = (''actor_agent_id'', JStr a) # extra"

definition silent_deadline :: "delivery_env \<Rightarrow> int \<Rightarrow> int" where
  "silent_deadline env silent = seconds (dv_now env + silent * 10 ^ 6)"

definition seller_ship ::
    "delivery_env \<Rightarrow> string \<Rightarrow> string option \<Rightarrow> dict \<Rightarrow> delivery_session \<Rightarrow> delivery_error + delivery_session" where
  "seller_ship env actor ship_hash meta s =
     (let extra = by_actor actor [(''meta'', JObj meta)] in
      if actor \<noteq> dv_seller s then Inl (DeliveryVerificationError ''only seller_agent_id may confirm ship/issue'')
      else if dv_mode s \<in> set PHYSICAL_MODES
      then if dv_status s \<notin> {''AWAITING_SELLER_SHIP'', ''CREATED''}
           then Inl (DeliveryVerificationError (''cannot ship from status '' @ dv_status s))
           else let s1 = append_event env ''seller_shipped'' extra s;
                    s2 = (case given ship_hash of
                            None \<Rightarrow> s1
                          | Some h \<Rightarrow> s1\<lparr>dv_proofs := put_row ''ship_ref''
                              \<lparr>pf_hash = h, pf_uri = None, pf_role = [], pf_actor = [], pf_nonce = None, pf_captured = None, pf_geo = None,
                               pf_tag = None, pf_meta = [], pf_at = seconds (dv_now env)\<rparr> (dv_proofs s1)\<rparr>)
                in Inr (s2\<lparr>dv_status := ''AWAITING_LOGISTICS_INTAKE''\<rparr>)
      else if dv_mode s \<in> set TICKET_MODES
      then Inr ((append_event env ''seller_issued_confirmation'' extra s)\<lparr>dv_status := ''AWAITING_BUYER_RECEIPT''\<rparr>)
      else if dv_mode s = ''ride_track''
      then let s1 = (append_event env ''seller_trip_completed'' extra s)\<lparr>dv_status := ''AWAITING_BUYER_RECEIPT''\<rparr>
           in Inr (case dv_silent s of Some n \<Rightarrow> if 0 < n then s1\<lparr>dv_deadline := Some (silent_deadline env n)\<rparr> else s1 | None \<Rightarrow> s1)
      else Inr ((append_event env ''seller_delivered_digital'' extra s)\<lparr>dv_status := ''AWAITING_BUYER_RECEIPT''\<rparr>))"

definition bps_or :: "json \<Rightarrow> int" where
  "bps_or j = (case as_int j of Some n \<Rightarrow> if n = 0 then 5000 else n | None \<Rightarrow> 5000)"

definition wrong_item_loss :: "dict \<Rightarrow> rat \<Rightarrow> loss_share" where
  "wrong_item_loss pol amount =
     (let share = as_dict (dict_get (as_dict (dict_get pol ''loss_share'')) ''wrong_item_at_intake'');
          l = bps_or (dict_get share ''logistics_bps''); sl = bps_or (dict_get share ''seller_bps'')
      in \<lparr>ls_logistics_bps = l, ls_seller_bps = sl, ls_logistics_amount = py_round (amount * of_int l / 10000) 6,
          ls_seller_amount = py_round (amount * of_int sl / 10000) 6\<rparr>)"

definition amount_or_0 :: "delivery_session \<Rightarrow> rat" where
  "amount_or_0 s = (case dv_amount s of None \<Rightarrow> 0 | Some a \<Rightarrow> a)"

definition optional_text :: "string \<Rightarrow> string option \<Rightarrow> dict" where
  "optional_text k x = [(k, case x of None \<Rightarrow> JNull | Some s \<Rightarrow> JStr s)]"

definition logistics_intake ::
    "delivery_env \<Rightarrow> string \<Rightarrow> bool \<Rightarrow> string option \<Rightarrow> string option \<Rightarrow> delivery_session \<Rightarrow> delivery_error + delivery_session" where
  "logistics_intake env actor item_matches remark intake_hash s =
     (if dv_mode s \<notin> set PHYSICAL_MODES then Inl (DeliveryVerificationError ''logistics_intake only for physical_triple'')
      else if Some actor \<noteq> dv_logistics s then Inl (DeliveryVerificationError ''only logistics_agent_id may confirm intake'')
      else if dv_status s \<noteq> ''AWAITING_LOGISTICS_INTAKE''
      then Inl (DeliveryVerificationError (''cannot intake from status '' @ dv_status s))
      else if item_matches
      then Inr ((append_event env ''logistics_intake_ok''
                   (by_actor actor (optional_text ''note'' remark @ optional_text ''intake_proof_hash'' intake_hash)) s)\<lparr>dv_status := ''IN_TRANSIT''\<rparr>)
      else let s1 = append_event env ''logistics_wrong_item'' (by_actor actor (optional_text ''note'' remark)) s;
               pol = scene_policy (dv_catalog env) (dv_scene s)
           in Inr (s1\<lparr>dv_status := ''WRONG_ITEM'', dv_loss := Some (wrong_item_loss pol (amount_or_0 s)),
                      dv_liability := (case dv_breach env (dv_seller s) (dv_scene s) (amount_or_0 s) (1 / 2) of
                                         None \<Rightarrow> Some (JObj [(''error'', JStr ''breach_quote_failed'')]) | Some j \<Rightarrow> Some j)\<rparr>))"

definition logistics_deliver :: "delivery_env \<Rightarrow> string \<Rightarrow> string \<Rightarrow> proof_body \<Rightarrow> delivery_session \<Rightarrow> delivery_error + delivery_session" where
  "logistics_deliver env vid actor b s =
     (if dv_mode s \<notin> set PHYSICAL_MODES then Inl (DeliveryVerificationError ''logistics_deliver only for physical_triple'')
      else if Some actor \<noteq> dv_logistics s then Inl (DeliveryVerificationError ''only logistics_agent_id may confirm deliver'')
      else if dv_status s \<notin> {''IN_TRANSIT'', ''AWAITING_LOGISTICS_DELIVER''}
      then Inl (DeliveryVerificationError (''cannot deliver from status '' @ dv_status s))
      else if \<not> has_event s ''logistics_intake_ok'' then Inl (DeliveryVerificationError ''logistics intake_ok required before deliver'')
      else case submit_proof env vid (b\<lparr>pb_actor := actor, pb_role := ''logistics'', pb_meta := []\<rparr>) s of
        Inl e \<Rightarrow> Inl e
      | Inr s1 \<Rightarrow>
        (let s2 = (append_event env ''logistics_delivered'' (by_actor actor []) s1)\<lparr>dv_status := ''AWAITING_BUYER_RECEIPT''\<rparr>;
             silent = (case dv_silent s2 of None \<Rightarrow> 1800 | Some n \<Rightarrow> n)
         in Inr (if 0 < silent then s2\<lparr>dv_deadline := Some (silent_deadline env silent)\<rparr> else s2)))"

text \<open>Other names under which a required proof may have been submitted.\<close>

definition proof_aliases :: "string \<Rightarrow> string list" where
  "proof_aliases key =
     (case map_of
        [(''delivery_photo_tagged'', [''delivery_photo_tagged'', ''delivery_photo_or_code'']),
         (''email_receipt_or_confirmation_code'',
            [''email_receipt'', ''confirmation_code'', ''booking_ref'', ''email_receipt_or_confirmation_code'']),
         (''ticket_number_or_pnr'', [''ticket_number_hash'', ''pnr'', ''ticket_number_or_pnr'']),
         (''email_receipt_ref'', [''email_receipt'', ''email_receipt_ref'']),
         (''route_or_odometer'', [''route_or_odometer'', ''route_track_hash'']),
         (''fare_final'', [''fare_final'']), (''goods_receipt'', [''goods_receipt'']),
         (''qa_or_quantity'', [''qa_report_hash'', ''quantity_accepted'', ''qa_or_quantity'']),
         (''qa_report_hash'', [''qa_report_hash'']), (''deliverable_hash'', [''deliverable_hash'']),
         (''campaign_report_hash'', [''campaign_report_hash'']),
         (''service_completion_ref'', [''service_completion_ref'', ''completion_code'', ''appointment_ack'']),
         (''attendance_or_completion_ref'', [''attendance_or_completion_ref'', ''attendance_code'', ''certificate_ref''])] key of
        None \<Rightarrow> [key] | Some xs \<Rightarrow> xs)"

definition requirement_met :: "delivery_session \<Rightarrow> string \<Rightarrow> bool" where
  "requirement_met s r \<longleftrightarrow>
     (if r = ''proof:recipient_ack_or_silent''
      then has_event s ''buyer_confirmed'' \<or> has_event s ''buyer_silent_default'' \<or> has_proof s ''recipient_ack''
      else if r = ''proof_fields_covered'' then True
      else if r = ''execution_receipt_success'' then has_event s ''execution_receipt_success'' \<or> dv_receipt_ok s
      else if r = ''buyer_explicit_accept'' then has_event s ''buyer_confirmed''
      else if take 6 r = ''proof:''
      then list_ex (\<lambda>a. has_proof s a \<or> has_event s (''proof:'' @ a)) (proof_aliases (drop 6 r))
      else has_event s r)"

definition missing_requirements :: "delivery_session \<Rightarrow> string list" where
  "missing_requirements s = filter (\<lambda>r. \<not> requirement_met s r) (dv_required s)"

definition assert_seller_logistics_chain_ok :: "delivery_session \<Rightarrow> string + unit" where
  "assert_seller_logistics_chain_ok s =
     (if dv_mode s \<in> set PHYSICAL_MODES
      then if \<not> has_event s ''seller_shipped'' then Inl ''missing seller_shipped''
           else if \<not> has_event s ''logistics_intake_ok'' then Inl ''missing logistics_intake_ok''
           else if \<not> has_event s ''logistics_delivered'' then Inl ''missing logistics_delivered''
           else if dv_status s = ''WRONG_ITEM'' then Inl ''wrong_item''
           else if \<not> has_proof s ''delivery_photo_tagged'' \<and> \<not> has_proof s ''delivery_photo_or_code'' then Inl ''missing tagged delivery photo''
           else Inr ()
      else if dv_mode s = ''ride_track''
      then if has_event s ''seller_trip_completed'' then Inr () else Inl ''missing trip completed''
      else if dv_mode s \<in> set TICKET_MODES
      then if has_event s ''seller_issued_confirmation'' then Inr () else Inl ''missing seller confirmation''
      else Inr ())"

definition mark_execution_receipt :: "delivery_env \<Rightarrow> bool \<Rightarrow> delivery_session \<Rightarrow> delivery_session" where
  "mark_execution_receipt env ok s =
     (let s1 = s\<lparr>dv_receipt_ok := ok\<rparr> in if ok then append_event env ''execution_receipt_success'' [] s1 else s1)"

text \<open>\<open>x in s\<close> and \<open>s.replace(x, "")\<close> for strings.\<close>

definition contains_str :: "string \<Rightarrow> string \<Rightarrow> bool" where
  "contains_str s x \<longleftrightarrow> list_ex (\<lambda>k. take (length x) (drop k s) = x) [0 ..< Suc (length s)]"

function remove_str :: "string \<Rightarrow> string \<Rightarrow> string" where
  "remove_str x s =
     (if s = [] \<or> x = [] then s
      else if take (length x) s = x then remove_str x (drop (length x) s) else hd s # remove_str x (tl s))"
  by pat_completeness auto
termination by (relation "measure (length \<circ> snd)") (auto simp: le_eq_less_or_eq neq_Nil_conv)

declare remove_str.simps [simp del]

definition covering_keys :: "delivery_session \<Rightarrow> string list \<Rightarrow> string list" where
  "covering_keys s keys =
     (let submitted = keys @ map fst (dv_proofs s)
      in submitted @ concat (map (\<lambda>k. if ends_with ''_tagged'' k
                                      then remove_str ''_tagged'' k #
                                           (if contains_str k ''delivery_photo''
                                            then [''delivery_photo_or_code'', ''delivery_proof'', ''delivered_at'', ''recipient_ack''] else [])
                                      else []) submitted))"

definition cover_proof_fields_from_if :: "delivery_env \<Rightarrow> string list \<Rightarrow> delivery_session \<Rightarrow> delivery_session" where
  "cover_proof_fields_from_if env keys s =
     (let required = dv_fields_of env (dv_scene s); submitted = covering_keys s keys;
          missing = filter (\<lambda>r. r \<notin> set submitted \<and> \<not> list_ex (\<lambda>k. contains_str k r \<or> contains_str r k) submitted) required
      in if missing = []
         then (if has_event s ''proof_fields_covered'' then s
               else append_event env ''proof_fields_covered'' [(''required'', JList (map JStr required))] s)\<lparr>dv_fields_ok := True, dv_fields_missing := []\<rparr>
         else s\<lparr>dv_fields_ok := False, dv_fields_missing := missing\<rparr>)"

definition verified :: "delivery_env \<Rightarrow> delivery_session \<Rightarrow> delivery_session" where
  "verified env s = s\<lparr>dv_status := ''VERIFIED'', dv_verified_at := Some (seconds (dv_now env))\<rparr>"

text \<open>The result is the changed session; what is missing is returned with it.\<close>

definition verify_covered :: "delivery_env \<Rightarrow> delivery_session \<Rightarrow> delivery_session \<times> string list" where
  "verify_covered env s =
     (let missing = missing_requirements s in
      if dv_high_risk s \<and> \<not> has_event s ''buyer_confirmed'' then (s, [''buyer_explicit_accept''])
      else if missing \<noteq> [] then (s\<lparr>dv_updated_at := seconds (dv_now env)\<rparr>, missing)
      else if has_event s ''buyer_confirmed'' \<or> has_event s ''buyer_silent_default'' then (verified env s, [])
      else if dv_mode s \<in> set DIGITAL_MODES \<and> \<not> dv_high_risk s
      then if dv_receipt_ok s \<and> (dv_fields_ok s \<or> dv_silent s = Some 0)
           then (verified env (if has_event s ''auto_verified_digital'' then s else append_event env ''auto_verified_digital'' [] s), [])
           else (s, [])
      else if dv_mode s \<in> set TICKET_MODES \<and> has_event s ''seller_issued_confirmation'' \<and> dv_status s = ''BUYER_CONFIRMED''
      then (verified env s, [])
      else (s, []))"

definition try_verify :: "delivery_env \<Rightarrow> delivery_session \<Rightarrow> delivery_session \<times> string list" where
  "try_verify env s =
     (if dv_status s \<in> {''VERIFIED'', ''WRONG_ITEM'', ''FAILED'', ''DISPUTED''} then (s, [])
      else verify_covered env (if dv_mode s \<in> set DIGITAL_MODES \<and> dv_receipt_ok s then cover_proof_fields_from_if env [] s else s))"

definition buyer_confirm ::
    "delivery_env \<Rightarrow> string \<Rightarrow> bool \<Rightarrow> string option \<Rightarrow> delivery_session \<Rightarrow> delivery_error + delivery_session" where
  "buyer_confirm env actor confirm remark s =
     (if actor \<noteq> dv_buyer s then Inl (DeliveryVerificationError ''only buyer_agent_id may confirm receipt'')
      else if dv_status s \<in> {''VERIFIED'', ''WRONG_ITEM'', ''FAILED''} then Inr s
      else case (if dv_mode s \<in> set PHYSICAL_MODES then assert_seller_logistics_chain_ok s else Inr ()) of
        Inl reason \<Rightarrow> Inl (DeliveryVerificationError (''cannot buyer-confirm: '' @ reason))
      | Inr _ \<Rightarrow>
        if confirm
        then Inr (fst (try_verify env ((append_event env ''buyer_confirmed'' (optional_text ''note'' remark) s)\<lparr>dv_status := ''BUYER_CONFIRMED''\<rparr>)))
        else let s1 = (append_event env ''buyer_rejected'' (optional_text ''note'' remark) s)\<lparr>dv_status := ''REJECTED''\<rparr>
             in Inr (case dv_breach env (dv_seller s) (dv_scene s) (amount_or_0 s) (3 / 10) of
                       None \<Rightarrow> s1 | Some j \<Rightarrow> s1\<lparr>dv_liability := Some j\<rparr>))"

text \<open>\<open>None\<close> when nothing applies.\<close>

definition apply_silent_buyer_default :: "delivery_env \<Rightarrow> delivery_session \<Rightarrow> delivery_session option" where
  "apply_silent_buyer_default env s =
     (if dv_status s \<in> {''VERIFIED'', ''BUYER_CONFIRMED'', ''BUYER_SILENT_DEFAULT'', ''WRONG_ITEM'', ''FAILED'', ''REJECTED''} then None
      else if dv_high_risk s then None
      else case (dv_silent s, dv_deadline s) of
        (Some silent, Some deadline) \<Rightarrow>
          if silent \<le> 0 \<or> dv_now env \<le> deadline * 10 ^ 6 then None
          else (case assert_seller_logistics_chain_ok s of
                  Inl reason \<Rightarrow> Some s
                | Inr _ \<Rightarrow>
                  Some (fst (try_verify env
                    ((append_event env ''buyer_silent_default'' [(''reason'', JStr ''buyer_silent_after_logistics_pod'')] s)
                       \<lparr>dv_status := ''BUYER_SILENT_DEFAULT''\<rparr>))))
      | _ \<Rightarrow> None)"

section \<open>Operations on the store\<close>

definition with_session ::
    "string \<Rightarrow> (delivery_session \<Rightarrow> delivery_error + delivery_session) \<Rightarrow> delivery_store \<Rightarrow> delivery_store \<times> (delivery_error + delivery_session)" where
  "with_session vid f st =
     (case map_of st vid of
        None \<Rightarrow> (st, Inl (DeliveryVerificationError (''unknown verification_id: '' @ vid)))
      | Some s \<Rightarrow> (case f s of Inl e \<Rightarrow> (st, Inl e) | Inr s' \<Rightarrow> (put_row vid s' st, Inr s')))"

fun sweep_silent :: "delivery_env \<Rightarrow> int \<Rightarrow> string list \<Rightarrow> string list \<Rightarrow> delivery_store \<Rightarrow> delivery_store \<times> string list" where
  "sweep_silent env limit [] applied st = (st, applied)"
| "sweep_silent env limit (vid # rest) applied st =
     (if limit \<le> int (length applied) then (st, applied)
      else case map_of st vid of
        None \<Rightarrow> sweep_silent env limit rest applied st
      | Some s \<Rightarrow>
        (case apply_silent_buyer_default env s of
           None \<Rightarrow> sweep_silent env limit rest applied st
         | Some s' \<Rightarrow>
           sweep_silent env limit rest
             (if dv_status s' \<in> {''VERIFIED'', ''BUYER_SILENT_DEFAULT''} then applied @ [vid] else applied) (put_row vid s' st)))"

definition expire_silent_buyers :: "delivery_env \<Rightarrow> int \<Rightarrow> delivery_store \<Rightarrow> delivery_store \<times> string list" where
  "expire_silent_buyers env limit st = sweep_silent env limit (py_take (limit * 2) (map fst st)) [] st"

definition require_verified_for_settle ::
    "delivery_env \<Rightarrow> string \<Rightarrow> string option \<Rightarrow> bool \<Rightarrow> delivery_store \<Rightarrow> delivery_store \<times> (delivery_error + delivery_session option)" where
  "require_verified_for_settle env tid sid allow_missing st0 =
     (let (st, _) = expire_silent_buyers env 50 st0 in
      case session_of_task st tid of
        None \<Rightarrow>
          (let mode = as_string_or (dict_get (scene_policy (dv_catalog env) (case given sid of None \<Rightarrow> ''api_tool_call'' | Some x \<Rightarrow> x)) ''mode'') []
           in if allow_missing \<and> mode \<in> set DIGITAL_MODES then (st, Inr None)
              else (st, Inl (DeliveryVerificationError ''delivery verification session required - POST /v1/delivery-verification/sessions'')))
      | Some (vid, s) \<Rightarrow>
        if dv_status s = ''VERIFIED'' then (st, Inr (Some s))
        else let (s', missing) = try_verify env s; st' = put_row vid s' st
             in if dv_status s' = ''VERIFIED'' then (st', Inr (Some s'))
                else (st', Inl (DeliveryVerificationError
                        (''delivery not VERIFIED (status='' @ dv_status s' @ ''); missing='' @ join '','' missing))))"

section \<open>Requests\<close>

datatype delivery_call =
    Challenge string string string "string option"
  | Proof proof_body
  | Ship string "string option" dict
  | Intake string bool "string option" "string option"
  | Deliver string proof_body
  | Mark_Receipt bool
  | Verify
  | Confirm string bool "string option"
  | Silent

text \<open>The routes of one session; marking a receipt is followed by an attempt to verify.\<close>

fun serve_session :: "delivery_env \<Rightarrow> string \<Rightarrow> delivery_call \<Rightarrow> delivery_session \<Rightarrow> delivery_error + delivery_session" where
  "serve_session env vid (Challenge nonce cid party geo) s = issue_capture_challenge env nonce cid party geo vid s"
| "serve_session env vid (Proof b) s = submit_proof env vid b s"
| "serve_session env vid (Ship actor h meta) s = seller_ship env actor h meta s"
| "serve_session env vid (Intake actor ok remark h) s = logistics_intake env actor ok remark h s"
| "serve_session env vid (Deliver actor b) s = logistics_deliver env vid actor b s"
| "serve_session env vid (Mark_Receipt ok) s = Inr (fst (try_verify env (mark_execution_receipt env ok s)))"
| "serve_session env vid Verify s = Inr (fst (try_verify env s))"
| "serve_session env vid (Confirm actor ok remark) s = buyer_confirm env actor ok remark s"
| "serve_session env vid Silent s = Inr (case apply_silent_buyer_default env s of None \<Rightarrow> s | Some s' \<Rightarrow> s')"

inductive delivery_step :: "delivery_store \<Rightarrow> delivery_store \<Rightarrow> bool" where
  create: "create_verification_session env token tid sid seller buyer logistics cap amount st = (st', out) \<Longrightarrow> delivery_step st st'"
| act: "with_session vid (serve_session env vid call) st = (st', out) \<Longrightarrow> delivery_step st st'"
| sweep: "expire_silent_buyers env limit st = (st', applied) \<Longrightarrow> delivery_step st st'"
| gate: "require_verified_for_settle env tid sid allow st = (st', out) \<Longrightarrow> delivery_step st st'"

end
