(* ===== verification/Delivery_System.thy ===== *)
theory Delivery_System
  imports Delivery_Verification
begin

text \<open>
  The delivery sessions as a state machine: what each operation of
  services/delivery_verification.py does to a session, the invariant that a VERIFIED
  session has met every requirement of its scene, and that every request, sweep and
  settlement check keeps it.
\<close>

section \<open>Events and proofs only accumulate\<close>

lemma has_event_simps [simp]:
  "has_event (append_event env k x s) j \<longleftrightarrow> has_event s j \<or> j = k"
  "has_event (s\<lparr>dv_status := a\<rparr>) j = has_event s j" "has_event (s\<lparr>dv_proofs := b\<rparr>) j = has_event s j"
  "has_event (s\<lparr>dv_deadline := c\<rparr>) j = has_event s j" "has_event (s\<lparr>dv_liability := d\<rparr>) j = has_event s j"
  "has_event (s\<lparr>dv_loss := e\<rparr>) j = has_event s j" "has_event (s\<lparr>dv_updated_at := t\<rparr>) j = has_event s j"
  "has_event (s\<lparr>dv_verified_at := v\<rparr>) j = has_event s j" "has_event (s\<lparr>dv_receipt_ok := r\<rparr>) j = has_event s j"
  "has_event (s\<lparr>dv_fields_ok := r\<rparr>) j = has_event s j" "has_event (s\<lparr>dv_fields_missing := m\<rparr>) j = has_event s j"
  "has_event (s\<lparr>dv_challenges := ch\<rparr>) j = has_event s j" "has_event (verified env s) j = has_event s j"
  by (auto simp: has_event_def append_event_def verified_def)

lemma has_proof_simps [simp]:
  "has_proof (append_event env k x s) j = has_proof s j"
  "has_proof (s\<lparr>dv_proofs := put_row k p ps\<rparr>) j \<longleftrightarrow> has_proof (s\<lparr>dv_proofs := ps\<rparr>) j \<or> j = k"
  "has_proof (s\<lparr>dv_proofs := dv_proofs s'\<rparr>) j = has_proof s' j"
  "has_proof (s\<lparr>dv_status := a\<rparr>) j = has_proof s j"
  "has_proof (s\<lparr>dv_deadline := c\<rparr>) j = has_proof s j" "has_proof (s\<lparr>dv_liability := d\<rparr>) j = has_proof s j"
  "has_proof (s\<lparr>dv_loss := e\<rparr>) j = has_proof s j" "has_proof (s\<lparr>dv_updated_at := t\<rparr>) j = has_proof s j"
  "has_proof (s\<lparr>dv_verified_at := v\<rparr>) j = has_proof s j" "has_proof (s\<lparr>dv_receipt_ok := r\<rparr>) j = has_proof s j"
  "has_proof (s\<lparr>dv_fields_ok := r\<rparr>) j = has_proof s j" "has_proof (s\<lparr>dv_fields_missing := m\<rparr>) j = has_proof s j"
  "has_proof (s\<lparr>dv_challenges := ch\<rparr>) j = has_proof s j" "has_proof (verified env s) j = has_proof s j"
  by (auto simp: has_proof_def append_event_def keys_of_put verified_def)

lemma session_simps [simp]:
  "dv_mode (append_event env k x s) = dv_mode s" "dv_status (append_event env k x s) = dv_status s"
  "dv_required (append_event env k x s) = dv_required s" "dv_high_risk (append_event env k x s) = dv_high_risk s"
  "dv_receipt_ok (append_event env k x s) = dv_receipt_ok s" "dv_task (append_event env k x s) = dv_task s"
  "dv_proofs (append_event env k x s) = dv_proofs s" "dv_seller (append_event env k x s) = dv_seller s"
  "dv_buyer (append_event env k x s) = dv_buyer s" "dv_logistics (append_event env k x s) = dv_logistics s"
  "dv_seller (verified env s) = dv_seller s" "dv_buyer (verified env s) = dv_buyer s" "dv_logistics (verified env s) = dv_logistics s"
  "dv_mode (verified env s) = dv_mode s" "dv_status (verified env s) = ''VERIFIED''"
  "dv_required (verified env s) = dv_required s" "dv_high_risk (verified env s) = dv_high_risk s"
  "dv_receipt_ok (verified env s) = dv_receipt_ok s" "dv_task (verified env s) = dv_task s"
  by (simp_all add: append_event_def verified_def)

section \<open>What a verified session has\<close>

definition receipt_complete :: "delivery_session \<Rightarrow> bool" where
  "receipt_complete s \<longleftrightarrow>
     has_event s ''seller_shipped'' \<and> has_event s ''logistics_intake_ok'' \<and> has_event s ''logistics_delivered'' \<and>
     (has_proof s ''delivery_photo_tagged'' \<or> has_proof s ''delivery_photo_or_code'')"

definition buyer_heard :: "delivery_session \<Rightarrow> bool" where
  "buyer_heard s \<longleftrightarrow> has_event s ''buyer_confirmed'' \<or> has_event s ''buyer_silent_default''"

definition session_inv :: "delivery_session \<Rightarrow> bool" where
  "session_inv s \<longleftrightarrow>
     (dv_receipt_ok s \<longrightarrow> has_event s ''execution_receipt_success'') \<and>
     (dv_mode s = ''physical_triple'' \<and> buyer_heard s \<longrightarrow> receipt_complete s) \<and>
     (dv_status s = ''VERIFIED'' \<longrightarrow>
        missing_requirements s = [] \<and> (dv_high_risk s \<longrightarrow> has_event s ''buyer_confirmed'') \<and>
        (dv_mode s = ''physical_triple'' \<longrightarrow> buyer_heard s))"

text \<open>A session that has grown from another: the same task and terms, nothing lost.\<close>

definition grown :: "delivery_session \<Rightarrow> delivery_session \<Rightarrow> bool" where
  "grown s t \<longleftrightarrow> dv_task t = dv_task s \<and> dv_seller t = dv_seller s \<and> dv_buyer t = dv_buyer s \<and> dv_logistics t = dv_logistics s \<and>
     dv_mode t = dv_mode s \<and> dv_required t = dv_required s \<and> dv_high_risk t = dv_high_risk s \<and>
     (\<forall>k. has_event s k \<longrightarrow> has_event t k) \<and> (\<forall>k. has_proof s k \<longrightarrow> has_proof t k)"

lemma requirement_grown:
  assumes "grown s t" and "dv_receipt_ok s \<Longrightarrow> has_event s ''execution_receipt_success''" and "requirement_met s r"
  shows "requirement_met t r"
  using assms unfolding requirement_met_def grown_def by (auto simp: list_ex_iff split: if_splits)

lemma missing_grown:
  assumes "grown s t" and "dv_receipt_ok s \<Longrightarrow> has_event s ''execution_receipt_success''" and "missing_requirements s = []"
  shows "missing_requirements t = []"
  using assms requirement_grown [OF assms(1,2)] by (auto simp: missing_requirements_def filter_empty_conv grown_def)

lemma inv_grown:
  assumes "session_inv s" and "grown s t" and "dv_receipt_ok t \<Longrightarrow> has_event t ''execution_receipt_success''"
    and "dv_mode s = ''physical_triple'' \<Longrightarrow> buyer_heard t \<Longrightarrow> buyer_heard s \<or> receipt_complete t"
    and "dv_status t = ''VERIFIED'' \<Longrightarrow> dv_status s = ''VERIFIED'' \<or>
      missing_requirements t = [] \<and> (dv_high_risk t \<longrightarrow> has_event t ''buyer_confirmed'') \<and> (dv_mode t = ''physical_triple'' \<longrightarrow> buyer_heard t)"
  shows "session_inv t"
proof -
  have rc: "receipt_complete s \<Longrightarrow> receipt_complete t" and bh: "buyer_heard s \<Longrightarrow> buyer_heard t"
    using assms(2) by (auto simp: grown_def receipt_complete_def buyer_heard_def)
  have "missing_requirements s = [] \<Longrightarrow> missing_requirements t = []"
    using missing_grown [OF assms(2)] assms(1) by (simp add: session_inv_def)
  with assms rc bh show ?thesis unfolding session_inv_def grown_def by metis
qed

lemma grown_refl: "grown s s"
  by (simp add: grown_def)

lemma grown_trans: "grown s t \<Longrightarrow> grown t u \<Longrightarrow> grown s u"
  by (simp add: grown_def)

text \<open>The operations that leave the verdict and what the buyer said alone.\<close>

lemma inv_quiet:
  assumes "session_inv s" and "grown s t" and "dv_receipt_ok t = dv_receipt_ok s" and "buyer_heard t = buyer_heard s"
    and "dv_status t = dv_status s \<or> dv_status t \<noteq> ''VERIFIED''"
  shows "session_inv t"
proof (rule inv_grown [OF assms(1,2)])
  assume "dv_receipt_ok t"
  with assms(1-3) show "has_event t ''execution_receipt_success''" by (simp add: session_inv_def grown_def)
qed (use assms(4,5) in auto)

lemma submit_proof_effect:
  assumes "submit_proof env vid b s = Inr t"
  shows "grown s t \<and> dv_receipt_ok t = dv_receipt_ok s \<and> buyer_heard t = buyer_heard s \<and> dv_status t = dv_status s \<and>
    has_proof t (strip (pb_type b))"
  using assms by (auto simp: submit_proof_def Let_def grown_def buyer_heard_def split: sum.splits if_splits)

lemma challenge_effect:
  assumes "issue_capture_challenge env nonce cid party geo vid s = Inr t"
  shows "grown s t \<and> dv_receipt_ok t = dv_receipt_ok s \<and> buyer_heard t = buyer_heard s \<and> dv_status t = dv_status s"
  using assms by (auto simp: issue_capture_challenge_def Let_def grown_def buyer_heard_def split: sum.splits if_splits)

lemma ship_effect:
  assumes "seller_ship env actor h meta s = Inr t"
  shows "grown s t \<and> dv_receipt_ok t = dv_receipt_ok s \<and> buyer_heard t = buyer_heard s \<and> dv_status t \<noteq> ''VERIFIED''"
  using assms
  by (auto simp: seller_ship_def Let_def grown_def buyer_heard_def split: if_splits option.splits)

lemma intake_effect:
  assumes "logistics_intake env actor ok remark h s = Inr t"
  shows "grown s t \<and> dv_receipt_ok t = dv_receipt_ok s \<and> buyer_heard t = buyer_heard s \<and> dv_status t \<noteq> ''VERIFIED''"
  using assms by (auto simp: logistics_intake_def Let_def grown_def buyer_heard_def split: if_splits)

lemma deliver_effect:
  assumes "logistics_deliver env vid actor b s = Inr t"
  shows "grown s t \<and> dv_receipt_ok t = dv_receipt_ok s \<and> buyer_heard t = buyer_heard s \<and> dv_status t \<noteq> ''VERIFIED''"
proof -
  from assms obtain s1 where s1: "submit_proof env vid (b\<lparr>pb_actor := actor, pb_role := ''logistics'', pb_meta := []\<rparr>) s = Inr s1"
    by (auto simp: logistics_deliver_def split: if_splits sum.splits)
  have "grown s1 t \<and> dv_receipt_ok t = dv_receipt_ok s1 \<and> buyer_heard t = buyer_heard s1 \<and> dv_status t \<noteq> ''VERIFIED''"
    using assms s1 by (auto simp: logistics_deliver_def Let_def grown_def buyer_heard_def split: if_splits)
  with submit_proof_effect [OF s1] show ?thesis by (auto intro: grown_trans)
qed

lemma cover_effect:
  "grown s (cover_proof_fields_from_if env keys s) \<and> dv_receipt_ok (cover_proof_fields_from_if env keys s) = dv_receipt_ok s \<and>
   buyer_heard (cover_proof_fields_from_if env keys s) = buyer_heard s \<and>
   dv_status (cover_proof_fields_from_if env keys s) = dv_status s"
  by (auto simp: cover_proof_fields_from_if_def Let_def grown_def buyer_heard_def)

lemma receipt_complete_chain:
  "dv_mode s = ''physical_triple'' \<Longrightarrow> assert_seller_logistics_chain_ok s = Inr () \<Longrightarrow> receipt_complete s"
  by (auto simp: assert_seller_logistics_chain_ok_def receipt_complete_def PHYSICAL_MODES_def split: if_splits)

lemma other_modes_not_physical [simp]:
  "m \<in> set DIGITAL_MODES \<Longrightarrow> m \<noteq> ''physical_triple''" "m \<in> set TICKET_MODES \<Longrightarrow> m \<noteq> ''physical_triple''"
  by (auto simp: DIGITAL_MODES_def TICKET_MODES_def)

lemma heard_simps [simp]:
  "buyer_heard (verified env s) = buyer_heard s" "buyer_heard (s\<lparr>dv_updated_at := t\<rparr>) = buyer_heard s"
  "buyer_heard (append_event env ''auto_verified_digital'' x s) = buyer_heard s"
  by (simp_all add: buyer_heard_def)

lemma grown_simps [simp]:
  "grown s s" "grown s (verified env s)" "grown s (s\<lparr>dv_updated_at := t\<rparr>)" "grown s (append_event env k x s)"
  "grown s (verified env (append_event env k x s))" "grown s (s\<lparr>dv_status := a\<rparr>)"
  "grown s ((append_event env k x s)\<lparr>dv_status := a\<rparr>)" "grown s ((append_event env k x s)\<lparr>dv_status := a, dv_liability := l\<rparr>)"
  by (simp_all add: grown_def)

text \<open>The ways an attempt to verify ends.\<close>

lemma verify_covered_cases:
  assumes "verify_covered env s = (t, missing)"
  obtains (open_session) "t = s" | (touched) "t = s\<lparr>dv_updated_at := seconds (dv_now env)\<rparr>"
  | (heard) "t = verified env s" "missing_requirements s = []" "dv_high_risk s \<Longrightarrow> has_event s ''buyer_confirmed''" "buyer_heard s"
  | (other_mode) u where "t = verified env u" "u = s \<or> u = append_event env ''auto_verified_digital'' [] s" "missing_requirements s = []"
      "dv_high_risk s \<Longrightarrow> has_event s ''buyer_confirmed''" "dv_mode s \<noteq> ''physical_triple''"
proof (cases "dv_high_risk s \<and> \<not> has_event s ''buyer_confirmed''")
  case True
  then have "verify_covered env s = (s, [''buyer_explicit_accept''])" by (simp add: verify_covered_def)
  with assms show ?thesis using open_session by simp
next
  case risk: False
  show ?thesis
  proof (cases "missing_requirements s = []")
    case False
    with risk have "verify_covered env s = (s\<lparr>dv_updated_at := seconds (dv_now env)\<rparr>, missing_requirements s)"
      unfolding verify_covered_def Let_def by (simp only: if_False if_True not_False_eq_True simp_thms)
    with assms show ?thesis using touched by simp
  next
    case met: True
    show ?thesis
    proof (cases "buyer_heard s")
      case True
      with risk met have "verify_covered env s = (verified env s, [])"
        unfolding verify_covered_def Let_def buyer_heard_def by (simp only: if_False if_True simp_thms)
      with assms have "t = verified env s" by simp
      then show ?thesis using heard risk met True by blast
    next
      case quiet: False
      define digital where "digital \<longleftrightarrow> dv_mode s \<in> set DIGITAL_MODES \<and> \<not> dv_high_risk s"
      define ready where "ready \<longleftrightarrow> dv_receipt_ok s \<and> (dv_fields_ok s \<or> dv_silent s = Some 0)"
      define ticket where "ticket \<longleftrightarrow> dv_mode s \<in> set TICKET_MODES \<and> has_event s ''seller_issued_confirmation'' \<and> dv_status s = ''BUYER_CONFIRMED''"
      define u where "u = (if digital \<and> \<not> has_event s ''auto_verified_digital'' then append_event env ''auto_verified_digital'' [] s else s)"
      have "fst (verify_covered env s) = (if digital then if ready then verified env u else s else if ticket then verified env u else s)"
        using risk met quiet unfolding verify_covered_def Let_def u_def
        by (fold digital_def ready_def ticket_def buyer_heard_def) auto
      with assms have "t = s \<or> t = verified env u \<and> (digital \<or> ticket)" by (simp split: if_splits)
      moreover have "dv_mode s \<noteq> ''physical_triple''" if "digital \<or> ticket"
        using that other_modes_not_physical unfolding digital_def ticket_def by blast
      moreover have "u = s \<or> u = append_event env ''auto_verified_digital'' [] s" by (simp add: u_def)
      ultimately show ?thesis using open_session other_mode risk met by blast
    qed
  qed
qed

lemma inv_now_verified:
  assumes "session_inv s" and "grown s t" and "dv_receipt_ok t = dv_receipt_ok s" and "buyer_heard t = buyer_heard s"
    and "missing_requirements s = []" and "dv_high_risk s \<Longrightarrow> has_event s ''buyer_confirmed''"
    and "dv_mode s = ''physical_triple'' \<Longrightarrow> buyer_heard s"
  shows "session_inv t"
proof -
  have same: "dv_mode t = dv_mode s" "dv_high_risk t = dv_high_risk s" using assms(2) by (simp_all add: grown_def)
  have kept: "has_event s k \<Longrightarrow> has_event t k" for k using assms(2) by (simp add: grown_def)
  have receipt: "dv_receipt_ok s \<Longrightarrow> has_event s ''execution_receipt_success''" using assms(1) by (simp add: session_inv_def)
  have "missing_requirements t = []" by (rule missing_grown [OF assms(2) receipt assms(5)])
  then show ?thesis
    by (intro inv_grown [OF assms(1,2)]) (use assms(3-7) same kept receipt in simp_all)
qed

lemma verify_covered_inv:
  assumes "verify_covered env s = (t, missing)" and "session_inv s"
  shows "session_inv t \<and> grown s t \<and> (dv_status t = dv_status s \<or> dv_status t = ''VERIFIED'')"
  using assms(1)
proof (cases rule: verify_covered_cases)
  case open_session
  with assms(2) show ?thesis by simp
next
  case touched
  have "session_inv (s\<lparr>dv_updated_at := seconds (dv_now env)\<rparr>)"
    by (rule inv_quiet [OF assms(2)]) simp_all
  with touched show ?thesis by simp
next
  case heard
  have "session_inv (verified env s)" by (rule inv_now_verified [OF assms(2)]) (use heard(2-4) in simp_all)
  with heard show ?thesis by simp
next
  case (other_mode u)
  have u: "grown s (verified env u)" "buyer_heard (verified env u) = buyer_heard s" "dv_receipt_ok (verified env u) = dv_receipt_ok s"
    using other_mode(2) by auto
  have "session_inv (verified env u)"
    by (rule inv_now_verified [OF assms(2) u(1,3,2)]) (use other_mode(3-5) in simp_all)
  with other_mode(1) u(1) show ?thesis by simp
qed

lemma try_verify_inv:
  assumes "try_verify env s = (t, missing)" and "session_inv s"
  shows "session_inv t \<and> grown s t \<and> (dv_status t = dv_status s \<or> dv_status t = ''VERIFIED'')"
proof (cases "dv_status s \<in> {''VERIFIED'', ''WRONG_ITEM'', ''FAILED'', ''DISPUTED''}")
  case True
  with assms have "t = s" unfolding try_verify_def by (simp only: if_True prod.inject)
  with assms(2) show ?thesis by simp
next
  case False
  define s1 where "s1 = (if dv_mode s \<in> set DIGITAL_MODES \<and> dv_receipt_ok s then cover_proof_fields_from_if env [] s else s)"
  have s1: "grown s s1" "dv_receipt_ok s1 = dv_receipt_ok s" "buyer_heard s1 = buyer_heard s" "dv_status s1 = dv_status s"
    using cover_effect [of s env "[]"] unfolding s1_def by simp_all
  have "session_inv s1" by (rule inv_quiet [OF assms(2) s1(1-3)]) (simp add: s1(4))
  moreover have "verify_covered env s1 = (t, missing)" using assms(1) False unfolding try_verify_def s1_def by (simp only: if_False)
  ultimately have "session_inv t \<and> grown s1 t \<and> (dv_status t = dv_status s1 \<or> dv_status t = ''VERIFIED'')" by (blast dest: verify_covered_inv)
  with s1 show ?thesis by (auto intro: grown_trans)
qed

lemma fst_try_verify_inv:
  assumes "session_inv s"
  shows "session_inv (fst (try_verify env s))" "grown s (fst (try_verify env s))"
  using try_verify_inv [OF _ assms, of env "fst (try_verify env s)" "snd (try_verify env s)"] by simp_all

lemma mark_inv:
  assumes "session_inv s"
  shows "session_inv (mark_execution_receipt env ok s) \<and> grown s (mark_execution_receipt env ok s)"
proof (cases ok)
  case True
  then have m: "mark_execution_receipt env ok s = append_event env ''execution_receipt_success'' [] (s\<lparr>dv_receipt_ok := True\<rparr>)"
    by (simp add: mark_execution_receipt_def)
  have g: "grown s (mark_execution_receipt env ok s)" by (simp add: m grown_def)
  have "session_inv (mark_execution_receipt env ok s)"
    by (rule inv_grown [OF assms g]) (simp_all add: m buyer_heard_def)
  with g show ?thesis by simp
next
  case False
  then have m: "mark_execution_receipt env ok s = s\<lparr>dv_receipt_ok := False\<rparr>" by (simp add: mark_execution_receipt_def)
  have g: "grown s (mark_execution_receipt env ok s)" by (simp add: m grown_def)
  have "session_inv (mark_execution_receipt env ok s)"
    by (rule inv_grown [OF assms g]) (simp_all add: m buyer_heard_def)
  with g show ?thesis by simp
qed

text \<open>The buyer speaks, or stays silent, only after the chain is complete.\<close>

lemma inv_heard:
  assumes "session_inv s" and "k = ''buyer_confirmed'' \<or> k = ''buyer_silent_default''" and "a \<noteq> ''VERIFIED''"
    and "dv_mode s = ''physical_triple'' \<Longrightarrow> receipt_complete s"
  shows "session_inv ((append_event env k x s)\<lparr>dv_status := a\<rparr>)"
proof (rule inv_grown [OF assms(1)])
  assume "dv_mode s = ''physical_triple''"
  from assms(4) [OF this] show "buyer_heard s \<or> receipt_complete ((append_event env k x s)\<lparr>dv_status := a\<rparr>)"
    by (simp add: receipt_complete_def)
qed (use assms in \<open>simp_all add: session_inv_def\<close>)

lemma buyer_confirm_inv:
  assumes "buyer_confirm env actor yes remark s = Inr t" and "session_inv s"
  shows "session_inv t \<and> grown s t"
proof (cases "dv_status s \<in> {''VERIFIED'', ''WRONG_ITEM'', ''FAILED''}")
  case True
  have "t = s" using assms(1) unfolding buyer_confirm_def if_P [OF True] by (simp split: if_splits)
  with assms(2) show ?thesis by simp
next
  case open_session: False
  obtain u where chain: "(if dv_mode s \<in> set PHYSICAL_MODES then assert_seller_logistics_chain_ok s else Inr ()) = Inr u"
    using assms(1) unfolding buyer_confirm_def if_not_P [OF open_session] by (simp split: if_splits sum.splits)
  have complete: "receipt_complete s" if "dv_mode s = ''physical_triple''"
    using chain that by (intro receipt_complete_chain) (simp_all add: PHYSICAL_MODES_def)
  have run: "t = (if yes then fst (try_verify env ((append_event env ''buyer_confirmed'' (optional_text ''note'' remark) s)\<lparr>dv_status := ''BUYER_CONFIRMED''\<rparr>))
      else let s1 = (append_event env ''buyer_rejected'' (optional_text ''note'' remark) s)\<lparr>dv_status := ''REJECTED''\<rparr>
           in case dv_breach env (dv_seller s) (dv_scene s) (amount_or_0 s) (3 / 10) of None \<Rightarrow> s1 | Some j \<Rightarrow> s1\<lparr>dv_liability := Some j\<rparr>)"
    using assms(1) unfolding buyer_confirm_def if_not_P [OF open_session] chain by (simp add: Let_def split: if_splits)
  show ?thesis
  proof (cases yes)
    case True
    let ?s1 = "(append_event env ''buyer_confirmed'' (optional_text ''note'' remark) s)\<lparr>dv_status := ''BUYER_CONFIRMED''\<rparr>"
    have "session_inv ?s1" by (rule inv_heard [OF assms(2)]) (simp_all add: complete)
    with run True show ?thesis by (simp add: fst_try_verify_inv grown_trans [of s ?s1])
  next
    case False
    let ?s1 = "(append_event env ''buyer_rejected'' (optional_text ''note'' remark) s)\<lparr>dv_status := ''REJECTED''\<rparr>"
    have t: "grown s t" "dv_receipt_ok t = dv_receipt_ok s" "buyer_heard t = buyer_heard s" "dv_status t \<noteq> ''VERIFIED''"
      unfolding run if_not_P [OF False] Let_def by (simp_all add: buyer_heard_def split: option.split)
    then show ?thesis using inv_quiet [OF assms(2)] by blast
  qed
qed

lemma silent_inv:
  assumes "apply_silent_buyer_default env s = Some t" and "session_inv s"
  shows "session_inv t \<and> grown s t"
proof -
  let ?s1 = "(append_event env ''buyer_silent_default'' [(''reason'', JStr ''buyer_silent_after_logistics_pod'')] s)\<lparr>dv_status := ''BUYER_SILENT_DEFAULT''\<rparr>"
  have "t = s \<or> assert_seller_logistics_chain_ok s = Inr () \<and> t = fst (try_verify env ?s1)"
    using assms(1) unfolding apply_silent_buyer_default_def by (simp split: if_split_asm option.split_asm sum.split_asm)
  then show ?thesis
  proof
    assume chain: "assert_seller_logistics_chain_ok s = Inr () \<and> t = fst (try_verify env ?s1)"
    have "session_inv ?s1" by (rule inv_heard [OF assms(2)]) (simp_all add: receipt_complete_chain chain)
    with chain show ?thesis by (simp add: fst_try_verify_inv grown_trans [of s ?s1])
  qed (simp add: assms(2))
qed

section \<open>Every request keeps the invariant\<close>

lemma serve_session_inv:
  assumes "serve_session env vid call s = Inr t" and "session_inv s"
  shows "session_inv t \<and> grown s t"
proof (cases call)
  case (Challenge nonce cid party geo)
  then show ?thesis using challenge_effect [of env nonce cid party geo vid s t] inv_quiet [OF assms(2)] assms(1) by simp
next
  case (Proof b)
  then show ?thesis using submit_proof_effect [of env vid b s t] inv_quiet [OF assms(2)] assms(1) by simp
next
  case (Ship actor h meta)
  then show ?thesis using ship_effect [of env actor h meta s t] inv_quiet [OF assms(2)] assms(1) by simp
next
  case (Intake actor yes remark h)
  then show ?thesis using intake_effect [of env actor yes remark h s t] inv_quiet [OF assms(2)] assms(1) by simp
next
  case (Deliver actor b)
  then show ?thesis using deliver_effect [of env vid actor b s t] inv_quiet [OF assms(2)] assms(1) by simp
next
  case (Mark_Receipt yes)
  have "t = fst (try_verify env (mark_execution_receipt env yes s))" using assms(1) Mark_Receipt by simp
  with mark_inv [OF assms(2), of env yes] show ?thesis by (auto simp: fst_try_verify_inv intro: grown_trans)
next
  case Verify
  with assms show ?thesis by (auto simp: fst_try_verify_inv)
next
  case (Confirm actor yes remark)
  then show ?thesis using buyer_confirm_inv assms by simp
next
  case Silent
  with assms show ?thesis using silent_inv [of env s] by (auto split: option.splits)
qed

text \<open>The parties of a physical delivery are three.\<close>

definition parties_ok :: "delivery_session \<Rightarrow> bool" where
  "parties_ok s \<longleftrightarrow>
     (dv_mode s = ''physical_triple'' \<longrightarrow> given (dv_logistics s) \<noteq> None \<and> dv_logistics s \<notin> {Some (dv_seller s), Some (dv_buyer s)})"

definition store_inv :: "delivery_store \<Rightarrow> bool" where
  "store_inv st \<longleftrightarrow> distinct (map fst st) \<and> (\<forall>(k, s) \<in> set st. session_inv s \<and> parties_ok s)"

lemma parties_grown: "parties_ok s \<Longrightarrow> grown s t \<Longrightarrow> parties_ok t"
  by (simp add: parties_ok_def grown_def)

lemma store_inv_lookup: "store_inv st \<Longrightarrow> map_of st vid = Some s \<Longrightarrow> session_inv s \<and> parties_ok s"
  by (auto simp: store_inv_def dest: map_of_SomeD)

lemma store_inv_put: "store_inv st \<Longrightarrow> session_inv s \<Longrightarrow> parties_ok s \<Longrightarrow> store_inv (put_row vid s st)"
  using put_row_set [of vid s st] keys_put_row [of st vid s] by (auto simp: store_inv_def)

lemma new_session_ok:
  "session_inv (new_session env tid sid seller buyer logistics cap amount)"
proof -
  let ?s = "new_session env tid sid seller buyer logistics cap amount"
  have "dv_status ?s = first_status (dv_mode ?s)" "dv_events ?s = []" "\<not> dv_receipt_ok ?s" by (simp_all add: new_session_def Let_def)
  moreover have "first_status x \<noteq> ''VERIFIED''" for x by (simp add: first_status_def)
  ultimately show ?thesis by (simp add: session_inv_def buyer_heard_def has_event_def)
qed

lemma create_inv:
  assumes "create_verification_session env token tid sid seller buyer logistics cap amount st = (st', out)" and "store_inv st"
  shows "store_inv st'"
proof -
  let ?s = "new_session env tid sid seller buyer logistics cap amount"
  have fields: "dv_seller ?s = seller" "dv_buyer ?s = buyer" "dv_logistics ?s = logistics" by (simp_all add: new_session_def Let_def)
  have "st' = st \<or> st' = put_row (''dv_'' @ token) ?s st \<and> parties_ok ?s"
    using assms(1) unfolding create_verification_session_def Let_def parties_ok_def fields
    by (auto simp: PHYSICAL_MODES_def split: if_split_asm option.split_asm sum.split_asm)
  with assms(2) show ?thesis by (auto intro: store_inv_put new_session_ok)
qed

lemma with_session_inv:
  assumes "with_session vid f st = (st', out)" and "store_inv st"
    and "\<And>s t. f s = Inr t \<Longrightarrow> session_inv s \<Longrightarrow> session_inv t \<and> grown s t"
  shows "store_inv st'"
proof (cases "map_of st vid")
  case (Some s)
  show ?thesis
  proof (cases "f s")
    case (Inr t)
    with assms(1) Some have "st' = put_row vid t st" by (simp add: with_session_def)
    then show ?thesis using store_inv_lookup [OF assms(2) Some] assms(3) [OF Inr] by (auto intro: store_inv_put [OF assms(2)] parties_grown)
  qed (use assms(1,2) Some in \<open>simp add: with_session_def\<close>)
qed (use assms(1,2) in \<open>simp add: with_session_def\<close>)

lemma sweep_inv: "sweep_silent env limit vids applied st = (st', applied') \<Longrightarrow> store_inv st \<Longrightarrow> store_inv st'"
proof (induction env limit vids applied st rule: sweep_silent.induct)
  case (2 env limit vid rest applied st)
  show ?case
  proof (cases "int (length applied) < limit \<and> (\<exists>s t. map_of st vid = Some s \<and> apply_silent_buyer_default env s = Some t)")
    case True
    then obtain s t where st: "map_of st vid = Some s" "apply_silent_buyer_default env s = Some t" by blast
    have "store_inv (put_row vid t st)"
      using store_inv_lookup [OF 2(5) st(1)] silent_inv [OF st(2)] by (auto intro: store_inv_put [OF 2(5)] parties_grown)
    then show ?thesis using 2(3) [OF _ st] 2(4) True st by simp
  next
    case False
    then show ?thesis using 2 by (auto split: if_splits option.splits)
  qed
qed simp

lemma session_of_task_found: "session_of_task st tid = Some (k, s) \<Longrightarrow> (k, s) \<in> set st \<and> dv_task s = tid"
  by (auto simp: session_of_task_def find_Some_iff) (metis nth_mem)

lemma require_verified_inv:
  assumes "require_verified_for_settle env tid sid allow st = (st', out)" and "store_inv st"
  shows "store_inv st'"
proof -
  obtain st1 applied where sw: "expire_silent_buyers env 50 st = (st1, applied)" by (metis surj_pair)
  have st1: "store_inv st1" using sweep_inv [OF _ assms(2)] sw by (simp add: expire_silent_buyers_def)
  show ?thesis
  proof (cases "session_of_task st1 tid")
    case None
    then show ?thesis using assms(1) st1 sw by (simp add: require_verified_for_settle_def Let_def split: if_split_asm)
  next
    case (Some ks)
    obtain k s where ks: "ks = (k, s)" by (cases ks)
    have s: "session_inv s" "parties_ok s" using session_of_task_found Some ks st1 by (fastforce simp: store_inv_def)+
    have "store_inv (put_row k (fst (try_verify env s)) st1)"
      using fst_try_verify_inv [OF s(1)] s(2) by (auto intro: store_inv_put [OF st1] parties_grown)
    moreover have "st' = st1 \<or> st' = put_row k (fst (try_verify env s)) st1"
      using assms(1) Some ks sw by (simp add: require_verified_for_settle_def Let_def split: if_split_asm prod.split_asm)
    ultimately show ?thesis using st1 by auto
  qed
qed

lemma delivery_step_inv: "delivery_step st st' \<Longrightarrow> store_inv st \<Longrightarrow> store_inv st'"
proof (induction rule: delivery_step.induct)
  case (create env token tid sid seller buyer logistics cap amount st st' out)
  then show ?case by (blast dest: create_inv)
next
  case (act vid env call st st' out)
  then show ?case using with_session_inv serve_session_inv by blast
next
  case (sweep env limit st st' applied)
  then show ?case using sweep_inv by (simp add: expire_silent_buyers_def)
next
  case (gate env tid sid allow st st' out)
  then show ?case by (blast dest: require_verified_inv)
qed

interpretation deliveries: step_invariant delivery_step store_inv
  by unfold_locales (rule delivery_step_inv)

lemma reachable_store: "delivery_step\<^sup>*\<^sup>* [] st \<Longrightarrow> store_inv st"
  by (erule deliveries.inv_run) (simp add: store_inv_def)

section \<open>The sweep keeps the sessions in place\<close>

definition shape :: "delivery_store \<Rightarrow> (string \<times> string \<times> string) list" where
  "shape st = map (\<lambda>(k, s). (k, dv_task s, dv_mode s)) st"

lemma shape_put:
  assumes "distinct (map fst st)" and "map_of st vid = Some s" and "grown s t"
  shows "shape (put_row vid t st) = shape st"
proof -
  have "s' = s" if "(vid, s') \<in> set st" for s' using assms(1,2) that by simp
  with assms(2,3) show ?thesis by (auto simp: shape_def put_row_def grown_def)
qed

lemma sweep_shape:
  "sweep_silent env limit vids applied st = (st', applied') \<Longrightarrow> store_inv st \<Longrightarrow> shape st' = shape st"
proof (induction env limit vids applied st rule: sweep_silent.induct)
  case (2 env limit vid rest applied st)
  show ?case
  proof (cases "int (length applied) < limit \<and> (\<exists>s t. map_of st vid = Some s \<and> apply_silent_buyer_default env s = Some t)")
    case True
    then obtain s t where st: "map_of st vid = Some s" "apply_silent_buyer_default env s = Some t" by blast
    have t: "session_inv t" "grown s t" "parties_ok t"
      using store_inv_lookup [OF 2(5) st(1)] silent_inv [OF st(2)] by (auto intro: parties_grown)
    note p = shape_put [OF _ st(1) t(2)] store_inv_put [OF 2(5) t(1,3)]
    show ?thesis using 2(3) [OF _ st _ p(2)] 2(4,5) True st p(1) by (simp add: store_inv_def)
  next
    case False
    then show ?thesis using 2 by (auto split: if_splits option.splits)
  qed
qed simp

lemma shape_session:
  "shape st' = shape st \<Longrightarrow> session_of_task st tid = None \<longleftrightarrow> session_of_task st' tid = None"
proof -
  have "session_of_task st tid = None \<longleftrightarrow> tid \<notin> (fst \<circ> snd) ` set (shape st)" for st
    by (force simp: session_of_task_def find_None_iff shape_def)
  then show "shape st' = shape st \<Longrightarrow> ?thesis" by simp
qed

end
