(* ===== verification/Delivery_Gate.thy ===== *)
theory Delivery_Gate
  imports Delivery_System Settlement_Properties
begin

text \<open>
  The delivery gate of the settlement routes (\<open>_assert_p7_delivery_gate\<close> of
  api/routes/settlement.py) put in the place of the gate that the routes take as an argument: what a
  paid settlement says about the deliveries of its task. Then the behaviours of the delivery
  sessions that the requests of one party alone can reach.
\<close>

section \<open>The gate\<close>

text \<open>The sessions live in the process, so that the sweep and the attempt to verify stay even when the request fails.\<close>

definition assert_p7_delivery_gate ::
    "delivery_env \<Rightarrow> string \<Rightarrow> settlement_state \<Rightarrow> string \<Rightarrow> delivery_store \<Rightarrow> delivery_store \<times> (http_error + unit)" where
  "assert_p7_delivery_gate env tid state stage st =
     (let scene = scene_id_from_settlement state; sess = session_of_task st tid in
      if sess = None \<and> scene = None then (st, Inr ())
      else let policy = as_string_or (dict_get (scene_policy (dv_catalog env) (case scene of None \<Rightarrow> ''api_tool_call'' | Some x \<Rightarrow> x)) ''mode'') [];
               mode = (case sess of None \<Rightarrow> policy | Some (k, s) \<Rightarrow> if dv_mode s = [] then policy else dv_mode s)
           in if mode \<in> {''digital_light'', ''ride_track''} \<and> sess = None then (st, Inr ())
              else case require_verified_for_settle env tid scene True st of
                (st', Inl (DeliveryVerificationError e)) \<Rightarrow> (st', Inl (HTTPException 409 ''delivery_verification_required''))
              | (st', Inr _) \<Rightarrow> (st', Inr ()))"

definition gated :: "delivery_env \<Rightarrow> delivery_store \<Rightarrow> request_env \<Rightarrow> request_env" where
  "gated denv st env = env\<lparr>delivery_gate := \<lambda>tid state stage. snd (assert_p7_delivery_gate denv tid state stage st)\<rparr>"

text \<open>What a session proves about its delivery.\<close>

definition proven :: "delivery_session \<Rightarrow> bool" where
  "proven s \<longleftrightarrow> dv_status s = ''VERIFIED'' \<and> missing_requirements s = [] \<and>
     (dv_high_risk s \<longrightarrow> has_event s ''buyer_confirmed'') \<and>
     (dv_mode s = ''physical_triple'' \<longrightarrow>
        has_event s ''seller_shipped'' \<and> has_event s ''logistics_intake_ok'' \<and> has_event s ''logistics_delivered'' \<and>
        (has_proof s ''delivery_photo_tagged'' \<or> has_proof s ''delivery_photo_or_code'') \<and>
        (has_event s ''buyer_confirmed'' \<or> has_event s ''buyer_silent_default'') \<and>
        dv_logistics s \<notin> {None, Some (dv_seller s), Some (dv_buyer s)})"

lemma proven_inv: "session_inv s \<Longrightarrow> parties_ok s \<Longrightarrow> dv_status s = ''VERIFIED'' \<Longrightarrow> proven s"
proof -
  have "given x = None \<longleftrightarrow> x = None \<or> x = Some []" for x by (simp add: given_def split: option.split)
  then show "session_inv s \<Longrightarrow> parties_ok s \<Longrightarrow> dv_status s = ''VERIFIED'' \<Longrightarrow> ?thesis"
    unfolding proven_def session_inv_def parties_ok_def receipt_complete_def buyer_heard_def by simp
qed

lemma scene_given: "scene_id_from_settlement state = Some x \<Longrightarrow> given (Some x) = Some x"
  by (auto simp: scene_id_from_settlement_def given_def split: option.splits json.splits if_splits)

text \<open>Without a session the check only lets the digital scenes pass.\<close>

lemma require_verified_none:
  assumes "require_verified_for_settle env tid sid True st = (st', Inr None)" and "store_inv st"
  shows "session_of_task st tid = None \<and>
    as_string_or (dict_get (scene_policy (dv_catalog env) (case given sid of None \<Rightarrow> ''api_tool_call'' | Some x \<Rightarrow> x)) ''mode'') [] \<in> set DIGITAL_MODES"
proof -
  obtain st1 applied where sw: "expire_silent_buyers env 50 st = (st1, applied)" by (metis surj_pair)
  have "shape st1 = shape st" using sweep_shape [OF _ assms(2)] sw by (simp add: expire_silent_buyers_def)
  from shape_session [OF this, of tid] show ?thesis
    using assms(1) sw by (auto simp: require_verified_for_settle_def Let_def split: option.split_asm if_split_asm prod.split_asm)
qed

lemma require_verified_found:
  assumes "require_verified_for_settle env tid sid True st = (st', Inr (Some s))" and "store_inv st"
  shows "dv_status s = ''VERIFIED'' \<and> dv_task s = tid \<and> s \<in> snd ` set st'"
proof -
  obtain st1 applied where sw: "expire_silent_buyers env 50 st = (st1, applied)" by (metis surj_pair)
  have st1: "store_inv st1" using sweep_inv [OF _ assms(2)] sw by (simp add: expire_silent_buyers_def)
  obtain k s0 where s0: "session_of_task st1 tid = Some (k, s0)"
    using assms(1) sw by (auto simp: require_verified_for_settle_def Let_def split: option.split_asm if_split_asm)
  note found = session_of_task_found [OF s0]
  have inv: "session_inv s0" using found st1 by (auto simp: store_inv_def)
  obtain t m where v: "try_verify env s0 = (t, m)" by (metis surj_pair)
  have "dv_task t = dv_task s0" using fst_try_verify_inv(2) [OF inv, of env] v by (simp add: grown_def)
  moreover have "map_of (put_row k t st1) k = Some t" by (simp add: map_of_put_row)
  then have "(k, t) \<in> set (put_row k t st1)" by (rule map_of_SomeD)
  ultimately show ?thesis
    using assms(1) sw s0 v found by (auto simp: require_verified_for_settle_def Let_def split: if_split_asm intro: rev_image_eqI)
qed

lemma gate_passed:
  assumes "assert_p7_delivery_gate env tid state stage st = (st', Inr ())" and "store_inv st"
  shows "session_of_task st tid = None \<and>
      (scene_id_from_settlement state = None \<or>
       as_string_or (dict_get (scene_policy (dv_catalog env) (the (scene_id_from_settlement state))) ''mode'') [] \<in> set DIGITAL_MODES) \<or>
    (\<exists>s \<in> snd ` set st'. dv_task s = tid \<and> proven s)"
proof (cases "session_of_task st tid = None \<and> scene_id_from_settlement state = None")
  case False
  let ?scene = "scene_id_from_settlement state"
  have policy: "as_string_or (dict_get (scene_policy (dv_catalog env) (case given ?scene of None \<Rightarrow> ''api_tool_call'' | Some x \<Rightarrow> x)) ''mode'') [] =
      as_string_or (dict_get (scene_policy (dv_catalog env) (case ?scene of None \<Rightarrow> ''api_tool_call'' | Some x \<Rightarrow> x)) ''mode'') []"
    by (cases ?scene) (simp add: given_def, simp only: scene_given option.case)
  obtain st1 out where run: "require_verified_for_settle env tid ?scene True st = (st1, out)" by (metis surj_pair)
  have "session_of_task st tid = None \<and>
      as_string_or (dict_get (scene_policy (dv_catalog env) (case ?scene of None \<Rightarrow> ''api_tool_call'' | Some x \<Rightarrow> x)) ''mode'') [] \<in> set DIGITAL_MODES \<or>
      st' = st1 \<and> (\<exists>s. out = Inr s)"
    using assms(1) False run unfolding assert_p7_delivery_gate_def Let_def
    by (auto simp: DIGITAL_MODES_def split: if_split_asm sum.split_asm delivery_error.split_asm)
  then consider (none) "session_of_task st tid = None"
      "as_string_or (dict_get (scene_policy (dv_catalog env) (case ?scene of None \<Rightarrow> ''api_tool_call'' | Some x \<Rightarrow> x)) ''mode'') [] \<in> set DIGITAL_MODES"
    | (some) s where "st' = st1" "out = Inr (Some s)"
    using require_verified_none [OF _ assms(2)] run policy by (metis not_Some_eq)
  then show ?thesis
  proof cases
    case none
    with False show ?thesis by auto
  next
    case (some s)
    note found = require_verified_found [OF run [unfolded some] assms(2)]
    have "store_inv st1" by (rule require_verified_inv [OF run assms(2)])
    with found some have "session_inv s" "parties_ok s" by (auto simp: store_inv_def)
    with found some show ?thesis by (auto intro: proven_inv)
  qed
qed simp

section \<open>A delivery\<close>

text \<open>Two scenes of packages/evidence-schema/delivery-verification.v1.json, as the catalog has them.\<close>

definition demo_catalog :: dict where
  "demo_catalog =
     [(''global_defaults'', JObj [(''buyer_silent_confirm_seconds'', JInt 1800), (''require_matched_if_capture'', JBool True)]),
      (''scenes'', JObj
         [(''food_delivery'', JObj [(''mode'', JStr ''physical_triple''), (''buyer_silent_confirm_seconds'', JInt 1800),
             (''required_events'', JList [JStr ''seller_shipped'', JStr ''logistics_intake_ok'', JStr ''logistics_delivered'', JStr ''proof:delivery_photo_tagged''])]),
          (''api_tool_call'', JObj [(''mode'', JStr ''digital_light''), (''buyer_silent_confirm_seconds'', JInt 0),
             (''required_events'', JList [JStr ''execution_receipt_success'', JStr ''proof_fields_covered''])])])]"

definition demo_delivery_env :: "int \<Rightarrow> delivery_env" where
  "demo_delivery_env t =
     \<lparr>dv_now = t, dv_catalog = demo_catalog, dv_tag_key = Some ''k'', dv_app_env = None, dv_karma_env = None, dv_sha = (\<lambda>b. b),
      dv_hmac = (\<lambda>k b. b), dv_capture_of = (\<lambda>_. Inl ''unknown''), dv_fields_of = (\<lambda>_. []), dv_breach = (\<lambda>_ _ _ _. None)\<rparr>"

definition plain_photo :: proof_body where
  "plain_photo = \<lparr>pb_type = ''delivery_photo_or_code'', pb_hash = ''0123456789abcdef'', pb_actor = ''l'', pb_role = ''logistics'', pb_uri = None,
     pb_nonce = None, pb_captured = None, pb_geo = None, pb_tag = None, pb_meta = []\<rparr>"

fun delivery_run :: "delivery_env \<Rightarrow> string \<Rightarrow> delivery_call list \<Rightarrow> delivery_store \<Rightarrow> delivery_store" where
  "delivery_run env vid [] st = st"
| "delivery_run env vid (c # cs) st = delivery_run env vid cs (fst (with_session vid (serve_session env vid c) st))"

definition opened :: "string \<Rightarrow> delivery_store" where
  "opened scene = fst (create_verification_session (demo_delivery_env 0) ''1'' ''t'' scene ''w'' ''b'' (Some ''l'') None (Some 100) [])"

definition demo_delivered :: delivery_store where
  "demo_delivered = delivery_run (demo_delivery_env 0) ''dv_1''
     [Ship ''w'' None [], Intake ''l'' True None None, Deliver ''l'' plain_photo, Confirm ''b'' True None] (opened ''food_delivery'')"

lemma delivery_run_steps: "delivery_step\<^sup>*\<^sup>* st (delivery_run env vid cs st)"
proof (induction cs arbitrary: st)
  case (Cons c cs)
  obtain st' out where run: "with_session vid (serve_session env vid c) st = (st', out)" by (metis surj_pair)
  then have "delivery_step st st'" by (rule delivery_step.act)
  with Cons.IH [of st'] run show ?case by (auto intro: converse_rtranclp_into_rtranclp)
qed simp

lemma opened_step: "delivery_step\<^sup>*\<^sup>* [] (opened scene)"
  unfolding opened_def by (metis delivery_step.create r_into_rtranclp prod.collapse)

lemma demo_delivered_reachable: "delivery_step\<^sup>*\<^sup>* [] demo_delivered"
  unfolding demo_delivered_def by (rule rtranclp_trans [OF opened_step delivery_run_steps])

lemma demo_delivered_verified: "map (\<lambda>(k, s). (k, dv_task s, dv_mode s, dv_status s)) demo_delivered = [(''dv_1'', ''t'', ''physical_triple'', ''VERIFIED'')]"
  by code_simp

lemma demo_delivered_session:
  "\<exists>s. demo_delivered = [(''dv_1'', s)] \<and> dv_task s = ''t'' \<and> dv_mode s = ''physical_triple'' \<and> dv_status s = ''VERIFIED''"
  using demo_delivered_verified by (auto split: prod.splits)

section \<open>Properties\<close>



lemma accept_passes_gate:
  assumes "buyer_accept_settlement env tid scene d p = (d', p', Inr st')"
  shows "\<exists>st0. postgres_get tid (settlements d) = Inr (Some st0) \<and> delivery_gate env tid (snd (hint_scene scene st0)) ''buyer-accept'' = Inr ()"
  using assms by (auto simp: buyer_accept_settlement_def returns Let_def case_prod_unfold)

text \<open>
  C10. The settlement routes with the real delivery gate: when the buyer's acceptance of a task returns, and so
  releases the escrow, then the task has a verified session that proves the delivery, or it has no delivery
  session at all and its scene is digital or not named.
\<close>

theorem accepted_settlement_is_delivered:
  assumes "delivery_step\<^sup>*\<^sup>* [] dst" and "buyer_accept_settlement (gated denv dst env) tid scene d p = (d', p', Inr st')"
  shows "\<exists>st0. postgres_get tid (settlements d) = Inr (Some st0) \<and>
     (let state = snd (hint_scene scene st0); dst' = fst (assert_p7_delivery_gate denv tid state ''buyer-accept'' dst)
      in (\<exists>s \<in> snd ` set dst'. dv_task s = tid \<and> proven s) \<or>
         session_of_task dst tid = None \<and>
         (scene_id_from_settlement state = None \<or>
          as_string_or (dict_get (scene_policy (dv_catalog denv) (the (scene_id_from_settlement state))) ''mode'') [] \<in> set DIGITAL_MODES))"
proof -
  obtain st0 where st0: "postgres_get tid (settlements d) = Inr (Some st0)"
    and ok: "snd (assert_p7_delivery_gate denv tid (snd (hint_scene scene st0)) ''buyer-accept'' dst) = Inr ()"
    using accept_passes_gate [OF assms(2)] by (auto simp: gated_def)
  let ?g = "assert_p7_delivery_gate denv tid (snd (hint_scene scene st0)) ''buyer-accept'' dst"
  have "?g = (fst ?g, Inr ())" using ok by (metis prod.collapse)
  from gate_passed [OF this reachable_store [OF assms(1)]] st0 show ?thesis by (auto simp: Let_def)
qed

definition demo_submitted :: "route_db \<times> route_proc" where
  "demo_submitted = session_run (take 4 demo_trade) (demo_db, new_process)"

theorem accepted_settlement_is_delivered_witness:
  "\<exists>st0 (dst' :: delivery_store). postgres_get ''t'' (settlements (fst demo_submitted)) = Inr (Some st0) \<and> (\<exists>s \<in> snd ` set dst'. dv_task s = ''t'' \<and> proven s)"
proof -
  let ?run = "buyer_accept_settlement (gated (demo_delivery_env 1) demo_delivered (demo_env ''b'' 5)) ''t'' (Some ''food_delivery'') (fst demo_submitted) (snd demo_submitted)"
  have "case demo_submitted of (d, p) \<Rightarrow>
      (case snd (snd (buyer_accept_settlement (gated (demo_delivery_env 1) demo_delivered (demo_env ''b'' 5)) ''t'' (Some ''food_delivery'') d p)) of
         Inl _ \<Rightarrow> False | Inr _ \<Rightarrow> True)" by code_simp
  then have "case snd (snd ?run) of Inl _ \<Rightarrow> False | Inr _ \<Rightarrow> True" by (simp add: case_prod_unfold)
  then obtain d' p' st' where "?run = (d', p', Inr st')" by (metis prod.collapse sum.case_eq_if sum.collapse(2))
  from accepted_settlement_is_delivered [OF demo_delivered_reachable this] obtain st0 and dst' :: delivery_store where
    "postgres_get ''t'' (settlements (fst demo_submitted)) = Inr (Some st0)"
    "(\<exists>s \<in> snd ` set dst'. dv_task s = ''t'' \<and> proven s) \<or> session_of_task demo_delivered ''t'' = None"
    unfolding Let_def by blast
  moreover obtain s where d: "demo_delivered = [(''dv_1'', s)]" "dv_task s = ''t''" using demo_delivered_session by blast
  then have "session_of_task demo_delivered ''t'' \<noteq> None" unfolding d(1) by (simp add: session_of_task_def)
  ultimately show ?thesis by blast
qed

text \<open>
  A scene that asks for a tagged photo of the delivery, taken on a challenge of the server, is verified by an
  untagged one: the type \<open>delivery_photo_or_code\<close> counts as the tagged photo, and only types that end in
  \<open>_tagged\<close> are checked against a challenge.
\<close>

theorem untagged_photo_verifies:
  "map (\<lambda>(k, s). (dv_required s, dv_status s, dv_challenges s, map (pf_tag \<circ> snd) (dv_proofs s))) demo_delivered =
     [([''seller_shipped'', ''logistics_intake_ok'', ''logistics_delivered'', ''proof:delivery_photo_tagged''], ''VERIFIED'', [], [None])]"
  by code_simp


lemma challenge_issued:
  assumes "issue_capture_challenge env nonce cid role geo vid s = Inr s1" and "map_of (dv_challenges s1) (''ch_'' @ cid) = Some ch"
  obtains key where "tag_master_key env = Inr key" and "dv_challenges s1 = put_row (''ch_'' @ cid) ch (dv_challenges s)"
    and "ch_role ch = strip (lower role)" and "ch_nonce ch = nonce" and "ch_captured ch \<noteq> []" and "dv_task s1 = dv_task s"
    and "ch_tag ch = tag_of env key (tag_material vid s1 (strip (lower role)) nonce (ch_captured ch) (strip (case geo of None \<Rightarrow> [] | Some g \<Rightarrow> g)))"
  using assms
  by (auto simp: issue_capture_challenge_def Let_def map_of_put_row tag_material_def iso_time_def split: if_split_asm sum.split_asm prod.splits)

lemma find_challenge:
  assumes "nonce \<notin> ch_nonce ` snd ` set cs" and "ch_nonce ch = nonce" and "ch_role ch = role"
  shows "\<exists>k. find (\<lambda>(k, c). ch_nonce c = nonce \<and> ch_role c = role) (put_row key ch cs) = Some (k, ch)"
proof (cases "find (\<lambda>(k, c). ch_nonce c = nonce \<and> ch_role c = role) (put_row key ch cs)")
  case None
  have "map_of (put_row key ch cs) key = Some ch" by (simp add: map_of_put_row)
  then have "(key, ch) \<in> set (put_row key ch cs)" by (rule map_of_SomeD)
  with None assms(2,3) show ?thesis by (auto simp: find_None_iff)
next
  case (Some kc)
  then have "kc \<in> set (put_row key ch cs)" "ch_nonce (snd kc) = nonce" by (auto simp: find_Some_iff) (metis nth_mem)
  with assms(1) put_row_set [of key ch cs] have "snd kc = ch" by (metis image_eqI insertE snd_conv subset_eq)
  with Some show ?thesis by (metis prod.collapse)
qed

text \<open>
  A photo tagged on a challenge is accepted: the nonce, the time and the tag that a challenge hands to a
  party, sent back by that party before the challenge expires, pass the check of a tagged proof.
\<close>

theorem challenged_photo_accepted:
  assumes "issue_capture_challenge env nonce cid role geo vid s = Inr s1" and "map_of (dv_challenges s1) (''ch_'' @ cid) = Some ch"
    and "nonce \<noteq> []" and "ch_nonce ` snd ` set (dv_challenges s) \<inter> {nonce} = {}"
    and "dv_now env' \<le> ch_expires ch * 10 ^ 6" and "tag_master_key env' = tag_master_key env" and "dv_hmac env' = dv_hmac env"
    and "pb_nonce b = Some (ch_nonce ch)" and "pb_captured b = Some (ch_captured ch)" and "pb_tag b = Some (ch_tag ch)"
    and "pb_geo b = geo" and "pb_role b = role" and "16 \<le> length (pb_hash b)" and "strip (pb_type b) \<noteq> []" and "ch_tag ch \<noteq> []"
  shows "\<exists>t. submit_proof env' vid b s1 = Inr t \<and> has_proof t (strip (pb_type b)) \<and> dv_status t = dv_status s"
proof -
  obtain key where k: "tag_master_key env = Inr key" "dv_challenges s1 = put_row (''ch_'' @ cid) ch (dv_challenges s)"
      "ch_role ch = strip (lower role)" "ch_nonce ch = nonce" "ch_captured ch \<noteq> []" "dv_task s1 = dv_task s"
      "ch_tag ch = tag_of env key (tag_material vid s1 (strip (lower role)) nonce (ch_captured ch) (strip (case geo of None \<Rightarrow> [] | Some g \<Rightarrow> g)))"
    by (rule challenge_issued [OF assms(1,2)])
  have "nonce \<notin> ch_nonce ` snd ` set (dv_challenges s)" using assms(4) by blast
  from find_challenge [OF this k(4,3)] obtain k' where
    "find (\<lambda>(k, c). ch_nonce c = nonce \<and> ch_role c = strip (lower role)) (dv_challenges s1) = Some (k', ch)" unfolding k(2) by blast
  then have "verify_tag env' vid s1 (strip (lower role)) nonce (ch_captured ch) geo (ch_tag ch) = Inr ()"
    using k(1,7) assms(5-7) by (simp add: verify_tag_def tag_of_def)
  then obtain t where t: "submit_proof env' vid b s1 = Inr t"
    using assms(3,8-15) k(4,5) by (fastforce simp: submit_proof_def given_def Let_def)
  from submit_proof_effect [OF t] challenge_effect [OF assms(1)] t show ?thesis by simp
qed

definition challenged :: delivery_session where
  "challenged = projr (issue_capture_challenge (demo_delivery_env 0) ''n'' ''1'' ''logistics'' None ''dv_1'' (snd (hd (opened ''food_delivery''))))"

definition tagged_photo :: proof_body where
  "tagged_photo = (let ch = the (map_of (dv_challenges challenged) ''ch_1'')
     in plain_photo\<lparr>pb_type := ''delivery_photo_tagged'', pb_nonce := Some (ch_nonce ch), pb_captured := Some (ch_captured ch), pb_tag := Some (ch_tag ch)\<rparr>)"

theorem challenged_photo_accepted_witness:
  "\<exists>t. submit_proof (demo_delivery_env (10 ^ 6)) ''dv_1'' tagged_photo challenged = Inr t \<and> has_proof t ''delivery_photo_tagged''"
proof -
  let ?issue = "issue_capture_challenge (demo_delivery_env 0) ''n'' ''1'' ''logistics'' None ''dv_1'' (snd (hd (opened ''food_delivery'')))"
  let ?ch = "the (map_of (dv_challenges challenged) ''ch_1'')"
  have "case ?issue of Inl _ \<Rightarrow> False | Inr _ \<Rightarrow> True" by code_simp
  then have issue: "?issue = Inr challenged" unfolding challenged_def by (simp split: sum.splits)
  have "map_of (dv_challenges challenged) (''ch_'' @ ''1'') \<noteq> None" by code_simp
  then have ch: "map_of (dv_challenges challenged) (''ch_'' @ ''1'') = Some ?ch" by simp
  have fields: "ch_expires ?ch = 900 \<and> ch_tag ?ch \<noteq> [] \<and> dv_challenges (snd (hd (opened ''food_delivery''))) = []" by code_simp
  have env: "tag_master_key (demo_delivery_env (10 ^ 6)) = tag_master_key (demo_delivery_env 0)" by code_simp
  have now: "dv_hmac (demo_delivery_env (10 ^ 6)) = dv_hmac (demo_delivery_env 0)" "dv_now (demo_delivery_env (10 ^ 6)) = 10 ^ 6"
    by (simp_all add: demo_delivery_env_def)
  have ty: "strip (pb_type tagged_photo) = ''delivery_photo_tagged''" by code_simp
  have "\<exists>t. submit_proof (demo_delivery_env (10 ^ 6)) ''dv_1'' tagged_photo challenged = Inr t \<and> has_proof t (strip (pb_type tagged_photo)) \<and>
      dv_status t = dv_status (snd (hd (opened ''food_delivery'')))"
    by (rule challenged_photo_accepted [OF issue ch])
      (use fields ty env now in \<open>simp_all add: tagged_photo_def plain_photo_def Let_def\<close>)
  with ty show ?thesis by auto
qed

end
