(* ===== verification/Trust_Ledger.thy ===== *)
theory Trust_Ledger
  imports Py_Std Prelude
begin

text \<open>
  The trust ledger of services/identity_gateway/state_machine.py: the table of credential
  transitions, the hash chain of ledger entries, the stream of alerts, the integrity check and the health
  report. The key of the HMAC is part of the argument \<open>t_mac\<close>; \<open>t_token\<close> is the stream of random tokens, of which the
  state counts how many were drawn. The files of services/persist_json.py are the fields \<open>saved_ledger\<close> and
  \<open>saved_alerts\<close>; \<open>persist_json.save\<close> swallows every exception, so a failed write (\<open>t_writable\<close> is false) leaves
  the file and is never seen by the caller. The same holds for the probe of the health report.
\<close>

section \<open>Canonical form\<close>

text \<open>\<open>json.dumps(..., ensure_ascii=False, sort_keys=True, separators=(",", ":"))\<close>: only control characters, quotes and backslashes are escaped.\<close>

definition escape_raw :: "char \<Rightarrow> string" where
  "escape_raw c = (if 126 < char_code c then [c] else escape_char c)"

definition quote_raw :: "string \<Rightarrow> string" where
  "quote_raw s = CHR 34 # concat (map escape_raw s) @ [CHR 34]"

fun dumps_raw :: "json \<Rightarrow> string" where
  "dumps_raw JNull = ''null''"
| "dumps_raw (JBool b) = (if b then ''true'' else ''false'')"
| "dumps_raw (JInt i) = show_int i"
| "dumps_raw (JStr s) = quote_raw s"
| "dumps_raw (JList xs) = ''['' @ join '','' (map dumps_raw xs) @ '']''"
| "dumps_raw (JObj kvs) =
     ''{'' @ join '','' (map (\<lambda>(k, v). quote_raw k @ '':'' @ v) (sort_key fst (map (\<lambda>(k, v). (k, dumps_raw v)) kvs))) @ ''}''"

section \<open>State\<close>

record ledger_entry =
  le_id :: string
  le_ts :: int
  le_entity_type :: string
  le_entity_id :: string
  le_event :: string
  le_from :: string
  le_to :: string
  le_actor :: string
  le_reason :: string
  le_extra :: "(string \<times> json) list"
  le_hash :: string

record recent_event =
  rc_ts :: int
  rc_event :: string
  rc_from :: string
  rc_to :: string
  rc_actor :: string
  rc_reason :: string

record trust_alert =
  al_id :: string
  al_ts :: int
  al_severity :: string
  al_category :: string
  al_entity_type :: string
  al_entity_id :: string
  al_summary :: string
  al_detail :: "(string \<times> json) list"
  al_root_cause :: "recent_event list"

record trust_state =
  ledger :: "ledger_entry list"
  alerts :: "trust_alert list"
  saved_ledger :: "ledger_entry list"
  saved_alerts :: "trust_alert list"
  drawn :: nat

record trust_env =
  t_now :: int
  t_token :: "nat \<Rightarrow> string"
  t_mac :: "bytes \<Rightarrow> bytes"
  t_writable :: bool

definition new_trust_state :: trust_state where
  "new_trust_state = \<lparr>ledger = [], alerts = [], saved_ledger = [], saved_alerts = [], drawn = 0\<rparr>"

definition CREDENTIAL_TRANSITIONS :: "((string \<times> string) \<times> string) list" where
  "CREDENTIAL_TRANSITIONS =
     [(([], ''issue''), ''pending''), ((''pending'', ''verify''), ''verified''), ((''pending'', ''reject''), ''failed''),
      ((''pending'', ''revoke''), ''revoked''), ((''failed'', ''reissue''), ''pending''), ((''expired'', ''reverify''), ''pending''),
      ((''verified'', ''expire''), ''expired''), ((''verified'', ''revoke''), ''revoked'')]"

definition CREDENTIAL_TERMINAL_STATES :: "string list" where
  "CREDENTIAL_TERMINAL_STATES = [''revoked'']"

definition LEDGER_MAX :: int where "LEDGER_MAX = 100000"
definition ALERTS_MAX :: int where "ALERTS_MAX = 10000"
definition ROOT_CAUSE_DEPTH :: int where "ROOT_CAUSE_DEPTH = 8"

datatype transition_error = IllegalTransitionError string

section \<open>The ledger\<close>

text \<open>\<open>xs[-k:]\<close>.\<close>

definition last_slice :: "int \<Rightarrow> 'a list \<Rightarrow> 'a list" where
  "last_slice k xs = (if 0 < k then drop (length xs - nat k) xs else drop (nat (- k)) xs)"

definition canonical_entry :: "ledger_entry \<Rightarrow> string" where
  "canonical_entry e = dumps_raw (JObj
     [(''entry_id'', JStr (le_id e)), (''ts'', JInt (le_ts e)), (''entity_type'', JStr (le_entity_type e)),
      (''entity_id'', JStr (le_entity_id e)), (''event'', JStr (le_event e)), (''from_state'', JStr (le_from e)),
      (''to_state'', JStr (le_to e)), (''actor'', JStr (le_actor e)), (''reason'', JStr (le_reason e)), (''extra'', JObj (le_extra e))])"

definition entry_hash :: "(bytes \<Rightarrow> bytes) \<Rightarrow> string \<Rightarrow> ledger_entry \<Rightarrow> string" where
  "entry_hash mac prev e = hex (mac (prev @ ''|'' @ canonical_entry e))"

definition recent_entity_events :: "string \<Rightarrow> int \<Rightarrow> trust_state \<Rightarrow> recent_event list" where
  "recent_entity_events eid limit s =
     last_slice limit (map (\<lambda>e. \<lparr>rc_ts = le_ts e, rc_event = le_event e, rc_from = le_from e, rc_to = le_to e,
       rc_actor = le_actor e, rc_reason = le_reason e\<rparr>) (filter (\<lambda>e. le_entity_id e = eid) (ledger s)))"

definition broadcast_alert ::
    "trust_env \<Rightarrow> string \<Rightarrow> string \<Rightarrow> string \<Rightarrow> string \<Rightarrow> string \<Rightarrow> (string \<times> json) list \<Rightarrow> trust_state \<Rightarrow> trust_state" where
  "broadcast_alert env severity category entity_type entity_id summary detail s =
     (let a = \<lparr>al_id = ''tal_'' @ t_token env (drawn s), al_ts = t_now env, al_severity = severity, al_category = category,
               al_entity_type = entity_type, al_entity_id = entity_id, al_summary = take 200 summary, al_detail = detail,
               al_root_cause = recent_entity_events entity_id ROOT_CAUSE_DEPTH s\<rparr>;
          as = alerts s @ [a]; kept = (if ALERTS_MAX < int (length as) then drop (length as - nat ALERTS_MAX) as else as)
      in s\<lparr>alerts := kept, saved_alerts := (if t_writable env then kept else saved_alerts s), drawn := drawn s + 1\<rparr>)"

fun rebase :: "(bytes \<Rightarrow> bytes) \<Rightarrow> string \<Rightarrow> ledger_entry list \<Rightarrow> ledger_entry list" where
  "rebase mac prev [] = []"
| "rebase mac prev (e # es) = (let h = entry_hash mac prev e in e\<lparr>le_hash := h\<rparr> # rebase mac h es)"

definition save_ledger :: "trust_env \<Rightarrow> trust_state \<Rightarrow> trust_state" where
  "save_ledger env s = (if t_writable env then s\<lparr>saved_ledger := ledger s\<rparr> else s)"

definition new_entry ::
    "trust_env \<Rightarrow> string \<Rightarrow> string \<Rightarrow> string \<Rightarrow> string \<Rightarrow> string \<Rightarrow> string \<Rightarrow> string \<Rightarrow> (string \<times> json) list \<Rightarrow> trust_state \<Rightarrow> ledger_entry" where
  "new_entry env entity_type entity_id event from_state to_state actor reason extra s =
     (let prev = (if ledger s = [] then ''GENESIS'' else le_hash (last (ledger s)));
          e = \<lparr>le_id = ''tle_'' @ t_token env (drawn s), le_ts = t_now env, le_entity_type = entity_type, le_entity_id = entity_id,
               le_event = event, le_from = from_state, le_to = to_state, le_actor = take 64 actor, le_reason = take 256 reason,
               le_extra = extra, le_hash = []\<rparr>
      in e\<lparr>le_hash := entry_hash (t_mac env) prev e\<rparr>)"

text \<open>A full ledger announces what it drops, and the rest is hashed again. The result is the entry as the ledger has it.\<close>

definition append_ledger ::
    "trust_env \<Rightarrow> string \<Rightarrow> string \<Rightarrow> string \<Rightarrow> string \<Rightarrow> string \<Rightarrow> string \<Rightarrow> string \<Rightarrow> (string \<times> json) list \<Rightarrow> trust_state \<Rightarrow> trust_state \<times> ledger_entry" where
  "append_ledger env entity_type entity_id event from_state to_state actor reason extra s =
     (let e = new_entry env entity_type entity_id event from_state to_state actor reason extra s;
          s1 = s\<lparr>ledger := ledger s @ [e], drawn := drawn s + 1\<rparr>;
          s2 = (if LEDGER_MAX < int (length (ledger s1))
                then let dropped = length (ledger s1) - nat LEDGER_MAX;
                         s' = broadcast_alert env ''warn'' ''environment'' ''ledger'' ''trust_ledger''
                                (''ledger truncated at '' @ show_int LEDGER_MAX @ '' entries'') [(''dropped'', JInt (int dropped))] s1
                     in s'\<lparr>ledger := rebase (t_mac env) ''GENESIS'' (drop dropped (ledger s'))\<rparr>
                else s1);
          s3 = save_ledger env s2
      in (s3, last (ledger s3)))"

abbreviation record_event where "record_event \<equiv> append_ledger"

definition transition ::
    "trust_env \<Rightarrow> string \<Rightarrow> string \<Rightarrow> string \<Rightarrow> string \<Rightarrow> string \<Rightarrow> string \<Rightarrow> (string \<times> json) list \<Rightarrow> trust_state \<Rightarrow> trust_state \<times> (transition_error + ledger_entry)" where
  "transition env entity_type entity_id from_state action actor reason extra s =
     (case map_of CREDENTIAL_TRANSITIONS (from_state, action) of
        None \<Rightarrow>
          (broadcast_alert env ''warn'' ''illegal_transition'' entity_type entity_id
             (''illegal transition blocked: '' @ from_state @ '' --'' @ action @ ''--> ?'')
             [(''from_state'', JStr from_state), (''action'', JStr action), (''actor'', JStr (take 64 actor))] s,
           Inl (IllegalTransitionError (''illegal transition: '' @ from_state @ '' --'' @ action @ ''--> is not allowed'')))
      | Some to_state \<Rightarrow>
          (let (s', e) = append_ledger env entity_type entity_id (''credential_'' @ action) from_state to_state actor reason extra s
           in (s', Inr e)))"

section \<open>Integrity and health\<close>

fun first_broken :: "(bytes \<Rightarrow> bytes) \<Rightarrow> string \<Rightarrow> nat \<Rightarrow> ledger_entry list \<Rightarrow> (nat \<times> string) option" where
  "first_broken mac prev i [] = None"
| "first_broken mac prev i (e # es) = (if le_hash e \<noteq> entry_hash mac prev e then Some (i, le_id e) else first_broken mac (le_hash e) (i + 1) es)"

text \<open>\<open>Inl\<close>: where the chain is broken and the entry there; \<open>Inr\<close>: the number of entries.\<close>

definition verify_ledger_integrity :: "trust_env \<Rightarrow> trust_state \<Rightarrow> trust_state \<times> (nat \<times> string + nat)" where
  "verify_ledger_integrity env s =
     (case first_broken (t_mac env) ''GENESIS'' 0 (ledger s) of
        None \<Rightarrow> (s, Inr (length (ledger s)))
      | Some (i, eid) \<Rightarrow>
          (broadcast_alert env ''critical'' ''ledger_tamper'' ''ledger'' ''trust_ledger''
             (''ledger chain broken at index '' @ show_int (int i)) [(''index'', JInt (int i)), (''entry_id'', JStr eid)] s,
           Inl (i, eid)))"

record health_checks =
  hc_persist_writable :: bool
  hc_ledger_integrity :: bool
  hc_ledger_entries :: nat
  hc_alerts_count :: nat
  hc_clock_sane :: bool
  hc_ok :: bool

definition health_report :: "trust_env \<Rightarrow> trust_state \<Rightarrow> trust_state \<times> health_checks" where
  "health_report env s =
     (let writable = True;
          (s1, integrity) = verify_ledger_integrity env s;
          intact = (case integrity of Inl _ \<Rightarrow> False | Inr _ \<Rightarrow> True);
          n = (case integrity of Inl _ \<Rightarrow> length (ledger s1) | Inr k \<Rightarrow> k);
          m = length (alerts s1);
          last_ts = (if ledger s1 = [] then t_now env else le_ts (last (ledger s1)));
          sane = (last_ts \<le> t_now env + 300);
          s2 = (if sane then s1
                else broadcast_alert env ''warn'' ''environment'' ''environment'' ''clock'' ''ledger timestamp is in the future''
                       [(''last_ts'', JInt last_ts), (''now'', JInt (t_now env))] s1);
          fine = (writable \<and> intact \<and> sane);
          s3 = (if fine then s2
                else broadcast_alert env ''critical'' ''environment'' ''environment'' ''runtime'' ''trust environment health check FAILED''
                       [(''persist_writable'', JBool writable), (''ledger_integrity'', JBool intact), (''ledger_entries'', JInt (int n)),
                        (''alerts_count'', JInt (int m)), (''clock_sane'', JBool sane), (''ok'', JBool fine)] s2)
      in (s3, \<lparr>hc_persist_writable = writable, hc_ledger_integrity = intact, hc_ledger_entries = n, hc_alerts_count = m,
               hc_clock_sane = sane, hc_ok = fine\<rparr>))"

definition get_alerts :: "string option \<Rightarrow> int \<Rightarrow> trust_state \<Rightarrow> trust_alert list" where
  "get_alerts severity limit s = rev (last_slice limit (filter (\<lambda>a. severity = None \<or> severity = Some (al_severity a)) (alerts s)))"

definition get_ledger :: "string option \<Rightarrow> int \<Rightarrow> trust_state \<Rightarrow> ledger_entry list" where
  "get_ledger entity_id limit s = rev (last_slice limit (filter (\<lambda>e. entity_id = None \<or> entity_id = Some (le_entity_id e)) (ledger s)))"

text \<open>\<open>_load\<close>, when the process starts again.\<close>

definition load_trust :: "trust_state \<Rightarrow> trust_state" where
  "load_trust s = s\<lparr>ledger := saved_ledger s, alerts := saved_alerts s\<rparr>"

datatype trust_call =
    Transition string string string string string string "(string \<times> json) list"
  | Record string string string string string string string "(string \<times> json) list"
  | Broadcast string string string string string "(string \<times> json) list"
  | Check
  | Health
  | Restart

fun trust_do :: "trust_env \<Rightarrow> trust_call \<Rightarrow> trust_state \<Rightarrow> trust_state" where
  "trust_do env (Transition ty eid from_state action actor reason extra) s = fst (transition env ty eid from_state action actor reason extra s)"
| "trust_do env (Record ty eid event from_state to_state actor reason extra) s = fst (record_event env ty eid event from_state to_state actor reason extra s)"
| "trust_do env (Broadcast severity category ty eid summary detail) s = broadcast_alert env severity category ty eid summary detail s"
| "trust_do env Check s = fst (verify_ledger_integrity env s)"
| "trust_do env Health s = fst (health_report env s)"
| "trust_do env Restart s = load_trust s"

text \<open>All processes use the same key; \<open>durable\<close> says that every write reaches the disk.\<close>

inductive trust_step :: "(bytes \<Rightarrow> bytes) \<Rightarrow> bool \<Rightarrow> trust_state \<Rightarrow> trust_state \<Rightarrow> bool" for mac durable where
  call: "t_mac env = mac \<Longrightarrow> (durable \<Longrightarrow> t_writable env) \<Longrightarrow> trust_step mac durable s (trust_do env c s)"

section \<open>The chain\<close>

fun chained :: "(bytes \<Rightarrow> bytes) \<Rightarrow> string \<Rightarrow> ledger_entry list \<Rightarrow> bool" where
  "chained mac prev [] \<longleftrightarrow> True"
| "chained mac prev (e # es) \<longleftrightarrow> le_hash e = entry_hash mac prev e \<and> chained mac (le_hash e) es"

text \<open>What the chain hashes.\<close>

fun mac_inputs :: "string \<Rightarrow> ledger_entry list \<Rightarrow> bytes list" where
  "mac_inputs prev [] = []"
| "mac_inputs prev (e # es) = (prev @ ''|'' @ canonical_entry e) # mac_inputs (le_hash e) es"

definition unhashed :: "ledger_entry \<Rightarrow> ledger_entry" where
  "unhashed e = e\<lparr>le_hash := []\<rparr>"

lemma first_broken_None: "first_broken mac prev i es = None \<longleftrightarrow> chained mac prev es"
  by (induction es arbitrary: prev i) auto

lemma canonical_unhashed [simp]: "canonical_entry (e\<lparr>le_hash := h\<rparr>) = canonical_entry e" "entry_hash mac p (e\<lparr>le_hash := h\<rparr>) = entry_hash mac p e"
  by (simp_all add: canonical_entry_def entry_hash_def)

lemma unhashed_simps [simp]:
  "unhashed (e\<lparr>le_hash := h\<rparr>) = unhashed e" "le_entity_id (unhashed e) = le_entity_id e" "le_from (unhashed e) = le_from e" "le_to (unhashed e) = le_to e"
  by (simp_all add: unhashed_def)

lemma unhashed_eqD: "unhashed e = unhashed e' \<Longrightarrow> le_to e = le_to e' \<and> le_from e = le_from e' \<and> le_entity_id e = le_entity_id e'"
  by (metis unhashed_simps(2-4))

lemma chained_append:
  "chained mac p (xs @ [e]) \<longleftrightarrow> chained mac p xs \<and> le_hash e = entry_hash mac (if xs = [] then p else le_hash (last xs)) e"
  by (induction xs arbitrary: p) auto

lemma mac_inputs_append:
  "mac_inputs p (xs @ [e]) = mac_inputs p xs @ [(if xs = [] then p else le_hash (last xs)) @ ''|'' @ canonical_entry e]"
  by (induction xs arbitrary: p) auto

lemma chained_take: "chained mac p xs \<Longrightarrow> chained mac p (take n xs)"
  by (induction xs arbitrary: p n) (auto simp: take_Cons split: nat.splits)

lemma rebase_facts [simp]: "chained mac p (rebase mac p es)" "map unhashed (rebase mac p es) = map unhashed es" "length (rebase mac p es) = length es"
  by (induction es arbitrary: p) (auto simp: Let_def)

lemma length_hex: "length (hex bs) = 2 * length bs"
  by (induction bs) (simp_all add: hex_def hex_byte_def)

lemma bar_not_digit: "n < 16 \<Longrightarrow> digit_char n \<noteq> CHR ''|''"
  by (auto simp: digit_char_def less_Suc_eq numeral_eq_Suc)

lemma bar_not_in_hex: "CHR ''|'' \<notin> set (hex bs)"
proof -
  have "char_code c div 16 < 16" for c by (simp add: char_code_def less_mult_imp_div_less)
  then show ?thesis using bar_not_digit by (auto simp: hex_def hex_byte_def eq_commute [of "CHR ''|''"])
qed

lemma hex_not_genesis: "hex bs \<noteq> ''GENESIS''"
proof
  assume "hex bs = ''GENESIS''"
  then have "2 * length bs = 7" using length_hex [of bs] by simp
  then show False by presburger
qed

text \<open>The hash in front of an entry determines the rest, or the MAC has a collision.\<close>

lemma chain_binding:
  assumes "chained mac ''GENESIS'' xs" and "chained mac ''GENESIS'' ys" and "xs \<noteq> []" and "ys \<noteq> []" and "le_hash (last xs) = le_hash (last ys)"
    and "\<forall>a \<in> set (mac_inputs ''GENESIS'' xs). \<forall>b \<in> set (mac_inputs ''GENESIS'' ys). mac a = mac b \<longrightarrow> a = b"
  shows "map canonical_entry xs = map canonical_entry ys"
  using assms
proof (induction xs arbitrary: ys rule: rev_induct)
  case (snoc x xs)
  obtain ys' y where ys: "ys = ys' @ [y]" using snoc.prems(4) by (cases ys rule: rev_cases) auto
  let ?p = "\<lambda>zs. if zs = [] then ''GENESIS'' else le_hash (last zs)"
  have hashes: "\<exists>bs. ?p zs = hex bs" if "zs \<noteq> []" "chained mac ''GENESIS'' zs" for zs
    using that by (cases zs rule: rev_cases) (auto simp: chained_append entry_hash_def)
  have bar: "CHR ''|'' \<notin> set (?p zs)" if "chained mac ''GENESIS'' zs" for zs
    using hashes [OF _ that] bar_not_in_hex by (cases "zs = []") auto
  have chains: "chained mac ''GENESIS'' xs" "chained mac ''GENESIS'' ys'" using snoc.prems(1,2) ys by (simp_all add: chained_append)
  have "le_hash x = entry_hash mac (?p xs) x" using snoc.prems(1) unfolding chained_append by blast
  moreover have "le_hash y = entry_hash mac (?p ys') y" using snoc.prems(2) unfolding ys chained_append by blast
  moreover have "le_hash x = le_hash y" using snoc.prems(5) by (simp add: ys)
  ultimately have mac_eq: "mac (?p xs @ ''|'' @ canonical_entry x) = mac (?p ys' @ ''|'' @ canonical_entry y)"
    unfolding entry_hash_def by (simp only: hex_inj)
  have "?p xs @ ''|'' @ canonical_entry x \<in> set (mac_inputs ''GENESIS'' (xs @ [x]))"
    "?p ys' @ ''|'' @ canonical_entry y \<in> set (mac_inputs ''GENESIS'' ys)"
    unfolding ys mac_inputs_append by auto
  then have eq: "?p xs @ ''|'' @ canonical_entry x = ?p ys' @ ''|'' @ canonical_entry y"
    using snoc.prems(6) mac_eq by blast
  have split: "?p xs = ?p ys' \<and> canonical_entry x = canonical_entry y"
    by (rule append_char_inj [OF _ bar [OF chains(1)] bar [OF chains(2)]]) (use eq in simp)
  have "xs = [] \<longleftrightarrow> ys' = []"
    using split hashes [OF _ chains(1)] hashes [OF _ chains(2)] hex_not_genesis by metis
  then show ?case using snoc.IH [OF chains] snoc.prems(6) split ys by (cases "xs = []") (auto simp: mac_inputs_append)
qed simp

section \<open>What the operations do\<close>

lemma broadcast_effect [simp]:
  "ledger (broadcast_alert env sev cat ty eid summary detail s) = ledger s"
  "saved_ledger (broadcast_alert env sev cat ty eid summary detail s) = saved_ledger s"
  "drawn (broadcast_alert env sev cat ty eid summary detail s) = drawn s + 1"
  "length (alerts (broadcast_alert env sev cat ty eid summary detail s)) \<le> nat ALERTS_MAX"
  "t_writable env \<Longrightarrow> saved_alerts (broadcast_alert env sev cat ty eid summary detail s) = alerts (broadcast_alert env sev cat ty eid summary detail s)"
  "\<not> t_writable env \<Longrightarrow> saved_alerts (broadcast_alert env sev cat ty eid summary detail s) = saved_alerts s"
  by (simp_all add: broadcast_alert_def Let_def ALERTS_MAX_def)

definition trust_inv :: "(bytes \<Rightarrow> bytes) \<Rightarrow> trust_state \<Rightarrow> bool" where
  "trust_inv mac s \<longleftrightarrow>
     chained mac ''GENESIS'' (ledger s) \<and> chained mac ''GENESIS'' (saved_ledger s) \<and>
     length (ledger s) \<le> nat LEDGER_MAX \<and> length (saved_ledger s) \<le> nat LEDGER_MAX \<and>
     length (alerts s) \<le> nat ALERTS_MAX \<and> length (saved_alerts s) \<le> nat ALERTS_MAX"

definition durable_inv :: "trust_state \<Rightarrow> bool" where
  "durable_inv s \<longleftrightarrow> saved_ledger s = ledger s \<and> saved_alerts s = alerts s"

lemma broadcast_inv:
  "trust_inv mac s \<Longrightarrow> trust_inv mac (broadcast_alert env sev cat ty eid summary detail s)"
  "durable_inv s \<Longrightarrow> t_writable env \<Longrightarrow> durable_inv (broadcast_alert env sev cat ty eid summary detail s)"
  by (cases "t_writable env"; simp add: trust_inv_def) (simp add: durable_inv_def)

lemma new_entry_chained:
  "chained (t_mac env) ''GENESIS'' (ledger s) \<Longrightarrow>
     chained (t_mac env) ''GENESIS'' (ledger s @ [new_entry env ty eid ev from_state to_state actor reason extra s])"
proof -
  obtain e0 where "new_entry env ty eid ev from_state to_state actor reason extra s =
      e0\<lparr>le_hash := entry_hash (t_mac env) (if ledger s = [] then ''GENESIS'' else le_hash (last (ledger s))) e0\<rparr>"
    unfolding new_entry_def Let_def by blast
  then show "chained (t_mac env) ''GENESIS'' (ledger s) \<Longrightarrow> ?thesis" by (simp add: chained_append)
qed

text \<open>The state before the file is written: the entry is appended, and the oldest entries go when there are too many.\<close>

lemma append_ledger_cases:
  assumes "append_ledger env ty eid ev from_state to_state actor reason extra s = (s', e)"
    and "x = new_entry env ty eid ev from_state to_state actor reason extra s"
  obtains (kept) "length (ledger s) < nat LEDGER_MAX" "ledger s' = ledger s @ [x]" "alerts s' = alerts s" "saved_alerts s' = saved_alerts s" "drawn s' = drawn s + 1"
      "e = x" "saved_ledger s' = (if t_writable env then ledger s' else saved_ledger s)"
  | (truncated) s1 sev cat aty aid summary detail where "nat LEDGER_MAX \<le> length (ledger s)"
      "s1 = broadcast_alert env sev cat aty aid summary detail (s\<lparr>ledger := ledger s @ [x], drawn := drawn s + 1\<rparr>)"
      "ledger s' = rebase (t_mac env) ''GENESIS'' (drop (Suc (length (ledger s)) - nat LEDGER_MAX) (ledger s @ [x]))"
      "alerts s' = alerts s1" "saved_alerts s' = saved_alerts s1" "drawn s' = drawn s1" "e = last (ledger s')"
      "saved_ledger s' = (if t_writable env then ledger s' else saved_ledger s)"
proof (cases "nat LEDGER_MAX < length (ledger s @ [x])")
  case True
  with assms show ?thesis by (intro truncated [OF _ refl]) (auto simp: append_ledger_def save_ledger_def Let_def LEDGER_MAX_def)
next
  case False
  with assms show ?thesis by (intro kept) (auto simp: append_ledger_def save_ledger_def Let_def LEDGER_MAX_def)
qed

lemma append_inv:
  assumes "append_ledger env ty eid ev from_state to_state actor reason extra s = (s', e)" and "trust_inv (t_mac env) s"
  shows "trust_inv (t_mac env) s'"
proof (cases rule: append_ledger_cases [OF assms(1) refl])
  case 1
  with assms(2) show ?thesis using new_entry_chained [of env s] by (simp add: trust_inv_def)
next
  case (2 s1 sev cat aty aid summary detail)
  with assms(2) show ?thesis by (cases "t_writable env") (simp_all add: trust_inv_def)
qed

lemma append_durable:
  assumes "append_ledger env ty eid ev from_state to_state actor reason extra s = (s', e)" and "durable_inv s" and "t_writable env"
  shows "durable_inv s'"
  by (cases rule: append_ledger_cases [OF assms(1) refl]) (use assms(2,3) in \<open>simp_all add: durable_inv_def\<close>)

lemma append_history:
  assumes "append_ledger env ty eid ev from_state to_state actor reason extra s = (s', e)"
  shows "map unhashed (ledger s') =
      drop (Suc (length (ledger s)) - nat LEDGER_MAX) (map unhashed (ledger s) @ [unhashed (new_entry env ty eid ev from_state to_state actor reason extra s)])"
    and "le_to e = to_state"
proof -
  define x where "x = new_entry env ty eid ev from_state to_state actor reason extra s"
  have to: "le_to x = to_state" by (simp add: x_def new_entry_def Let_def)
  show "map unhashed (ledger s') = drop (Suc (length (ledger s)) - nat LEDGER_MAX) (map unhashed (ledger s) @ [unhashed x])"
  proof (cases rule: append_ledger_cases [OF assms x_def])
    case 2
    have "map unhashed (ledger s') = map unhashed (drop (Suc (length (ledger s)) - nat LEDGER_MAX) (ledger s @ [x]))" by (simp only: 2(3) rebase_facts)
    then show ?thesis by (simp only: drop_map [symmetric] map_append list.map)
  qed simp
  moreover have "Suc (length (ledger s)) - nat LEDGER_MAX \<le> length (ledger s)" by (simp add: LEDGER_MAX_def)
  ultimately have "last (map unhashed (ledger s')) = unhashed x" "ledger s' \<noteq> []" by auto
  then have "le_to (last (ledger s')) = to_state" using to by (simp add: last_map) (metis unhashed_simps(4))
  then show "le_to e = to_state" by (cases rule: append_ledger_cases [OF assms x_def]) (use to in auto)
qed

lemma transition_inv:
  "trust_inv (t_mac env) s \<Longrightarrow> trust_inv (t_mac env) (fst (transition env ty eid from_state action actor reason extra s))"
  by (auto simp: transition_def broadcast_inv split: option.split prod.split dest: append_inv)

lemma transition_durable:
  "durable_inv s \<Longrightarrow> t_writable env \<Longrightarrow> durable_inv (fst (transition env ty eid from_state action actor reason extra s))"
  by (auto simp: transition_def broadcast_inv split: option.split prod.split dest: append_durable)

lemma verify_intact: "chained (t_mac env) ''GENESIS'' (ledger s) \<Longrightarrow> verify_ledger_integrity env s = (s, Inr (length (ledger s)))"
  using first_broken_None [of "t_mac env" "''GENESIS''" 0 "ledger s"] by (simp add: verify_ledger_integrity_def)

lemma verify_Inr: "verify_ledger_integrity env s = (s', Inr n) \<Longrightarrow> chained (t_mac env) ''GENESIS'' (ledger s)"
  using first_broken_None [of "t_mac env" "''GENESIS''" 0 "ledger s"]
  by (auto simp: verify_ledger_integrity_def split: option.splits)

lemma verify_inv: "trust_inv mac s \<Longrightarrow> trust_inv mac (fst (verify_ledger_integrity env s))"
  by (simp add: verify_ledger_integrity_def broadcast_inv split: option.split prod.split)

lemma verify_durable: "durable_inv s \<Longrightarrow> t_writable env \<Longrightarrow> durable_inv (fst (verify_ledger_integrity env s))"
  by (simp add: verify_ledger_integrity_def broadcast_inv split: option.split prod.split)

lemma health_inv: "trust_inv mac s \<Longrightarrow> trust_inv mac (fst (health_report env s))"
  using verify_inv [of mac s env] by (cases "verify_ledger_integrity env s") (simp add: health_report_def Let_def broadcast_inv)

lemma health_durable: "durable_inv s \<Longrightarrow> t_writable env \<Longrightarrow> durable_inv (fst (health_report env s))"
  using verify_durable [of s env] by (cases "verify_ledger_integrity env s") (simp add: health_report_def Let_def broadcast_inv)

lemma load_inv: "trust_inv mac s \<Longrightarrow> trust_inv mac (load_trust s)" "durable_inv s \<Longrightarrow> durable_inv (load_trust s)"
  by (simp_all add: load_trust_def trust_inv_def durable_inv_def)

lemma trust_do_inv: "trust_inv (t_mac env) s \<Longrightarrow> trust_inv (t_mac env) (trust_do env c s)"
proof (cases c)
  case (Record ty eid event from_state to_state actor reason extra)
  then show "trust_inv (t_mac env) s \<Longrightarrow> ?thesis" by (metis append_inv prod.collapse trust_do.simps(2))
qed (simp_all add: transition_inv broadcast_inv verify_inv health_inv load_inv)

lemma trust_do_durable: "durable_inv s \<Longrightarrow> t_writable env \<Longrightarrow> durable_inv (trust_do env c s)"
proof (cases c)
  case (Record ty eid event from_state to_state actor reason extra)
  then show "durable_inv s \<Longrightarrow> t_writable env \<Longrightarrow> ?thesis" by (metis append_durable prod.collapse trust_do.simps(2))
qed (simp_all add: transition_durable broadcast_inv verify_durable health_durable load_inv)

interpretation chain: step_invariant "trust_step mac durable" "trust_inv mac"
  by unfold_locales (auto elim!: trust_step.cases intro: trust_do_inv)

interpretation durable: step_invariant "trust_step mac True" durable_inv
  by unfold_locales (auto elim!: trust_step.cases intro: trust_do_durable)

lemma new_trust_inv: "trust_inv mac new_trust_state" "durable_inv new_trust_state"
  by (simp_all add: trust_inv_def durable_inv_def new_trust_state_def)

section \<open>A ledger\<close>

definition demo_trust_env :: "int \<Rightarrow> trust_env" where
  "demo_trust_env t = \<lparr>t_now = t, t_token = show_nat, t_mac = (\<lambda>bs. bs), t_writable = True\<rparr>"

fun trust_run :: "trust_call list \<Rightarrow> trust_state \<Rightarrow> trust_state" where
  "trust_run [] s = s"
| "trust_run (c # cs) s = trust_run cs (trust_do (demo_trust_env 7) c s)"

definition demo_ledger :: trust_state where
  "demo_ledger = trust_run [Transition ''credential'' ''c'' [] ''issue'' ''system'' ''issue'' [], Transition ''credential'' ''c'' ''failed'' ''verify'' ''m'' [] [],
     Record ''identity'' ''i'' ''card_presented'' [] [] ''agent'' [] [], Transition ''credential'' ''c'' ''pending'' ''verify'' ''system'' [] []] new_trust_state"

lemma trust_run_steps: "(trust_step (\<lambda>bs. bs) durable)\<^sup>*\<^sup>* s (trust_run cs s)"
proof (induction cs arbitrary: s)
  case (Cons c cs)
  have "trust_step (\<lambda>bs. bs) durable s (trust_do (demo_trust_env 7) c s)" by (rule trust_step.call) (simp_all add: demo_trust_env_def)
  with Cons.IH show ?case by (auto intro: converse_rtranclp_into_rtranclp)
qed simp

lemma demo_ledger_view:
  "map (\<lambda>e. (le_event e, le_from e, le_to e)) (ledger demo_ledger) =
     [(''credential_issue'', [], ''pending''), (''card_presented'', [], []), (''credential_verify'', ''pending'', ''verified'')]"
  by (simp add: demo_ledger_def new_trust_state_def demo_trust_env_def transition_def append_ledger_def new_entry_def save_ledger_def broadcast_alert_def
    CREDENTIAL_TRANSITIONS_def LEDGER_MAX_def ALERTS_MAX_def Let_def)

lemma demo_ledger_steps: "(trust_step (\<lambda>bs. bs) durable)\<^sup>*\<^sup>* new_trust_state demo_ledger"
  unfolding demo_ledger_def by (rule trust_run_steps)

lemma length_demo_ledger: "length (ledger demo_ledger) = 3"
  using arg_cong [OF demo_ledger_view, of length] by simp

lemma demo_ledger_intact:
  "verify_ledger_integrity (demo_trust_env 8) demo_ledger = (demo_ledger, Inr 3)" "load_trust demo_ledger = demo_ledger"
proof -
  have "trust_inv (\<lambda>bs. bs) demo_ledger" by (rule chain.inv_run [OF demo_ledger_steps new_trust_inv(1)])
  then show "verify_ledger_integrity (demo_trust_env 8) demo_ledger = (demo_ledger, Inr 3)"
    by (simp add: trust_inv_def verify_intact demo_trust_env_def length_demo_ledger)
  have "durable_inv demo_ledger" by (rule durable.inv_run [OF demo_ledger_steps new_trust_inv(2)])
  then show "load_trust demo_ledger = demo_ledger" by (simp add: durable_inv_def load_trust_def)
qed

section \<open>Properties\<close>

text \<open>
  C12. The check of the ledger never raises a false alarm: after every sequence of transitions, events, alerts,
  checks and restarts, also when writes fail and when the ledger has dropped its oldest entries, the chain
  verifies over all entries, nothing is announced, and ledger and alerts stay within their bounds.
\<close>

theorem ledger_stays_intact:
  assumes "(trust_step mac durable)\<^sup>*\<^sup>* new_trust_state s" and "t_mac env = mac"
  shows "verify_ledger_integrity env s = (s, Inr (length (ledger s))) \<and> int (length (ledger s)) \<le> LEDGER_MAX \<and> int (length (alerts s)) \<le> ALERTS_MAX"
proof -
  have "trust_inv mac s" by (rule chain.inv_run [OF assms(1) new_trust_inv(1)])
  with assms(2) show ?thesis by (simp add: trust_inv_def verify_intact LEDGER_MAX_def ALERTS_MAX_def)
qed

theorem ledger_stays_intact_witness:
  "verify_ledger_integrity (demo_trust_env 8) demo_ledger = (demo_ledger, Inr 3)"
  using ledger_stays_intact [OF demo_ledger_steps, of "demo_trust_env 8"] by (simp add: demo_trust_env_def length_demo_ledger)



text \<open>
  The check does not see that the newest entries are gone: every prefix of an intact ledger passes, since the
  last hash is kept nowhere else.
\<close>

theorem dropped_tail_passes:
  assumes "verify_ledger_integrity env s = (s, Inr n)"
  shows "snd (verify_ledger_integrity env (s\<lparr>ledger := take k (ledger s)\<rparr>)) = Inr (min (length (ledger s)) k)"
proof -
  have "chained (t_mac env) ''GENESIS'' (ledger s)" by (rule verify_Inr [OF assms])
  then show ?thesis by (simp add: verify_intact chained_take)
qed

theorem dropped_tail_passes_witness:
  "snd (verify_ledger_integrity (demo_trust_env 8) (demo_ledger\<lparr>ledger := take 1 (ledger demo_ledger)\<rparr>)) = Inr 1"
  using dropped_tail_passes [OF demo_ledger_intact(1), of 1] by (simp add: length_demo_ledger)

text \<open>When every write reaches the disk, a restart at any moment brings back the same ledger and the same alerts.\<close>

theorem restart_keeps_ledger:
  assumes "(trust_step mac True)\<^sup>*\<^sup>* new_trust_state s"
  shows "load_trust s = s"
  using durable.inv_run [OF assms new_trust_inv(2)] by (simp add: load_trust_def durable_inv_def)

theorem restart_keeps_ledger_witness: "load_trust demo_ledger = demo_ledger"
  by (rule restart_keeps_ledger [OF demo_ledger_steps])

end
