(* ===== verification/Identity_Store.thy ===== *)
theory Identity_Store
  imports Trust_Ledger Db_Session
begin

text \<open>
  The identities of services/identity_gateway/store.py: identities with their sub identities, the indexes by
  wallet, messenger account and invitation code, and the credentials, whose every change of status goes
  through the trust ledger. \<open>by_id\<close> keeps the order in which the identities were created, the
  file of the identities is \<open>saved_ids\<close>. The stream \<open>t_token\<close> of the ledger also gives the random parts of the
  identifiers, \<open>i_invite\<close> the invitation codes.
\<close>

section \<open>Data\<close>

record credential =
  cr_id :: string
  cr_type :: string
  cr_status :: string
  cr_issuer :: string
  cr_issued_at :: int
  cr_verified_at :: "int option"
  cr_expires_at :: "int option"

record karma_identity =
  ki_id :: string
  ki_wallet :: string
  ki_status :: string
  ki_created_at :: int
  ki_tg :: "int option"
  ki_tg_name :: "string option"
  ki_policy :: "(string \<times> json) list"
  ki_meta :: "(string \<times> json) list"
  ki_parent :: "string option"
  ki_subs :: "string list"
  ki_invite :: string
  ki_referred_by :: "string option"
  ki_points :: rat
  ki_twofa :: string
  ki_class :: string
  ki_verification :: string
  ki_credentials :: "credential list"

record identity_state =
  by_id :: "(string \<times> karma_identity) list"
  by_wallet :: "string \<rightharpoonup> string"
  by_tg :: "int \<rightharpoonup> string"
  by_invite :: "string \<rightharpoonup> string"
  saved_ids :: "karma_identity list"
  trust :: trust_state

record identity_env =
  i_trust :: trust_env
  i_invite :: "nat \<Rightarrow> string"

datatype identity_error = KeyError string | IdentityValueError string | IllegalTransition string

definition IDENTITY_CLASSES :: "string list" where
  "IDENTITY_CLASSES = [''user'', ''business'', ''agent'']"

definition CREDENTIAL_TYPES :: "string list" where
  "CREDENTIAL_TYPES = [''email'', ''phone'', ''wallet'', ''domain'', ''business_reg'', ''telegram'', ''twofa'']"

definition default_policy :: "(string \<times> json) list" where
  "default_policy =
     [(''mode'', JStr ''manual_confirm''), (''single_limit_usdc'', JStr ''500''), (''daily_limit_usdc'', JStr ''2000''),
      (''allowed_categories'', JList []), (''allowed_agents'', JList []), (''emergency_revoke'', JBool False)]"

definition new_identity :: "string \<Rightarrow> string \<Rightarrow> int \<Rightarrow> string \<Rightarrow> (string \<times> json) list \<Rightarrow> karma_identity" where
  "new_identity iid wallet now code policy =
     \<lparr>ki_id = iid, ki_wallet = wallet, ki_status = ''active'', ki_created_at = now, ki_tg = None, ki_tg_name = None, ki_policy = policy,
      ki_meta = [], ki_parent = None, ki_subs = [], ki_invite = code, ki_referred_by = None, ki_points = 0, ki_twofa = [],
      ki_class = ''user'', ki_verification = ''unverified'', ki_credentials = []\<rparr>"

definition new_identity_state :: identity_state where
  "new_identity_state = \<lparr>by_id = [], by_wallet = Map.empty, by_tg = Map.empty, by_invite = Map.empty, saved_ids = [], trust = new_trust_state\<rparr>"

definition upper :: "string \<Rightarrow> string" where
  "upper s = map (\<lambda>c. if 97 \<le> char_code c \<and> char_code c \<le> 122 then char_of (char_code c - 32) else c) s"

section \<open>Storing\<close>

definition persist :: "identity_env \<Rightarrow> identity_state \<Rightarrow> identity_state" where
  "persist env s = (if t_writable (i_trust env) then s\<lparr>saved_ids := map snd (by_id s)\<rparr> else s)"

definition put_identity :: "karma_identity \<Rightarrow> identity_state \<Rightarrow> identity_state" where
  "put_identity i s = s\<lparr>by_id := put_row (ki_id i) i (by_id s)\<rparr>"

definition reindex_tg :: "karma_identity \<Rightarrow> identity_state \<Rightarrow> identity_state" where
  "reindex_tg i s = (case ki_tg i of None \<Rightarrow> s | Some n \<Rightarrow> s\<lparr>by_tg := (by_tg s)(n \<mapsto> ki_id i)\<rparr>)"

definition reindex_wallet :: "karma_identity \<Rightarrow> identity_state \<Rightarrow> identity_state" where
  "reindex_wallet i s = s\<lparr>by_wallet := (by_wallet s)(ki_wallet i \<mapsto> ki_id i)\<rparr>"

definition reindex_invite :: "karma_identity \<Rightarrow> identity_state \<Rightarrow> identity_state" where
  "reindex_invite i s = (if ki_invite i = [] then s else s\<lparr>by_invite := (by_invite s)(ki_invite i \<mapsto> ki_id i)\<rparr>)"

text \<open>Two random values: the identifier and the invitation code.\<close>

definition draw :: "nat \<Rightarrow> identity_state \<Rightarrow> identity_state" where
  "draw n s = s\<lparr>trust := (trust s)\<lparr>drawn := drawn (trust s) + n\<rparr>\<rparr>"

definition add_identity :: "identity_env \<Rightarrow> karma_identity \<Rightarrow> identity_state \<Rightarrow> identity_state" where
  "add_identity env i s = persist env (reindex_invite i (reindex_wallet i (put_identity i s)))"

text \<open>\<open>_load\<close>: the indexes are built from the file.\<close>

definition load_identities :: "identity_state \<Rightarrow> identity_state" where
  "load_identities s =
     foldl (\<lambda>s i. reindex_invite i (reindex_tg i (reindex_wallet i (put_identity i s))))
       (s\<lparr>by_id := [], by_wallet := Map.empty, by_tg := Map.empty, by_invite := Map.empty, trust := load_trust (trust s)\<rparr>) (saved_ids s)"

section \<open>Identities\<close>

definition get_or_create_by_wallet ::
    "identity_env \<Rightarrow> string \<Rightarrow> (string \<times> json) list \<Rightarrow> identity_state \<Rightarrow> identity_state \<times> karma_identity" where
  "get_or_create_by_wallet env wallet meta s =
     (let w = lower wallet;
          found = (case by_wallet s w of None \<Rightarrow> None | Some iid \<Rightarrow> if iid = [] then None else map_of (by_id s) iid) in
      case found of
        Some i \<Rightarrow> (s, i)
      | None \<Rightarrow>
          (let n = drawn (trust s);
               i = (new_identity (''kid_'' @ t_token (i_trust env) n) w (t_now (i_trust env)) (i_invite env (n + 1)) default_policy)\<lparr>ki_meta := meta\<rparr>
           in (add_identity env i (draw 2 s), i)))"

definition get_by_id :: "string \<Rightarrow> identity_state \<Rightarrow> karma_identity option" where
  "get_by_id iid s = map_of (by_id s) iid"

definition indexed :: "string option \<Rightarrow> identity_state \<Rightarrow> karma_identity option" where
  "indexed iid s = (case iid of None \<Rightarrow> None | Some i \<Rightarrow> if i = [] then None else map_of (by_id s) i)"

definition get_by_wallet :: "string \<Rightarrow> identity_state \<Rightarrow> karma_identity option" where
  "get_by_wallet wallet s = indexed (by_wallet s (lower wallet)) s"

definition get_by_telegram :: "int \<Rightarrow> identity_state \<Rightarrow> karma_identity option" where
  "get_by_telegram n s = indexed (by_tg s n) s"

definition get_by_invite_code :: "string \<Rightarrow> identity_state \<Rightarrow> karma_identity option" where
  "get_by_invite_code code s = indexed (by_invite s (upper (strip code))) s"

definition main_of :: "karma_identity \<Rightarrow> identity_state \<Rightarrow> karma_identity" where
  "main_of i s =
     (case ki_parent i of
        None \<Rightarrow> i
      | Some p \<Rightarrow> if p = [] then i else (case map_of (by_id s) p of None \<Rightarrow> i | Some m \<Rightarrow> m))"

definition resolve_main_identity :: "string \<Rightarrow> identity_state \<Rightarrow> karma_identity option" where
  "resolve_main_identity iid s = map_option (\<lambda>i. main_of i s) (map_of (by_id s) iid)"

definition resolve_effective_identity :: "int \<Rightarrow> identity_state \<Rightarrow> karma_identity option" where
  "resolve_effective_identity n s = map_option (\<lambda>i. main_of i s) (get_by_telegram n s)"

definition create_sub_identity :: "identity_env \<Rightarrow> string \<Rightarrow> string \<Rightarrow> identity_state \<Rightarrow> identity_state \<times> (identity_error + karma_identity)" where
  "create_sub_identity env pid wallet s =
     (let w = lower wallet in
      case map_of (by_id s) pid of
        None \<Rightarrow> (s, Inl (KeyError ''parent identity not found''))
      | Some p \<Rightarrow>
          if ki_parent p \<notin> {None, Some []} then (s, Inl (IdentityValueError ''sub-identity cannot create sub-identities''))
          else if 2 \<le> length (ki_subs p) then (s, Inl (IdentityValueError ''max 2 sub-identities allowed''))
          else if by_wallet s w \<noteq> None then (s, Inl (IdentityValueError ''wallet already bound to another identity''))
          else let n = drawn (trust s); iid = ''kid_'' @ t_token (i_trust env) n;
                   i = (new_identity iid w (t_now (i_trust env)) (i_invite env (n + 1)) (ki_policy p))
                         \<lparr>ki_parent := Some pid, ki_referred_by := (if ki_invite p = [] then None else Some (ki_invite p)),
                          ki_meta := [(''role'', JStr ''sub''), (''parent'', JStr pid)]\<rparr>;
                   s1 = reindex_invite i (reindex_wallet i (put_identity i (draw 2 s)))
               in (persist env (put_identity (p\<lparr>ki_subs := ki_subs p @ [iid]\<rparr>) s1), Inr i))"

definition bind_telegram :: "identity_env \<Rightarrow> string \<Rightarrow> int \<Rightarrow> string option \<Rightarrow> identity_state \<Rightarrow> identity_state \<times> (identity_error + karma_identity)" where
  "bind_telegram env iid n username s =
     (case map_of (by_id s) iid of
        None \<Rightarrow> (s, Inl (KeyError ''identity not found''))
      | Some i \<Rightarrow>
          if by_tg s n \<notin> {None, Some [], Some iid} then (s, Inl (IdentityValueError ''telegram already bound to another identity''))
          else let i' = i\<lparr>ki_tg := Some n, ki_tg_name := username\<rparr> in (persist env (reindex_tg i' (put_identity i' s)), Inr i'))"

definition seed_identity ::
    "identity_env \<Rightarrow> string \<Rightarrow> string \<Rightarrow> string \<Rightarrow> (string \<times> json) list \<Rightarrow> rat \<Rightarrow> identity_state \<Rightarrow> identity_state \<times> karma_identity" where
  "seed_identity env iid wallet code policy points s =
     (case map_of (by_id s) iid of
        Some i \<Rightarrow> (let i' = i\<lparr>ki_twofa := code\<rparr> in (persist env (put_identity i' s), i'))
      | None \<Rightarrow>
          (let i = (new_identity iid (lower wallet) (t_now (i_trust env)) (i_invite env (drawn (trust s))) (if policy = [] then default_policy else policy))
                     \<lparr>ki_twofa := code, ki_points := points\<rparr>
           in (add_identity env i (draw 1 s), i)))"

definition update_policy :: "identity_env \<Rightarrow> string \<Rightarrow> (string \<times> json) list \<Rightarrow> identity_state \<Rightarrow> identity_state \<times> (identity_error + karma_identity)" where
  "update_policy env iid policy s =
     (case map_of (by_id s) iid of
        None \<Rightarrow> (s, Inl (KeyError ''identity not found''))
      | Some i \<Rightarrow>
          if map_of policy ''infinite_approve'' = Some (JBool True) then (s, Inl (IdentityValueError ''infinite USDC approve is forbidden''))
          else let i' = i\<lparr>ki_policy := put_row ''infinite_approve'' (JBool False) (foldl (\<lambda>d (k, v). put_row k v d) (ki_policy i) policy)\<rparr>
               in (persist env (put_identity i' s), Inr i'))"

text \<open>Points of a sub identity go to its main identity.\<close>

definition add_karma_points :: "identity_env \<Rightarrow> string \<Rightarrow> rat \<Rightarrow> identity_state \<Rightarrow> identity_state \<times> karma_identity option" where
  "add_karma_points env iid points s =
     (case map_of (by_id s) iid of
        None \<Rightarrow> (s, None)
      | Some i \<Rightarrow>
          (let m = main_of i s; m' = m\<lparr>ki_points := py_round (ki_points m + points) 2\<rparr> in (persist env (put_identity m' s), Some m')))"

definition get_sub_identities :: "string \<Rightarrow> identity_state \<Rightarrow> karma_identity list" where
  "get_sub_identities pid s =
     (case map_of (by_id s) pid of
        None \<Rightarrow> []
      | Some p \<Rightarrow> concat (map (\<lambda>x. case map_of (by_id s) x of None \<Rightarrow> [] | Some i \<Rightarrow> [i]) (ki_subs p)))"

definition get_referral_chain :: "string \<Rightarrow> identity_state \<Rightarrow> karma_identity list" where
  "get_referral_chain iid s =
     (case map_of (by_id s) iid of
        None \<Rightarrow> []
      | Some i \<Rightarrow> if ki_invite i = [] then [] else filter (\<lambda>j. ki_referred_by j = Some (ki_invite i) \<and> ki_id j \<noteq> iid) (map snd (by_id s)))"

section \<open>Credentials\<close>

definition verification_level :: "credential list \<Rightarrow> string" where
  "verification_level cs =
     (let types = remdups (map cr_type (filter (\<lambda>c. cr_status c = ''verified'') cs)) in
      if 3 \<le> length types \<and> ''wallet'' \<in> set types then ''enhanced'' else if types \<noteq> [] then ''basic'' else ''unverified'')"

definition recompute_verification_status :: "karma_identity \<Rightarrow> karma_identity" where
  "recompute_verification_status i = i\<lparr>ki_verification := verification_level (ki_credentials i)\<rparr>"

definition find_credential :: "karma_identity \<Rightarrow> string \<Rightarrow> credential option" where
  "find_credential i cid = find (\<lambda>c. cr_id c = cid) (ki_credentials i)"

definition active :: "credential \<Rightarrow> bool" where
  "active c \<longleftrightarrow> cr_status c \<in> {''pending'', ''verified''}"

text \<open>The credential objects are shared with the list of the identity; they are told apart by their random identifiers.\<close>

definition set_credential :: "credential \<Rightarrow> credential list \<Rightarrow> credential list" where
  "set_credential c' cs = map (\<lambda>c. if cr_id c = cr_id c' then c' else c) cs"

definition credential_extra :: "string \<Rightarrow> string \<Rightarrow> (string \<times> json) list" where
  "credential_extra iid ty = [(''identity_id'', JStr iid), (''type'', JStr ty)]"

definition mutate_credential_locked ::
    "identity_env \<Rightarrow> karma_identity \<Rightarrow> credential \<Rightarrow> string \<Rightarrow> string \<Rightarrow> string \<Rightarrow> identity_state \<Rightarrow> identity_state \<times> (identity_error + credential)" where
  "mutate_credential_locked env i c action actor reason s =
     (case transition (i_trust env) ''credential'' (cr_id c) (cr_status c) action actor reason (credential_extra (ki_id i) (cr_type c)) (trust s) of
        (t, Inl (IllegalTransitionError e)) \<Rightarrow> (s\<lparr>trust := t\<rparr>, Inl (IllegalTransition e))
      | (t, Inr e) \<Rightarrow>
          (let c' = c\<lparr>cr_status := le_to e, cr_verified_at := (if action = ''verify'' then Some (t_now (i_trust env)) else cr_verified_at c)\<rparr>;
               i' = recompute_verification_status (i\<lparr>ki_credentials := set_credential c' (ki_credentials i)\<rparr>)
           in (persist env (put_identity i' (s\<lparr>trust := t\<rparr>)), Inr c')))"

definition issue_credential ::
    "identity_env \<Rightarrow> string \<Rightarrow> string \<Rightarrow> string \<Rightarrow> int \<Rightarrow> string \<Rightarrow> bool \<Rightarrow> identity_state \<Rightarrow> identity_state \<times> (identity_error + credential)" where
  "issue_credential env iid ty issuer ttl actor auto_verify s =
     (if ty \<notin> set CREDENTIAL_TYPES then (s, Inl (IdentityValueError (''unsupported credential type: '' @ ty)))
      else if ttl < 0 \<or> 10 * 365 * 86400 < ttl then (s, Inl (IdentityValueError ''ttl_seconds out of range''))
      else case map_of (by_id s) iid of
        None \<Rightarrow> (s, Inl (KeyError ''identity not found''))
      | Some i \<Rightarrow>
          if list_ex (\<lambda>c. cr_type c = ty \<and> active c) (ki_credentials i)
          then (s, Inl (IdentityValueError (''credential of type '' @ ty @ '' already exists and is active'')))
          else let now = t_now (i_trust env); cid = ''cred_'' @ t_token (i_trust env) (drawn (trust s)); s0 = draw 1 s;
                   c0 = \<lparr>cr_id = cid, cr_type = ty, cr_status = ''pending'', cr_issuer = take 64 issuer, cr_issued_at = now,
                         cr_verified_at = None, cr_expires_at = (if 0 < ttl then Some (now + ttl) else None)\<rparr>
               in case transition (i_trust env) ''credential'' cid [] ''issue'' actor (''issue '' @ ty @ '' for '' @ iid) (credential_extra iid ty) (trust s0) of
                    (t, Inl (IllegalTransitionError e)) \<Rightarrow> (s0\<lparr>trust := t\<rparr>, Inl (IllegalTransition e))
                  | (t, Inr e) \<Rightarrow>
                      (let c = c0\<lparr>cr_status := le_to e\<rparr>;
                           i' = recompute_verification_status (i\<lparr>ki_credentials := ki_credentials i @ [c]\<rparr>);
                           s1 = persist env (put_identity i' (s0\<lparr>trust := t\<rparr>))
                       in if auto_verify then mutate_credential_locked env i' c ''verify'' actor ''verification passed'' s1 else (s1, Inr c)))"

definition mutate_credential ::
    "identity_env \<Rightarrow> string \<Rightarrow> string \<Rightarrow> string \<Rightarrow> string \<Rightarrow> string \<Rightarrow> identity_state \<Rightarrow> identity_state \<times> (identity_error + credential)" where
  "mutate_credential env iid cid action actor reason s =
     (case map_of (by_id s) iid of
        None \<Rightarrow> (s, Inl (KeyError ''identity not found''))
      | Some i \<Rightarrow>
          (case find_credential i cid of
             None \<Rightarrow> (s, Inl (KeyError ''credential not found''))
           | Some c \<Rightarrow> mutate_credential_locked env i c action actor reason s))"

definition verify_credential :: "identity_env \<Rightarrow> string \<Rightarrow> string \<Rightarrow> string \<Rightarrow> identity_state \<Rightarrow> identity_state \<times> (identity_error + credential)" where
  "verify_credential env iid cid actor s = mutate_credential env iid cid ''verify'' actor ''verification passed'' s"

definition reject_credential :: "identity_env \<Rightarrow> string \<Rightarrow> string \<Rightarrow> string \<Rightarrow> string \<Rightarrow> identity_state \<Rightarrow> identity_state \<times> (identity_error + credential)" where
  "reject_credential env iid cid actor reason s =
     mutate_credential env iid cid ''reject'' actor (if reason = [] then ''verification failed'' else reason) s"

definition revoke_credential :: "identity_env \<Rightarrow> string \<Rightarrow> string \<Rightarrow> string \<Rightarrow> string \<Rightarrow> identity_state \<Rightarrow> identity_state \<times> (identity_error + credential)" where
  "revoke_credential env iid cid actor reason s =
     (if strip reason = [] then (s, Inl (IdentityValueError ''revoke requires an explicit reason (audit trail)''))
      else mutate_credential env iid cid ''revoke'' actor reason s)"

text \<open>A credential with status \<open>verified\<close> can always expire, so the transition of the sweep does not raise (lemma \<open>expire_legal\<close>).\<close>

definition stale :: "int \<Rightarrow> credential \<Rightarrow> bool" where
  "stale now c \<longleftrightarrow> cr_status c = ''verified'' \<and> (case cr_expires_at c of None \<Rightarrow> False | Some t \<Rightarrow> t \<noteq> 0 \<and> t \<le> now)"

fun expire_each :: "trust_env \<Rightarrow> string \<Rightarrow> credential list \<Rightarrow> trust_state \<Rightarrow> trust_state \<times> credential list \<times> nat" where
  "expire_each env iid [] t = (t, [], 0)"
| "expire_each env iid (c # cs) t =
     (if stale (t_now env) c
      then case transition env ''credential'' (cr_id c) (cr_status c) ''expire'' ''system'' ''ttl reached'' (credential_extra iid (cr_type c)) t of
             (t', Inl _) \<Rightarrow> (t', c # cs, 0)
           | (t', Inr e) \<Rightarrow> (case expire_each env iid cs t' of (t'', cs', n) \<Rightarrow> (t'', c\<lparr>cr_status := le_to e\<rparr> # cs', n + 1))
      else case expire_each env iid cs t of (t', cs', n) \<Rightarrow> (t', c # cs', n))"

definition expire_stale_credentials :: "identity_env \<Rightarrow> string \<Rightarrow> identity_state \<Rightarrow> identity_state \<times> nat" where
  "expire_stale_credentials env iid s =
     (case map_of (by_id s) iid of
        None \<Rightarrow> (s, 0)
      | Some i \<Rightarrow>
          (case expire_each (i_trust env) iid (ki_credentials i) (trust s) of
             (t, cs, n) \<Rightarrow>
               if 0 < n then (persist env (put_identity (recompute_verification_status (i\<lparr>ki_credentials := cs\<rparr>)) (s\<lparr>trust := t\<rparr>)), n)
               else (s\<lparr>trust := t\<rparr>, n)))"

text \<open>The ellipsis is one character of three bytes.\<close>

definition mask_wallet :: "string \<Rightarrow> string" where
  "mask_wallet w =
     (let dots = map char_of [226, 128, 166 :: nat]
      in if length w \<le> 10 then take 2 w @ dots else take 6 w @ dots @ last_slice 4 w)"

record credential_summary =
  cs_id :: string
  cs_type :: string
  cs_status :: string
  cs_verified_at :: "int option"
  cs_expires_at :: "int option"

record karma_card =
  kc_id :: string
  kc_class :: string
  kc_status :: string
  kc_verification :: string
  kc_basic :: bool
  kc_enhanced :: bool
  kc_telegram_bound :: bool
  kc_wallet :: string
  kc_risk :: string
  kc_issued_at :: int
  kc_credentials :: "credential_summary list option"
  kc_sub_count :: "nat option"

definition identity_card :: "identity_env \<Rightarrow> string \<Rightarrow> string \<Rightarrow> string \<Rightarrow> identity_state \<Rightarrow> identity_state \<times> (identity_error + karma_card)" where
  "identity_card env iid audience scope s =
     (case resolve_main_identity iid s of
        None \<Rightarrow> (s, Inl (KeyError ''identity not found''))
      | Some m \<Rightarrow>
          if scope \<notin> {''basic'', ''full''} then (s, Inl (IdentityValueError ''scope must be basic or full''))
          else let s1 = fst (expire_stale_credentials env (ki_id m) s);
                   i = (case map_of (by_id s1) (ki_id m) of None \<Rightarrow> m | Some x \<Rightarrow> x);
                   full = (scope = ''full'');
                   card = \<lparr>kc_id = ki_id i, kc_class = ki_class i, kc_status = ki_status i, kc_verification = ki_verification i,
                           kc_basic = (ki_verification i \<in> {''basic'', ''enhanced''}), kc_enhanced = (ki_verification i = ''enhanced''),
                           kc_telegram_bound = (ki_tg i \<noteq> None), kc_wallet = mask_wallet (ki_wallet i),
                           kc_risk = (if ki_status i = ''active'' then ''normal'' else ''restricted''), kc_issued_at = t_now (i_trust env),
                           kc_credentials = (if full then Some (map (\<lambda>c. \<lparr>cs_id = cr_id c, cs_type = cr_type c, cs_status = cr_status c,
                                               cs_verified_at = cr_verified_at c, cs_expires_at = cr_expires_at c\<rparr>) (ki_credentials i)) else None),
                           kc_sub_count = (if full then Some (length (ki_subs i)) else None)\<rparr>;
                   t = fst (record_event (i_trust env) ''identity'' (ki_id i) ''card_presented'' [] [] (take 64 audience) (''scope='' @ scope)
                              [(''scope'', JStr scope)] (trust s1))
               in (s1\<lparr>trust := t\<rparr>, Inr card))"

definition set_identity_class :: "identity_env \<Rightarrow> string \<Rightarrow> string \<Rightarrow> string \<Rightarrow> identity_state \<Rightarrow> identity_state \<times> (identity_error + karma_identity)" where
  "set_identity_class env iid cls actor s =
     (if cls \<notin> set IDENTITY_CLASSES then (s, Inl (IdentityValueError (''invalid identity_class: '' @ cls)))
      else case map_of (by_id s) iid of
        None \<Rightarrow> (s, Inl (KeyError ''identity not found''))
      | Some i \<Rightarrow>
          if ki_class i = cls then (s, Inr i)
          else let t = fst (record_event (i_trust env) ''identity'' iid ''identity_class_changed'' (ki_class i) cls actor ''set_identity_class'' [] (trust s));
                   i' = i\<lparr>ki_class := cls\<rparr>
               in (persist env (put_identity i' (s\<lparr>trust := t\<rparr>)), Inr i'))"

text \<open>
  Binding by the one-time code: the account is taken from whoever had it, an active messenger credential of the
  identity is revoked, and a new one is issued and verified. What is raised on the way leaves the changes made before.
\<close>

definition release_tg :: "int \<Rightarrow> string \<Rightarrow> identity_state \<Rightarrow> identity_state" where
  "release_tg n iid s =
     (case indexed (by_tg s n) s of
        None \<Rightarrow> s
      | Some p \<Rightarrow> if by_tg s n = Some iid then s else put_identity (p\<lparr>ki_tg := None, ki_tg_name := None\<rparr>) s)"

definition bind_account :: "identity_env \<Rightarrow> int \<Rightarrow> string \<Rightarrow> karma_identity \<Rightarrow> identity_state \<Rightarrow> identity_state" where
  "bind_account env n actor i s =
     (let s1 = reindex_tg i (put_identity i (release_tg n (ki_id i) s))
      in s1\<lparr>trust := fst (record_event (i_trust env) ''identity'' (ki_id i) ''telegram_bind'' ''unbound'' ''telegram_bound'' actor
                             ''2fa bind success'' [] (trust s1))\<rparr>)"

definition revoke_telegram :: "identity_env \<Rightarrow> string \<Rightarrow> karma_identity \<Rightarrow> identity_state \<Rightarrow> identity_state \<times> (identity_error + unit)" where
  "revoke_telegram env actor i s =
     (case find (\<lambda>c. cr_type c = ''telegram'' \<and> active c) (ki_credentials i) of
        None \<Rightarrow> (s, Inr ())
      | Some c \<Rightarrow> (case mutate_credential_locked env i c ''revoke'' actor ''re-bind replaces old telegram credential'' s of
                     (s', Inl e) \<Rightarrow> (s', Inl e) | (s', Inr _) \<Rightarrow> (s', Inr ())))"

definition bind_by_2fa ::
    "identity_env \<Rightarrow> int \<Rightarrow> string \<Rightarrow> string \<Rightarrow> string option \<Rightarrow> identity_state \<Rightarrow> identity_state \<times> (identity_error + karma_identity)" where
  "bind_by_2fa env n iid0 code username s =
     (let iid = strip iid0; actor = ''tg:'' @ show_int n in
      case map_of (by_id s) iid of
        None \<Rightarrow> (s, Inl (KeyError ''identity id unknown''))
      | Some i \<Rightarrow>
          if ki_twofa i = [] then (s, Inl (IdentityValueError ''code burnt''))
          else if ki_twofa i \<noteq> strip code then (s, Inl (IdentityValueError ''code wrong''))
          else
            let i1 = i\<lparr>ki_tg := Some n, ki_tg_name := username, ki_twofa := []\<rparr>
            in case revoke_telegram env actor i1 (bind_account env n actor i1 s) of
                 (s3, Inl e) \<Rightarrow> (s3, Inl e)
               | (s3, Inr _) \<Rightarrow>
                   (case issue_credential env iid ''telegram'' ''karma'' 0 actor True s3 of
                      (s4, Inl e) \<Rightarrow> (s4, Inl e)
                    | (s4, Inr _) \<Rightarrow> (persist env s4, Inr (case map_of (by_id s4) iid of None \<Rightarrow> i1 | Some x \<Rightarrow> x))))"

section \<open>Runs\<close>

datatype identity_call =
    Wallet_Login string "(string \<times> json) list"
  | Sub_Identity string string
  | Bind_Telegram string int "string option"
  | Bind_2fa int string string "string option"
  | Seed string string string "(string \<times> json) list" rat
  | Policy string "(string \<times> json) list"
  | Points string rat
  | Issue string string string int string bool
  | Verify_Credential string string string
  | Reject string string string string
  | Revoke string string string string
  | Expire string
  | Card string string string
  | Set_Class string string string
  | Reload

fun identity_do :: "identity_env \<Rightarrow> identity_call \<Rightarrow> identity_state \<Rightarrow> identity_state" where
  "identity_do env (Wallet_Login w meta) s = fst (get_or_create_by_wallet env w meta s)"
| "identity_do env (Sub_Identity pid w) s = fst (create_sub_identity env pid w s)"
| "identity_do env (Bind_Telegram iid n u) s = fst (bind_telegram env iid n u s)"
| "identity_do env (Bind_2fa n iid code u) s = fst (bind_by_2fa env n iid code u s)"
| "identity_do env (Seed iid w code policy points) s = fst (seed_identity env iid w code policy points s)"
| "identity_do env (Policy iid policy) s = fst (update_policy env iid policy s)"
| "identity_do env (Points iid points) s = fst (add_karma_points env iid points s)"
| "identity_do env (Issue iid ty issuer ttl actor auto) s = fst (issue_credential env iid ty issuer ttl actor auto s)"
| "identity_do env (Verify_Credential iid cid actor) s = fst (verify_credential env iid cid actor s)"
| "identity_do env (Reject iid cid actor reason) s = fst (reject_credential env iid cid actor reason s)"
| "identity_do env (Revoke iid cid actor reason) s = fst (revoke_credential env iid cid actor reason s)"
| "identity_do env (Expire iid) s = fst (expire_stale_credentials env iid s)"
| "identity_do env (Card iid audience scope) s = fst (identity_card env iid audience scope s)"
| "identity_do env (Set_Class iid cls actor) s = fst (set_identity_class env iid cls actor s)"
| "identity_do env Reload s = load_identities s"

text \<open>
  All processes share the key of the ledger, the tokens come from one stream, and every write reaches the disk: otherwise a
  process would start again with a ledger and identities that were saved at different times.
\<close>

text \<open>Seeded identifiers are not among the random ones.\<close>

definition fresh_seed :: "(nat \<Rightarrow> string) \<Rightarrow> identity_call \<Rightarrow> bool" where
  "fresh_seed token c \<longleftrightarrow> (case c of Seed iid w code policy points \<Rightarrow> \<forall>n. iid \<noteq> ''kid_'' @ token n | _ \<Rightarrow> True)"

inductive identity_step :: "(nat \<Rightarrow> string) \<Rightarrow> (bytes \<Rightarrow> bytes) \<Rightarrow> identity_state \<Rightarrow> identity_state \<Rightarrow> bool" for token mac where
  call: "t_token (i_trust env) = token \<Longrightarrow> t_mac (i_trust env) = mac \<Longrightarrow> t_writable (i_trust env) \<Longrightarrow> fresh_seed token c \<Longrightarrow>
    identity_step token mac s (identity_do env c s)"

end
