(* ===== verification/Identity_System.thy ===== *)
theory Identity_System
  imports Identity_Store
begin

text \<open>
  The identity store as a machine on credentials: what an operation does to the credentials of an identity and to
  the ledger is a sequence of the four moves of \<open>cmove\<close>. The moves keep the invariant that every credential has the
  status its last ledger entry says, that its entries follow one another along the transition table, and that the
  verification level of an identity is what its verified credentials earn.
\<close>

section \<open>Credentials and ledger\<close>

type_synonym cred_table = "(string \<times> credential list \<times> string) list"

definition cred_view :: "identity_state \<Rightarrow> cred_table" where
  "cred_view s = map (map_prod id (\<lambda>i. (ki_credentials i, ki_verification i))) (by_id s)"

definition is_credential_entry :: "ledger_entry \<Rightarrow> bool" where
  "is_credential_entry e \<longleftrightarrow> le_entity_type e = ''credential''"

text \<open>A ledger that grew by entries of other kinds and perhaps lost its oldest ones.\<close>

definition quiet :: "trust_state \<Rightarrow> trust_state \<Rightarrow> bool" where
  "quiet t t' \<longleftrightarrow> drawn t \<le> drawn t' \<and>
     (\<exists>n es. map unhashed (ledger t') = drop n (map unhashed (ledger t) @ es) \<and> (\<forall>e \<in> set es. \<not> is_credential_entry e))"

inductive cmove :: "(nat \<Rightarrow> string) \<Rightarrow> cred_table \<times> trust_state \<Rightarrow> cred_table \<times> trust_state \<Rightarrow> bool" for token where
  calm: "quiet t t' \<Longrightarrow> cmove token (V, t) (V, t')"
| fresh: "map_of V k = None \<Longrightarrow> cmove token (V, t) (put_row k ([], ''unverified'') V, t)"
| issue: "map_of V k = Some (cs, l) \<Longrightarrow> \<not> list_ex (\<lambda>c. cr_type c = cr_type d \<and> active c) cs \<Longrightarrow> cr_id d = ''cred_'' @ token (drawn t) \<Longrightarrow>
    transition env ''credential'' (cr_id d) [] ''issue'' actor reason extra (t\<lparr>drawn := drawn t + 1\<rparr>) = (t', Inr e) \<Longrightarrow> cr_status d = le_to e \<Longrightarrow>
    cmove token (V, t) (put_row k (cs @ [d], verification_level (cs @ [d])) V, t')"
| change: "map_of V k = Some (cs, l) \<Longrightarrow> c \<in> set cs \<Longrightarrow>
    transition env ''credential'' (cr_id c) (cr_status c) action actor reason extra t = (t', Inr e) \<Longrightarrow>
    action \<in> {''verify'', ''reject'', ''revoke'', ''expire''} \<Longrightarrow> cr_id d = cr_id c \<Longrightarrow> cr_type d = cr_type c \<Longrightarrow> cr_status d = le_to e \<Longrightarrow>
    cmove token (V, t) (put_row k (set_credential d cs, verification_level (set_credential d cs)) V, t')"

section \<open>Histories\<close>

definition history :: "string \<Rightarrow> trust_state \<Rightarrow> (string \<times> string) list" where
  "history cid t = map (\<lambda>e. (le_from e, le_to e)) (filter (\<lambda>e. is_credential_entry e \<and> le_entity_id e = cid) (ledger t))"

fun follows :: "(string \<times> string) list \<Rightarrow> string \<Rightarrow> bool" where
  "follows [] st \<longleftrightarrow> True"
| "follows [(a, b)] st \<longleftrightarrow> (\<exists>action. map_of CREDENTIAL_TRANSITIONS (a, action) = Some b) \<and> b = st"
| "follows ((a, b) # (c, d) # hs) st \<longleftrightarrow> (\<exists>action. map_of CREDENTIAL_TRANSITIONS (a, action) = Some b) \<and> b = c \<and> follows ((c, d) # hs) st"

lemma follows_tl: "follows hs st \<Longrightarrow> follows (tl hs) st"
  by (induction hs st rule: follows.induct) auto

lemma follows_drop: "follows hs st \<Longrightarrow> follows (drop n hs) st"
  by (induction n arbitrary: hs) (simp_all add: drop_Suc follows_tl)

lemma follows_snoc:
  "follows hs a \<Longrightarrow> map_of CREDENTIAL_TRANSITIONS (a, action) = Some b \<Longrightarrow> follows (hs @ [(a, b)]) b"
  by (induction hs a rule: follows.induct) (auto simp del: map_of_eq_Some_iff)

lemma filter_drop_suffix: "\<exists>m. filter P (drop n xs) = drop m (filter P xs)"
proof (induction xs arbitrary: n)
  case (Cons x xs)
  show ?case
  proof (cases n)
    case 0
    then show ?thesis by (intro exI [of _ 0]) simp
  next
    case (Suc k)
    obtain m where "filter P (drop k xs) = drop m (filter P xs)" using Cons.IH by blast
    with Suc show ?thesis by (cases "P x") (auto intro: exI [of _ "Suc m"] exI [of _ m])
  qed
qed simp

text \<open>The history of a credential only depends on the entries without their hashes.\<close>

definition history_of :: "string \<Rightarrow> ledger_entry list \<Rightarrow> (string \<times> string) list" where
  "history_of cid es = map (\<lambda>e. (le_from e, le_to e)) (filter (\<lambda>e. is_credential_entry e \<and> le_entity_id e = cid) es)"

lemma is_credential_unhashed [simp]: "is_credential_entry (unhashed e) = is_credential_entry e"
  by (simp add: is_credential_entry_def unhashed_def)

lemma history_unhashed: "history cid t = history_of cid (map unhashed (ledger t))"
  by (simp add: history_def history_of_def filter_map comp_def)

lemma history_drop: "\<exists>m. history_of cid (drop n es) = drop m (history_of cid es)"
  using filter_drop_suffix [of "\<lambda>e. is_credential_entry e \<and> le_entity_id e = cid" n es] by (auto simp: history_of_def drop_map)

lemma history_quiet:
  assumes "quiet t t'" and "follows (history cid t) st"
  shows "follows (history cid t') st"
proof -
  obtain n es where t': "map unhashed (ledger t') = drop n (map unhashed (ledger t) @ es)" "\<forall>e \<in> set es. \<not> is_credential_entry e"
    using assms(1) by (auto simp: quiet_def)
  have "history_of cid (map unhashed (ledger t) @ es) = history cid t" using t'(2) by (simp add: history_unhashed history_of_def)
  with history_drop [of cid n "map unhashed (ledger t) @ es"] t'(1) assms(2) show ?thesis
    by (auto simp: history_unhashed [of cid t'] intro: follows_drop)
qed

lemma append_drawn: "append_ledger env ty eid ev from_state to_state actor reason extra t = (t', e) \<Longrightarrow> drawn t < drawn t'"
  by (erule append_ledger_cases [OF _ refl]) auto

lemma append_quiet:
  assumes "append_ledger env ty eid ev from_state to_state actor reason extra t = (t', e)" and "ty \<noteq> ''credential''"
  shows "quiet t t'"
proof -
  let ?x = "new_entry env ty eid ev from_state to_state actor reason extra t"
  have "\<not> is_credential_entry (unhashed ?x)" using assms(2) by (simp only: is_credential_unhashed) (simp add: is_credential_entry_def new_entry_def Let_def)
  moreover have "map unhashed (ledger t') = drop (Suc (length (ledger t)) - nat LEDGER_MAX) (map unhashed (ledger t) @ [unhashed ?x])"
    by (rule append_history(1) [OF assms(1)])
  moreover have "\<forall>e \<in> set [unhashed ?x]. \<not> is_credential_entry e" using calculation(1) by simp
  ultimately show ?thesis using append_drawn [OF assms(1)] unfolding quiet_def by (meson less_imp_le)
qed

lemma quiet_simps [simp]: "quiet t t" "quiet t (broadcast_alert env sev cat ty eid summary detail t)" "quiet t (t\<lparr>drawn := drawn t + n\<rparr>)"
  unfolding quiet_def by (auto intro!: exI [of _ 0] exI [of _ "[]"])

text \<open>A successful transition adds exactly its step to the history of its credential.\<close>

lemma transition_steps:
  assumes "transition env ''credential'' cid st action actor reason extra t = (t', Inr e)"
  shows "map_of CREDENTIAL_TRANSITIONS (st, action) = Some (le_to e)" "drawn t < drawn t'"
    "\<exists>m. history x t' = drop m (if x = cid then history x t @ [(st, le_to e)] else history x t)"
    "\<forall>f \<in> set (ledger t'). is_credential_entry f \<longrightarrow> le_entity_id f = cid \<or> (\<exists>g \<in> set (ledger t). is_credential_entry g \<and> le_entity_id g = le_entity_id f)"
proof -
  obtain to where to: "map_of CREDENTIAL_TRANSITIONS (st, action) = Some to"
    and run: "append_ledger env ''credential'' cid (''credential_'' @ action) st to actor reason extra t = (t', e)"
    using assms by (auto simp: transition_def split: option.splits prod.splits)
  let ?x = "new_entry env ''credential'' cid (''credential_'' @ action) st to actor reason extra t"
  let ?n = "Suc (length (ledger t)) - nat LEDGER_MAX"
  note hist = append_history [OF run]
  have x: "is_credential_entry ?x" "le_entity_id ?x = cid" "le_from ?x = st" "le_to ?x = to"
    by (simp_all add: is_credential_entry_def new_entry_def Let_def)
  show "map_of CREDENTIAL_TRANSITIONS (st, action) = Some (le_to e)" using to hist(2) by simp
  show "drawn t < drawn t'" by (rule append_drawn [OF run])
  have here: "history_of x (map unhashed (ledger t) @ [unhashed ?x]) = (if x = cid then history x t @ [(st, to)] else history x t)"
    using x by (simp add: history_unhashed history_of_def)
  obtain m where m: "history_of x (drop ?n (map unhashed (ledger t) @ [unhashed ?x])) = drop m (history_of x (map unhashed (ledger t) @ [unhashed ?x]))"
    using history_drop by blast
  show "\<exists>m. history x t' = drop m (if x = cid then history x t @ [(st, le_to e)] else history x t)"
    by (intro exI [of _ m]) (simp only: history_unhashed [of x t'] hist m here)
  have "unhashed ` set (ledger t') \<subseteq> insert (unhashed ?x) (unhashed ` set (ledger t))"
    using arg_cong [OF hist(1), of set] set_drop_subset [of ?n "map unhashed (ledger t) @ [unhashed ?x]"] by auto
  then have "\<exists>g \<in> insert ?x (set (ledger t)). unhashed f = unhashed g" if "f \<in> set (ledger t')" for f using that by blast
  then show "\<forall>f \<in> set (ledger t'). is_credential_entry f \<longrightarrow> le_entity_id f = cid \<or> (\<exists>g \<in> set (ledger t). is_credential_entry g \<and> le_entity_id g = le_entity_id f)"
    using x(2) by (metis insertE is_credential_unhashed unhashed_simps(2))
qed

section \<open>The invariant\<close>

definition table_ids :: "cred_table \<Rightarrow> string list" where
  "table_ids V = concat (map (\<lambda>(k, cs, l). map cr_id cs) V)"

definition issued :: "(nat \<Rightarrow> string) \<Rightarrow> nat \<Rightarrow> string \<Rightarrow> bool" where
  "issued token n x \<longleftrightarrow> (\<exists>k < n. x = ''cred_'' @ token k)"

definition row_ok :: "trust_state \<Rightarrow> credential list \<Rightarrow> string \<Rightarrow> bool" where
  "row_ok t cs l \<longleftrightarrow> l = verification_level cs \<and> distinct (map cr_type (filter active cs)) \<and>
     (\<forall>c \<in> set cs. follows (history (cr_id c) t) (cr_status c))"

definition ledger_ids_ok :: "(nat \<Rightarrow> string) \<Rightarrow> trust_state \<Rightarrow> bool" where
  "ledger_ids_ok token t \<longleftrightarrow> (\<forall>e \<in> set (ledger t). is_credential_entry e \<longrightarrow> issued token (drawn t) (le_entity_id e))"

text \<open>Credentials that are revoked for good.\<close>

definition final_in :: "string set \<Rightarrow> cred_table \<Rightarrow> bool" where
  "final_in R V \<longleftrightarrow> (\<forall>x \<in> R. \<exists>(k, cs, l) \<in> set V. \<exists>c \<in> set cs. cr_id c = x \<and> cr_status c = ''revoked'')"

fun cinv :: "(nat \<Rightarrow> string) \<Rightarrow> string set \<Rightarrow> cred_table \<times> trust_state \<Rightarrow> bool" where
  "cinv token R (V, t) \<longleftrightarrow> distinct (map fst V) \<and> distinct (table_ids V) \<and> (\<forall>x \<in> set (table_ids V). issued token (drawn t) x) \<and>
     ledger_ids_ok token t \<and> (\<forall>(k, cs, l) \<in> set V. row_ok t cs l) \<and> final_in R V"

lemma issued_mono: "issued token n x \<Longrightarrow> n \<le> m \<Longrightarrow> issued token m x"
  by (auto simp: issued_def intro: less_le_trans)

lemma put_row_split:
  assumes "distinct (map fst V)" and "map_of V k = Some old"
  obtains A B where "V = A @ (k, old) # B" and "\<And>new. put_row k new V = A @ (k, new) # B"
proof -
  obtain A B where V: "V = A @ (k, old) # B" using map_of_SomeD [OF assms(2)] by (metis split_list)
  have "k \<notin> fst ` set A" "k \<notin> fst ` set B" using assms(1) V by (auto simp: image_iff)
  then have "map (\<lambda>(k', v). if k' = k then (k', new) else (k', v)) C = C" if "C = A \<or> C = B" for C and new
    using that by (intro map_idI) force
  then have "put_row k new V = A @ (k, new) # B" for new using assms(2) V by (simp add: put_row_def)
  with V show ?thesis by (rule that)
qed

lemma history_unissued:
  assumes "ledger_ids_ok token t" and "\<not> issued token (drawn t) x"
  shows "history x t = []"
  using assms by (auto simp: ledger_ids_ok_def history_def filter_empty_conv)

lemma active_before:
  assumes "map_of CREDENTIAL_TRANSITIONS (a, action) = Some b" and "action \<in> {''verify'', ''reject'', ''revoke'', ''expire''}" and "b \<in> {''pending'', ''verified''}"
  shows "a \<in> {''pending'', ''verified''}"
  using assms by (auto simp: CREDENTIAL_TRANSITIONS_def split: if_splits)

lemma set_credential_types:
  assumes "distinct (map cr_type (filter active cs))" and "\<And>x. x \<in> set cs \<Longrightarrow> cr_id x = cr_id d \<Longrightarrow> cr_type d = cr_type x \<and> (active d \<longrightarrow> active x)"
  shows "distinct (map cr_type (filter active (set_credential d cs)))"
    and "cr_type ` set (filter active (set_credential d cs)) \<subseteq> cr_type ` set (filter active cs)"
proof -
  have *: "distinct (map cr_type (filter active (set_credential d cs))) \<and> cr_type ` set (filter active (set_credential d cs)) \<subseteq> cr_type ` set (filter active cs)"
    using assms
  proof (induction cs)
    case (Cons x cs)
    then have IH: "distinct (map cr_type (filter active (set_credential d cs)))" "cr_type ` set (filter active (set_credential d cs)) \<subseteq> cr_type ` set (filter active cs)"
      by (auto split: if_splits)
    with Cons.prems(1) Cons.prems(2) [of x] show ?case by (auto simp: set_credential_def split: if_splits)
  qed (simp add: set_credential_def)
  from * show "distinct (map cr_type (filter active (set_credential d cs)))"
    and "cr_type ` set (filter active (set_credential d cs)) \<subseteq> cr_type ` set (filter active cs)" by blast+
qed

lemma set_credential_ids [simp]: "map cr_id (set_credential d cs) = map cr_id cs"
  by (induction cs) (auto simp: set_credential_def)

lemma quiet_ids:
  assumes "quiet t t'" and "ledger_ids_ok token t"
  shows "ledger_ids_ok token t'"
proof -
  obtain n es where t': "map unhashed (ledger t') = drop n (map unhashed (ledger t) @ es)" "\<forall>e \<in> set es. \<not> is_credential_entry e" and d: "drawn t \<le> drawn t'"
    using assms(1) by (auto simp: quiet_def)
  have "unhashed ` set (ledger t') \<subseteq> unhashed ` set (ledger t) \<union> set es"
    using arg_cong [OF t'(1), of set] set_drop_subset [of n "map unhashed (ledger t) @ es"] by auto
  then have "unhashed f \<in> unhashed ` set (ledger t)" if "f \<in> set (ledger t')" "is_credential_entry f" for f
    using that t'(2) is_credential_unhashed by blast
  then have "\<exists>g \<in> set (ledger t). is_credential_entry g \<and> le_entity_id g = le_entity_id f" if "f \<in> set (ledger t')" "is_credential_entry f" for f
    using that by (metis imageE is_credential_unhashed unhashed_simps(2))
  then show ?thesis using assms(2) d unfolding ledger_ids_ok_def by (metis issued_mono)
qed

lemma quiet_row: "quiet t t' \<Longrightarrow> row_ok t cs l \<Longrightarrow> row_ok t' cs l"
  by (auto simp: row_ok_def intro: history_quiet)

lemma transition_ids:
  assumes "transition env ''credential'' cid st action actor reason extra t = (t', Inr e)" and "ledger_ids_ok token t" and "issued token (drawn t) cid"
  shows "ledger_ids_ok token t'"
  using transition_steps(2,4) [OF assms(1)] assms(2,3) unfolding ledger_ids_ok_def by (metis issued_mono less_imp_le)

lemma transition_other_row:
  assumes "transition env ''credential'' cid st action actor reason extra t = (t', Inr e)" and "row_ok t cs l" and "cid \<notin> cr_id ` set cs"
  shows "row_ok t' cs l"
proof -
  have "follows (history (cr_id c) t') (cr_status c)" if "c \<in> set cs" for c
  proof -
    have "cr_id c \<noteq> cid" using assms(3) that by blast
    then obtain m where "history (cr_id c) t' = drop m (history (cr_id c) t)" using transition_steps(3) [OF assms(1), of "cr_id c"] by auto
    moreover have "follows (history (cr_id c) t) (cr_status c)" using assms(2) that by (simp add: row_ok_def)
    ultimately show ?thesis by (simp add: follows_drop)
  qed
  with assms(2) show ?thesis by (simp add: row_ok_def)
qed

lemma transition_own_history:
  assumes "transition env ''credential'' cid st action actor reason extra t = (t', Inr e)" and "follows (history cid t) st"
  shows "follows (history cid t') (le_to e)"
proof -
  obtain m where "history cid t' = drop m (history cid t @ [(st, le_to e)])" using transition_steps(3) [OF assms(1), of cid] by auto
  then show ?thesis using follows_snoc [OF assms(2) transition_steps(1) [OF assms(1)]] by (simp only: follows_drop)
qed

lemma table_ids_split: "table_ids (A @ (k, cs, l) # B) = table_ids A @ map cr_id cs @ table_ids B"
  by (simp add: table_ids_def)

lemma row_ids: "(k, cs, l) \<in> set V \<Longrightarrow> cr_id ` set cs \<subseteq> set (table_ids V)"
  by (force simp: table_ids_def)

lemma cinv_issue:
  assumes inv: "cinv token R (V, t)" and "inj token" and k: "map_of V k = Some (cs, l)"
    and free: "\<not> list_ex (\<lambda>c. cr_type c = cr_type d \<and> active c) cs" and d: "cr_id d = ''cred_'' @ token (drawn t)" "cr_status d = le_to e"
    and run: "transition env ''credential'' (cr_id d) [] ''issue'' actor reason extra (t\<lparr>drawn := drawn t + 1\<rparr>) = (t', Inr e)"
  shows "cinv token R (put_row k (cs @ [d], verification_level (cs @ [d])) V, t')"
proof -
  let ?t = "t\<lparr>drawn := drawn t + 1\<rparr>"
  obtain A B where V: "V = A @ (k, cs, l) # B" "\<And>new. put_row k new V = A @ (k, new) # B"
    using put_row_split k inv by (metis cinv.simps)
  have unissued: "\<not> issued token (drawn t) (cr_id d)" using assms(2) d(1) by (auto simp: issued_def inj_def)
  have ids: "ledger_ids_ok token ?t" by (rule quiet_ids [of t]) (use inv in \<open>simp_all add: quiet_simps(3) [of t 1, simplified]\<close>)
  have new: "issued token (drawn ?t) (cr_id d)" using d(1) by (auto simp: issued_def)
  have grow: "drawn t \<le> drawn t'" using transition_steps(2) [OF run] by simp
  have rows: "row_ok ?t cs' l'" if "(k', cs', l') \<in> set V" for k' cs' l'
    using that inv by (auto intro!: quiet_row [OF quiet_simps(3) [of t 1, simplified]])
  have other: "cr_id d \<notin> cr_id ` set cs'" if "(k', cs', l') \<in> set V" for k' cs' l'
    using row_ids [OF that] unissued inv by auto
  have kept: "row_ok t' cs' l'" if "(k', cs', l') \<in> set V" for k' cs' l'
    by (rule transition_other_row [OF run rows [OF that] other [OF that]])
  have "history (cr_id d) ?t = []" using history_unissued [OF _ unissued] inv by (simp add: history_def)
  then have "follows (history (cr_id d) t') (cr_status d)" unfolding d(2) by (intro transition_own_history [OF run]) simp
  then have "row_ok t' (cs @ [d]) (verification_level (cs @ [d]))"
    using kept [of k cs l] V(1) free by (auto simp: row_ok_def list_ex_iff)
  moreover have "ledger_ids_ok token t'" by (rule transition_ids [OF run ids new])
  moreover have "issued token (drawn t') (cr_id d)" by (rule issued_mono [OF new]) (use transition_steps(2) [OF run] in simp)
  moreover have "cr_id d \<notin> set (table_ids V)" using unissued inv by auto
  moreover have "final_in R (A @ (k, cs @ [d], verification_level (cs @ [d])) # B)" using inv V(1) by (force simp: final_in_def)
  ultimately show ?thesis using inv kept V grow by (auto simp: table_ids_split intro: issued_mono)
qed

lemma cinv_change:
  assumes inv: "cinv token R (V, t)" and k: "map_of V k = Some (cs, l)" and c: "c \<in> set cs"
    and run: "transition env ''credential'' (cr_id c) (cr_status c) action actor reason extra t = (t', Inr e)"
    and action: "action \<in> {''verify'', ''reject'', ''revoke'', ''expire''}"
    and d: "cr_id d = cr_id c" "cr_type d = cr_type c" "cr_status d = le_to e"
  shows "cinv token R (put_row k (set_credential d cs, verification_level (set_credential d cs)) V, t')"
proof -
  obtain A B where V: "V = A @ (k, cs, l) # B" "\<And>new. put_row k new V = A @ (k, new) # B"
    using put_row_split k inv by (metis cinv.simps)
  have row: "row_ok t cs l" using inv V(1) by simp
  have grow: "drawn t \<le> drawn t'" using transition_steps(2) [OF run] by simp
  have dist: "distinct (table_ids A @ map cr_id cs @ table_ids B)" using inv V(1) by (simp add: table_ids_split)
  have same: "x = c" if "x \<in> set cs" "cr_id x = cr_id c" for x using dist c that by (auto simp: distinct_map inj_on_def)
  have other: "cr_id c \<notin> cr_id ` set cs'" if "(k', cs', l') \<in> set A \<union> set B" for k' cs' l'
  proof -
    have "cr_id c \<notin> set (table_ids A)" "cr_id c \<notin> set (table_ids B)" using dist c by auto
    then show ?thesis using row_ids [of k' cs' l' A] row_ids [of k' cs' l' B] that by blast
  qed
  have kept: "row_ok t' cs' l'" if "(k', cs', l') \<in> set A \<union> set B" for k' cs' l'
    by (rule transition_other_row [OF run _ other [OF that]]) (use that inv V(1) in fastforce)
  have own: "follows (history (cr_id c) t') (cr_status d)"
    unfolding d(3) by (rule transition_own_history [OF run]) (use row c in \<open>simp add: row_ok_def\<close>)
  have rest: "follows (history (cr_id x) t') (cr_status x)" if "x \<in> set cs" "cr_id x \<noteq> cr_id c" for x
    using transition_other_row [OF run, of "[x]" "verification_level [x]"] row that by (auto simp: row_ok_def)
  have "active d \<longrightarrow> active c" using active_before [OF transition_steps(1) [OF run] action] d(3) by (auto simp: active_def)
  then have "distinct (map cr_type (filter active (set_credential d cs)))"
    using row same d by (intro set_credential_types) (auto simp: row_ok_def)
  then have "row_ok t' (set_credential d cs) (verification_level (set_credential d cs))"
    using own rest d(1) by (auto simp: row_ok_def set_credential_def)
  moreover have "ledger_ids_ok token t'" by (rule transition_ids [OF run]) (use inv V(1) c in \<open>auto simp: table_ids_split\<close>)
  moreover have "final_in R (A @ (k, set_credential d cs, verification_level (set_credential d cs)) # B)"
  proof -
    have "map_of CREDENTIAL_TRANSITIONS (''revoked'', action) = None" by (simp add: CREDENTIAL_TRANSITIONS_def)
    then have "cr_status c \<noteq> ''revoked''" using transition_steps(1) [OF run] by auto
    then have "x \<in> set (set_credential d cs)" if "x \<in> set cs" "cr_status x = ''revoked''" for x
      using that same d(1) by (force simp: set_credential_def)
    then show ?thesis using inv V(1) by (fastforce simp: final_in_def)
  qed
  ultimately show ?thesis using inv kept V grow by (auto simp: table_ids_split intro: issued_mono)
qed

lemma cmove_inv: "cmove token a b \<Longrightarrow> inj token \<Longrightarrow> cinv token R a \<Longrightarrow> cinv token R b"
proof (induction rule: cmove.induct)
  case (calm t t' V)
  then have "drawn t \<le> drawn t'" by (simp add: quiet_def)
  with calm show ?case by (auto intro: quiet_ids quiet_row issued_mono)
next
  case (fresh V k t)
  then have "k \<notin> fst ` set V" by (simp add: map_of_eq_None_iff)
  with fresh show ?case by (auto simp: put_row_def table_ids_def row_ok_def verification_level_def final_in_def)
next
  case (issue V k cs l d t env actor reason extra t' e)
  then show ?case by (intro cinv_issue)
next
  case (change V k cs l c env action actor reason extra t t' e d)
  then show ?case by (intro cinv_change)
qed

lemma cmoves_inv: "(cmove token)\<^sup>*\<^sup>* a b \<Longrightarrow> inj token \<Longrightarrow> cinv token R a \<Longrightarrow> cinv token R b"
  by (induction rule: rtranclp_induct) (auto intro: cmove_inv)

lemma cinv_row: "cinv token R (V, t) \<Longrightarrow> map_of V k = Some (cs, l) \<Longrightarrow> distinct (map cr_id cs) \<and> l = verification_level cs"
proof -
  assume inv: "cinv token R (V, t)" and k: "map_of V k = Some (cs, l)"
  obtain A B where "V = A @ (k, cs, l) # B" using map_of_SomeD [OF k] by (metis split_list)
  with inv show ?thesis by (simp add: table_ids_split row_ok_def)
qed

lemma cinv_active: "cinv token R (V, t) \<Longrightarrow> map_of V k = Some (cs, l) \<Longrightarrow> distinct (map cr_type (filter active cs))"
  by (auto simp: row_ok_def dest: map_of_SomeD)

declare cinv.simps [simp del]

lemma cinv_keys: "cinv token R (V, t) \<Longrightarrow> distinct (map fst V)"
  by (simp add: cinv.simps)

section \<open>The operations\<close>

lemma map_of_map_values: "map_of (map (map_prod id f) xs) k = map_option f (map_of xs k)"
  by (induction xs) auto

lemma put_row_map: "map (map_prod id f) (put_row k v xs) = put_row k (f v) (map (map_prod id f) xs)"
  by (auto simp: put_row_def map_of_map_values)

lemma put_row_same: "distinct (map fst V) \<Longrightarrow> map_of V k = Some v \<Longrightarrow> put_row k v V = V"
  by (metis put_row_split)

lemma put_row_twice: "map_of V k \<noteq> None \<Longrightarrow> put_row k w (put_row k v V) = put_row k w V"
proof -
  assume V: "map_of V k \<noteq> None"
  have put: "put_row k w W = map (\<lambda>(k', x). if k' = k then (k', w) else (k', x)) W" if "map_of W k \<noteq> None" for w W
    using that unfolding put_row_def by (rule if_not_P)
  have "put_row k w (put_row k v V) = map (\<lambda>(k', x). if k' = k then (k', w) else (k', x)) (put_row k v V)"
    by (rule put) (simp add: map_of_put_row)
  also have "\<dots> = map (\<lambda>(k', x). if k' = k then (k', w) else (k', x)) V" unfolding put [OF V] by (auto simp: case_prod_unfold)
  also have "\<dots> = put_row k w V" by (rule put [OF V, symmetric])
  finally show ?thesis .
qed

lemma cred_view_put: "cred_view (put_identity i s) = put_row (ki_id i) (ki_credentials i, ki_verification i) (cred_view s)"
  by (simp add: cred_view_def put_identity_def put_row_map)

lemma cred_view_lookup: "map_of (by_id s) k = Some i \<Longrightarrow> map_of (cred_view s) k = Some (ki_credentials i, ki_verification i)"
  by (simp add: cred_view_def map_of_map_values)

text \<open>Identities are stored under their identifiers, and the identifiers still to be drawn are free.\<close>

definition keyed :: "(nat \<Rightarrow> string) \<Rightarrow> identity_state \<Rightarrow> bool" where
  "keyed token s \<longleftrightarrow> (\<forall>(k, i) \<in> set (by_id s). ki_id i = k) \<and> (\<forall>n \<ge> drawn (trust s). map_of (by_id s) (''kid_'' @ token n) = None)"

definition core_inv :: "(nat \<Rightarrow> string) \<Rightarrow> (bytes \<Rightarrow> bytes) \<Rightarrow> string set \<Rightarrow> identity_state \<Rightarrow> bool" where
  "core_inv token mac R s \<longleftrightarrow> inj token \<and> cinv token R (cred_view s, trust s) \<and> keyed token s \<and> trust_inv mac (trust s) \<and> durable_inv (trust s)"

lemma core_cong: "by_id s' = by_id s \<Longrightarrow> trust s' = trust s \<Longrightarrow> core_inv token mac R s' = core_inv token mac R s"
  by (simp add: core_inv_def keyed_def cred_view_def)

lemma persist_simps [simp]: "by_id (persist env s) = by_id s" "trust (persist env s) = trust s"
  by (simp_all add: persist_def)

lemma reindex_simps [simp]:
  "by_id (reindex_tg i s) = by_id s" "trust (reindex_tg i s) = trust s" "by_id (reindex_wallet i s) = by_id s" "trust (reindex_wallet i s) = trust s"
  "by_id (reindex_invite i s) = by_id s" "trust (reindex_invite i s) = trust s"
  by (simp_all add: reindex_tg_def reindex_wallet_def reindex_invite_def split: option.split)

lemma core_index [simp]:
  "core_inv token mac R (persist env s) = core_inv token mac R s" "core_inv token mac R (reindex_tg i s) = core_inv token mac R s"
  "core_inv token mac R (reindex_wallet i s) = core_inv token mac R s" "core_inv token mac R (reindex_invite i s) = core_inv token mac R s"
  by (rule core_cong; simp)+

lemma put_identity_simps [simp]: "by_id (put_identity i s) = put_row (ki_id i) i (by_id s)" "trust (put_identity i s) = trust s"
  by (simp_all add: put_identity_def)

lemma core_key: "core_inv token mac R s \<Longrightarrow> map_of (by_id s) k = Some i \<Longrightarrow> ki_id i = k"
  by (auto simp: core_inv_def keyed_def dest: map_of_SomeD)

lemma keyed_put: "keyed token s \<Longrightarrow> map_of (by_id s) (ki_id i) \<noteq> None \<Longrightarrow> keyed token (put_identity i s)"
  using put_row_set [of "ki_id i" i "by_id s"] by (auto simp: keyed_def map_of_put_row)

text \<open>Changes of fields other than the credentials.\<close>

lemma core_put_same:
  assumes "core_inv token mac R s" and "map_of (by_id s) k = Some i" and "ki_id i' = k" and "ki_credentials i' = ki_credentials i" and "ki_verification i' = ki_verification i"
  shows "core_inv token mac R (put_identity i' s)"
proof -
  have "distinct (map fst (cred_view s))" using assms(1) by (auto simp: core_inv_def intro: cinv_keys)
  from put_row_same [OF this cred_view_lookup [OF assms(2)]]
  have "cred_view (put_identity i' s) = cred_view s" by (simp only: cred_view_put assms(3-5))
  moreover have "keyed token (put_identity i' s)" using assms(1-3) by (intro keyed_put) (auto simp: core_inv_def)
  ultimately show ?thesis using assms(1) by (simp add: core_inv_def)
qed

text \<open>Changes of the ledger that leave the credentials alone.\<close>

lemma core_quiet:
  assumes "core_inv token mac R s" and "quiet (trust s) t" and "trust_inv mac t" and "durable_inv t"
  shows "core_inv token mac R (s\<lparr>trust := t\<rparr>)"
proof -
  have "cinv token R (cred_view s, t)" using cmove_inv [OF cmove.calm [OF assms(2)]] assms(1) by (simp add: core_inv_def)
  moreover have "drawn (trust s) \<le> drawn t" using assms(2) by (simp add: quiet_def)
  ultimately show ?thesis using assms(1,3,4) by (auto simp: core_inv_def keyed_def cred_view_def)
qed

lemma core_draw: "core_inv token mac R s \<Longrightarrow> core_inv token mac R (draw n s)"
  unfolding draw_def by (rule core_quiet) (auto simp: core_inv_def trust_inv_def durable_inv_def)

lemma core_event:
  assumes "core_inv token mac R s" and "t_mac env = mac" and "t_writable env" and "ty \<noteq> ''credential''"
  shows "core_inv token mac R (s\<lparr>trust := fst (record_event env ty eid ev from_state to_state actor reason extra (trust s))\<rparr>)"
proof -
  obtain t e where run: "record_event env ty eid ev from_state to_state actor reason extra (trust s) = (t, e)" by (metis surj_pair)
  have "core_inv token mac R (s\<lparr>trust := t\<rparr>)"
    by (rule core_quiet [OF assms(1) append_quiet [OF run assms(4)]])
      (use assms append_inv [OF run] append_durable [OF run] in \<open>auto simp: core_inv_def\<close>)
  with run show ?thesis by simp
qed

lemma core_add:
  assumes "core_inv token mac R s" and "map_of (by_id s) (ki_id i) = None" and "ki_credentials i = []" and "ki_verification i = ''unverified''"
    and "\<And>n. drawn (trust s) \<le> n \<Longrightarrow> ki_id i \<noteq> ''kid_'' @ token n"
  shows "core_inv token mac R (put_identity i s)"
proof -
  have "map_of (cred_view s) (ki_id i) = None" using assms(2) by (simp add: cred_view_def map_of_map_values)
  then have "cinv token R (cred_view (put_identity i s), trust s)"
    using cmove_inv [OF cmove.fresh] assms(1) by (simp add: core_inv_def cred_view_put assms(3,4))
  moreover have "keyed token (put_identity i s)"
    using assms(1) assms(5) [THEN not_sym] put_row_set [of "ki_id i" i "by_id s"] by (auto simp: core_inv_def keyed_def map_of_put_row)
  ultimately show ?thesis using assms(1) by (simp add: core_inv_def)
qed

text \<open>Changes of the credentials of an identity.\<close>

lemma transition_trust:
  assumes "transition env ty eid st action actor reason extra t = (t', out)" and "t_mac env = mac" and "t_writable env" and "trust_inv mac t" and "durable_inv t"
  shows "trust_inv mac t'" "durable_inv t'"
  using transition_inv [of env t ty eid st action actor reason extra] transition_durable [of t env ty eid st action actor reason extra] assms by simp_all

lemma core_credentials:
  assumes "core_inv token mac R s" and "map_of (by_id s) k = Some i0" and "ki_id i = k"
    and "(cmove token)\<^sup>*\<^sup>* (cred_view s, trust s) (put_row k (ki_credentials i, ki_verification i) (cred_view s), t)"
    and "trust_inv mac t" and "durable_inv t" and "drawn (trust s) \<le> drawn t"
  shows "core_inv token mac R (put_identity i (s\<lparr>trust := t\<rparr>))"
proof -
  have "cred_view (put_identity i (s\<lparr>trust := t\<rparr>)) = put_row k (ki_credentials i, ki_verification i) (cred_view s)"
    by (simp add: cred_view_put assms(3)) (simp add: cred_view_def)
  then have "cinv token R (cred_view (put_identity i (s\<lparr>trust := t\<rparr>)), t)"
    using cmoves_inv [OF assms(4)] assms(1) by (simp add: core_inv_def)
  moreover have "keyed token (put_identity i (s\<lparr>trust := t\<rparr>))"
    using assms(1-3,7) by (intro keyed_put) (auto simp: core_inv_def keyed_def)
  ultimately show ?thesis using assms(1,5,6) by (simp add: core_inv_def)
qed

lemma recompute_simps [simp]:
  "ki_credentials (recompute_verification_status i) = ki_credentials i" "ki_id (recompute_verification_status i) = ki_id i"
  "ki_verification (recompute_verification_status i) = verification_level (ki_credentials i)"
  "ki_tg (recompute_verification_status i) = ki_tg i" "ki_twofa (recompute_verification_status i) = ki_twofa i"
  by (simp_all add: recompute_verification_status_def)

lemma mutate_core:
  assumes core: "core_inv token mac R s" and i0: "map_of (by_id s) (ki_id i) = Some i0" and same: "ki_credentials i = ki_credentials i0"
    and c: "c \<in> set (ki_credentials i)" and action: "action \<in> {''verify'', ''reject'', ''revoke'', ''expire''}"
    and env: "t_mac (i_trust env) = mac" "t_writable (i_trust env)"
  shows "core_inv token mac R (fst (mutate_credential_locked env i c action actor reason s))"
proof -
  obtain t out where run: "transition (i_trust env) ''credential'' (cr_id c) (cr_status c) action actor reason (credential_extra (ki_id i) (cr_type c)) (trust s) = (t, out)"
    by (metis surj_pair)
  have t: "trust_inv mac t" "durable_inv t" using transition_trust [OF run env] core by (simp_all add: core_inv_def)
  show ?thesis
  proof (cases out)
    case (Inl e)
    have "quiet (trust s) t" using run Inl by (auto simp: transition_def split: option.splits prod.splits)
    then show ?thesis using core_quiet [OF core _ t] run Inl
      by (cases e) (simp add: mutate_credential_locked_def)
  next
    case (Inr e)
    let ?d = "c\<lparr>cr_status := le_to e, cr_verified_at := (if action = ''verify'' then Some (t_now (i_trust env)) else cr_verified_at c)\<rparr>"
    let ?i = "recompute_verification_status (i\<lparr>ki_credentials := set_credential ?d (ki_credentials i)\<rparr>)"
    have "core_inv token mac R (put_identity ?i (s\<lparr>trust := t\<rparr>))"
    proof (rule core_credentials [OF core i0 _ _ t])
      show "(cmove token)\<^sup>*\<^sup>* (cred_view s, trust s) (put_row (ki_id i) (ki_credentials ?i, ki_verification ?i) (cred_view s), t)"
      proof -
        have "ki_credentials ?i = set_credential ?d (ki_credentials i)" "ki_verification ?i = verification_level (set_credential ?d (ki_credentials i))" by simp_all
        then show ?thesis
          by (simp only:) (rule r_into_rtranclp, rule cmove.change [OF cred_view_lookup [OF i0, folded same] c run [unfolded Inr] action]; simp)
      qed
      show "drawn (trust s) \<le> drawn t" using transition_steps(2) run Inr by (metis less_imp_le)
    qed simp
    with run Inr show ?thesis by (simp add: mutate_credential_locked_def Let_def)
  qed
qed

lemma mutate_credential_core:
  assumes "core_inv token mac R s" and "action \<in> {''verify'', ''reject'', ''revoke'', ''expire''}" and "t_mac (i_trust env) = mac" and "t_writable (i_trust env)"
  shows "core_inv token mac R (fst (mutate_credential env iid cid action actor reason s))"
proof (cases "map_of (by_id s) iid")
  case (Some i)
  note key = core_key [OF assms(1) Some]
  show ?thesis
  proof (cases "find_credential i cid")
    case (Some c)
    then have "c \<in> set (ki_credentials i)" by (auto simp: find_credential_def find_Some_iff)
    with assms key \<open>map_of (by_id s) iid = Some i\<close> Some show ?thesis
      by (simp add: mutate_credential_def mutate_core)
  qed (use assms(1) Some in \<open>simp add: mutate_credential_def\<close>)
qed (use assms(1) in \<open>simp add: mutate_credential_def\<close>)

lemma issue_core:
  assumes core: "core_inv token mac R s" and env: "t_mac (i_trust env) = mac" "t_writable (i_trust env)" "t_token (i_trust env) = token"
  shows "core_inv token mac R (fst (issue_credential env iid ty issuer ttl actor auto s))"
proof (cases "map_of (by_id s) iid")
  case None
  with core show ?thesis by (simp add: issue_credential_def)
next
  case (Some i)
  note key = core_key [OF core Some]
  let ?t = "(trust s)\<lparr>drawn := drawn (trust s) + 1\<rparr>"
  let ?cid = "''cred_'' @ token (drawn (trust s))"
  obtain t out where run: "transition (i_trust env) ''credential'' ?cid [] ''issue'' actor (''issue '' @ ty @ '' for '' @ iid) (credential_extra iid ty) ?t = (t, out)"
    by (metis surj_pair)
  have "trust_inv mac ?t" "durable_inv ?t" using core by (simp_all add: core_inv_def trust_inv_def durable_inv_def)
  note t = transition_trust [OF run env(1,2) this]
  obtain e where e: "out = Inr e" using run by (auto simp: transition_def CREDENTIAL_TRANSITIONS_def split: prod.splits)
  define d where "d = \<lparr>cr_id = ?cid, cr_type = ty, cr_status = le_to e, cr_issuer = take 64 issuer, cr_issued_at = t_now (i_trust env), cr_verified_at = None,
    cr_expires_at = (if 0 < ttl then Some (t_now (i_trust env) + ttl) else None)\<rparr>"
  have d: "cr_id d = ?cid" "cr_type d = ty" "cr_status d = le_to e" by (simp_all add: d_def)
  let ?i = "recompute_verification_status (i\<lparr>ki_credentials := ki_credentials i @ [d]\<rparr>)"
  let ?s1 = "persist env (put_identity ?i (s\<lparr>trust := t\<rparr>))"
  show ?thesis
  proof (cases "ty \<in> set CREDENTIAL_TYPES \<and> \<not> (ttl < 0 \<or> 10 * 365 * 86400 < ttl) \<and> \<not> list_ex (\<lambda>c. cr_type c = ty \<and> active c) (ki_credentials i)")
    case False
    with core Some show ?thesis by (auto simp: issue_credential_def)
  next
    case True
    have "core_inv token mac R (put_identity ?i (s\<lparr>trust := t\<rparr>))"
    proof (rule core_credentials [OF core Some _ _ t])
      have "cmove token (cred_view s, trust s) (put_row iid (ki_credentials i @ [d], verification_level (ki_credentials i @ [d])) (cred_view s), t)"
        by (rule cmove.issue [OF cred_view_lookup [OF Some], where env = "i_trust env"]) (use True run e d in simp_all)
      then show "(cmove token)\<^sup>*\<^sup>* (cred_view s, trust s) (put_row iid (ki_credentials ?i, ki_verification ?i) (cred_view s), t)" by auto
      show "drawn (trust s) \<le> drawn t" using transition_steps(2) [OF run [unfolded e]] by simp
    qed (simp add: key)
    then have s1: "core_inv token mac R ?s1" by simp
    have "core_inv token mac R (fst (mutate_credential_locked env ?i d ''verify'' actor ''verification passed'' ?s1))"
    proof (rule mutate_core [OF s1 _ refl])
      show "map_of (by_id ?s1) (ki_id ?i) = Some ?i" by (simp add: map_of_put_row)
    qed (simp_all add: env)
    with s1 show ?thesis using True Some run e env(3) by (simp add: issue_credential_def draw_def Let_def d_def)
  qed
qed

lemma expire_legal: "transition env ty eid ''verified'' ''expire'' actor reason extra t = (t', out) \<Longrightarrow> \<exists>e. out = Inr e"
  by (auto simp: transition_def CREDENTIAL_TRANSITIONS_def split: prod.splits)

lemma set_credential_middle:
  assumes "distinct (map cr_id (pre @ c # cs))" and "cr_id d = cr_id c"
  shows "set_credential d (pre @ c # cs) = pre @ d # cs"
proof -
  have "cr_id c \<notin> cr_id ` set pre" "cr_id c \<notin> cr_id ` set cs" using assms(1) by auto
  then have "map (\<lambda>x. if cr_id x = cr_id c then d else x) pre = pre" "map (\<lambda>x. if cr_id x = cr_id c then d else x) cs = cs"
    by (intro map_idI; metis image_eqI)+
  with assms(2) show ?thesis by (simp add: set_credential_def)
qed

text \<open>The sweep over one identity, seen as changes of the table.\<close>

lemma expire_each_moves:
  assumes "expire_each env iid cs t = (t', cs', n)" and "distinct (map cr_id (pre @ cs))" and "distinct (map fst V)" and "map_of V k \<noteq> None"
    and "t_mac env = mac" and "t_writable env" and "trust_inv mac t" and "durable_inv t"
  shows "(cmove token)\<^sup>*\<^sup>* (put_row k (pre @ cs, verification_level (pre @ cs)) V, t) (put_row k (pre @ cs', verification_level (pre @ cs')) V, t') \<and>
    trust_inv mac t' \<and> durable_inv t' \<and> drawn t \<le> drawn t' \<and> (n = 0 \<longrightarrow> cs' = cs \<and> t' = t)"
  using assms
proof (induction cs arbitrary: pre t t' cs' n)
  case (Cons c cs)
  note put2 = put_row_twice [OF Cons.prems(4)]
  show ?case
  proof (cases "stale (t_now env) c")
    case False
    obtain t1 cs1 n1 where rest: "expire_each env iid cs t = (t1, cs1, n1)" by (metis prod_cases3)
    with Cons.prems(1) False have "t' = t1" "cs' = c # cs1" "n = n1" by auto
    with Cons.IH [OF rest, of "pre @ [c]"] Cons.prems(2-) show ?thesis by simp
  next
    case True
    then have st: "cr_status c = ''verified''" by (simp add: stale_def)
    obtain t1 e where run: "transition env ''credential'' (cr_id c) (cr_status c) ''expire'' ''system'' ''ttl reached'' (credential_extra iid (cr_type c)) t = (t1, Inr e)"
      using expire_legal [of env "''credential''" "cr_id c"] st by (metis surj_pair)
    obtain t2 cs2 n2 where rest: "expire_each env iid cs t1 = (t2, cs2, n2)" by (metis prod_cases3)
    let ?d = "c\<lparr>cr_status := le_to e\<rparr>"
    have res: "t' = t2" "cs' = ?d # cs2" "n = n2 + 1" using Cons.prems(1) True run rest by auto
    have "map_of (put_row k (pre @ c # cs, verification_level (pre @ c # cs)) V) k = Some (pre @ c # cs, verification_level (pre @ c # cs))"
      by (simp add: map_of_put_row)
    from cmove.change [OF this _ run, of ?d token] put2 Cons.prems(2)
    have "cmove token (put_row k (pre @ c # cs, verification_level (pre @ c # cs)) V, t) (put_row k (pre @ ?d # cs, verification_level (pre @ ?d # cs)) V, t1)"
      by (simp add: set_credential_middle)
    moreover have t1: "trust_inv mac t1" "durable_inv t1" using transition_trust [OF run] Cons.prems(5-8) by blast+
    ultimately show ?thesis
      using Cons.IH [OF rest, of "pre @ [?d]"] transition_steps(2) [OF run] Cons.prems(2-6) res by (auto intro: converse_rtranclp_into_rtranclp)
  qed
qed auto

lemma expire_core:
  assumes core: "core_inv token mac R s" and env: "t_mac (i_trust env) = mac" "t_writable (i_trust env)"
  shows "core_inv token mac R (fst (expire_stale_credentials env iid s))"
proof (cases "map_of (by_id s) iid")
  case (Some i)
  note key = core_key [OF core Some]
  obtain t cs n where run: "expire_each (i_trust env) iid (ki_credentials i) (trust s) = (t, cs, n)" by (metis prod_cases3)
  have inv: "cinv token R (cred_view s, trust s)" "trust_inv mac (trust s)" "durable_inv (trust s)" using core by (simp_all add: core_inv_def)
  note row = cinv_row [OF inv(1) cred_view_lookup [OF Some]]
  have here: "put_row iid (ki_credentials i, verification_level (ki_credentials i)) (cred_view s) = cred_view s"
    using put_row_same [OF cinv_keys [OF inv(1)] cred_view_lookup [OF Some]] row by simp
  have "distinct (map cr_id ([] @ ki_credentials i))" "map_of (cred_view s) iid \<noteq> None" using row cred_view_lookup [OF Some] by simp_all
  note e = expire_each_moves [OF run this(1) cinv_keys [OF inv(1)] this(2) env inv(2,3), where token = token]
  show ?thesis
  proof (cases "n = 0")
    case True
    with e run Some core show ?thesis by (simp add: expire_stale_credentials_def)
  next
    case False
    let ?i = "recompute_verification_status (i\<lparr>ki_credentials := cs\<rparr>)"
    have "core_inv token mac R (put_identity ?i (s\<lparr>trust := t\<rparr>))"
      by (rule core_credentials [OF core Some]) (use e here key in simp_all)
    with run Some False show ?thesis by (simp add: expire_stale_credentials_def)
  qed
qed (use core in \<open>simp add: expire_stale_credentials_def\<close>)

lemma card_core:
  assumes core: "core_inv token mac R s" and env: "t_mac (i_trust env) = mac" "t_writable (i_trust env)"
  shows "core_inv token mac R (fst (identity_card env iid audience scope s))"
proof (cases "resolve_main_identity iid s")
  case (Some m)
  let ?s1 = "fst (expire_stale_credentials env (ki_id m) s)"
  have "core_inv token mac R ?s1" by (rule expire_core [OF core env])
  from core_event [OF this env, of "''identity''"] Some core show ?thesis
    by (simp add: identity_card_def Let_def)
qed (use core in \<open>simp add: identity_card_def\<close>)

lemma release_core:
  assumes "core_inv token mac R s"
  shows "core_inv token mac R (release_tg n iid s)" "map_of (by_id s) iid = Some i \<Longrightarrow> map_of (by_id (release_tg n iid s)) iid = Some i"
proof -
  have "core_inv token mac R (release_tg n iid s) \<and> (map_of (by_id s) iid = Some i \<longrightarrow> map_of (by_id (release_tg n iid s)) iid = Some i)"
  proof (cases "indexed (by_tg s n) s = None \<or> by_tg s n = Some iid")
    case True
    with assms show ?thesis by (auto simp: release_tg_def split: option.split)
  next
    case False
    then obtain q p where q: "by_tg s n = Some q" "map_of (by_id s) q = Some p" "q \<noteq> iid"
      by (auto simp: indexed_def split: option.splits if_splits)
    then have r: "release_tg n iid s = put_identity (p\<lparr>ki_tg := None, ki_tg_name := None\<rparr>) s"
      using False by (auto simp: release_tg_def indexed_def split: option.splits if_splits)
    show ?thesis using core_put_same [OF assms q(2)] core_key [OF assms q(2)] q(3) by (simp add: r map_of_put_row)
  qed
  then show "core_inv token mac R (release_tg n iid s)" "map_of (by_id s) iid = Some i \<Longrightarrow> map_of (by_id (release_tg n iid s)) iid = Some i" by blast+
qed

lemma bind_account_core:
  assumes core: "core_inv token mac R s" and env: "t_mac (i_trust env) = mac" "t_writable (i_trust env)"
    and i: "map_of (by_id s) (ki_id j) = Some i" "ki_credentials j = ki_credentials i" "ki_verification j = ki_verification i"
  shows "core_inv token mac R (bind_account env n actor j s)" "map_of (by_id (bind_account env n actor j s)) (ki_id j) = Some j"
proof -
  have "core_inv token mac R (reindex_tg j (put_identity j (release_tg n (ki_id j) s)))"
    using core_put_same [OF release_core(1) [OF core] release_core(2) [OF core i(1)] refl i(2,3)] by simp
  from core_event [OF this env] show "core_inv token mac R (bind_account env n actor j s)" by (simp add: bind_account_def Let_def)
  show "map_of (by_id (bind_account env n actor j s)) (ki_id j) = Some j" by (simp add: bind_account_def Let_def map_of_put_row)
qed

lemma revoke_telegram_core:
  assumes core: "core_inv token mac R s" and env: "t_mac (i_trust env) = mac" "t_writable (i_trust env)" and i: "map_of (by_id s) (ki_id i) = Some i"
    and run: "revoke_telegram env actor i s = (s', r)"
  shows "core_inv token mac R s'"
proof (cases "find (\<lambda>c. cr_type c = ''telegram'' \<and> active c) (ki_credentials i)")
  case (Some c)
  then have c: "c \<in> set (ki_credentials i)" by (auto simp: find_Some_iff)
  let ?run = "mutate_credential_locked env i c ''revoke'' actor ''re-bind replaces old telegram credential'' s"
  obtain s1 r1 where m: "?run = (s1, r1)" by (metis surj_pair)
  have "core_inv token mac R (fst ?run)" by (rule mutate_core [OF core i refl c _ env]) simp
  with m run Some show ?thesis by (cases r1) (simp_all add: revoke_telegram_def)
qed (use core run in \<open>simp add: revoke_telegram_def\<close>)

lemma bind_2fa_core:
  assumes core: "core_inv token mac R s" and env: "t_mac (i_trust env) = mac" "t_writable (i_trust env)" "t_token (i_trust env) = token"
  shows "core_inv token mac R (fst (bind_by_2fa env n iid0 code username s))"
proof (cases "\<exists>i. map_of (by_id s) (strip iid0) = Some i \<and> ki_twofa i \<noteq> [] \<and> ki_twofa i = strip code")
  case True
  then obtain i where i: "map_of (by_id s) (strip iid0) = Some i" "ki_twofa i \<noteq> []" "ki_twofa i = strip code" by blast
  define actor j where "actor = ''tg:'' @ show_int n" and "j = i\<lparr>ki_tg := Some n, ki_tg_name := username, ki_twofa := []\<rparr>"
  have j: "map_of (by_id s) (ki_id j) = Some i" "ki_credentials j = ki_credentials i" "ki_verification j = ki_verification i"
    using i(1) core_key [OF core i(1)] by (simp_all add: j_def)
  note bound = bind_account_core [OF core env(1,2) j, of n actor]
  obtain s3 r3 where s3: "revoke_telegram env actor j (bind_account env n actor j s) = (s3, r3)" by (metis surj_pair)
  obtain s4 r4 where s4: "issue_credential env (strip iid0) ''telegram'' ''karma'' 0 actor True s3 = (s4, r4)" by (metis surj_pair)
  have core3: "core_inv token mac R s3" by (rule revoke_telegram_core [OF bound(1) env(1,2) bound(2) s3])
  have core4: "core_inv token mac R s4" using issue_core [OF core3 env, of "strip iid0" "''telegram''" "''karma''" 0 actor True] s4 by simp
  have "fst (bind_by_2fa env n iid0 code username s) = (case r3 of Inl _ \<Rightarrow> s3 | Inr _ \<Rightarrow> (case r4 of Inl _ \<Rightarrow> s4 | Inr _ \<Rightarrow> persist env s4))"
    using i s3 s4 unfolding bind_by_2fa_def Let_def actor_def [symmetric] by (simp add: j_def [symmetric] split: sum.split)
  with core3 core4 show ?thesis by (simp split: sum.split)
next
  case False
  then have "fst (bind_by_2fa env n iid0 code username s) = s" by (auto simp: bind_by_2fa_def Let_def split: option.split)
  with core show ?thesis by simp
qed

lemma add_identity_core:
  assumes "core_inv token mac R (draw k s)" and "map_of (by_id s) (ki_id i) = None" and "ki_credentials i = []" and "ki_verification i = ''unverified''"
    and "\<And>n. drawn (trust s) + k \<le> n \<Longrightarrow> ki_id i \<noteq> ''kid_'' @ token n"
  shows "core_inv token mac R (add_identity env i (draw k s))"
  unfolding add_identity_def using core_add [OF assms(1)] assms(2-5) by (simp add: draw_def)

lemma new_identity_simps [simp]:
  "ki_id (new_identity iid w now code policy) = iid" "ki_credentials (new_identity iid w now code policy) = []"
  "ki_verification (new_identity iid w now code policy) = ''unverified''"
  by (simp_all add: new_identity_def)

lemma next_id_free:
  assumes "core_inv token mac R s"
  shows "map_of (by_id s) (''kid_'' @ token (drawn (trust s))) = None" "drawn (trust s) + 2 \<le> n \<Longrightarrow> ''kid_'' @ token (drawn (trust s)) \<noteq> ''kid_'' @ token n"
  using assms by (auto simp: core_inv_def keyed_def dest!: injD)

lemma create_sub_core:
  assumes core: "core_inv token mac R s" and env: "t_token (i_trust env) = token"
  shows "core_inv token mac R (fst (create_sub_identity env pid wallet s))"
proof (cases "fst (create_sub_identity env pid wallet s) = s")
  case False
  let ?iid = "''kid_'' @ token (drawn (trust s))"
  obtain p where p: "map_of (by_id s) pid = Some p" using False by (cases "map_of (by_id s) pid") (auto simp: create_sub_identity_def)
  define i where "i = (new_identity ?iid (lower wallet) (t_now (i_trust env)) (i_invite env (drawn (trust s) + 1)) (ki_policy p))
     \<lparr>ki_parent := Some pid, ki_referred_by := (if ki_invite p = [] then None else Some (ki_invite p)), ki_meta := [(''role'', JStr ''sub''), (''parent'', JStr pid)]\<rparr>"
  define s1 where "s1 = reindex_invite i (reindex_wallet i (put_identity i (draw 2 s)))"
  have i: "ki_id i = ?iid" "ki_credentials i = []" "ki_verification i = ''unverified''" by (simp_all add: i_def)
  have res: "fst (create_sub_identity env pid wallet s) = persist env (put_identity (p\<lparr>ki_subs := ki_subs p @ [?iid]\<rparr>) s1)"
    using False p env unfolding create_sub_identity_def Let_def s1_def i_def by (simp split: if_split_asm)
  have "core_inv token mac R (put_identity i (draw 2 s))"
    by (rule core_add [OF core_draw [OF core]]) (use i next_id_free [OF core] in \<open>auto simp: draw_def\<close>)
  then have s1: "core_inv token mac R s1" by (simp add: s1_def)
  have "?iid \<noteq> pid" using p next_id_free(1) [OF core] by auto
  then have "map_of (by_id s1) pid = Some p" using p i(1) by (simp add: s1_def map_of_put_row draw_def)
  from core_put_same [OF s1 this] core_key [OF core p] show ?thesis unfolding res by simp
qed (simp add: core)

lemma identity_do_core:
  assumes core: "core_inv token mac R s" and env: "t_mac (i_trust env) = mac" "t_writable (i_trust env)" "t_token (i_trust env) = token"
    and "fresh_seed token c" and "c \<noteq> Reload"
  shows "core_inv token mac R (identity_do env c s)"
proof (cases c)
  case (Wallet_Login w meta)
  let ?i = "(new_identity (''kid_'' @ token (drawn (trust s))) (lower w) (t_now (i_trust env)) (i_invite env (drawn (trust s) + 1)) default_policy)\<lparr>ki_meta := meta\<rparr>"
  have "core_inv token mac R (add_identity env ?i (draw 2 s))"
    by (rule add_identity_core [OF core_draw [OF core]]) (use next_id_free [OF core] in auto)
  then show ?thesis using core env(3) Wallet_Login by (auto simp: get_or_create_by_wallet_def Let_def split: option.split)
next
  case (Seed iid w code policy points)
  show ?thesis
  proof (cases "map_of (by_id s) iid")
    case None
    let ?i = "(new_identity iid (lower w) (t_now (i_trust env)) (i_invite env (drawn (trust s))) (if policy = [] then default_policy else policy))\<lparr>ki_twofa := code, ki_points := points\<rparr>"
    have "core_inv token mac R (add_identity env ?i (draw 1 s))"
      by (rule add_identity_core [OF core_draw [OF core]]) (use None assms(5) Seed in \<open>auto simp: fresh_seed_def\<close>)
    with None Seed show ?thesis by (simp add: seed_identity_def Let_def)
  next
    case (Some i)
    with core_put_same [OF core Some] core_key [OF core Some] Seed show ?thesis by (simp add: seed_identity_def Let_def)
  qed
next
  case (Points iid points)
  show ?thesis
  proof (cases "map_of (by_id s) iid")
    case (Some i)
    have "\<exists>k. map_of (by_id s) k = Some (main_of i s)" using Some by (auto simp: main_of_def split: option.split)
    then obtain k where k: "map_of (by_id s) k = Some (main_of i s)" by blast
    from core_put_same [OF core k] core_key [OF core k] Some Points show ?thesis by (simp add: add_karma_points_def Let_def)
  qed (use core Points in \<open>simp add: add_karma_points_def\<close>)
next
  case (Bind_Telegram iid n u)
  then show ?thesis using core core_put_same [OF core] core_key [OF core] by (simp add: bind_telegram_def Let_def split: option.split)
next
  case (Policy iid policy)
  then show ?thesis using core core_put_same [OF core] core_key [OF core] by (simp add: update_policy_def Let_def split: option.split)
next
  case (Set_Class iid cls actor)
  show ?thesis
  proof (cases "map_of (by_id s) iid")
    case (Some i)
    let ?s = "s\<lparr>trust := fst (record_event (i_trust env) ''identity'' iid ''identity_class_changed'' (ki_class i) cls actor ''set_identity_class'' [] (trust s))\<rparr>"
    have "core_inv token mac R ?s" by (rule core_event [OF core env(1,2)]) simp
    from core_put_same [OF this, of iid i] core_key [OF core Some] Some core Set_Class show ?thesis
      by (simp add: set_identity_class_def Let_def)
  qed (use core Set_Class in \<open>simp add: set_identity_class_def\<close>)
qed (use assms in \<open>simp_all add: create_sub_core bind_2fa_core issue_core expire_core card_core mutate_credential_core
  verify_credential_def reject_credential_def revoke_credential_def\<close>)

section \<open>What is on the disk\<close>

definition saved_ok :: "identity_state \<Rightarrow> bool" where
  "saved_ok s \<longleftrightarrow> saved_ids s = map snd (by_id s)"

lemma saved_persist [simp]: "t_writable (i_trust env) \<Longrightarrow> saved_ok (persist env s)"
  by (simp add: saved_ok_def persist_def)

lemma saved_trust [simp]: "saved_ok (s\<lparr>trust := t\<rparr>) = saved_ok s" "saved_ok (draw n s) = saved_ok s"
  by (simp_all add: saved_ok_def draw_def)

lemma mutate_saved: "saved_ok s \<Longrightarrow> t_writable (i_trust env) \<Longrightarrow> saved_ok (fst (mutate_credential_locked env i c action actor reason s))"
  by (simp add: mutate_credential_locked_def Let_def split: prod.split sum.split transition_error.split)

lemma issue_saved: "saved_ok s \<Longrightarrow> t_writable (i_trust env) \<Longrightarrow> saved_ok (fst (issue_credential env iid ty issuer ttl actor auto s))"
  by (simp add: issue_credential_def Let_def mutate_saved split: prod.split sum.split transition_error.split option.split)

lemma transition_legal:
  assumes "map_of CREDENTIAL_TRANSITIONS (st, action) = Some b"
  obtains t' e where "transition env ty eid st action actor reason extra t = (t', Inr e)" and "le_to e = b"
proof -
  obtain t' e where run: "append_ledger env ty eid (''credential_'' @ action) st b actor reason extra t = (t', e)" by (metis surj_pair)
  with assms append_history(2) [OF run] show ?thesis by (intro that [of t' e]) (simp_all add: transition_def)
qed

text \<open>Issuing succeeds unless the type, the validity, the identity or an active credential stands against it.\<close>

lemma index_frame [simp]: "by_tg (persist env s) = by_tg s" "by_tg (put_identity i s) = by_tg s" "by_tg (draw n s) = by_tg s" "by_id (draw n s) = by_id s"
  by (simp_all add: persist_def put_identity_def draw_def)

lemma mutate_succeeds:
  assumes "map_of CREDENTIAL_TRANSITIONS (cr_status c, action) = Some b" and "t_writable (i_trust env)"
  obtains s' d where "mutate_credential_locked env i c action actor reason s = (s', Inr d)" and "saved_ok s'" and "by_tg s' = by_tg s"
    and "cr_id d = cr_id c" and "cr_type d = cr_type c" and "cr_status d = b"
    and "map_of (by_id s') (ki_id i) = Some (recompute_verification_status (i\<lparr>ki_credentials := set_credential d (ki_credentials i)\<rparr>))"
proof -
  obtain t e where t: "transition (i_trust env) ''credential'' (cr_id c) (cr_status c) action actor reason (credential_extra (ki_id i) (cr_type c)) (trust s) = (t, Inr e)" "le_to e = b"
    by (rule transition_legal [OF assms(1)])
  define d where "d = c\<lparr>cr_status := b, cr_verified_at := (if action = ''verify'' then Some (t_now (i_trust env)) else cr_verified_at c)\<rparr>"
  define s' where "s' = persist env (put_identity (recompute_verification_status (i\<lparr>ki_credentials := set_credential d (ki_credentials i)\<rparr>)) (s\<lparr>trust := t\<rparr>))"
  show ?thesis
  proof (rule that [of s' d])
    show "mutate_credential_locked env i c action actor reason s = (s', Inr d)" using t by (simp add: mutate_credential_locked_def Let_def s'_def d_def)
  qed (use assms(2) in \<open>simp_all add: s'_def map_of_put_row\<close>, simp_all add: d_def)
qed

lemma set_credential_in: "c \<in> set cs \<Longrightarrow> cr_id d = cr_id c \<Longrightarrow> d \<in> set (set_credential d cs)"
  by (force simp: set_credential_def)

lemma issue_succeeds:
  assumes "ty \<in> set CREDENTIAL_TYPES" and "0 \<le> ttl" and "ttl \<le> 10 * 365 * 86400" and "map_of (by_id s) iid = Some i" and "ki_id i = iid"
    and "t_writable (i_trust env)" and "\<not> list_ex (\<lambda>c. cr_type c = ty \<and> active c) (ki_credentials i)"
  obtains s' c j where "issue_credential env iid ty issuer ttl actor auto s = (s', Inr c)" and "saved_ok s'" and "by_tg s' = by_tg s" and "cr_type c = ty"
    and "cr_status c = (if auto then ''verified'' else ''pending'')" and "map_of (by_id s') iid = Some j" and "c \<in> set (ki_credentials j)"
    and "ki_tg j = ki_tg i" and "ki_twofa j = ki_twofa i"
proof -
  have issue: "map_of CREDENTIAL_TRANSITIONS ([], ''issue'') = Some ''pending''" and verify: "map_of CREDENTIAL_TRANSITIONS (''pending'', ''verify'') = Some ''verified''"
    by (simp_all add: CREDENTIAL_TRANSITIONS_def)
  obtain t e where t: "transition (i_trust env) ''credential'' (''cred_'' @ t_token (i_trust env) (drawn (trust s))) [] ''issue'' actor
      (''issue '' @ ty @ '' for '' @ iid) (credential_extra iid ty) (trust (draw 1 s)) = (t, Inr e)" "le_to e = ''pending''"
    by (rule transition_legal [OF issue])
  define c where "c = \<lparr>cr_id = ''cred_'' @ t_token (i_trust env) (drawn (trust s)), cr_type = ty, cr_status = ''pending'', cr_issuer = take 64 issuer, cr_issued_at = t_now (i_trust env),
      cr_verified_at = None, cr_expires_at = (if 0 < ttl then Some (t_now (i_trust env) + ttl) else None)\<rparr>"
  have c: "cr_type c = ty" "cr_status c = ''pending''" by (simp_all add: c_def)
  define j where "j = recompute_verification_status (i\<lparr>ki_credentials := ki_credentials i @ [c]\<rparr>)"
  have j: "ki_id j = iid" "c \<in> set (ki_credentials j)" "ki_tg j = ki_tg i" "ki_twofa j = ki_twofa i"
    by (simp_all add: j_def assms(5))
  define s1 where "s1 = persist env (put_identity j ((draw 1 s)\<lparr>trust := t\<rparr>))"
  have s1: "saved_ok s1" "by_tg s1 = by_tg s" "map_of (by_id s1) iid = Some j" using assms(6) by (simp_all add: s1_def map_of_put_row j(1))
  have run: "issue_credential env iid ty issuer ttl actor auto s =
      (if auto then mutate_credential_locked env j c ''verify'' actor ''verification passed'' s1 else (s1, Inr c))"
    unfolding issue_credential_def Let_def using assms t by (simp add: s1_def j_def c_def)
  obtain s' d where d: "mutate_credential_locked env j c ''verify'' actor ''verification passed'' s1 = (s', Inr d)" "saved_ok s'" "by_tg s' = by_tg s1"
      "cr_id d = cr_id c" "cr_type d = cr_type c" "cr_status d = ''verified''"
      "map_of (by_id s') (ki_id j) = Some (recompute_verification_status (j\<lparr>ki_credentials := set_credential d (ki_credentials j)\<rparr>))"
    by (rule mutate_succeeds [OF verify [folded c(2)] assms(6)])
  show ?thesis
  proof (cases auto)
    case True
    show ?thesis
      by (rule that [of s' d, OF _ _ _ _ _ d(7) [unfolded j(1)]])
        (use True run d(1-6) s1 c j set_credential_in [OF j(2) d(4)] in simp_all)
  next
    case False
    with run s1 c j show ?thesis by (intro that [of s1 c j]) simp_all
  qed
qed

lemma revoke_succeeds:
  assumes core: "core_inv token mac R s" and "t_writable (i_trust env)" and i: "map_of (by_id s) (ki_id i) = Some i"
  obtains s' j where "revoke_telegram env actor i s = (s', Inr ())" and "by_tg s' = by_tg s" and "map_of (by_id s') (ki_id i) = Some j" and "ki_id j = ki_id i"
    and "\<not> list_ex (\<lambda>c. cr_type c = ''telegram'' \<and> active c) (ki_credentials j)" and "ki_tg j = ki_tg i" and "ki_twofa j = ki_twofa i"
proof (cases "find (\<lambda>c. cr_type c = ''telegram'' \<and> active c) (ki_credentials i)")
  case None
  then have "revoke_telegram env actor i s = (s, Inr ())" by (simp add: revoke_telegram_def)
  with i None show ?thesis by (intro that [of s i]) (auto simp: find_None_iff list_ex_iff)
next
  case (Some c)
  then have c: "c \<in> set (ki_credentials i)" "cr_type c = ''telegram''" "active c" by (auto simp: find_Some_iff)
  then have "map_of CREDENTIAL_TRANSITIONS (cr_status c, ''revoke'') = Some ''revoked''" by (auto simp: active_def CREDENTIAL_TRANSITIONS_def)
  then obtain s' d where d: "mutate_credential_locked env i c ''revoke'' actor ''re-bind replaces old telegram credential'' s = (s', Inr d)" "saved_ok s'" "by_tg s' = by_tg s"
      "cr_id d = cr_id c" "cr_type d = cr_type c" "cr_status d = ''revoked''"
      "map_of (by_id s') (ki_id i) = Some (recompute_verification_status (i\<lparr>ki_credentials := set_credential d (ki_credentials i)\<rparr>))"
    by (rule mutate_succeeds [OF _ assms(2)])
  have "distinct (map cr_type (filter active (ki_credentials i)))"
    using cinv_active [OF _ cred_view_lookup [OF i]] core by (auto simp: core_inv_def)
  then have "x = c" if "x \<in> set (ki_credentials i)" "cr_type x = ''telegram''" "active x" for x
    using c that by (auto simp: distinct_map inj_on_def)
  then have "\<not> list_ex (\<lambda>c. cr_type c = ''telegram'' \<and> active c) (set_credential d (ki_credentials i))"
    using d(4,6) by (auto simp: list_ex_iff set_credential_def active_def split: if_splits)
  moreover have "revoke_telegram env actor i s = (s', Inr ())" using d(1) Some by (simp add: revoke_telegram_def)
  ultimately show ?thesis by (intro that [OF _ d(3) d(7)]) simp_all
qed

lemma bind_account_index: "ki_tg i = Some n \<Longrightarrow> by_tg (bind_account env n actor i s) n = Some (ki_id i)"
  by (simp add: bind_account_def reindex_tg_def Let_def)

text \<open>With the right code the binding always succeeds.\<close>

lemma bind_succeeds:
  assumes core: "core_inv token mac R s" and env: "t_mac (i_trust env) = mac" "t_writable (i_trust env)"
    and i: "map_of (by_id s) (strip iid0) = Some i" "ki_twofa i \<noteq> []" "ki_twofa i = strip code"
  obtains s' j c where "bind_by_2fa env n iid0 code username s = (s', Inr j)" and "saved_ok s'" and "by_tg s' n = Some (strip iid0)"
    and "map_of (by_id s') (strip iid0) = Some j" and "ki_tg j = Some n" and "ki_twofa j = []"
    and "c \<in> set (ki_credentials j)" and "cr_type c = ''telegram''" and "cr_status c = ''verified''"
proof -
  define actor j where "actor = ''tg:'' @ show_int n" and "j = i\<lparr>ki_tg := Some n, ki_tg_name := username, ki_twofa := []\<rparr>"
  have key: "ki_id j = strip iid0" "ki_tg j = Some n" "ki_twofa j = []" using core_key [OF core i(1)] by (simp_all add: j_def)
  have j: "map_of (by_id s) (ki_id j) = Some i" "ki_credentials j = ki_credentials i" "ki_verification j = ki_verification i"
    using i(1) key by (simp_all add: j_def)
  note bound = bind_account_core [OF core env j, of n actor]
  obtain s3 j3 where s3: "revoke_telegram env actor j (bind_account env n actor j s) = (s3, Inr ())" "by_tg s3 = by_tg (bind_account env n actor j s)"
      "map_of (by_id s3) (ki_id j) = Some j3" "ki_id j3 = ki_id j" "\<not> list_ex (\<lambda>c. cr_type c = ''telegram'' \<and> active c) (ki_credentials j3)"
      "ki_tg j3 = ki_tg j" "ki_twofa j3 = ki_twofa j"
    by (rule revoke_succeeds [OF bound(1) env(2) bound(2)])
  have ty: "''telegram'' \<in> set CREDENTIAL_TYPES" by (simp add: CREDENTIAL_TYPES_def)
  obtain s4 c j4 where s4: "issue_credential env (strip iid0) ''telegram'' ''karma'' 0 actor True s3 = (s4, Inr c)" "saved_ok s4" "by_tg s4 = by_tg s3"
      "cr_type c = ''telegram''" "cr_status c = (if True then ''verified'' else ''pending'')" "map_of (by_id s4) (strip iid0) = Some j4" "c \<in> set (ki_credentials j4)"
      "ki_tg j4 = ki_tg j3" "ki_twofa j4 = ki_twofa j3"
    by (rule issue_succeeds [OF ty _ _ s3(3) [unfolded key] s3(4) [unfolded key] env(2) s3(5), where ttl = 0 and auto = True]) simp_all
  have "bind_by_2fa env n iid0 code username s = (persist env s4, Inr j4)"
    using i s3(1) s4(1,6) unfolding bind_by_2fa_def Let_def actor_def [symmetric] by (simp add: j_def [symmetric])
  moreover have "by_tg (persist env s4) n = Some (strip iid0)" using s4(3) s3(2) bind_account_index [of j n] key by simp
  ultimately show ?thesis using s4 s3(6,7) key env(2) by (intro that [of "persist env s4" j4 c]) simp_all
qed

lemma bind_2fa_saved:
  assumes core: "core_inv token mac R s" and env: "t_mac (i_trust env) = mac" "t_writable (i_trust env)" and "saved_ok s"
  shows "saved_ok (fst (bind_by_2fa env n iid0 code username s))"
proof (cases "\<exists>i. map_of (by_id s) (strip iid0) = Some i \<and> ki_twofa i \<noteq> [] \<and> ki_twofa i = strip code")
  case True
  then obtain i where i: "map_of (by_id s) (strip iid0) = Some i" "ki_twofa i \<noteq> []" "ki_twofa i = strip code" by blast
  show ?thesis by (rule bind_succeeds [OF core env i, of n username]) simp
next
  case False
  then have "fst (bind_by_2fa env n iid0 code username s) = s" by (auto simp: bind_by_2fa_def Let_def split: option.split)
  with assms(4) show ?thesis by simp
qed

lemma expire_saved: "saved_ok s \<Longrightarrow> t_writable (i_trust env) \<Longrightarrow> saved_ok (fst (expire_stale_credentials env iid s))"
  by (simp add: expire_stale_credentials_def split: option.split prod.split)

lemma mutate_credential_saved: "saved_ok s \<Longrightarrow> t_writable (i_trust env) \<Longrightarrow> saved_ok (fst (mutate_credential env iid cid action actor reason s))"
  by (simp add: mutate_credential_def mutate_saved split: option.split)

lemma identity_do_saved:
  assumes "core_inv token mac R s" and "t_mac (i_trust env) = mac" "t_writable (i_trust env)" and "saved_ok s" and "c \<noteq> Reload"
  shows "saved_ok (identity_do env c s)"
proof (cases c)
  case (Card iid audience scope)
  with assms show ?thesis by (simp add: identity_card_def Let_def expire_saved split: option.split)
next
  case (Bind_2fa n iid code u)
  with assms show ?thesis by (simp add: bind_2fa_saved)
qed (use assms in \<open>auto simp: get_or_create_by_wallet_def add_identity_def create_sub_identity_def bind_telegram_def seed_identity_def update_policy_def
    add_karma_points_def set_identity_class_def issue_saved expire_saved mutate_credential_saved verify_credential_def reject_credential_def
    revoke_credential_def Let_def split: option.split\<close>)

text \<open>A reload brings back the same identities and the same ledger.\<close>

lemma load_fold:
  assumes "distinct (map fst (by_id s) @ map ki_id is)"
  shows "by_id (foldl (\<lambda>s i. reindex_invite i (reindex_tg i (reindex_wallet i (put_identity i s)))) s is) = by_id s @ map (\<lambda>i. (ki_id i, i)) is \<and>
    trust (foldl (\<lambda>s i. reindex_invite i (reindex_tg i (reindex_wallet i (put_identity i s)))) s is) = trust s \<and>
    saved_ids (foldl (\<lambda>s i. reindex_invite i (reindex_tg i (reindex_wallet i (put_identity i s)))) s is) = saved_ids s"
  using assms
proof (induction "is" arbitrary: s)
  case (Cons i "is")
  let ?s = "reindex_invite i (reindex_tg i (reindex_wallet i (put_identity i s)))"
  have "map_of (by_id s) (ki_id i) = None" using Cons.prems by (simp add: map_of_eq_None_iff)
  then have "by_id ?s = by_id s @ [(ki_id i, i)]" by (simp add: put_row_def)
  moreover have "saved_ids ?s = saved_ids s"
    by (simp add: reindex_invite_def reindex_tg_def reindex_wallet_def put_identity_def split: option.split)
  ultimately show ?case using Cons.IH [of ?s] Cons.prems by simp
qed simp

lemma load_same:
  assumes "core_inv token mac R s" and "saved_ok s"
  shows "by_id (load_identities s) = by_id s" "trust (load_identities s) = trust s" "saved_ok (load_identities s)"
proof -
  have keys: "distinct (map fst (by_id s))" "\<forall>(k, i) \<in> set (by_id s). ki_id i = k" and t: "load_trust (trust s) = trust s"
    using assms(1) cinv_keys [of token R "cred_view s"] by (auto simp: core_inv_def keyed_def cred_view_def load_trust_def durable_inv_def)
  have ids: "map ki_id (map snd (by_id s)) = map fst (by_id s)" "map (\<lambda>i. (ki_id i, i)) (map snd (by_id s)) = by_id s"
    using keys(2) by (induction "by_id s" arbitrary: s) (auto intro!: map_idI)
  let ?s0 = "s\<lparr>by_id := [], by_wallet := Map.empty, by_tg := Map.empty, by_invite := Map.empty, trust := load_trust (trust s)\<rparr>"
  have "distinct (map fst (by_id ?s0) @ map ki_id (saved_ids s))" using assms(2) keys(1) ids(1) by (simp add: saved_ok_def del: map_map)
  from load_fold [OF this] show "by_id (load_identities s) = by_id s" "trust (load_identities s) = trust s" "saved_ok (load_identities s)"
    using assms(2) ids(2) t by (simp_all add: load_identities_def saved_ok_def del: map_map)
qed

section \<open>Runs\<close>

definition identity_inv :: "(nat \<Rightarrow> string) \<Rightarrow> (bytes \<Rightarrow> bytes) \<Rightarrow> string set \<Rightarrow> identity_state \<Rightarrow> bool" where
  "identity_inv token mac R s \<longleftrightarrow> core_inv token mac R s \<and> saved_ok s"

lemma identity_step_inv: "identity_step token mac s s' \<Longrightarrow> identity_inv token mac R s \<Longrightarrow> identity_inv token mac R s'"
proof (induction rule: identity_step.induct)
  case (call env c s)
  show ?case
  proof (cases "c = Reload")
    case True
    with call(5) load_same [of token mac R s] show ?thesis by (auto simp: identity_inv_def intro: core_cong [THEN iffD2])
  next
    case False
    with call identity_do_saved [of token mac R s env c] show ?thesis by (simp add: identity_inv_def identity_do_core)
  qed
qed

interpretation identities: step_invariant "identity_step token mac" "identity_inv token mac R"
  by unfold_locales (rule identity_step_inv)

lemma new_identity_inv: "inj token \<Longrightarrow> identity_inv token mac {} new_identity_state"
  using new_trust_inv
  by (simp add: identity_inv_def core_inv_def saved_ok_def cinv.simps cred_view_def keyed_def new_identity_state_def table_ids_def ledger_ids_ok_def final_in_def)
    (simp add: new_trust_state_def)

end
