(* ===== verification/Identity_Properties.thy ===== *)
theory Identity_Properties
  imports Identity_System
begin

text \<open>
  The properties of the identity store over all runs of its operations, with a small run on which
  they are exercised: an identity is seeded with a one-time code, bound to a messenger account, and its credential revoked.
\<close>

section \<open>A run\<close>

definition demo_identity_env :: identity_env where
  "demo_identity_env = \<lparr>i_trust = demo_trust_env 100, i_invite = show_nat\<rparr>"

fun identity_run :: "identity_call list \<Rightarrow> identity_state \<Rightarrow> identity_state" where
  "identity_run [] s = s"
| "identity_run (c # cs) s = identity_run cs (identity_do demo_identity_env c s)"

lemma show_nat_stream: "inj show_nat"
  by (rule injI) (metis read_show_nat)

lemma identity_run_steps:
  "list_all (fresh_seed show_nat) cs \<Longrightarrow> (identity_step show_nat (\<lambda>bs. bs))\<^sup>*\<^sup>* s (identity_run cs s)"
proof (induction cs arbitrary: s)
  case (Cons c cs)
  have "identity_step show_nat (\<lambda>bs. bs) s (identity_do demo_identity_env c s)"
    by (rule identity_step.call) (use Cons.prems in \<open>simp_all add: demo_identity_env_def demo_trust_env_def\<close>)
  with Cons show ?case by (auto intro: converse_rtranclp_into_rtranclp)
qed simp

definition demo_seed :: "identity_call list" where
  "demo_seed = [Seed ''alice'' ''0xAB'' ''1234'' [] 0]"

lemma demo_seed_fresh: "list_all (fresh_seed show_nat) demo_seed" "fresh_seed show_nat (Bind_2fa n iid code u)" "fresh_seed show_nat (Revoke iid cid actor reason)"
  by (simp_all add: demo_seed_def fresh_seed_def)

definition demo_seeded :: identity_state where
  "demo_seeded = identity_run demo_seed new_identity_state"

lemma demo_seeded_steps: "(identity_step show_nat (\<lambda>bs. bs))\<^sup>*\<^sup>* new_identity_state demo_seeded"
  unfolding demo_seeded_def by (rule identity_run_steps [OF demo_seed_fresh(1)])

lemma demo_seeded_alice:
  "\<exists>i. map_of (by_id demo_seeded) ''alice'' = Some i \<and> ki_twofa i = ''1234''"
  by (simp add: demo_seeded_def demo_seed_def seed_identity_def new_identity_state_def add_identity_def new_identity_def put_row_def Let_def)

text \<open>The account is bound with the one-time code.\<close>

definition demo_bound :: identity_state where
  "demo_bound = fst (bind_by_2fa demo_identity_env 7 ''alice'' ''1234'' None demo_seeded)"

lemma demo_bound_steps: "(identity_step show_nat (\<lambda>bs. bs))\<^sup>*\<^sup>* new_identity_state demo_bound"
proof -
  have "identity_step show_nat (\<lambda>bs. bs) demo_seeded (identity_do demo_identity_env (Bind_2fa 7 ''alice'' ''1234'' None) demo_seeded)"
    by (rule identity_step.call) (simp_all add: demo_identity_env_def demo_trust_env_def demo_seed_fresh)
  then show ?thesis using demo_seeded_steps by (simp add: demo_bound_def)
qed

lemma demo_strip: "strip ''alice'' = ''alice''" "strip ''1234'' = ''1234''"
  by code_simp+

lemma demo_env_simps [simp]:
  "t_mac (i_trust demo_identity_env) = (\<lambda>bs. bs)" "t_writable (i_trust demo_identity_env)" "t_token (i_trust demo_identity_env) = show_nat"
  by (simp_all add: demo_identity_env_def demo_trust_env_def)

lemma demo_bound_view:
  obtains i c where "map_of (by_id demo_bound) ''alice'' = Some i" and "c \<in> set (ki_credentials i)" and "cr_status c = ''verified''"
proof -
  have core: "core_inv show_nat (\<lambda>bs. bs) {} demo_seeded"
    using identities.inv_run [OF demo_seeded_steps new_identity_inv [OF show_nat_stream]] by (simp add: identity_inv_def)
  obtain i where i: "map_of (by_id demo_seeded) (strip ''alice'') = Some i" "ki_twofa i = ''1234''" using demo_seeded_alice demo_strip by auto
  have code: "ki_twofa i \<noteq> []" "ki_twofa i = strip ''1234''" using i(2) demo_strip by simp_all
  obtain s' j c where b: "bind_by_2fa demo_identity_env 7 ''alice'' ''1234'' None demo_seeded = (s', Inr j)" "map_of (by_id s') (strip ''alice'') = Some j"
      "c \<in> set (ki_credentials j)" "cr_status c = ''verified''"
    by (rule bind_succeeds [OF core demo_env_simps(1,2) i(1) code])
  show ?thesis by (rule that [OF _ b(3,4)]) (use b(1,2) in \<open>simp add: demo_bound_def demo_strip\<close>)
qed

section \<open>Properties\<close>

text \<open>
  C11. The credentials agree with the ledger: in every run the verification level of an identity is what its verified
  credentials earn, no two active credentials of an identity have the same type, the ledger entries of a credential
  follow one another along the transition table and the last one states the status the credential has, and
  the hash chain of the ledger passes its check.
\<close>

theorem credentials_follow_ledger:
  assumes "inj token" and "(identity_step token mac)\<^sup>*\<^sup>* new_identity_state s" and "map_of (by_id s) iid = Some i" and "t_mac env = mac"
  shows "ki_verification i = verification_level (ki_credentials i) \<and> distinct (map cr_type (filter active (ki_credentials i))) \<and>
    (\<forall>c \<in> set (ki_credentials i). follows (history (cr_id c) (trust s)) (cr_status c)) \<and>
    verify_ledger_integrity env (trust s) = (trust s, Inr (length (ledger (trust s))))"
proof -
  have inv: "core_inv token mac {} s" using identities.inv_run [OF assms(2) new_identity_inv [OF assms(1)]] by (simp add: identity_inv_def)
  then have "row_ok (trust s) (ki_credentials i) (ki_verification i)"
    using map_of_SomeD [OF cred_view_lookup [OF assms(3)]] by (auto simp: core_inv_def cinv.simps)
  moreover have "verify_ledger_integrity env (trust s) = (trust s, Inr (length (ledger (trust s))))"
    using inv assms(4) by (auto simp: core_inv_def trust_inv_def intro: verify_intact)
  ultimately show ?thesis by (simp add: row_ok_def)
qed

theorem credentials_follow_ledger_witness:
  "\<exists>i c. map_of (by_id demo_bound) ''alice'' = Some i \<and> c \<in> set (ki_credentials i) \<and> follows (history (cr_id c) (trust demo_bound)) ''verified'' \<and>
    ki_verification i = verification_level (ki_credentials i)"
proof -
  obtain i c where i: "map_of (by_id demo_bound) ''alice'' = Some i" "c \<in> set (ki_credentials i)" "cr_status c = ''verified''" by (rule demo_bound_view)
  have "t_mac (demo_trust_env 0) = (\<lambda>bs. bs)" by (simp add: demo_trust_env_def)
  note all = credentials_follow_ledger [OF show_nat_stream demo_bound_steps i(1) this]
  with i have "follows (history (cr_id c) (trust demo_bound)) ''verified''" by metis
  with i all show ?thesis by blast
qed

text \<open>
  C32. Binding with the right one-time code always succeeds, whatever happened before: the account resolves to the identity,
  the code is burnt, the identity has a verified messenger credential, and everything is on the disk.
\<close>

theorem binding_with_code_succeeds:
  assumes "inj token" and "(identity_step token mac)\<^sup>*\<^sup>* new_identity_state s" and "t_mac (i_trust env) = mac" and "t_writable (i_trust env)"
    and "map_of (by_id s) (strip iid) = Some i" and "ki_twofa i \<noteq> []" and "ki_twofa i = strip code" and "strip iid \<noteq> []"
  shows "\<exists>s' j. bind_by_2fa env n iid code username s = (s', Inr j) \<and> get_by_telegram n s' = Some j \<and> ki_tg j = Some n \<and> ki_twofa j = [] \<and>
    (\<exists>c \<in> set (ki_credentials j). cr_type c = ''telegram'' \<and> cr_status c = ''verified'') \<and> saved_ids s' = map snd (by_id s')"
proof -
  have inv: "core_inv token mac {} s" using identities.inv_run [OF assms(2) new_identity_inv [OF assms(1)]] by (simp add: identity_inv_def)
  show ?thesis
    by (rule bind_succeeds [OF inv assms(3-7), of n username]) (use assms(8) in \<open>auto simp: get_by_telegram_def indexed_def saved_ok_def\<close>)
qed

theorem binding_with_code_succeeds_witness:
  "\<exists>s' j. bind_by_2fa demo_identity_env 7 ''alice'' ''1234'' None demo_seeded = (s', Inr j) \<and> get_by_telegram 7 s' = Some j \<and> ki_twofa j = []"
proof -
  obtain i where "map_of (by_id demo_seeded) (strip ''alice'') = Some i" "ki_twofa i = ''1234''" using demo_seeded_alice demo_strip by auto
  then show ?thesis
    using binding_with_code_succeeds [OF show_nat_stream demo_seeded_steps, of demo_identity_env "''alice''" i "''1234''" 7 None] by (auto simp: demo_strip)
qed

text \<open>A credential that was revoked stays revoked in every later run.\<close>

theorem revoked_is_final:
  assumes "inj token" and "(identity_step token mac)\<^sup>*\<^sup>* new_identity_state s" and "(identity_step token mac)\<^sup>*\<^sup>* s s'"
    and "map_of (by_id s) iid = Some i" and "c \<in> set (ki_credentials i)" and "cr_status c = ''revoked''"
  shows "\<exists>iid' i' c'. map_of (by_id s') iid' = Some i' \<and> c' \<in> set (ki_credentials i') \<and> cr_id c' = cr_id c \<and> cr_status c' = ''revoked''"
proof -
  have "identity_inv token mac {} s" by (rule identities.inv_run [OF assms(2) new_identity_inv [OF assms(1)]])
  moreover have "final_in {cr_id c} (cred_view s)"
    using map_of_SomeD [OF cred_view_lookup [OF assms(4)]] assms(5,6) by (force simp: final_in_def)
  ultimately have "identity_inv token mac {cr_id c} s" by (simp add: identity_inv_def core_inv_def cinv.simps)
  from identities.inv_run [OF assms(3) this] have inv: "cinv token {cr_id c} (cred_view s', trust s')" by (simp add: identity_inv_def core_inv_def)
  then obtain k cs l c' where c': "(k, cs, l) \<in> set (cred_view s')" "c' \<in> set cs" "cr_id c' = cr_id c" "cr_status c' = ''revoked''"
    by (auto simp: cinv.simps final_in_def)
  have "map_of (cred_view s') k = Some (cs, l)" using c'(1) cinv_keys [OF inv] by simp
  then obtain i' where "map_of (by_id s') k = Some i'" "ki_credentials i' = cs" by (auto simp: cred_view_def map_of_map_values)
  with c' show ?thesis by blast
qed

lemma row_ids_distinct: "distinct (table_ids V) \<Longrightarrow> (k, cs, l) \<in> set V \<Longrightarrow> distinct (map cr_id cs)"
  by (induction V) (auto simp: table_ids_def)

lemma demo_revoked:
  obtains s i c where "(identity_step show_nat (\<lambda>bs. bs))\<^sup>*\<^sup>* new_identity_state s" and "map_of (by_id s) ''alice'' = Some i"
    and "c \<in> set (ki_credentials i)" and "cr_status c = ''revoked''"
proof -
  obtain i c where i: "map_of (by_id demo_bound) ''alice'' = Some i" "c \<in> set (ki_credentials i)" "cr_status c = ''verified''" by (rule demo_bound_view)
  have inv: "core_inv show_nat (\<lambda>bs. bs) {} demo_bound"
    using identities.inv_run [OF demo_bound_steps new_identity_inv [OF show_nat_stream]] by (simp add: identity_inv_def)
  have id: "ki_id i = ''alice''" by (rule core_key [OF inv i(1)])
  have "find_credential i (cr_id c) \<noteq> None" using i(2) by (auto simp: find_credential_def find_None_iff)
  then obtain c0 where c0: "find_credential i (cr_id c) = Some c0" by blast
  then have mem: "c0 \<in> set (ki_credentials i)" "cr_id c0 = cr_id c" by (auto simp: find_credential_def find_Some_iff)
  have "distinct (map cr_id (ki_credentials i))"
    using inv row_ids_distinct [OF _ map_of_SomeD [OF cred_view_lookup [OF i(1)]]] by (auto simp: core_inv_def cinv.simps)
  with mem i(2) have "c0 = c" by (auto simp: distinct_map inj_on_def)
  with i(3) have legal: "map_of CREDENTIAL_TRANSITIONS (cr_status c0, ''revoke'') = Some ''revoked''" by (simp add: CREDENTIAL_TRANSITIONS_def)
  obtain s d where d: "mutate_credential_locked demo_identity_env i c0 ''revoke'' ''admin'' ''lost'' demo_bound = (s, Inr d)" "cr_id d = cr_id c0" "cr_status d = ''revoked''"
      "map_of (by_id s) (ki_id i) = Some (recompute_verification_status (i\<lparr>ki_credentials := set_credential d (ki_credentials i)\<rparr>))"
    by (rule mutate_succeeds [OF legal, of demo_identity_env i "''admin''" "''lost''" demo_bound]) auto
  have "strip ''lost'' = ''lost''" by code_simp
  then have "identity_do demo_identity_env (Revoke ''alice'' (cr_id c) ''admin'' ''lost'') demo_bound = s"
    using i(1) c0 d(1) by (simp add: revoke_credential_def mutate_credential_def)
  moreover have "identity_step show_nat (\<lambda>bs. bs) demo_bound (identity_do demo_identity_env (Revoke ''alice'' (cr_id c) ''admin'' ''lost'') demo_bound)"
    by (rule identity_step.call) (simp_all add: demo_seed_fresh)
  ultimately have "(identity_step show_nat (\<lambda>bs. bs))\<^sup>*\<^sup>* new_identity_state s" using demo_bound_steps by simp
  then show ?thesis by (rule that [OF _ d(4) [unfolded id] _ d(3)]) (simp add: recompute_verification_status_def set_credential_in [OF mem(1) d(2)])
qed

theorem revoked_is_final_witness:
  "\<exists>s c. (\<exists>i. map_of (by_id s) ''alice'' = Some i \<and> c \<in> set (ki_credentials i) \<and> cr_status c = ''revoked'') \<and>
     (\<exists>iid i c'. map_of (by_id (load_identities s)) iid = Some i \<and> c' \<in> set (ki_credentials i) \<and> cr_id c' = cr_id c \<and> cr_status c' = ''revoked'')"
proof -
  obtain s i c where s: "(identity_step show_nat (\<lambda>bs. bs))\<^sup>*\<^sup>* new_identity_state s" "map_of (by_id s) ''alice'' = Some i"
    "c \<in> set (ki_credentials i)" "cr_status c = ''revoked''" by (rule demo_revoked)
  have "identity_step show_nat (\<lambda>bs. bs) s (identity_do demo_identity_env Reload s)"
    by (rule identity_step.call) (simp_all add: fresh_seed_def)
  then have step: "(identity_step show_nat (\<lambda>bs. bs))\<^sup>*\<^sup>* s (load_identities s)" by simp
  from revoked_is_final [OF show_nat_stream s(1) step s(2-4)] s(2-4) show ?thesis by metis
qed

text \<open>
  The account an identity was bound to before keeps resolving to it: binding another account sets the account of the identity,
  but the index still has the old one, until the process restarts.
\<close>

theorem old_account_keeps_access:
  assumes "map_of (by_id s) iid = Some i" and "iid \<noteq> []" and "by_tg s m = Some iid" and "m \<noteq> n" and "by_tg s n = None"
    and "ki_id i = iid"
  shows "\<exists>s' j. bind_telegram env iid n username s = (s', Inr j) \<and> ki_tg j = Some n \<and> get_by_telegram m s' = Some j \<and> get_by_telegram n s' = Some j"
  using assms by (simp add: bind_telegram_def Let_def get_by_telegram_def indexed_def persist_def reindex_tg_def put_identity_def map_of_put_row)

definition demo_two_accounts :: identity_state where
  "demo_two_accounts = fst (bind_telegram demo_identity_env ''alice'' 7 None demo_seeded)"

lemma demo_seeded_view: "\<exists>i. map_of (by_id demo_seeded) ''alice'' = Some i \<and> ki_id i = ''alice''" "by_tg demo_seeded = Map.empty"
  by (simp_all add: demo_seeded_def demo_seed_def seed_identity_def new_identity_state_def add_identity_def new_identity_def put_row_def Let_def
      reindex_invite_def reindex_wallet_def put_identity_def draw_def persist_def)

theorem old_account_keeps_access_witness:
  "\<exists>j. ki_tg j = Some 8 \<and> get_by_telegram 7 (fst (bind_telegram demo_identity_env ''alice'' 8 None demo_two_accounts)) = Some j"
proof -
  obtain i where "map_of (by_id demo_seeded) ''alice'' = Some i" "ki_id i = ''alice''" using demo_seeded_view(1) by blast
  then have "map_of (by_id demo_two_accounts) ''alice'' = Some (i\<lparr>ki_tg := Some 7, ki_tg_name := None\<rparr>)"
    "by_tg demo_two_accounts 7 = Some ''alice''" "by_tg demo_two_accounts 8 = None" "ki_id (i\<lparr>ki_tg := Some 7, ki_tg_name := None\<rparr>) = ''alice''"
    using demo_seeded_view(2)
    by (simp_all add: demo_two_accounts_def bind_telegram_def Let_def persist_def reindex_tg_def put_identity_def map_of_put_row)
  from old_account_keeps_access [OF this(1) _ this(2) _ this(3,4), of demo_identity_env None] show ?thesis by force
qed

end
