(* ===== verification/Owner_Confirmation.thy ===== *)
theory Owner_Confirmation
  imports Delivery_Verification
begin

text \<open>
  The confirmations of the owner (\<^verbatim>\<open>services/human_confirmation_policy.py\<close>): a catalog says for each scene, role and
  step whether an agent may go on by itself or has to ask its owner, and a session carries the question, the
  answer of the owner and its single use. The catalog is the document
  \<^verbatim>\<open>packages/evidence-schema/human-confirmation-policy.v1.json\<close>, nonempty_arg here in full; the operations take a catalog as an
  argument. Times are in microseconds; what the code keeps as an ISO time is kept in whole seconds. \<open>cf_saved\<close> is the file the
  sessions are written to, and every write of it succeeds. The prompts and notes for display are left out, and so is
  the context of a question, apart from its amount.
\<close>

section \<open>The catalog\<close>

record scene_gates =
  sg_buyer :: "(string \<times> string) list"
  sg_seller :: "(string \<times> string) list"
  sg_high_risk :: bool

record policy_catalog =
  ca_scenes :: "(string \<times> scene_gates) list"
  ca_buyer :: "(string \<times> string) list"
  ca_seller :: "(string \<times> string) list"
  ca_steps :: "string list"

definition shipped_catalog :: policy_catalog where
  "shipped_catalog = \<lparr>
     ca_scenes =
      [(''ride_hailing'', \<lparr>sg_buyer =
         [(''discover'', ''AUTO''), (''select_offer'', ''OWNER_CONFIRM''), (''lock_important_fields'', ''OWNER_CONFIRM''), (''accept_order'', ''OWNER_CONFIRM''), (''execute_service'', ''AUTO''), (''submit_delivery_proof'', ''AUTO''), (''buyer_accept_settle'', ''POLICY_AUTO''), (''cancel'', ''OWNER_CONFIRM''), (''price_change_or_surge'', ''OWNER_CONFIRM''), (''dispute_or_refund'', ''OWNER_CONFIRM'')],
       sg_seller =
         [(''onboarding_publish'', ''OWNER_CONFIRM''), (''accept_order'', ''POLICY_AUTO''), (''execute_service'', ''AUTO''), (''submit_delivery_proof'', ''AUTO''), (''cancel'', ''OWNER_CONFIRM''), (''price_change_or_surge'', ''OWNER_CONFIRM'')],
       sg_high_risk = False\<rparr>),
       (''food_delivery'', \<lparr>sg_buyer =
         [(''discover'', ''AUTO''), (''select_offer'', ''OWNER_CONFIRM''), (''lock_important_fields'', ''OWNER_CONFIRM''), (''accept_order'', ''OWNER_CONFIRM''), (''execute_service'', ''AUTO''), (''submit_delivery_proof'', ''AUTO''), (''buyer_accept_settle'', ''POLICY_AUTO''), (''cancel'', ''OWNER_CONFIRM''), (''dispute_or_refund'', ''OWNER_CONFIRM''), (''price_change_or_surge'', ''OWNER_CONFIRM'')],
       sg_seller =
         [(''onboarding_publish'', ''OWNER_CONFIRM''), (''accept_order'', ''POLICY_AUTO''), (''execute_service'', ''AUTO''), (''submit_delivery_proof'', ''AUTO''), (''cancel'', ''OWNER_CONFIRM''), (''dispute_or_refund'', ''OWNER_CONFIRM'')],
       sg_high_risk = False\<rparr>),
       (''hotel_booking'', \<lparr>sg_buyer =
         [(''discover'', ''AUTO''), (''select_offer'', ''OWNER_CONFIRM''), (''lock_important_fields'', ''OWNER_CONFIRM''), (''accept_order'', ''OWNER_CONFIRM''), (''execute_service'', ''AUTO''), (''submit_delivery_proof'', ''AUTO''), (''buyer_accept_settle'', ''OWNER_CONFIRM''), (''cancel'', ''OWNER_CONFIRM''), (''dispute_or_refund'', ''OWNER_CONFIRM''), (''price_change_or_surge'', ''OWNER_CONFIRM'')],
       sg_seller =
         [(''onboarding_publish'', ''OWNER_CONFIRM''), (''accept_order'', ''POLICY_AUTO''), (''execute_service'', ''AUTO''), (''submit_delivery_proof'', ''AUTO''), (''cancel'', ''OWNER_CONFIRM'')],
       sg_high_risk = False\<rparr>),
       (''flight_booking'', \<lparr>sg_buyer =
         [(''discover'', ''AUTO''), (''select_offer'', ''OWNER_CONFIRM''), (''lock_important_fields'', ''OWNER_CONFIRM''), (''accept_order'', ''OWNER_CONFIRM''), (''execute_service'', ''AUTO''), (''submit_delivery_proof'', ''AUTO''), (''buyer_accept_settle'', ''POLICY_AUTO''), (''cancel'', ''OWNER_CONFIRM''), (''dispute_or_refund'', ''OWNER_CONFIRM''), (''price_change_or_surge'', ''OWNER_CONFIRM'')],
       sg_seller =
         [(''onboarding_publish'', ''OWNER_CONFIRM''), (''accept_order'', ''POLICY_AUTO''), (''execute_service'', ''AUTO''), (''submit_delivery_proof'', ''AUTO''), (''cancel'', ''OWNER_CONFIRM'')],
       sg_high_risk = False\<rparr>),
       (''b2b_procurement'', \<lparr>sg_buyer =
         [(''discover'', ''AUTO''), (''select_offer'', ''OWNER_CONFIRM''), (''lock_important_fields'', ''OWNER_CONFIRM''), (''accept_order'', ''OWNER_CONFIRM''), (''execute_service'', ''AUTO''), (''submit_delivery_proof'', ''AUTO''), (''buyer_accept_settle'', ''OWNER_CONFIRM''), (''cancel'', ''OWNER_CONFIRM''), (''dispute_or_refund'', ''OWNER_CONFIRM''), (''price_change_or_surge'', ''OWNER_CONFIRM'')],
       sg_seller =
         [(''onboarding_publish'', ''OWNER_CONFIRM''), (''accept_order'', ''OWNER_CONFIRM''), (''execute_service'', ''AUTO''), (''submit_delivery_proof'', ''AUTO''), (''cancel'', ''OWNER_CONFIRM''), (''dispute_or_refund'', ''OWNER_CONFIRM'')],
       sg_high_risk = False\<rparr>),
       (''data_api_billing'', \<lparr>sg_buyer =
         [(''discover'', ''AUTO''), (''select_offer'', ''OWNER_CONFIRM''), (''lock_important_fields'', ''OWNER_CONFIRM''), (''accept_order'', ''OWNER_CONFIRM''), (''execute_service'', ''AUTO''), (''submit_delivery_proof'', ''AUTO''), (''buyer_accept_settle'', ''POLICY_AUTO''), (''cancel'', ''OWNER_CONFIRM''), (''price_change_or_surge'', ''OWNER_CONFIRM''), (''dispute_or_refund'', ''OWNER_CONFIRM'')],
       sg_seller =
         [(''onboarding_publish'', ''OWNER_CONFIRM''), (''accept_order'', ''POLICY_AUTO''), (''execute_service'', ''AUTO''), (''submit_delivery_proof'', ''AUTO''), (''price_change_or_surge'', ''OWNER_CONFIRM'')],
       sg_high_risk = False\<rparr>),
       (''api_tool_call'', \<lparr>sg_buyer =
         [(''discover'', ''AUTO''), (''select_offer'', ''POLICY_AUTO''), (''lock_important_fields'', ''POLICY_AUTO''), (''accept_order'', ''POLICY_AUTO''), (''execute_service'', ''AUTO''), (''submit_delivery_proof'', ''AUTO''), (''buyer_accept_settle'', ''POLICY_AUTO''), (''cancel'', ''OWNER_CONFIRM''), (''price_change_or_surge'', ''OWNER_CONFIRM''), (''dispute_or_refund'', ''OWNER_CONFIRM'')],
       sg_seller =
         [(''onboarding_publish'', ''OWNER_CONFIRM''), (''accept_order'', ''POLICY_AUTO''), (''execute_service'', ''AUTO''), (''submit_delivery_proof'', ''AUTO'')],
       sg_high_risk = False\<rparr>),
       (''logistics_delivery'', \<lparr>sg_buyer =
         [(''discover'', ''AUTO''), (''select_offer'', ''OWNER_CONFIRM''), (''lock_important_fields'', ''OWNER_CONFIRM''), (''accept_order'', ''OWNER_CONFIRM''), (''execute_service'', ''AUTO''), (''submit_delivery_proof'', ''AUTO''), (''buyer_accept_settle'', ''POLICY_AUTO''), (''cancel'', ''OWNER_CONFIRM''), (''dispute_or_refund'', ''OWNER_CONFIRM'')],
       sg_seller =
         [(''onboarding_publish'', ''OWNER_CONFIRM''), (''accept_order'', ''POLICY_AUTO''), (''execute_service'', ''AUTO''), (''submit_delivery_proof'', ''AUTO''), (''cancel'', ''OWNER_CONFIRM'')],
       sg_high_risk = False\<rparr>),
       (''software_development'', \<lparr>sg_buyer =
         [(''discover'', ''AUTO''), (''select_offer'', ''OWNER_CONFIRM''), (''lock_important_fields'', ''OWNER_CONFIRM''), (''accept_order'', ''OWNER_CONFIRM''), (''execute_service'', ''AUTO''), (''submit_delivery_proof'', ''AUTO''), (''buyer_accept_settle'', ''OWNER_CONFIRM''), (''cancel'', ''OWNER_CONFIRM''), (''dispute_or_refund'', ''OWNER_CONFIRM'')],
       sg_seller =
         [(''onboarding_publish'', ''OWNER_CONFIRM''), (''accept_order'', ''OWNER_CONFIRM''), (''execute_service'', ''AUTO''), (''submit_delivery_proof'', ''AUTO''), (''cancel'', ''OWNER_CONFIRM'')],
       sg_high_risk = False\<rparr>),
       (''design_creative'', \<lparr>sg_buyer =
         [(''discover'', ''AUTO''), (''select_offer'', ''OWNER_CONFIRM''), (''lock_important_fields'', ''OWNER_CONFIRM''), (''accept_order'', ''OWNER_CONFIRM''), (''execute_service'', ''AUTO''), (''submit_delivery_proof'', ''AUTO''), (''buyer_accept_settle'', ''OWNER_CONFIRM''), (''cancel'', ''OWNER_CONFIRM''), (''dispute_or_refund'', ''OWNER_CONFIRM''), (''price_change_or_surge'', ''OWNER_CONFIRM'')],
       sg_seller =
         [(''onboarding_publish'', ''OWNER_CONFIRM''), (''accept_order'', ''OWNER_CONFIRM''), (''execute_service'', ''AUTO''), (''submit_delivery_proof'', ''AUTO''), (''cancel'', ''OWNER_CONFIRM'')],
       sg_high_risk = False\<rparr>),
       (''consulting_advisory'', \<lparr>sg_buyer =
         [(''discover'', ''AUTO''), (''select_offer'', ''OWNER_CONFIRM''), (''lock_important_fields'', ''OWNER_CONFIRM''), (''accept_order'', ''OWNER_CONFIRM''), (''execute_service'', ''AUTO''), (''submit_delivery_proof'', ''AUTO''), (''buyer_accept_settle'', ''OWNER_CONFIRM''), (''cancel'', ''OWNER_CONFIRM''), (''dispute_or_refund'', ''OWNER_CONFIRM'')],
       sg_seller =
         [(''onboarding_publish'', ''OWNER_CONFIRM''), (''accept_order'', ''OWNER_CONFIRM''), (''execute_service'', ''AUTO''), (''submit_delivery_proof'', ''AUTO''), (''cancel'', ''OWNER_CONFIRM'')],
       sg_high_risk = False\<rparr>),
       (''content_creation'', \<lparr>sg_buyer =
         [(''discover'', ''AUTO''), (''select_offer'', ''OWNER_CONFIRM''), (''lock_important_fields'', ''OWNER_CONFIRM''), (''accept_order'', ''OWNER_CONFIRM''), (''execute_service'', ''AUTO''), (''submit_delivery_proof'', ''AUTO''), (''buyer_accept_settle'', ''OWNER_CONFIRM''), (''cancel'', ''OWNER_CONFIRM''), (''dispute_or_refund'', ''OWNER_CONFIRM'')],
       sg_seller =
         [(''onboarding_publish'', ''OWNER_CONFIRM''), (''accept_order'', ''POLICY_AUTO''), (''execute_service'', ''AUTO''), (''submit_delivery_proof'', ''AUTO''), (''cancel'', ''OWNER_CONFIRM'')],
       sg_high_risk = False\<rparr>),
       (''manufacturing'', \<lparr>sg_buyer =
         [(''discover'', ''AUTO''), (''select_offer'', ''OWNER_CONFIRM''), (''lock_important_fields'', ''OWNER_CONFIRM''), (''accept_order'', ''OWNER_CONFIRM''), (''execute_service'', ''AUTO''), (''submit_delivery_proof'', ''AUTO''), (''buyer_accept_settle'', ''OWNER_CONFIRM''), (''cancel'', ''OWNER_CONFIRM''), (''dispute_or_refund'', ''OWNER_CONFIRM''), (''price_change_or_surge'', ''OWNER_CONFIRM'')],
       sg_seller =
         [(''onboarding_publish'', ''OWNER_CONFIRM''), (''accept_order'', ''OWNER_CONFIRM''), (''execute_service'', ''AUTO''), (''submit_delivery_proof'', ''AUTO''), (''cancel'', ''OWNER_CONFIRM''), (''dispute_or_refund'', ''OWNER_CONFIRM'')],
       sg_high_risk = False\<rparr>),
       (''real_estate_services'', \<lparr>sg_buyer =
         [(''discover'', ''AUTO''), (''select_offer'', ''OWNER_CONFIRM''), (''lock_important_fields'', ''OWNER_CONFIRM''), (''accept_order'', ''OWNER_CONFIRM''), (''execute_service'', ''AUTO''), (''submit_delivery_proof'', ''AUTO''), (''buyer_accept_settle'', ''OWNER_CONFIRM''), (''cancel'', ''OWNER_CONFIRM''), (''dispute_or_refund'', ''OWNER_CONFIRM''), (''price_change_or_surge'', ''OWNER_CONFIRM'')],
       sg_seller =
         [(''onboarding_publish'', ''OWNER_CONFIRM''), (''accept_order'', ''OWNER_CONFIRM''), (''execute_service'', ''AUTO''), (''submit_delivery_proof'', ''AUTO''), (''cancel'', ''OWNER_CONFIRM'')],
       sg_high_risk = False\<rparr>),
       (''financial_services'', \<lparr>sg_buyer =
         [(''discover'', ''AUTO''), (''select_offer'', ''OWNER_CONFIRM''), (''lock_important_fields'', ''OWNER_CONFIRM''), (''accept_order'', ''OWNER_CONFIRM''), (''execute_service'', ''AUTO''), (''submit_delivery_proof'', ''AUTO''), (''buyer_accept_settle'', ''OWNER_CONFIRM''), (''cancel'', ''OWNER_CONFIRM''), (''dispute_or_refund'', ''OWNER_CONFIRM''), (''price_change_or_surge'', ''OWNER_CONFIRM'')],
       sg_seller =
         [(''onboarding_publish'', ''OWNER_CONFIRM''), (''accept_order'', ''OWNER_CONFIRM''), (''execute_service'', ''AUTO''), (''submit_delivery_proof'', ''AUTO''), (''cancel'', ''OWNER_CONFIRM''), (''dispute_or_refund'', ''OWNER_CONFIRM''), (''price_change_or_surge'', ''OWNER_CONFIRM'')],
       sg_high_risk = True\<rparr>),
       (''marketing_advertising'', \<lparr>sg_buyer =
         [(''discover'', ''AUTO''), (''select_offer'', ''OWNER_CONFIRM''), (''lock_important_fields'', ''OWNER_CONFIRM''), (''accept_order'', ''OWNER_CONFIRM''), (''execute_service'', ''AUTO''), (''submit_delivery_proof'', ''AUTO''), (''buyer_accept_settle'', ''OWNER_CONFIRM''), (''cancel'', ''OWNER_CONFIRM''), (''price_change_or_surge'', ''OWNER_CONFIRM''), (''dispute_or_refund'', ''OWNER_CONFIRM'')],
       sg_seller =
         [(''onboarding_publish'', ''OWNER_CONFIRM''), (''accept_order'', ''POLICY_AUTO''), (''execute_service'', ''AUTO''), (''submit_delivery_proof'', ''AUTO''), (''cancel'', ''OWNER_CONFIRM''), (''price_change_or_surge'', ''OWNER_CONFIRM'')],
       sg_high_risk = False\<rparr>),
       (''education_training'', \<lparr>sg_buyer =
         [(''discover'', ''AUTO''), (''select_offer'', ''OWNER_CONFIRM''), (''lock_important_fields'', ''OWNER_CONFIRM''), (''accept_order'', ''OWNER_CONFIRM''), (''execute_service'', ''AUTO''), (''submit_delivery_proof'', ''AUTO''), (''buyer_accept_settle'', ''OWNER_CONFIRM''), (''cancel'', ''OWNER_CONFIRM''), (''dispute_or_refund'', ''OWNER_CONFIRM'')],
       sg_seller =
         [(''onboarding_publish'', ''OWNER_CONFIRM''), (''accept_order'', ''POLICY_AUTO''), (''execute_service'', ''AUTO''), (''submit_delivery_proof'', ''AUTO''), (''cancel'', ''OWNER_CONFIRM'')],
       sg_high_risk = False\<rparr>),
       (''healthcare_medical'', \<lparr>sg_buyer =
         [(''discover'', ''AUTO''), (''select_offer'', ''OWNER_CONFIRM''), (''lock_important_fields'', ''OWNER_CONFIRM''), (''accept_order'', ''OWNER_CONFIRM''), (''execute_service'', ''AUTO''), (''submit_delivery_proof'', ''AUTO''), (''buyer_accept_settle'', ''OWNER_CONFIRM''), (''cancel'', ''OWNER_CONFIRM''), (''dispute_or_refund'', ''OWNER_CONFIRM''), (''price_change_or_surge'', ''OWNER_CONFIRM'')],
       sg_seller =
         [(''onboarding_publish'', ''OWNER_CONFIRM''), (''accept_order'', ''OWNER_CONFIRM''), (''execute_service'', ''AUTO''), (''submit_delivery_proof'', ''AUTO''), (''cancel'', ''OWNER_CONFIRM''), (''dispute_or_refund'', ''OWNER_CONFIRM'')],
       sg_high_risk = True\<rparr>)],
     ca_buyer =
       [(''discover'', ''AUTO''), (''select_offer'', ''OWNER_CONFIRM''), (''lock_important_fields'', ''OWNER_CONFIRM''), (''accept_order'', ''OWNER_CONFIRM''), (''execute_service'', ''AUTO''), (''submit_delivery_proof'', ''AUTO''), (''buyer_accept_settle'', ''OWNER_CONFIRM''), (''cancel'', ''OWNER_CONFIRM''), (''dispute_or_refund'', ''OWNER_CONFIRM''), (''price_change_or_surge'', ''OWNER_CONFIRM'')],
     ca_seller =
       [(''onboarding_publish'', ''OWNER_CONFIRM''), (''discover'', ''AUTO''), (''select_offer'', ''AUTO''), (''lock_important_fields'', ''OWNER_CONFIRM''), (''accept_order'', ''POLICY_AUTO''), (''execute_service'', ''AUTO''), (''submit_delivery_proof'', ''AUTO''), (''buyer_accept_settle'', ''AUTO''), (''cancel'', ''OWNER_CONFIRM''), (''dispute_or_refund'', ''OWNER_CONFIRM''), (''price_change_or_surge'', ''OWNER_CONFIRM'')],
     ca_steps = [''onboarding_publish'', ''discover'', ''select_offer'', ''lock_important_fields'', ''accept_order'', ''execute_service'', ''submit_delivery_proof'', ''buyer_accept_settle'', ''cancel'', ''dispute_or_refund'', ''price_change_or_surge'']\<rparr>"

definition MULTI_STEP_BUYER_SCENES :: "string list" where
  "MULTI_STEP_BUYER_SCENES =
     [''b2b_procurement'', ''manufacturing'', ''financial_services'', ''healthcare_medical'', ''software_development'', ''design_creative'',
      ''consulting_advisory'', ''real_estate_services'', ''hotel_booking'', ''flight_booking'']"

definition TASK_TYPE_TO_SCENE :: "(string \<times> string) list" where
  "TASK_TYPE_TO_SCENE =
     [(''commerce.food'', ''food_delivery''), (''commerce.ride'', ''ride_hailing''), (''commerce.hotel'', ''hotel_booking''),
      (''commerce.flight'', ''flight_booking''), (''commerce.procurement'', ''b2b_procurement''), (''b2b.procurement'', ''b2b_procurement''),
      (''api.translate'', ''api_tool_call''), (''api.caption'', ''api_tool_call''), (''api.labeling'', ''api_tool_call''),
      (''api.generic'', ''api_tool_call''), (''api.data'', ''data_api_billing''), (''data.api'', ''data_api_billing''),
      (''logistics'', ''logistics_delivery''), (''software'', ''software_development''), (''design'', ''design_creative''),
      (''consulting'', ''consulting_advisory''), (''content'', ''content_creation''), (''manufacturing'', ''manufacturing''),
      (''real_estate'', ''real_estate_services''), (''finance'', ''financial_services''), (''financial'', ''financial_services''),
      (''marketing'', ''marketing_advertising''), (''education'', ''education_training''), (''healthcare'', ''healthcare_medical''),
      (''medical'', ''healthcare_medical'')]"

text \<open>The Chinese words that are searched for, as their UTF-8 bytes.\<close>

definition utf8 :: "nat list \<Rightarrow> string" where
  "utf8 bs = map char_of bs"

definition SCENE_WORDS :: "(string list \<times> string) list" where
  "SCENE_WORDS =
     [([''food''], ''food_delivery''),
      ([''ride''], ''ride_hailing''),
      ([''hotel''], ''hotel_booking''),
      ([''flight''], ''flight_booking''),
      ([''procure'', ''b2b''], ''b2b_procurement''),
      ([''financ'', utf8 [229, 175, 185, 232, 180, 166]], ''financial_services''),
      ([''health'', ''medical'', utf8 [233, 153, 170, 232, 175, 138]], ''healthcare_medical''),
      ([''manufactur'', utf8 [228, 187, 163, 229, 183, 165]], ''manufacturing''),
      ([''real_estate'', utf8 [230, 136, 191, 228, 186, 167]], ''real_estate_services''),
      ([''consult''], ''consulting_advisory''),
      ([''design'', utf8 [229, 136, 155, 230, 132, 143]], ''design_creative''),
      ([''market'', utf8 [229, 185, 191, 229, 145, 138]], ''marketing_advertising''),
      ([''educat'', utf8 [229, 159, 185, 232, 174, 173]], ''education_training''),
      ([''content'', utf8 [229, 134, 133, 229, 174, 185]], ''content_creation'')]"

text \<open>The branches of the code are tried in their order; a test for a beginning is part of the test for the word it begins with.\<close>

definition API_WORDS :: "string \<Rightarrow> bool" where
  "API_WORDS tt \<longleftrightarrow> take 4 tt = ''api.'' \<or> contains_str tt ''mcp'' \<or> contains_str tt ''tool''"

definition task_type_to_scene_id :: "policy_catalog \<Rightarrow> string option \<Rightarrow> string" where
  "task_type_to_scene_id cat task_type =
     (let tt = lower (strip (case task_type of None \<Rightarrow> [] | Some t \<Rightarrow> t)) in
      if tt = [] then ''api_tool_call''
      else case map_of TASK_TYPE_TO_SCENE tt of
        Some s \<Rightarrow> s
      | None \<Rightarrow>
          (case find (\<lambda>(ws, s). list_ex (contains_str tt) ws) SCENE_WORDS of
             Some (ws, s) \<Rightarrow> s
           | None \<Rightarrow>
               if API_WORDS tt then ''api_tool_call''
               else if contains_str tt ''data'' then ''data_api_billing''
               else if contains_str tt ''logistic'' \<or> contains_str tt ''delivery'' then ''logistics_delivery''
               else if contains_str tt ''software'' \<or> contains_str tt ''dev'' then ''software_development''
               else if map_of (ca_scenes cat) tt \<noteq> None then tt else ''api_tool_call''))"

definition is_high_risk_scene :: "policy_catalog \<Rightarrow> string \<Rightarrow> bool" where
  "is_high_risk_scene cat sid \<longleftrightarrow> sid \<noteq> [] \<and> (case map_of (ca_scenes cat) sid of None \<Rightarrow> False | Some sc \<Rightarrow> sg_high_risk sc)"

datatype session_status = PENDING | CONFIRMED | REJECTED | USED | EXPIRED | CANCELLED

text \<open>What a \<open>ConfirmationPolicyError\<close> says.\<close>

datatype confirmation_error =
    Unknown_Scene string
  | Bad_Role
  | Unknown_Session string
  | Session_Expired
  | Session_Already session_status
  | Actor_Required
  | Not_The_Owner
  | No_Timeout_Cancel session_status
  | Session_Required string string
  | Not_Confirmed session_status
  | Other_Step
  | Other_Owner
  | Other_Interaction
  | Amount_Exceeds

definition require_known_scene :: "policy_catalog \<Rightarrow> string \<Rightarrow> confirmation_error + scene_gates" where
  "require_known_scene cat sid = (case map_of (ca_scenes cat) sid of None \<Rightarrow> Inl (Unknown_Scene sid) | Some sc \<Rightarrow> Inr sc)"

definition get_scene_policy :: "policy_catalog \<Rightarrow> string \<Rightarrow> scene_gates" where
  "get_scene_policy cat sid =
     (case map_of (ca_scenes cat) sid of
        None \<Rightarrow> \<lparr>sg_buyer = ca_buyer cat, sg_seller = ca_seller cat, sg_high_risk = False\<rparr>
      | Some sc \<Rightarrow> sc)"

definition buyer_fulfill_confirm_steps :: "policy_catalog \<Rightarrow> string \<Rightarrow> string list" where
  "buyer_fulfill_confirm_steps cat sid =
     (if sid \<in> set MULTI_STEP_BUYER_SCENES \<or> is_high_risk_scene cat sid then [''select_offer'', ''accept_order''] else [''accept_order''])"

section \<open>Gates\<close>

record confirm_gate =
  ga_mode :: string
  ga_effective :: string
  ga_needs :: bool

definition value_or :: "(string \<times> string) list \<Rightarrow> string \<Rightarrow> string \<Rightarrow> string" where
  "value_or m k dflt = (case map_of m k of None \<Rightarrow> dflt | Some v \<Rightarrow> if v = [] then dflt else v)"

definition gate_mode :: "policy_catalog \<Rightarrow> string \<Rightarrow> string \<Rightarrow> string \<Rightarrow> string" where
  "gate_mode cat sid role step =
     (let sc = get_scene_policy cat sid in
      if role = ''buyer'' then value_or (sg_buyer sc) step (value_or (ca_buyer cat) step ''OWNER_CONFIRM'')
      else value_or (sg_seller sc) step (value_or (ca_seller cat) step ''OWNER_CONFIRM''))"

definition resolve_gate :: "policy_catalog \<Rightarrow> string \<Rightarrow> string \<Rightarrow> string \<Rightarrow> bool \<Rightarrow> confirmation_error + confirm_gate" where
  "resolve_gate cat sid role0 step auto_allowed =
     (let role = strip (lower role0) in
      if role \<notin> {''buyer'', ''seller''} then Inl Bad_Role
      else
        let mode = gate_mode cat sid role step
        in Inr (if mode = ''AUTO'' then \<lparr>ga_mode = mode, ga_effective = mode, ga_needs = False\<rparr>
                else if mode = ''OWNER_CONFIRM'' then \<lparr>ga_mode = mode, ga_effective = mode, ga_needs = True\<rparr>
                else if mode = ''POLICY_AUTO'' \<and> auto_allowed then \<lparr>ga_mode = mode, ga_effective = ''AUTO'', ga_needs = False\<rparr>
                else \<lparr>ga_mode = mode, ga_effective = ''OWNER_CONFIRM'', ga_needs = True\<rparr>))"

definition seller_must_confirm_accept :: "policy_catalog \<Rightarrow> string \<Rightarrow> bool" where
  "seller_must_confirm_accept cat sid =
     (case resolve_gate cat sid ''seller'' ''accept_order'' False of Inl _ \<Rightarrow> False | Inr g \<Rightarrow> ga_mode g = ''OWNER_CONFIRM'')"

text \<open>The steps the owner has to confirm and those an agent may take by itself.\<close>

fun plan_steps :: "policy_catalog \<Rightarrow> string \<Rightarrow> string \<Rightarrow> bool \<Rightarrow> string list \<Rightarrow> confirmation_error + (string \<times> confirm_gate) list \<times> (string \<times> confirm_gate) list" where
  "plan_steps cat sid role auto_allowed [] = Inr ([], [])"
| "plan_steps cat sid role auto_allowed (step # steps) =
     (case resolve_gate cat sid role step auto_allowed of
        Inl e \<Rightarrow> Inl e
      | Inr g \<Rightarrow>
          (case plan_steps cat sid role auto_allowed steps of
             Inl e \<Rightarrow> Inl e
           | Inr (must, auto) \<Rightarrow> Inr (if ga_needs g then ((step, g) # must, auto) else (must, (step, g) # auto))))"

definition plan_confirmations ::
    "policy_catalog \<Rightarrow> string \<Rightarrow> string \<Rightarrow> string list option \<Rightarrow> bool \<Rightarrow> confirmation_error + (string \<times> confirm_gate) list \<times> (string \<times> confirm_gate) list" where
  "plan_confirmations cat sid role steps auto_allowed =
     plan_steps cat sid role auto_allowed (case steps of None \<Rightarrow> ca_steps cat | Some [] \<Rightarrow> ca_steps cat | Some ss \<Rightarrow> ss)"

definition allow_demo_confirmation_bypass :: "string option \<Rightarrow> bool" where
  "allow_demo_confirmation_bypass app_env \<longleftrightarrow>
     lower (case app_env of None \<Rightarrow> [] | Some e \<Rightarrow> e) \<in> {''development'', ''dev'', ''local'', ''test''}"

section \<open>Sessions\<close>

text \<open>
  A Python float, which a JSON body can make infinite or not a number, and what \<open>float\<close> makes of the amount in a context:
  it is missing, refused with a \<open>TypeError\<close> or \<open>ValueError\<close>, or read. (An integer beyond the range of floats, on which the
  request fails before it changes anything, is left out.)
\<close>

datatype py_float = Fin rat | Pos_Inf | Neg_Inf | NaN

datatype context_amount = No_Amount | Unreadable | Readable py_float

text \<open>\<open>a > b + 1e-6\<close>\<close>

fun exceeds :: "py_float \<Rightarrow> py_float \<Rightarrow> bool" where
  "exceeds (Fin a) (Fin b) \<longleftrightarrow> b + 1 / 10 ^ 6 < a"
| "exceeds (Fin a) Neg_Inf \<longleftrightarrow> True"
| "exceeds Pos_Inf (Fin b) \<longleftrightarrow> True"
| "exceeds Pos_Inf Neg_Inf \<longleftrightarrow> True"
| "exceeds _ _ \<longleftrightarrow> False"

record confirmation_session =
  cf_id :: string
  cf_scene :: string
  cf_role :: string
  cf_step :: string
  cf_owner :: string
  cf_status :: session_status
  cf_created :: int
  cf_expires :: "int option"
  cf_decided :: "int option"
  cf_note :: "string option"
  cf_ref :: "string option"
  cf_max :: "py_float option"
  cf_cancel :: "string option"

record confirmation_store =
  cf_sessions :: "(string \<times> confirmation_session) list"
  cf_saved :: "(string \<times> confirmation_session) list"
  cf_drawn :: nat

record confirmation_env =
  oc_now :: int
  oc_catalog :: policy_catalog
  oc_token :: "nat \<Rightarrow> string"

definition SESSION_TTL_SECONDS :: int where
  "SESSION_TTL_SECONDS = 30 * 60"

definition new_confirmation_store :: confirmation_store where
  "new_confirmation_store = \<lparr>cf_sessions = [], cf_saved = [], cf_drawn = 0\<rparr>"

definition persist_sessions :: "confirmation_store \<Rightarrow> confirmation_store" where
  "persist_sessions st = st\<lparr>cf_saved := cf_sessions st\<rparr>"

text \<open>A new process reads the file.\<close>

definition load_sessions :: "confirmation_store \<Rightarrow> confirmation_store" where
  "load_sessions st = st\<lparr>cf_sessions := cf_saved st\<rparr>"

definition put_session :: "confirmation_session \<Rightarrow> confirmation_store \<Rightarrow> confirmation_store" where
  "put_session s st = st\<lparr>cf_sessions := put_row (cf_id s) s (cf_sessions st)\<rparr>"

definition session_deadline :: "confirmation_session \<Rightarrow> int" where
  "session_deadline s = (case cf_expires s of Some e \<Rightarrow> e | None \<Rightarrow> cf_created s + SESSION_TTL_SECONDS)"

definition expire_if_needed :: "int \<Rightarrow> confirmation_session \<Rightarrow> confirmation_session" where
  "expire_if_needed now s =
     (if cf_status s \<in> {PENDING, CONFIRMED} \<and> session_deadline s * 10 ^ 6 < now then s\<lparr>cf_status := EXPIRED\<rparr> else s)"

datatype created_session = Skipped confirm_gate | Asked confirmation_session confirm_gate int

definition create_confirmation_session ::
    "confirmation_env \<Rightarrow> string \<Rightarrow> string \<Rightarrow> string \<Rightarrow> string \<Rightarrow> context_amount \<Rightarrow> string option \<Rightarrow> bool \<Rightarrow> int option \<Rightarrow> confirmation_store \<Rightarrow>
     confirmation_store \<times> (confirmation_error + created_session)" where
  "create_confirmation_session env sid role step owner amount ref auto_allowed ttl0 st =
     (if map_of (ca_scenes (oc_catalog env)) sid = None then (st, Inl (Unknown_Scene sid))
      else case resolve_gate (oc_catalog env) sid role step auto_allowed of
        Inl e \<Rightarrow> (st, Inl e)
      | Inr g \<Rightarrow>
          if \<not> ga_needs g then (st, Inr (Skipped g))
          else
            let ttl = max 60 (min (case ttl0 of None \<Rightarrow> SESSION_TTL_SECONDS | Some t \<Rightarrow> t) (7 * 24 * 3600));
                s = \<lparr>cf_id = ''cfm_'' @ oc_token env (cf_drawn st), cf_scene = sid, cf_role = lower role, cf_step = step, cf_owner = owner,
                     cf_status = PENDING, cf_created = seconds (oc_now env), cf_expires = Some (seconds (oc_now env + ttl * 10 ^ 6)),
                     cf_decided = None, cf_note = None, cf_ref = ref,
                     cf_max = (case amount of Readable x \<Rightarrow> Some x | _ \<Rightarrow> None), cf_cancel = None\<rparr>
            in (persist_sessions (put_session s (st\<lparr>cf_drawn := cf_drawn st + 1\<rparr>)), Inr (Asked s g ttl)))"

definition get_confirmation_session ::
    "confirmation_env \<Rightarrow> string \<Rightarrow> confirmation_store \<Rightarrow> confirmation_store \<times> (confirmation_error + confirmation_session)" where
  "get_confirmation_session env cid st =
     (case map_of (cf_sessions st) cid of
        None \<Rightarrow> (st, Inl (Unknown_Session cid))
      | Some s \<Rightarrow>
          (let s' = expire_if_needed (oc_now env) s
           in if cf_status s' = EXPIRED then (persist_sessions (put_session s' st), Inr s') else (st, Inr s')))"

text \<open>The loop stops as soon as it has \<open>limit\<close> sessions, which it notices only after adding one.\<close>

fun pending_seller_accepts :: "int \<Rightarrow> int \<Rightarrow> int \<Rightarrow> (string \<times> confirmation_session) list \<Rightarrow> (string \<times> confirmation_session) list \<times> confirmation_session list" where
  "pending_seller_accepts now limit n [] = ([], [])"
| "pending_seller_accepts now limit n ((k, s) # rest) =
     (if cf_role s = ''seller'' \<and> cf_step s = ''accept_order'' \<and> cf_status s \<in> {PENDING, EXPIRED}
      then let s' = expire_if_needed now s in
           if limit \<le> n + 1 then ((k, s') # rest, [s'])
           else (case pending_seller_accepts now limit (n + 1) rest of (rest', out) \<Rightarrow> ((k, s') # rest', s' # out))
      else (case pending_seller_accepts now limit n rest of (rest', out) \<Rightarrow> ((k, s) # rest', out)))"

definition list_pending_seller_accept_sessions ::
    "confirmation_env \<Rightarrow> int \<Rightarrow> confirmation_store \<Rightarrow> confirmation_store \<times> confirmation_session list" where
  "list_pending_seller_accept_sessions env limit st =
     (case pending_seller_accepts (oc_now env) limit 0 (cf_sessions st) of
        (ss, out) \<Rightarrow> (persist_sessions (st\<lparr>cf_sessions := ss\<rparr>), out))"

definition or_text :: "string option \<Rightarrow> string \<Rightarrow> string option" where
  "or_text t dflt = (case t of None \<Rightarrow> Some dflt | Some x \<Rightarrow> if x = [] then Some dflt else Some x)"

definition or_now :: "confirmation_env \<Rightarrow> int option \<Rightarrow> int option" where
  "or_now env t = (case t of None \<Rightarrow> Some (seconds (oc_now env)) | Some x \<Rightarrow> Some x)"

definition mark_session_expired_cancelled ::
    "confirmation_env \<Rightarrow> string \<Rightarrow> string \<Rightarrow> confirmation_store \<Rightarrow> confirmation_store \<times> (confirmation_error + confirmation_session)" where
  "mark_session_expired_cancelled env cid reason st =
     (case map_of (cf_sessions st) cid of
        None \<Rightarrow> (st, Inl (Unknown_Session cid))
      | Some s0 \<Rightarrow>
          (let s = expire_if_needed (oc_now env) s0 in
           if cf_status s \<notin> {EXPIRED, CANCELLED, PENDING} then (st, Inl (No_Timeout_Cancel (cf_status s)))
           else let s' = s\<lparr>cf_status := CANCELLED, cf_cancel := Some reason, cf_note := or_text (cf_note s) reason, cf_decided := or_now env (cf_decided s)\<rparr>
                in (persist_sessions (put_session s' st), Inr s')))"

definition decide_confirmation_session ::
    "confirmation_env \<Rightarrow> string \<Rightarrow> bool \<Rightarrow> string option \<Rightarrow> string option \<Rightarrow> confirmation_store \<Rightarrow>
     confirmation_store \<times> (confirmation_error + confirmation_session)" where
  "decide_confirmation_session env cid confirm msg actor st =
     (if (case actor of None \<Rightarrow> True | Some a \<Rightarrow> strip a = []) then (st, Inl Actor_Required)
      else case map_of (cf_sessions st) cid of
        None \<Rightarrow> (st, Inl (Unknown_Session cid))
      | Some s0 \<Rightarrow>
          (let s = expire_if_needed (oc_now env) s0 in
           if cf_status s = EXPIRED then (persist_sessions (put_session s st), Inl Session_Expired)
           else if cf_status s \<noteq> PENDING then (st, Inl (Session_Already (cf_status s)))
           else if actor \<noteq> Some (cf_owner s) then (st, Inl Not_The_Owner)
           else let s' = s\<lparr>cf_status := (if confirm then CONFIRMED else REJECTED), cf_decided := Some (seconds (oc_now env)), cf_note := msg\<rparr>
                in (persist_sessions (put_session s' st), Inr s')))"

text \<open>\<open>nonempty_arg\<close>: an argument that is neither missing nor empty.\<close>

definition nonempty_arg :: "string option \<Rightarrow> bool" where
  "nonempty_arg x \<longleftrightarrow> x \<noteq> None \<and> x \<noteq> Some []"

datatype step_allowed = Auto_Allowed confirm_gate | Owner_Confirmed confirm_gate confirmation_session bool

definition session_mismatch ::
    "string \<Rightarrow> string \<Rightarrow> string \<Rightarrow> string option \<Rightarrow> string option \<Rightarrow> py_float option \<Rightarrow> confirmation_session \<Rightarrow> confirmation_error option" where
  "session_mismatch sid role step expected_owner expected_ref amount s =
     (if cf_scene s \<noteq> sid \<or> cf_step s \<noteq> step \<or> cf_role s \<noteq> lower role then Some Other_Step
      else if nonempty_arg expected_owner \<and> expected_owner \<noteq> Some (cf_owner s) then Some Other_Owner
      else if nonempty_arg expected_ref \<and> nonempty_arg (cf_ref s) \<and> cf_ref s \<noteq> expected_ref then Some Other_Interaction
      else case (amount, cf_max s) of (Some a, Some m) \<Rightarrow> if exceeds a m then Some Amount_Exceeds else None | _ \<Rightarrow> None)"

definition assert_step_allowed ::
    "confirmation_env \<Rightarrow> string \<Rightarrow> string \<Rightarrow> string \<Rightarrow> string option \<Rightarrow> bool \<Rightarrow> string option \<Rightarrow> py_float option \<Rightarrow> bool \<Rightarrow> string option \<Rightarrow>
     confirmation_store \<Rightarrow> confirmation_store \<times> (confirmation_error + step_allowed)" where
  "assert_step_allowed env sid role step cid auto_allowed expected_owner amount consume expected_ref st =
     (case resolve_gate (oc_catalog env) sid role step auto_allowed of
        Inl e \<Rightarrow> (st, Inl e)
      | Inr g \<Rightarrow>
          if \<not> ga_needs g then (st, Inr (Auto_Allowed g))
          else case cid of
            None \<Rightarrow> (st, Inl (Session_Required step sid))
          | Some c \<Rightarrow>
              if c = [] then (st, Inl (Session_Required step sid))
              else case map_of (cf_sessions st) c of
                None \<Rightarrow> (st, Inl (Unknown_Session c))
              | Some s0 \<Rightarrow>
                  (let s = expire_if_needed (oc_now env) s0 in
                   if cf_status s = EXPIRED then (persist_sessions (put_session s st), Inl Session_Expired)
                   else if cf_status s \<noteq> CONFIRMED then (st, Inl (Not_Confirmed (cf_status s)))
                   else case session_mismatch sid role step expected_owner expected_ref amount s of
                     Some e \<Rightarrow> (st, Inl e)
                   | None \<Rightarrow>
                       if consume
                       then let s' = s\<lparr>cf_status := USED, cf_decided := or_now env (cf_decided s)\<rparr>
                            in (persist_sessions (put_session s' st), Inr (Owner_Confirmed g s' True))
                       else (st, Inr (Owner_Confirmed g s False))))"

text \<open>The sessions the loop has looked at are marked as expired in memory, but not in the file.\<close>

definition covers :: "string \<Rightarrow> string \<Rightarrow> string \<Rightarrow> string \<Rightarrow> string option \<Rightarrow> confirmation_session \<Rightarrow> bool" where
  "covers sid role step owner ref s \<longleftrightarrow>
     cf_scene s = sid \<and> cf_role s = lower role \<and> cf_step s = step \<and> cf_owner s = owner \<and> cf_status s = USED \<and>
     \<not> (nonempty_arg ref \<and> nonempty_arg (cf_ref s) \<and> cf_ref s \<noteq> ref)"

fun find_used :: "int \<Rightarrow> (confirmation_session \<Rightarrow> bool) \<Rightarrow> (string \<times> confirmation_session) list \<Rightarrow> (string \<times> confirmation_session) list \<times> bool" where
  "find_used now P [] = ([], False)"
| "find_used now P ((k, s) # rest) =
     (let s' = expire_if_needed now s in
      if P s' then ((k, s') # rest, True)
      else (case find_used now P rest of (rest', b) \<Rightarrow> ((k, s') # rest', b)))"

definition step_already_satisfied ::
    "confirmation_env \<Rightarrow> string \<Rightarrow> string \<Rightarrow> string \<Rightarrow> string \<Rightarrow> string option \<Rightarrow> bool \<Rightarrow> confirmation_store \<Rightarrow>
     confirmation_store \<times> (confirmation_error + bool)" where
  "step_already_satisfied env sid role step owner ref auto_allowed st =
     (case resolve_gate (oc_catalog env) sid role step auto_allowed of
        Inl e \<Rightarrow> (st, Inl e)
      | Inr g \<Rightarrow>
          if \<not> ga_needs g then (st, Inr True)
          else (case find_used (oc_now env) (covers sid role step owner ref) (cf_sessions st) of
                  (ss, b) \<Rightarrow> (st\<lparr>cf_sessions := ss\<rparr>, Inr b)))"

fun next_required_confirm_step ::
    "confirmation_env \<Rightarrow> string \<Rightarrow> string \<Rightarrow> string list \<Rightarrow> string \<Rightarrow> string option \<Rightarrow> bool \<Rightarrow> confirmation_store \<Rightarrow>
     confirmation_store \<times> (confirmation_error + string option)" where
  "next_required_confirm_step env sid role [] owner ref auto_allowed st = (st, Inr None)"
| "next_required_confirm_step env sid role (step # steps) owner ref auto_allowed st =
     (case step_already_satisfied env sid role step owner ref auto_allowed st of
        (st', Inl e) \<Rightarrow> (st', Inl e)
      | (st', Inr False) \<Rightarrow> (st', Inr (Some step))
      | (st', Inr True) \<Rightarrow> next_required_confirm_step env sid role steps owner ref auto_allowed st')"

section \<open>The gate of a settlement\<close>

text \<open>
  The check of the acceptance of a settlement by its buyer (\<^verbatim>\<open>buyer_accept_settlement\<close> in \<^verbatim>\<open>api/routes/settlement.py\<close>). Without a
  confirmation a new question is put to the owner and the request fails with status 403; the question for a scene that the catalog
  does not have raises an error that nobody expects. The result is what the check of the confirmation returned, or \<open>None\<close> where none is asked for.
\<close>

definition assert_settle_confirmation ::
    "confirmation_env \<Rightarrow> string option \<Rightarrow> string \<Rightarrow> string \<Rightarrow> string \<Rightarrow> rat \<Rightarrow> string option \<Rightarrow> confirmation_store \<Rightarrow> confirmation_store \<times> (http_error + step_allowed option)" where
  "assert_settle_confirmation env app_env task_id hint client escrow cid st =
     (let scene = strip hint; cat = oc_catalog env in
      if scene = [] then (st, Inr None)
      else case resolve_gate cat scene ''buyer'' ''buyer_accept_settle'' False of
        Inl e \<Rightarrow> (st, Inl (UnhandledValueError ''role must be buyer or seller''))
      | Inr g \<Rightarrow>
          if (ga_mode g = ''OWNER_CONFIRM'' \<or> is_high_risk_scene cat scene) \<and>
             \<not> (allow_demo_confirmation_bypass app_env \<and> \<not> is_high_risk_scene cat scene)
          then (case assert_step_allowed env scene ''buyer'' ''buyer_accept_settle'' cid False (Some client) (Some (Fin escrow)) True None st of
                  (st', Inr allowed) \<Rightarrow> (st', Inr (Some allowed))
                | (st', Inl e) \<Rightarrow>
                    (case create_confirmation_session env scene ''buyer'' ''buyer_accept_settle'' client (Readable (Fin escrow)) (Some (''settle:'' @ task_id)) False None st' of
                       (st'', Inl _) \<Rightarrow> (st'', Inl (UnhandledValueError ''unknown confirmation scene_id''))
                     | (st'', Inr _) \<Rightarrow> (st'', Inl (HTTPException 403 ''buyer_accept_settle_confirmation_required''))))
          else (st, Inr None))"

section \<open>Runs\<close>

datatype confirmation_call =
    Ask string string string string context_amount "string option" bool "int option"
  | Look string
  | List_Pending int
  | Cancel_Timeout string string
  | Decide string bool "string option" "string option"
  | Assert_Step string string string "string option" bool "string option" "py_float option" bool "string option"
  | Next_Step string string "string list" string "string option" bool
  | Settle "string option" string string string rat "string option"
  | Restart_Sessions

datatype confirmation_answer = Asked_Owner "confirmation_error + created_session" | Decided "confirmation_error + confirmation_session"
  | Allowed "confirmation_error + step_allowed" | Settled_Gate "http_error + step_allowed option" | Other_Answer

fun confirmation_do :: "confirmation_env \<Rightarrow> confirmation_call \<Rightarrow> confirmation_store \<Rightarrow> confirmation_store \<times> confirmation_answer" where
  "confirmation_do env (Ask sid role step owner amount ref auto_allowed ttl) st =
     map_prod id Asked_Owner (create_confirmation_session env sid role step owner amount ref auto_allowed ttl st)"
| "confirmation_do env (Look cid) st = map_prod id (\<lambda>_. Other_Answer) (get_confirmation_session env cid st)"
| "confirmation_do env (List_Pending limit) st = map_prod id (\<lambda>_. Other_Answer) (list_pending_seller_accept_sessions env limit st)"
| "confirmation_do env (Cancel_Timeout cid reason) st = map_prod id (\<lambda>_. Other_Answer) (mark_session_expired_cancelled env cid reason st)"
| "confirmation_do env (Decide cid confirm msg actor) st = map_prod id Decided (decide_confirmation_session env cid confirm msg actor st)"
| "confirmation_do env (Assert_Step sid role step cid auto_allowed owner amount consume ref) st =
     map_prod id Allowed (assert_step_allowed env sid role step cid auto_allowed owner amount consume ref st)"
| "confirmation_do env (Next_Step sid role steps owner ref auto_allowed) st =
     map_prod id (\<lambda>_. Other_Answer) (next_required_confirm_step env sid role steps owner ref auto_allowed st)"
| "confirmation_do env (Settle app_env tid hint client escrow cid) st =
     map_prod id Settled_Gate (assert_settle_confirmation env app_env tid hint client escrow cid st)"
| "confirmation_do env Restart_Sessions st = (load_sessions st, Other_Answer)"

text \<open>A run and what was answered. The catalog is the same throughout, the tokens come from one stream; the clock may move in either direction.\<close>

inductive confirmation_run :: "policy_catalog \<Rightarrow> (nat \<Rightarrow> string) \<Rightarrow> (confirmation_call \<times> confirmation_answer) list \<Rightarrow> confirmation_store \<Rightarrow> bool" for cat token where
  start: "confirmation_run cat token [] new_confirmation_store"
| call: "confirmation_run cat token tr st \<Longrightarrow> oc_catalog env = cat \<Longrightarrow> oc_token env = token \<Longrightarrow> confirmation_do env c st = (st', a) \<Longrightarrow>
    confirmation_run cat token (tr @ [(c, a)]) st'"

end
