(* ===== verification/Confirmation_System.thy ===== *)
theory Confirmation_System
  imports Owner_Confirmation
begin

text \<open>
  What the runs of confirmation sessions keep: the file and the memory hold the same sessions up to marks of expiry, a
  confirmed or used session was confirmed by its owner as it stands, and every use of a session is on its record.
\<close>

section \<open>The record of a run\<close>

type_synonym confirmation_trace = "(confirmation_call \<times> confirmation_answer) list"

definition same_question :: "confirmation_session \<Rightarrow> confirmation_session \<Rightarrow> bool" where
  "same_question s t \<longleftrightarrow> cf_id s = cf_id t \<and> cf_scene s = cf_scene t \<and> cf_role s = cf_role t \<and> cf_step s = cf_step t \<and> cf_owner s = cf_owner t \<and>
     cf_ref s = cf_ref t \<and> cf_max s = cf_max t"

definition owner_confirmed :: "confirmation_trace \<Rightarrow> confirmation_session \<Rightarrow> bool" where
  "owner_confirmed tr s \<longleftrightarrow> (\<exists>msg t. (Decide (cf_id s) True msg (Some (cf_owner s)), Decided (Inr t)) \<in> set tr \<and> same_question s t)"

fun used_answer :: "confirmation_answer \<Rightarrow> string option" where
  "used_answer (Allowed (Inr (Owner_Confirmed g s True))) = Some (cf_id s)"
| "used_answer (Settled_Gate (Inr (Some (Owner_Confirmed g s True)))) = Some (cf_id s)"
| "used_answer _ = None"

definition uses :: "confirmation_trace \<Rightarrow> string \<Rightarrow> nat" where
  "uses tr k = length (filter (\<lambda>(c, a). used_answer a = Some k) tr)"

lemma uses_snoc [simp]: "uses (tr @ [(c, a)]) k = uses tr k + (if used_answer a = Some k then 1 else 0)"
  by (simp add: uses_def)

lemma owner_confirmed_mono: "owner_confirmed tr s \<Longrightarrow> owner_confirmed (tr @ xs) s"
  by (auto simp: owner_confirmed_def)

lemma same_question_refl [simp]: "same_question s s"
  by (simp add: same_question_def)

lemma owner_confirmed_same: "owner_confirmed tr s \<Longrightarrow> same_question s s' \<Longrightarrow> owner_confirmed tr s'"
  by (auto simp: owner_confirmed_def same_question_def)

section \<open>Rows\<close>

definition session_ok :: "(nat \<Rightarrow> string) \<Rightarrow> nat \<Rightarrow> confirmation_trace \<Rightarrow> string \<Rightarrow> confirmation_session \<Rightarrow> bool" where
  "session_ok token n tr k s \<longleftrightarrow> cf_id s = k \<and> (\<exists>j < n. k = ''cfm_'' @ token j) \<and>
     (cf_status s \<in> {CONFIRMED, USED} \<longrightarrow> owner_confirmed tr s) \<and> uses tr k = (if cf_status s = USED then 1 else 0)"

definition marked :: "confirmation_session \<Rightarrow> confirmation_session \<Rightarrow> bool" where
  "marked s s' \<longleftrightarrow> s' = s \<or> cf_status s \<in> {PENDING, CONFIRMED} \<and> s' = s\<lparr>cf_status := EXPIRED\<rparr>"

lemma marked_refl [simp]: "marked s s"
  by (simp add: marked_def)

lemma marked_trans: "marked s t \<Longrightarrow> marked t u \<Longrightarrow> marked s u"
  by (auto simp: marked_def)

lemma marked_expire [simp]: "marked s (expire_if_needed now s)"
  by (simp add: marked_def expire_if_needed_def)

lemma marked_question: "marked s s' \<Longrightarrow> same_question s s'"
  by (auto simp: marked_def same_question_def)

lemma expire_question [simp]: "cf_id (expire_if_needed now s) = cf_id s" "same_question s (expire_if_needed now s)"
  by (simp_all add: expire_if_needed_def same_question_def)

lemma expire_kept: "cf_status (expire_if_needed now s) \<noteq> EXPIRED \<Longrightarrow> expire_if_needed now s = s"
  by (auto simp: expire_if_needed_def)

lemma session_ok_marked: "session_ok token n tr k s \<Longrightarrow> marked s s' \<Longrightarrow> session_ok token n tr k s'"
  by (auto simp: session_ok_def marked_def dest: owner_confirmed_same)

text \<open>The file and the memory.\<close>

abbreviation row_marked :: "string \<times> confirmation_session \<Rightarrow> string \<times> confirmation_session \<Rightarrow> bool" where
  "row_marked \<equiv> \<lambda>(k, s) (k', s'). k' = k \<and> marked s s'"

definition store_ok :: "(nat \<Rightarrow> string) \<Rightarrow> confirmation_trace \<Rightarrow> confirmation_store \<Rightarrow> bool" where
  "store_ok token tr st \<longleftrightarrow> distinct (map fst (cf_saved st)) \<and> list_all2 row_marked (cf_saved st) (cf_sessions st) \<and>
     (\<forall>(k, s) \<in> set (cf_saved st). session_ok token (cf_drawn st) tr k s) \<and> (\<forall>k. k \<notin> fst ` set (cf_saved st) \<longrightarrow> uses tr k = 0)"

lemma row_marked_keys: "list_all2 row_marked xs ys \<Longrightarrow> map fst ys = map fst xs"
  by (induction rule: list_all2_induct) auto

lemma row_marked_refl: "list_all2 row_marked xs xs"
  by (simp add: list_all2_same split_def)

lemma row_marked_trans: "list_all2 row_marked xs ys \<Longrightarrow> list_all2 row_marked ys zs \<Longrightarrow> list_all2 row_marked xs zs"
  by (erule (1) list_all2_trans [rotated]) (auto intro: marked_trans)

lemma row_marked_row: "list_all2 row_marked xs ys \<Longrightarrow> (k, s') \<in> set ys \<Longrightarrow> \<exists>s. (k, s) \<in> set xs \<and> marked s s'"
  by (induction rule: list_all2_induct) auto

lemma store_ok_rows:
  assumes "store_ok token tr st"
  shows "distinct (map fst (cf_sessions st))" and "\<And>k s. (k, s) \<in> set (cf_sessions st) \<Longrightarrow> session_ok token (cf_drawn st) tr k s"
    and "fst ` set (cf_sessions st) = fst ` set (cf_saved st)"
proof -
  have keys: "map fst (cf_sessions st) = map fst (cf_saved st)" using assms row_marked_keys by (auto simp: store_ok_def)
  then show "distinct (map fst (cf_sessions st))" using assms by (simp add: store_ok_def)
  from arg_cong [OF keys, of set] show "fst ` set (cf_sessions st) = fst ` set (cf_saved st)" by simp
  show "session_ok token (cf_drawn st) tr k s" if s: "(k, s) \<in> set (cf_sessions st)" for k s
  proof -
    obtain s0 where "(k, s0) \<in> set (cf_saved st)" "marked s0 s" using row_marked_row [OF _ s, of "cf_saved st"] assms by (auto simp: store_ok_def)
    with assms show ?thesis by (auto simp: store_ok_def intro: session_ok_marked)
  qed
qed

lemma session_ok_next:
  assumes "session_ok token n tr k s" and "used_answer a \<noteq> Some k" and "n \<le> m"
  shows "session_ok token m (tr @ [(c, a)]) k s"
  using assms by (auto simp: session_ok_def intro: owner_confirmed_mono less_le_trans)

text \<open>An operation that only marks sessions.\<close>

lemma store_ok_mark:
  assumes "store_ok token tr st" and "list_all2 row_marked (cf_sessions st) (cf_sessions st')" and "cf_drawn st' = cf_drawn st"
    and "cf_saved st' \<in> {cf_saved st, cf_sessions st'}" and "used_answer a = None"
  shows "store_ok token (tr @ [(c, a)]) st'"
proof -
  have rows: "list_all2 row_marked (cf_saved st) (cf_sessions st')"
    using assms(1,2) row_marked_trans by (auto simp: store_ok_def)
  have keys: "map fst (cf_sessions st') = map fst (cf_saved st)" by (rule row_marked_keys [OF rows])
  have saved: "session_ok token (cf_drawn st') (tr @ [(c, a)]) k s" if "(k, s) \<in> set (cf_saved st)" for k s
    using that assms(1,3,5) by (auto simp: store_ok_def intro: session_ok_next)
  have here: "session_ok token (cf_drawn st') (tr @ [(c, a)]) k s" if "(k, s) \<in> set (cf_sessions st')" for k s
    using row_marked_row [OF rows that] saved session_ok_marked by blast
  have none: "\<forall>k. k \<notin> fst ` set (cf_saved st) \<longrightarrow> uses (tr @ [(c, a)]) k = 0" using assms(1,5) by (simp add: store_ok_def)
  show ?thesis
    using assms(4)
  proof (elim insertE emptyE)
    assume "cf_saved st' = cf_saved st"
    with assms(1) rows saved none show ?thesis by (auto simp: store_ok_def)
  next
    assume s: "cf_saved st' = cf_sessions st'"
    have "fst ` set (cf_saved st') = fst ` set (cf_saved st)" using s arg_cong [OF keys, of set] by simp
    moreover have "distinct (map fst (cf_saved st'))" using s keys assms(1) by (simp add: store_ok_def)
    ultimately show ?thesis using s here none row_marked_refl by (auto simp: store_ok_def)
  qed
qed

text \<open>An operation that stores one session, new or changed, and writes the file.\<close>

lemma rows_of_put:
  assumes "distinct (map fst xs)" and "(k', r') \<in> set (put_row k r xs)"
  shows "k' = k \<and> r' = r \<or> k' \<noteq> k \<and> (k', r') \<in> set xs"
proof -
  have "map_of (put_row k r xs) k' = Some r'" using assms keys_put_row [OF assms(1)] by simp
  then show ?thesis by (auto simp: map_of_put_row split: if_splits dest: map_of_SomeD)
qed

lemma store_ok_put:
  assumes "store_ok token tr st" and "session_ok token (cf_drawn st') (tr @ [(c, a)]) (cf_id s) s" and "cf_drawn st \<le> cf_drawn st'"
    and "used_answer a \<in> {None, Some (cf_id s)}" and "cf_sessions st' = put_row (cf_id s) s (cf_sessions st)" and "cf_saved st' = cf_sessions st'"
  shows "store_ok token (tr @ [(c, a)]) st'"
proof -
  note rows = store_ok_rows [OF assms(1)]
  have "session_ok token (cf_drawn st') (tr @ [(c, a)]) k x" if "(k, x) \<in> set (cf_sessions st')" for k x
    using rows_of_put [OF rows(1) that [unfolded assms(5)]] assms(2,3,4) rows(2) by (auto intro!: session_ok_next)
  moreover have "uses (tr @ [(c, a)]) k = 0" if "k \<notin> fst ` set (cf_sessions st')" for k
    using that assms(1,4) rows(3) by (auto simp: assms(5) keys_of_put store_ok_def)
  moreover have "distinct (map fst (cf_sessions st'))" using keys_put_row [OF rows(1)] by (simp add: assms(5))
  ultimately show ?thesis using assms(6) row_marked_refl by (auto simp: store_ok_def)
qed

lemma put_session_simps [simp]:
  "cf_sessions (put_session s st) = put_row (cf_id s) s (cf_sessions st)" "cf_saved (put_session s st) = cf_saved st" "cf_drawn (put_session s st) = cf_drawn st"
  "cf_sessions (persist_sessions st) = cf_sessions st" "cf_saved (persist_sessions st) = cf_sessions st" "cf_drawn (persist_sessions st) = cf_drawn st"
  by (simp_all add: put_session_def persist_sessions_def)

lemma row_marked_put:
  assumes "map_of xs k = Some s" and "marked s s'" and "distinct (map fst xs)"
  shows "list_all2 row_marked xs (put_row k s' xs)"
proof -
  have "v = s" if "(k, v) \<in> set xs" for v using assms(1,3) that by simp
  then have "list_all2 row_marked xs (map (\<lambda>(k', v). if k' = k then (k', s') else (k', v)) xs)"
    using assms(2) by (auto simp: list.rel_map list_all2_same split: if_splits)
  with assms(1) show ?thesis by (simp add: put_row_def)
qed

section \<open>Operations\<close>

lemma lookup_ok:
  assumes "store_ok token tr st" and "map_of (cf_sessions st) k = Some s"
  shows "session_ok token (cf_drawn st) tr k s" and "cf_id s = k"
  using store_ok_rows(2) [OF assms(1) map_of_SomeD [OF assms(2)]] by (auto simp: session_ok_def)

text \<open>A session that turns out to be expired is marked and stored.\<close>

lemma expired_ok:
  assumes "store_ok token tr st" and "map_of (cf_sessions st) k = Some s" and "used_answer a = None"
  shows "store_ok token (tr @ [(c, a)]) (persist_sessions (put_session (expire_if_needed now s) st))"
  by (rule store_ok_mark [OF assms(1) _ _ _ assms(3)])
    (use assms lookup_ok [OF assms(1,2)] store_ok_rows(1) [OF assms(1)] in \<open>auto intro!: row_marked_put\<close>)

lemma same_ok: "store_ok token tr st \<Longrightarrow> used_answer a = None \<Longrightarrow> store_ok token (tr @ [(c, a)]) st"
  by (rule store_ok_mark) (auto simp: row_marked_refl)

lemma fresh_id:
  assumes "store_ok token tr st" and "inj token"
  shows "''cfm_'' @ token (cf_drawn st) \<notin> fst ` set (cf_saved st)"
proof
  assume "''cfm_'' @ token (cf_drawn st) \<in> fst ` set (cf_saved st)"
  then obtain s where "(''cfm_'' @ token (cf_drawn st), s) \<in> set (cf_saved st)" by auto
  then obtain j where j: "j < cf_drawn st" "''cfm_'' @ token (cf_drawn st) = ''cfm_'' @ token j" using assms(1) by (auto simp: store_ok_def session_ok_def)
  from j(2) have "token (cf_drawn st) = token j" by simp
  from injD [OF assms(2) this] j(1) show False by simp
qed

lemma create_cases:
  assumes "create_confirmation_session env sid role step owner amount ref auto_allowed ttl st = (st', r)"
  obtains "st' = st"
  | s where "st' = persist_sessions (put_session s (st\<lparr>cf_drawn := cf_drawn st + 1\<rparr>))" "cf_id s = ''cfm_'' @ oc_token env (cf_drawn st)" "cf_status s = PENDING"
proof -
  define ttl' expires where "ttl' = max 60 (min (case ttl of None \<Rightarrow> SESSION_TTL_SECONDS | Some t \<Rightarrow> t) (7 * 24 * 3600))"
    and "expires = Some (seconds (oc_now env + ttl' * 10 ^ 6))"
  define s where "s = \<lparr>cf_id = ''cfm_'' @ oc_token env (cf_drawn st), cf_scene = sid, cf_role = lower role, cf_step = step, cf_owner = owner,
      cf_status = PENDING, cf_created = seconds (oc_now env), cf_expires = expires, cf_decided = None, cf_note = None, cf_ref = ref,
      cf_max = (case amount of Readable x \<Rightarrow> Some x | _ \<Rightarrow> None), cf_cancel = None\<rparr>"
  define stored where "stored = persist_sessions (put_session s (st\<lparr>cf_drawn := cf_drawn st + 1\<rparr>))"
  have run: "create_confirmation_session env sid role step owner amount ref auto_allowed ttl st =
      (if map_of (ca_scenes (oc_catalog env)) sid = None then (st, Inl (Unknown_Scene sid))
       else case resolve_gate (oc_catalog env) sid role step auto_allowed of
         Inl e \<Rightarrow> (st, Inl e)
       | Inr g \<Rightarrow> if \<not> ga_needs g then (st, Inr (Skipped g)) else (stored, Inr (Asked s g ttl')))"
    unfolding create_confirmation_session_def Let_def stored_def s_def ttl'_def expires_def ..
  have "st' = st \<or> st' = stored" using assms unfolding run by (auto split: if_splits sum.splits)
  then show ?thesis
  proof
    assume "st' = stored"
    then show ?thesis unfolding stored_def by (rule that(2)) (simp_all add: s_def)
  qed (rule that(1))
qed

lemma create_ok:
  assumes ok: "store_ok token tr st" and "inj token" and "oc_token env = token"
    and run: "create_confirmation_session env sid role step owner amount ref auto_allowed ttl st = (st', r)" and "used_answer a = None"
  shows "store_ok token (tr @ [(c, a)]) st'"
proof -
  show ?thesis
    using run
  proof (cases rule: create_cases)
    case 1
    with ok assms(5) show ?thesis by (simp add: same_ok)
  next
    case (2 s)
    note 2 = 2(1) 2(2) [unfolded assms(3)] 2(3)
    have "cf_id s \<notin> fst ` set (cf_saved st)" unfolding 2(2) by (rule fresh_id [OF ok assms(2)])
    then have "uses tr (cf_id s) = 0" using ok by (simp add: store_ok_def)
    with 2 assms(5) have "session_ok token (cf_drawn st') (tr @ [(c, a)]) (cf_id s) s"
      by (auto simp: session_ok_def)
    from store_ok_put [OF ok this] 2(1) assms(5) show ?thesis by simp
  qed
qed

lemma look_ok:
  assumes "store_ok token tr st" and "get_confirmation_session env cid st = (st', r)" and "used_answer a = None"
  shows "store_ok token (tr @ [(c, a)]) st'"
  using assms expired_ok [OF assms(1) _ assms(3)] same_ok [OF assms(1,3)]
  by (auto simp: get_confirmation_session_def Let_def split: option.splits if_splits)

lemma pending_marked: "pending_seller_accepts now limit n xs = (ys, out) \<Longrightarrow> list_all2 row_marked xs ys"
  by (induction now limit n xs arbitrary: ys out rule: pending_seller_accepts.induct)
    (auto simp: Let_def row_marked_refl split: if_splits prod.splits)

lemma find_used_marked: "find_used now P xs = (ys, b) \<Longrightarrow> list_all2 row_marked xs ys"
  by (induction now P xs arbitrary: ys b rule: find_used.induct) (auto simp: Let_def row_marked_refl split: if_splits prod.splits)

lemma list_pending_ok:
  assumes "store_ok token tr st" and "list_pending_seller_accept_sessions env limit st = (st', r)" and "used_answer a = None"
  shows "store_ok token (tr @ [(c, a)]) st'"
  by (rule store_ok_mark [OF assms(1) _ _ _ assms(3)])
    (use assms(2) in \<open>auto simp: list_pending_seller_accept_sessions_def dest: pending_marked split: prod.splits\<close>)

lemma satisfied_marks:
  "step_already_satisfied env sid role step owner ref auto_allowed st = (st', r) \<Longrightarrow>
     list_all2 row_marked (cf_sessions st) (cf_sessions st') \<and> cf_saved st' = cf_saved st \<and> cf_drawn st' = cf_drawn st"
  by (auto simp: step_already_satisfied_def row_marked_refl dest: find_used_marked split: sum.splits if_splits prod.splits)

lemma next_step_marks:
  "next_required_confirm_step env sid role steps owner ref auto_allowed st = (st', r) \<Longrightarrow>
     list_all2 row_marked (cf_sessions st) (cf_sessions st') \<and> cf_saved st' = cf_saved st \<and> cf_drawn st' = cf_drawn st"
proof (induction env sid role steps owner ref auto_allowed st rule: next_required_confirm_step.induct)
  case (2 env sid role step steps owner ref auto_allowed st)
  obtain st1 r1 where s1: "step_already_satisfied env sid role step owner ref auto_allowed st = (st1, r1)" by fastforce
  note m1 = satisfied_marks [OF s1]
  show ?case
  proof (cases "r1 = Inr True")
    case True
    with 2(1) [OF s1 [symmetric]] 2(2) s1 m1 show ?thesis by (auto intro: row_marked_trans)
  next
    case False
    with 2(2) s1 m1 show ?thesis by (auto split: sum.splits bool.splits)
  qed
qed (simp add: row_marked_refl)

lemma cancel_cases:
  assumes "mark_session_expired_cancelled env cid reason st = (st', r)"
  obtains "st' = st"
  | s0 s where "map_of (cf_sessions st) cid = Some s0" "cf_status (expire_if_needed (oc_now env) s0) \<in> {EXPIRED, CANCELLED, PENDING}" "cf_id s = cf_id s0"
      "same_question s0 s" "cf_status s = CANCELLED" "st' = persist_sessions (put_session s st)"
proof (cases "map_of (cf_sessions st) cid")
  case None
  with assms show ?thesis by (intro that(1)) (simp add: mark_session_expired_cancelled_def)
next
  case (Some s0)
  define t where "t = expire_if_needed (oc_now env) s0"
  have t: "cf_id t = cf_id s0" "same_question s0 t" by (simp_all add: t_def)
  define s where "s = t\<lparr>cf_status := CANCELLED, cf_cancel := Some reason, cf_note := or_text (cf_note t) reason, cf_decided := or_now env (cf_decided t)\<rparr>"
  have *: "mark_session_expired_cancelled env cid reason st =
      (if cf_status t \<notin> {EXPIRED, CANCELLED, PENDING} then (st, Inl (No_Timeout_Cancel (cf_status t))) else (persist_sessions (put_session s st), Inr s))"
    using Some by (simp add: mark_session_expired_cancelled_def Let_def t_def [symmetric] s_def)
  show ?thesis
  proof (cases "cf_status t \<in> {EXPIRED, CANCELLED, PENDING}")
    case True
    with * assms have "st' = persist_sessions (put_session s st)" by auto
    with True t show ?thesis by (intro that(2) [OF Some, of s]) (simp_all add: s_def t_def same_question_def)
  next
    case False
    with * assms show ?thesis by (intro that(1)) auto
  qed
qed

lemma cancel_ok:
  assumes ok: "store_ok token tr st" and run: "mark_session_expired_cancelled env cid reason st = (st', r)" and "used_answer a = None"
  shows "store_ok token (tr @ [(c, a)]) st'"
  using run
proof (cases rule: cancel_cases)
  case 1
  with ok assms(3) show ?thesis by (simp add: same_ok)
next
  case (2 s0 s)
  have "session_ok token (cf_drawn st) tr cid (expire_if_needed (oc_now env) s0)" using session_ok_marked [OF lookup_ok(1) [OF ok 2(1)]] by simp
  then have "session_ok token (cf_drawn st') (tr @ [(c, a)]) (cf_id s) s"
    using 2(2,3,5,6) lookup_ok(2) [OF ok 2(1)] assms(3) by (auto simp: session_ok_def)
  from store_ok_put [OF ok this] 2(6) assms(3) show ?thesis by simp
qed

lemma decide_cases:
  assumes run: "decide_confirmation_session env cid confirm msg actor st = (st', r)"
  obtains "st' = st" and "\<And>x. r \<noteq> Inr x"
  | s0 where "map_of (cf_sessions st) cid = Some s0" "st' = persist_sessions (put_session (expire_if_needed (oc_now env) s0) st)" "\<And>x. r \<noteq> Inr x"
  | s0 s where "map_of (cf_sessions st) cid = Some s0" "cf_status (expire_if_needed (oc_now env) s0) = PENDING" "actor = Some (cf_owner s0)" "same_question s0 s"
      "cf_status s = (if confirm then CONFIRMED else REJECTED)" "st' = persist_sessions (put_session s st)" "r = Inr s" "strip (cf_owner s0) \<noteq> []"
proof (cases "(case actor of None \<Rightarrow> True | Some a \<Rightarrow> strip a = []) \<or> map_of (cf_sessions st) cid = None")
  case True
  with run have "st' = st \<and> (\<forall>x. r \<noteq> Inr x)" unfolding decide_confirmation_session_def by (cases "map_of (cf_sessions st) cid") (auto split: if_splits)
  then show ?thesis by (intro that(1)) blast+
next
  case False
  then obtain s0 where s0: "map_of (cf_sessions st) cid = Some s0" by auto
  define s where "s = expire_if_needed (oc_now env) s0"
  have q: "same_question s0 s" "cf_owner s = cf_owner s0" using expire_question(2) [of s0 "oc_now env"] by (simp_all add: s_def same_question_def)
  define t where "t = s\<lparr>cf_status := (if confirm then CONFIRMED else REJECTED), cf_decided := Some (seconds (oc_now env)), cf_note := msg\<rparr>"
  have t: "same_question s0 t" "cf_status t = (if confirm then CONFIRMED else REJECTED)" using q(1) by (simp_all add: t_def same_question_def)
  have *: "decide_confirmation_session env cid confirm msg actor st =
      (if cf_status s = EXPIRED then (persist_sessions (put_session s st), Inl Session_Expired)
       else if cf_status s \<noteq> PENDING then (st, Inl (Session_Already (cf_status s)))
       else if actor \<noteq> Some (cf_owner s) then (st, Inl Not_The_Owner)
       else (persist_sessions (put_session t st), Inr t))"
    using False s0 by (simp add: decide_confirmation_session_def Let_def s_def [symmetric] t_def)
  consider "cf_status s = EXPIRED" | "cf_status s \<noteq> EXPIRED" "cf_status s \<noteq> PENDING" | "cf_status s = PENDING" "actor \<noteq> Some (cf_owner s)"
    | "cf_status s = PENDING" "actor = Some (cf_owner s)" by blast
  then show ?thesis
  proof cases
    case 1
    with run * have "st' = persist_sessions (put_session s st)" "r = Inl Session_Expired" by simp_all
    with that(2) [OF s0] show ?thesis by (simp add: s_def)
  next
    case 2
    with run * have "st' = st" "r = Inl (Session_Already (cf_status s))" by simp_all
    then show ?thesis by (intro that(1)) simp_all
  next
    case 3
    with run * have "st' = st" "r = Inl Not_The_Owner" by simp_all
    then show ?thesis by (intro that(1)) simp_all
  next
    case 4
    with run * have "st' = persist_sessions (put_session t st)" "r = Inr t" by simp_all
    with that(3) [OF s0 _ _ t] 4 q(2) False show ?thesis by (simp add: s_def)
  qed
qed

lemma decide_ok:
  assumes ok: "store_ok token tr st" and run: "decide_confirmation_session env cid confirm msg actor st = (st', r)"
  shows "store_ok token (tr @ [(Decide cid confirm msg actor, Decided r)]) st'"
  using run
proof (cases rule: decide_cases)
  case 1
  with ok show ?thesis by (simp add: same_ok)
next
  case 2
  with expired_ok [OF ok 2(1)] show ?thesis by simp
next
  case (3 s0 s)
  have id: "cf_id s = cid" "cf_owner s = cf_owner s0" using 3(4) lookup_ok(2) [OF ok 3(1)] by (simp_all add: same_question_def)
  have "session_ok token (cf_drawn st) tr cid (expire_if_needed (oc_now env) s0)" using session_ok_marked [OF lookup_ok(1) [OF ok 3(1)]] by simp
  then have "uses tr cid = 0" "\<exists>j < cf_drawn st. cid = ''cfm_'' @ token j" using 3(2) by (auto simp: session_ok_def)
  moreover have "owner_confirmed (tr @ [(Decide cid confirm msg actor, Decided r)]) s" if confirm
    unfolding owner_confirmed_def
    using that 3(3,7) id same_question_refl [of s] by (intro exI [of _ msg] exI [of _ s]) simp
  ultimately have "session_ok token (cf_drawn st') (tr @ [(Decide cid confirm msg actor, Decided r)]) (cf_id s) s"
    using 3(5,6) id by (auto simp: session_ok_def)
  from store_ok_put [OF ok this] 3(6) show ?thesis by simp
qed

definition used_by :: "confirmation_error + step_allowed \<Rightarrow> string option" where
  "used_by r = used_answer (Allowed r)"

text \<open>What a check of a step can do.\<close>

lemma assert_cases:
  assumes ok: "store_ok token tr st" and run: "assert_step_allowed env sid role step cid auto_allowed owner amount consume ref st = (st', r)"
  obtains (same) "st' = st" and "used_by r = None"
  | (expired) c s0 where "map_of (cf_sessions st) c = Some s0" "st' = persist_sessions (put_session (expire_if_needed (oc_now env) s0) st)" "r = Inl Session_Expired"
  | (used) c s0 s g where "cid = Some c" "map_of (cf_sessions st) c = Some s0" "cf_status s0 = CONFIRMED" "same_question s0 s" "cf_status s = USED"
      "session_mismatch sid role step owner ref amount s = None" "st' = persist_sessions (put_session s st)" "r = Inr (Owner_Confirmed g s True)"
proof -
  have gone: thesis if "st' = st" "r = Inl e \<or> r = Inr (Auto_Allowed g) \<or> r = Inr (Owner_Confirmed g s False)" for e g s
    using that by (intro same) (auto simp: used_by_def)
  show thesis
  proof (cases "resolve_gate (oc_catalog env) sid role step auto_allowed")
    case (Inl e)
    with run gone [of e] show thesis by (simp add: assert_step_allowed_def)
  next
    case (Inr g)
    show thesis
    proof (cases "ga_needs g \<and> (\<exists>c s0. cid = Some c \<and> c \<noteq> [] \<and> map_of (cf_sessions st) c = Some s0)")
      case False
      then have "st' = st \<and> (\<exists>e. r = Inl e \<or> r = Inr (Auto_Allowed g))"
        using run Inr by (auto simp: assert_step_allowed_def split: if_splits option.splits)
      with gone [of _ g] show thesis by blast
    next
      case True
      then obtain c s0 where c: "ga_needs g" "cid = Some c" "c \<noteq> []" "map_of (cf_sessions st) c = Some s0" by blast
      define s where "s = expire_if_needed (oc_now env) s0"
      define t where "t = s\<lparr>cf_status := USED, cf_decided := or_now env (cf_decided s)\<rparr>"
      have *: "assert_step_allowed env sid role step cid auto_allowed owner amount consume ref st =
          (if cf_status s = EXPIRED then (persist_sessions (put_session s st), Inl Session_Expired)
           else if cf_status s \<noteq> CONFIRMED then (st, Inl (Not_Confirmed (cf_status s)))
           else case session_mismatch sid role step owner ref amount s of
             Some e \<Rightarrow> (st, Inl e)
           | None \<Rightarrow> if consume then (persist_sessions (put_session t st), Inr (Owner_Confirmed g t True)) else (st, Inr (Owner_Confirmed g s False)))"
        using Inr c by (simp add: assert_step_allowed_def Let_def s_def [symmetric] t_def split: option.split)
      consider "cf_status s = EXPIRED" | "cf_status s \<noteq> EXPIRED" "cf_status s \<noteq> CONFIRMED" | e where "cf_status s = CONFIRMED" "session_mismatch sid role step owner ref amount s = Some e"
        | "cf_status s = CONFIRMED" "session_mismatch sid role step owner ref amount s = None" by (cases "session_mismatch sid role step owner ref amount s") auto
      then show thesis
      proof cases
        case 1
        with run * have "st' = persist_sessions (put_session s st)" "r = Inl Session_Expired" by simp_all
        then show thesis by (intro expired [OF c(4)]) (simp_all add: s_def)
      next
        case 2
        with run * have "st' = st" "r = Inl (Not_Confirmed (cf_status s))" by simp_all
        then show thesis using gone by blast
      next
        case (3 e)
        with run * have "st' = st" "r = Inl e" by simp_all
        then show thesis using gone by blast
      next
        case 4
        have kept: "s = s0" using expire_kept [of "oc_now env" s0] 4(1) by (simp add: s_def)
        show thesis
        proof (cases consume)
          case True
          with run * 4 have r: "st' = persist_sessions (put_session t st)" "r = Inr (Owner_Confirmed g t True)" by simp_all
          have t: "same_question s0 t" "cf_status t = USED" using kept by (simp_all add: t_def same_question_def)
          have "session_mismatch sid role step owner ref amount t = session_mismatch sid role step owner ref amount s"
            unfolding session_mismatch_def t_def by simp
          with 4(2) have "session_mismatch sid role step owner ref amount t = None" by simp
          from used [OF c(2,4) _ t this r] 4(1) kept show thesis by simp
        next
          case False
          with run * 4 have "st' = st" "r = Inr (Owner_Confirmed g s False)" by simp_all
          then show thesis using gone by blast
        qed
      qed
    qed
  qed
qed

lemma assert_ok:
  assumes ok: "store_ok token tr st" and run: "assert_step_allowed env sid role step cid auto_allowed owner amount consume ref st = (st', r)"
    and a: "used_answer a = used_by r"
  shows "store_ok token (tr @ [(x, a)]) st'"
  using ok run
proof (cases rule: assert_cases)
  case same
  with ok a show ?thesis by (simp add: same_ok)
next
  case (expired c s0)
  with expired_ok [OF ok] a show ?thesis by (simp add: used_by_def)
next
  case (used c s0 s g)
  have id: "cf_id s = c" using used(4) lookup_ok(2) [OF ok used(2)] by (simp add: same_question_def)
  from lookup_ok(1) [OF ok used(2)] have s0: "uses tr c = 0" "\<exists>j < cf_drawn st. c = ''cfm_'' @ token j" "owner_confirmed tr s0"
    using used(3) by (auto simp: session_ok_def)
  have "used_answer a = Some c" using used(8) a id by (simp add: used_by_def)
  with s0 used(5,7) id owner_confirmed_same [OF s0(3) used(4)] have "session_ok token (cf_drawn st') (tr @ [(x, a)]) (cf_id s) s"
    by (auto simp: session_ok_def owner_confirmed_mono)
  from store_ok_put [OF ok this] used(7) \<open>used_answer a = Some c\<close> id show ?thesis by simp
qed

text \<open>An entry of the record that neither uses nor decides a session does not matter.\<close>

lemma store_ok_quiet: "store_ok token (tr @ [(x, Other_Answer)]) st = store_ok token tr st"
proof -
  have "owner_confirmed (tr @ [(x, Other_Answer)]) s = owner_confirmed tr s" for s by (auto simp: owner_confirmed_def)
  then show ?thesis by (simp add: store_ok_def session_ok_def)
qed

lemma settle_cases:
  assumes "assert_settle_confirmation env app_env tid hint client escrow cid st = (st', r)"
  obtains (free) "st' = st" and "used_answer (Settled_Gate r) = None"
    and "\<And>x. r = Inr x \<Longrightarrow> x = None \<and> (strip hint = [] \<or> (\<exists>g. resolve_gate (oc_catalog env) (strip hint) ''buyer'' ''buyer_accept_settle'' False = Inr g \<and>
      (ga_mode g \<noteq> ''OWNER_CONFIRM'' \<and> \<not> is_high_risk_scene (oc_catalog env) (strip hint) \<or>
       allow_demo_confirmation_bypass app_env \<and> \<not> is_high_risk_scene (oc_catalog env) (strip hint))))"
  | (allowed) q where "assert_step_allowed env (strip hint) ''buyer'' ''buyer_accept_settle'' cid False (Some client) (Some (Fin escrow)) True None st = (st', Inr q)"
      "r = Inr (Some q)"
  | (asked) st1 e r2 where "assert_step_allowed env (strip hint) ''buyer'' ''buyer_accept_settle'' cid False (Some client) (Some (Fin escrow)) True None st = (st1, Inl e)"
      "create_confirmation_session env (strip hint) ''buyer'' ''buyer_accept_settle'' client (Readable (Fin escrow)) (Some (''settle:'' @ tid)) False None st1 = (st', r2)"
      "used_answer (Settled_Gate r) = None" "\<forall>x. r \<noteq> Inr x"
proof -
  let ?assert = "assert_step_allowed env (strip hint) ''buyer'' ''buyer_accept_settle'' cid False (Some client) (Some (Fin escrow)) True None st"
  let ?gate = "resolve_gate (oc_catalog env) (strip hint) ''buyer'' ''buyer_accept_settle'' False"
  obtain st1 r1 where a: "?assert = (st1, r1)" by fastforce
  obtain st2 r2 where c: "create_confirmation_session env (strip hint) ''buyer'' ''buyer_accept_settle'' client (Readable (Fin escrow)) (Some (''settle:'' @ tid)) False None st1
      = (st2, r2)" by fastforce
  show thesis
  proof (cases "strip hint = []")
    case True
    with assms show thesis by (intro free) (auto simp: assert_settle_confirmation_def)
  next
    case False
    note defn = assms [unfolded assert_settle_confirmation_def Let_def]
    show thesis
    proof (cases ?gate)
      case (Inl e)
      with defn False show thesis by (intro free) auto
    next
      case (Inr g)
      show thesis
      proof (cases "(ga_mode g = ''OWNER_CONFIRM'' \<or> is_high_risk_scene (oc_catalog env) (strip hint)) \<and>
          \<not> (allow_demo_confirmation_bypass app_env \<and> \<not> is_high_risk_scene (oc_catalog env) (strip hint))")
        case True
        show thesis
        proof (cases r1)
          case (Inl e)
          with defn False Inr True a c show thesis
            by (intro asked [of st1 e r2]) (auto split: sum.splits)
        next
          case (Inr q)
          with defn False \<open>?gate = Inr g\<close> True a show thesis by (intro allowed [of q]) auto
        qed
      next
        case False
        with defn \<open>strip hint \<noteq> []\<close> Inr show thesis by (intro free) auto
      qed
    qed
  qed
qed

lemma settle_ok:
  assumes ok: "store_ok token tr st" and inj: "inj token" and env: "oc_token env = token"
    and run: "assert_settle_confirmation env app_env tid hint client escrow cid st = (st', r)"
  shows "store_ok token (tr @ [(x, Settled_Gate r)]) st'"
  using run
proof (cases rule: settle_cases)
  case free
  with ok show ?thesis by (simp add: same_ok)
next
  case (allowed q)
  have "used_answer (Settled_Gate r) = used_by (Inr q)"
    using allowed(2) by (cases "(Allowed (Inr q))" rule: used_answer.cases) (auto simp: used_by_def)
  then show ?thesis by (rule assert_ok [OF ok allowed(1)])
next
  case (asked st1 e r2)
  have "used_answer Other_Answer = used_by (Inl e)" by (simp add: used_by_def)
  from assert_ok [OF ok asked(1) this, of undefined] have "store_ok token tr st1" by (simp add: store_ok_quiet)
  from create_ok [OF this inj env asked(2,3)] show ?thesis .
qed

section \<open>Runs\<close>

lemma confirmation_do_ok:
  assumes ok: "store_ok token tr st" and inj: "inj token" and env: "oc_token env = token" and run: "confirmation_do env c st = (st', a)"
  shows "store_ok token (tr @ [(c, a)]) st'"
proof (cases c)
  case (Ask sid role step owner amount ref auto_allowed ttl)
  with run create_ok [OF ok inj env] show ?thesis by (auto simp: map_prod_def split: prod.splits)
next
  case (Look cid)
  with run look_ok [OF ok] show ?thesis by (auto simp: map_prod_def split: prod.splits)
next
  case (List_Pending limit)
  with run list_pending_ok [OF ok] show ?thesis by (auto simp: map_prod_def split: prod.splits)
next
  case (Cancel_Timeout cid reason)
  with run cancel_ok [OF ok] show ?thesis by (auto simp: map_prod_def split: prod.splits)
next
  case (Decide cid confirm msg actor)
  with run decide_ok [OF ok] show ?thesis by (auto simp: map_prod_def split: prod.splits)
next
  case (Assert_Step sid role step cid auto_allowed owner amount consume ref)
  with run assert_ok [OF ok] show ?thesis by (auto simp: map_prod_def used_by_def split: prod.splits)
next
  case (Next_Step sid role steps owner ref auto_allowed)
  with run obtain r where r: "next_required_confirm_step env sid role steps owner ref auto_allowed st = (st', r)" "a = Other_Answer"
    by (auto simp: map_prod_def split: prod.splits)
  from next_step_marks [OF r(1)] show ?thesis by (intro store_ok_mark [OF ok]) (simp_all add: r(2))
next
  case (Settle app_env tid hint client escrow cid)
  with run settle_ok [OF ok inj env] show ?thesis by (auto simp: map_prod_def split: prod.splits)
next
  case Restart_Sessions
  have "store_ok token tr (load_sessions st)" using ok by (simp add: store_ok_def load_sessions_def row_marked_refl)
  with Restart_Sessions run show ?thesis by (auto intro: same_ok)
qed

lemma confirmation_run_ok: "confirmation_run cat token tr st \<Longrightarrow> inj token \<Longrightarrow> store_ok token tr st"
proof (induction rule: confirmation_run.induct)
  case start
  show ?case by (simp add: store_ok_def new_confirmation_store_def uses_def)
next
  case (call tr st env c st' a)
  with confirmation_do_ok show ?case by blast
qed

inductive_cases confirmation_run_snocE: "confirmation_run cat token (tr @ [(c, a)]) st'"

lemma confirmation_run_split:
  assumes "confirmation_run cat token (tr1 @ (c, a) # tr2) st"
  obtains st0 env st1 where "confirmation_run cat token tr1 st0" and "oc_catalog env = cat" and "oc_token env = token" and "confirmation_do env c st0 = (st1, a)"
    and "confirmation_run cat token (tr1 @ [(c, a)]) st1"
proof -
  have "\<exists>st1. confirmation_run cat token (tr1 @ [(c, a)]) st1"
    using assms
  proof (induction tr2 arbitrary: st rule: rev_induct)
    case (snoc x tr2)
    obtain c' a' where x: "x = (c', a')" by fastforce
    have "confirmation_run cat token ((tr1 @ (c, a) # tr2) @ [(c', a')]) st" using snoc.prems by (simp add: x)
    then obtain st' where "confirmation_run cat token (tr1 @ (c, a) # tr2) st'" by (rule confirmation_run_snocE) auto
    then show ?case by (rule snoc.IH)
  qed auto
  then obtain st1 where run: "confirmation_run cat token (tr1 @ [(c, a)]) st1" by blast
  from confirmation_run_snocE [OF run] obtain st0 env
    where "confirmation_run cat token tr1 st0" "oc_catalog env = cat" "oc_token env = token" "confirmation_do env c st0 = (st1, a)" by blast
  then show ?thesis using run by (rule that)
qed

lemma assert_used:
  assumes "store_ok token tr st" and "assert_step_allowed env sid role step cid auto_allowed owner amount consume ref st = (st', Inr (Owner_Confirmed g s True))"
  shows "owner_confirmed tr s" and "session_mismatch sid role step owner ref amount s = None" and "cid = Some (cf_id s)"
proof -
  have "owner_confirmed tr s \<and> session_mismatch sid role step owner ref amount s = None \<and> cid = Some (cf_id s)"
    using assms
  proof (cases rule: assert_cases)
    case (used c s0 s' g')
    then have s: "s' = s" by simp
    have "owner_confirmed tr s0" using lookup_ok(1) [OF assms(1) used(2)] used(3) by (simp add: session_ok_def)
    then have "owner_confirmed tr s" using used(4) s by (simp add: owner_confirmed_same)
    moreover have "cf_id s = c" using used(4) s lookup_ok(2) [OF assms(1) used(2)] by (simp add: same_question_def)
    ultimately show ?thesis using used(1,6) s by simp
  qed (simp_all add: used_by_def)
  then show "owner_confirmed tr s" and "session_mismatch sid role step owner ref amount s = None" and "cid = Some (cf_id s)" by blast+
qed

end
