(* ===== verification/Confirmation_Properties.thy ===== *)
theory Confirmation_Properties
  imports Confirmation_System
begin

text \<open>The properties of the confirmations of the owner, and the gates of the shipped catalog.\<close>

section \<open>The shipped catalog\<close>

definition auto_steps :: "string \<Rightarrow> string list" where
  "auto_steps role =
     (if role = ''buyer'' then [''discover'', ''execute_service'', ''submit_delivery_proof'']
      else [''discover'', ''select_offer'', ''execute_service'', ''submit_delivery_proof'', ''buyer_accept_settle''])"

definition gates_exact :: "string \<Rightarrow> (string \<times> string) list \<Rightarrow> bool" where
  "gates_exact role m \<longleftrightarrow> list_all (\<lambda>(step, mode). mode \<noteq> [] \<and> (mode = ''AUTO'') = (step \<in> set (auto_steps role))) m"

definition gates_no_policy :: "(string \<times> string) list \<Rightarrow> bool" where
  "gates_no_policy m \<longleftrightarrow> list_all (\<lambda>(step, mode). mode \<noteq> ''POLICY_AUTO'') m"

lemma catalog_rows:
  "list_all (\<lambda>(sid, sc). gates_exact ''buyer'' (sg_buyer sc) \<and> gates_exact ''seller'' (sg_seller sc) \<and>
     (sg_high_risk sc \<longrightarrow> gates_no_policy (sg_buyer sc) \<and> gates_no_policy (sg_seller sc) \<and> map_of (sg_seller sc) ''accept_order'' \<noteq> None)) (ca_scenes shipped_catalog)"
  "gates_exact ''buyer'' (ca_buyer shipped_catalog)" "gates_exact ''seller'' (ca_seller shipped_catalog)"
  "gates_no_policy (ca_buyer shipped_catalog)" "gates_no_policy (filter (\<lambda>(step, mode). step \<noteq> ''accept_order'') (ca_seller shipped_catalog))"
  by code_simp+

lemma catalog_covers: "list_all (\<lambda>step. map_of (if role = ''buyer'' then ca_buyer shipped_catalog else ca_seller shipped_catalog) step \<noteq> None) (auto_steps role)"
  by (cases "role = ''buyer''") (simp_all add: auto_steps_def shipped_catalog_def)

lemma gates_exact_row: "gates_exact role m \<Longrightarrow> map_of m step = Some mode \<Longrightarrow> mode \<noteq> [] \<and> (mode = ''AUTO'') = (step \<in> set (auto_steps role))"
  by (auto simp: gates_exact_def list_all_iff dest!: map_of_SomeD)

lemma gates_no_policy_row: "gates_no_policy m \<Longrightarrow> map_of m step = Some mode \<Longrightarrow> mode \<noteq> ''POLICY_AUTO''"
  by (auto simp: gates_no_policy_def list_all_iff dest!: map_of_SomeD)

definition default_gates :: "string \<Rightarrow> (string \<times> string) list" where
  "default_gates role = (if role = ''buyer'' then ca_buyer shipped_catalog else ca_seller shipped_catalog)"

definition scene_gates_of :: "string \<Rightarrow> string \<Rightarrow> (string \<times> string) list" where
  "scene_gates_of role sid = (if role = ''buyer'' then sg_buyer (get_scene_policy shipped_catalog sid) else sg_seller (get_scene_policy shipped_catalog sid))"

lemma shipped_mode:
  "gate_mode shipped_catalog sid role step = value_or (scene_gates_of role sid) step (value_or (default_gates role) step ''OWNER_CONFIRM'')"
  by (simp add: gate_mode_def Let_def scene_gates_of_def default_gates_def)

lemma shipped_exact:
  assumes "role \<in> {''buyer'', ''seller''}"
  shows "gates_exact role (scene_gates_of role sid)" and "gates_exact role (default_gates role)"
proof -
  show d: "gates_exact role (default_gates role)" using assms catalog_rows(2,3) by (auto simp: default_gates_def)
  show "gates_exact role (scene_gates_of role sid)"
  proof (cases "map_of (ca_scenes shipped_catalog) sid")
    case None
    then have "scene_gates_of role sid = default_gates role" by (simp add: scene_gates_of_def default_gates_def get_scene_policy_def)
    with d show ?thesis by simp
  next
    case (Some sc)
    then have "gates_exact ''buyer'' (sg_buyer sc) \<and> gates_exact ''seller'' (sg_seller sc)"
      using catalog_rows(1) by (auto simp: list_all_iff dest!: map_of_SomeD)
    with assms Some show ?thesis by (auto simp: scene_gates_of_def get_scene_policy_def)
  qed
qed

lemma shipped_auto:
  assumes "role \<in> {''buyer'', ''seller''}"
  shows "gate_mode shipped_catalog sid role step = ''AUTO'' \<longleftrightarrow> step \<in> set (auto_steps role)"
proof (cases "map_of (scene_gates_of role sid) step")
  case (Some mode)
  with gates_exact_row [OF shipped_exact(1) [OF assms] Some] show ?thesis by (simp add: shipped_mode value_or_def)
next
  case None
  show ?thesis
  proof (cases "map_of (default_gates role) step")
    case (Some mode)
    with None gates_exact_row [OF shipped_exact(2) [OF assms] Some] show ?thesis by (simp add: shipped_mode value_or_def)
  next
    case no: None
    then have "step \<notin> set (auto_steps role)" using catalog_covers [of role] by (auto simp: default_gates_def list_all_iff)
    with None no show ?thesis by (simp add: shipped_mode value_or_def)
  qed
qed

lemma shipped_high_risk:
  assumes "role \<in> {''buyer'', ''seller''}" and "is_high_risk_scene shipped_catalog sid"
  shows "gate_mode shipped_catalog sid role step \<noteq> ''POLICY_AUTO''"
proof -
  obtain sc where sc: "map_of (ca_scenes shipped_catalog) sid = Some sc" "sg_high_risk sc" using assms(2) by (auto simp: is_high_risk_scene_def split: option.splits)
  then have rows: "gates_no_policy (sg_buyer sc)" "gates_no_policy (sg_seller sc)" "map_of (sg_seller sc) ''accept_order'' \<noteq> None"
    using catalog_rows(1) by (auto simp: list_all_iff dest!: map_of_SomeD)
  have "gates_no_policy (scene_gates_of role sid)" using rows sc(1) by (simp add: scene_gates_of_def get_scene_policy_def)
  note here = gates_no_policy_row [OF this]
  have dflt: "mode \<noteq> ''POLICY_AUTO''" if "map_of (scene_gates_of role sid) step = None" "map_of (default_gates role) step = Some mode" for mode
  proof (cases "role = ''buyer''")
    case True
    with that(2) gates_no_policy_row [OF catalog_rows(4)] show ?thesis by (simp add: default_gates_def)
  next
    case False
    then have "step \<noteq> ''accept_order''" using that(1) rows(3) sc(1) by (auto simp: scene_gates_of_def get_scene_policy_def)
    moreover have "(step, mode) \<in> set (ca_seller shipped_catalog)" using that(2) False by (auto simp: default_gates_def dest: map_of_SomeD)
    ultimately show ?thesis using catalog_rows(5) by (auto simp: gates_no_policy_def list_all_iff)
  qed
  show ?thesis using here [of step] dflt gates_exact_row [OF shipped_exact(1) [OF assms(1)], of sid step]
    by (auto simp: shipped_mode value_or_def split: option.split)
qed

text \<open>
  C34. In the shipped catalog an agent may take exactly the named steps of its role without its owner, in every scene, known
  or not, and whatever the step is called; in a scene of high risk a policy of automation changes nothing about that.
\<close>

theorem shipped_gates_exact:
  assumes "resolve_gate shipped_catalog sid role step False = Inr g"
  shows "(ga_needs g \<longleftrightarrow> step \<notin> set (auto_steps (strip (lower role)))) \<and>
    (is_high_risk_scene shipped_catalog sid \<longrightarrow> resolve_gate shipped_catalog sid role step True = Inr g)"
proof -
  define r mode where "r = strip (lower role)" and "mode = gate_mode shipped_catalog sid r step"
  have gate: "resolve_gate shipped_catalog sid role step b =
      (if r \<notin> {''buyer'', ''seller''} then Inl Bad_Role
       else Inr (if mode = ''AUTO'' then \<lparr>ga_mode = mode, ga_effective = mode, ga_needs = False\<rparr>
                else if mode = ''OWNER_CONFIRM'' then \<lparr>ga_mode = mode, ga_effective = mode, ga_needs = True\<rparr>
                else if mode = ''POLICY_AUTO'' \<and> b then \<lparr>ga_mode = mode, ga_effective = ''AUTO'', ga_needs = False\<rparr>
                else \<lparr>ga_mode = mode, ga_effective = ''OWNER_CONFIRM'', ga_needs = True\<rparr>))" for b
    unfolding resolve_gate_def Let_def r_def mode_def ..
  have role: "r \<in> {''buyer'', ''seller''}" using assms unfolding gate by (simp split: if_splits)
  have "ga_needs g \<longleftrightarrow> mode \<noteq> ''AUTO''" using assms unfolding gate by (auto split: if_splits)
  moreover have "resolve_gate shipped_catalog sid role step True = resolve_gate shipped_catalog sid role step False" if "mode \<noteq> ''POLICY_AUTO''"
    using that unfolding gate by simp
  ultimately show ?thesis
    using shipped_auto [OF role, of sid step] shipped_high_risk [OF role, of sid step] assms by (auto simp: mode_def r_def)
qed

theorem shipped_gates_exact_witness:
  "\<exists>g. resolve_gate shipped_catalog ''healthcare_medical'' ''Seller'' ''accept_order'' False = Inr g \<and> ga_needs g \<and>
     resolve_gate shipped_catalog ''healthcare_medical'' ''Seller'' ''accept_order'' True = Inr g"
proof -
  have *: "strip (lower ''Seller'') = ''seller''" "is_high_risk_scene shipped_catalog ''healthcare_medical''" by code_simp+
  then obtain g where g: "resolve_gate shipped_catalog ''healthcare_medical'' ''Seller'' ''accept_order'' False = Inr g"
    by (simp add: resolve_gate_def Let_def)
  from shipped_gates_exact [OF g] g * show ?thesis by (auto simp: auto_steps_def)
qed

section \<open>Runs\<close>

lemma inj_show_nat: "inj show_nat"
  by (simp add: inj_def)

definition demo_confirmation_env :: confirmation_env where
  "demo_confirmation_env = \<lparr>oc_now = 0, oc_catalog = shipped_catalog, oc_token = show_nat\<rparr>"

fun confirmation_exec :: "confirmation_call list \<Rightarrow> confirmation_store \<Rightarrow> confirmation_trace \<times> confirmation_store" where
  "confirmation_exec [] st = ([], st)"
| "confirmation_exec (c # cs) st =
     (case confirmation_do demo_confirmation_env c st of
        (st', a) \<Rightarrow> (case confirmation_exec cs st' of (tr, st'') \<Rightarrow> ((c, a) # tr, st'')))"

lemma confirmation_exec_run:
  "confirmation_run shipped_catalog show_nat tr st \<Longrightarrow> confirmation_exec cs st = (tr', st') \<Longrightarrow> confirmation_run shipped_catalog show_nat (tr @ tr') st'"
proof (induction cs arbitrary: tr st tr')
  case (Cons c cs)
  obtain st1 a where c: "confirmation_do demo_confirmation_env c st = (st1, a)" by fastforce
  obtain tr2 where cs: "confirmation_exec cs st1 = (tr2, st')" "tr' = (c, a) # tr2" using Cons.prems(2) c by (auto split: prod.splits)
  have "confirmation_run shipped_catalog show_nat (tr @ [(c, a)]) st1"
    by (rule confirmation_run.call [OF Cons.prems(1) _ _ c]) (simp_all add: demo_confirmation_env_def)
  from Cons.IH [OF this cs(1)] cs(2) show ?case by simp
qed simp

text \<open>A settlement asks its client, who says yes, is accepted with the answer, and refused when it comes again with the same one.\<close>

definition demo_confirmation_calls :: "confirmation_call list" where
  "demo_confirmation_calls =
     [Settle (Some ''production'') ''t1'' ''hotel_booking'' ''bob'' 100 None, Decide ''cfm_0'' True None (Some ''bob''),
      Settle (Some ''production'') ''t1'' ''hotel_booking'' ''bob'' 100 (Some ''cfm_0''),
      Settle (Some ''production'') ''t1'' ''hotel_booking'' ''bob'' 100 (Some ''cfm_0'')]"

definition used_session :: "confirmation_answer \<Rightarrow> confirmation_session option" where
  "used_session a =
     (case a of
        Allowed (Inr (Owner_Confirmed g s consumed)) \<Rightarrow> if consumed then Some s else None
      | Settled_Gate (Inr (Some (Owner_Confirmed g s consumed))) \<Rightarrow> if consumed then Some s else None
      | _ \<Rightarrow> None)"

lemma used_session_answer: "used_answer a = map_option cf_id (used_session a)"
  by (rule used_answer.cases [of a]) (simp_all add: used_session_def)

text \<open>The owner said yes to this question before.\<close>

definition said_yes :: "confirmation_trace \<Rightarrow> confirmation_session \<Rightarrow> bool" where
  "said_yes tr s \<longleftrightarrow> (\<exists>msg t. (Decide (cf_id s) True msg (Some (cf_owner s)), Decided (Inr t)) \<in> set tr \<and> same_question s t)"

lemma said_yes_owner: "said_yes = owner_confirmed"
  by (simp add: fun_eq_iff said_yes_def owner_confirmed_def)

lemma used_confirmed:
  assumes "store_ok token tr st" and "confirmation_do env c st = (st', a)" and "used_session a = Some s"
  shows "owner_confirmed tr s"
proof (cases c)
  case (Assert_Step sid role step cid auto_allowed owner amount consume ref)
  with assms(2,3) obtain g where "assert_step_allowed env sid role step cid auto_allowed owner amount consume ref st = (st', Inr (Owner_Confirmed g s True))"
    by (auto simp: used_session_def map_prod_def split: prod.splits sum.splits step_allowed.splits if_splits)
  then show ?thesis by (rule assert_used(1) [OF assms(1)])
next
  case (Settle app_env tid hint client escrow cid)
  with assms(2,3) obtain r where r: "assert_settle_confirmation env app_env tid hint client escrow cid st = (st', r)" "a = Settled_Gate r"
    by (auto simp: map_prod_def split: prod.splits)
  from r(1) show ?thesis
  proof (cases rule: settle_cases)
    case (allowed q)
    with assms(3) r(2) obtain g where "q = Owner_Confirmed g s True" by (auto simp: used_session_def split: step_allowed.splits if_splits)
    with allowed(1) show ?thesis using assert_used(1) [OF assms(1)] by blast
  qed (use assms(3) r(2) used_session_answer [of a] in auto)
qed (use assms(2,3) in \<open>auto simp: used_session_def map_prod_def split: prod.splits\<close>)

text \<open>The run of the example, up to its third answer.\<close>

definition demo_confirmation_trace :: confirmation_trace where
  "demo_confirmation_trace = fst (confirmation_exec demo_confirmation_calls new_confirmation_store)"

lemma demo_confirmation_is_run: "confirmation_run shipped_catalog show_nat demo_confirmation_trace (snd (confirmation_exec demo_confirmation_calls new_confirmation_store))"
  using confirmation_exec_run [OF confirmation_run.start, of demo_confirmation_calls] by (simp add: demo_confirmation_trace_def)

lemma demo_confirmation_answers:
  "map (map_option cf_id \<circ> used_session \<circ> snd) demo_confirmation_trace = [None, None, Some ''cfm_0'', None]"
  "map fst demo_confirmation_trace = demo_confirmation_calls"
  by code_simp+

lemma run_settle_answer:
  "confirmation_run cat token tr st \<Longrightarrow> x \<in> set tr \<Longrightarrow> fst x = Settle app_env tid hint client escrow cid \<Longrightarrow> \<exists>r. snd x = Settled_Gate r"
  by (induction rule: confirmation_run.induct) (auto simp: map_prod_def split: prod.splits)

lemma demo_confirmation_third:
  obtains tr1 g s tr2 where "demo_confirmation_trace = tr1 @ (demo_confirmation_calls ! 2, Settled_Gate (Inr (Some (Owner_Confirmed g s True)))) # tr2"
    and "length tr1 = 2" and "cf_id s = ''cfm_0''" and "length tr2 = 1"
proof -
  have n: "length demo_confirmation_trace = 4" using arg_cong [OF demo_confirmation_answers(2), of length] by (simp add: demo_confirmation_calls_def)
  define x where "x = demo_confirmation_trace ! 2"
  have "fst x = demo_confirmation_calls ! 2" using arg_cong [OF demo_confirmation_answers(2), of "\<lambda>xs. xs ! 2"] n by (simp add: x_def)
  moreover have "map_option cf_id (used_session (snd x)) = Some ''cfm_0''"
    using arg_cong [OF demo_confirmation_answers(1), of "\<lambda>xs. xs ! 2"] n by (simp add: x_def)
  moreover have "\<exists>r. snd x = Settled_Gate r"
    using run_settle_answer [OF demo_confirmation_is_run, of x] n calculation(1) by (auto simp: x_def demo_confirmation_calls_def)
  ultimately obtain g s where x: "x = (demo_confirmation_calls ! 2, Settled_Gate (Inr (Some (Owner_Confirmed g s True))))" "cf_id s = ''cfm_0''"
    by (cases x) (auto simp: used_session_def split: sum.splits option.splits step_allowed.splits if_splits)
  have "demo_confirmation_trace = take 2 demo_confirmation_trace @ x # drop 3 demo_confirmation_trace"
    using id_take_nth_drop [of 2 demo_confirmation_trace] n by (simp add: x_def numeral_3_eq_3)
  with x n show ?thesis by (intro that [of "take 2 demo_confirmation_trace" g s "drop 3 demo_confirmation_trace"]) simp_all
qed

text \<open>
  C14. A confirmation is used at most once and only with the yes of its owner: in every run of requests, sweeps, settlement checks
  and restarts, when a check accepts a session and consumes it, the owner had confirmed exactly this question before (the same scene,
  role, step, amount and reference), and no check accepts and consumes the session a second time, before or after.
\<close>

theorem confirmation_used_once:
  assumes "confirmation_run cat token (tr1 @ (c, a) # tr2) st" and "inj token" and "used_session a = Some s"
  shows "said_yes tr1 s \<and> (\<forall>(c', a') \<in> set tr1 \<union> set tr2. \<forall>s'. used_session a' = Some s' \<longrightarrow> cf_id s' \<noteq> cf_id s)"
proof -
  obtain st0 env st1 where run: "confirmation_run cat token tr1 st0" "confirmation_do env c st0 = (st1, a)"
    by (rule confirmation_run_split [OF assms(1)])
  have "owner_confirmed tr1 s" by (rule used_confirmed [OF confirmation_run_ok [OF run(1) assms(2)] run(2) assms(3)])
  moreover have "uses (tr1 @ (c, a) # tr2) (cf_id s) \<le> 1"
  proof -
    have ok: "store_ok token (tr1 @ (c, a) # tr2) st" by (rule confirmation_run_ok [OF assms(1,2)])
    show ?thesis
    proof (cases "cf_id s \<in> fst ` set (cf_saved st)")
      case True
      then obtain t where "session_ok token (cf_drawn st) (tr1 @ (c, a) # tr2) (cf_id s) t" using ok by (force simp: store_ok_def)
      then show ?thesis by (simp add: session_ok_def)
    next
      case False
      with ok show ?thesis by (simp add: store_ok_def)
    qed
  qed
  then have "uses tr1 (cf_id s) = 0 \<and> uses tr2 (cf_id s) = 0"
    using assms(3) used_session_answer [of a] by (simp add: uses_def)
  ultimately show ?thesis
    by (auto simp: said_yes_owner uses_def filter_empty_conv used_session_answer)
qed

theorem confirmation_used_once_witness:
  "\<exists>tr1 s. said_yes tr1 s \<and> cf_id s = ''cfm_0'' \<and> length tr1 = 2"
proof -
  obtain tr1 g s tr2 where tr: "demo_confirmation_trace = tr1 @ (demo_confirmation_calls ! 2, Settled_Gate (Inr (Some (Owner_Confirmed g s True)))) # tr2"
    "length tr1 = 2" "cf_id s = ''cfm_0''" "length tr2 = 1" by (rule demo_confirmation_third)
  have "used_session (Settled_Gate (Inr (Some (Owner_Confirmed g s True)))) = Some s" by (simp add: used_session_def)
  from confirmation_used_once [OF demo_confirmation_is_run [unfolded tr(1)] inj_show_nat this] tr show ?thesis by blast
qed



text \<open>
  C33. A yes in time opens the step: the question that was put, confirmed by its owner before the deadline, is accepted by a check of the
  same step before the deadline, for every amount up to the one that was asked, and is then used.
\<close>

theorem confirmed_question_is_accepted:
  assumes "create_confirmation_session env sid role step owner amount ref auto_allowed ttl st = (st1, Inr (Asked s g ttl'))"
    and "strip owner \<noteq> []" and "oc_now env1 \<le> session_deadline s * 10 ^ 6" and "oc_now env2 \<le> session_deadline s * 10 ^ 6"
    and "oc_catalog env2 = oc_catalog env" and "\<forall>a m. paid = Some a \<longrightarrow> amount = Readable m \<longrightarrow> \<not> exceeds a m"
  shows "\<exists>st2 s2 st3 s3. decide_confirmation_session env1 (cf_id s) True msg (Some owner) st1 = (st2, Inr s2) \<and>
    assert_step_allowed env2 sid role step (Some (cf_id s)) auto_allowed (Some owner) paid True ref st2 = (st3, Inr (Owner_Confirmed g s3 True)) \<and>
    cf_status s3 = USED \<and> map_of (cf_saved st3) (cf_id s) = Some s3"
proof -
  have s: "cf_scene s = sid" "cf_role s = lower role" "cf_step s = step" "cf_owner s = owner" "cf_ref s = ref" "cf_status s = PENDING"
      "cf_max s = (case amount of Readable x \<Rightarrow> Some x | _ \<Rightarrow> None)" "cf_id s \<noteq> []" "map_of (cf_sessions st1) (cf_id s) = Some s"
      "resolve_gate (oc_catalog env) sid role step auto_allowed = Inr g" "ga_needs g"
    using assms(1) by (auto simp: create_confirmation_session_def Let_def map_of_put_row split: if_splits sum.splits)
  define s2 where "s2 = s\<lparr>cf_status := CONFIRMED, cf_decided := Some (seconds (oc_now env1)), cf_note := msg\<rparr>"
  define st2 where "st2 = persist_sessions (put_session s2 st1)"
  have s2: "cf_id s2 = cf_id s" "cf_status s2 = CONFIRMED" "session_deadline s2 = session_deadline s" by (simp_all add: s2_def session_deadline_def split: option.split)
  have intime: "expire_if_needed (oc_now env1) s = s" "expire_if_needed (oc_now env2) s2 = s2"
    using assms(3,4) s2 by (simp_all add: expire_if_needed_def)
  have yes: "decide_confirmation_session env1 (cf_id s) True msg (Some owner) st1 = (st2, Inr s2)"
    using s assms(2) intime(1) by (simp add: decide_confirmation_session_def Let_def st2_def s2_def)
  have "session_mismatch sid role step (Some owner) ref paid s = None"
    using s(1-5,7) assms(6) by (auto simp: session_mismatch_def split: option.split context_amount.split)
  moreover have "session_mismatch sid role step (Some owner) ref paid s2 = session_mismatch sid role step (Some owner) ref paid s"
    unfolding session_mismatch_def s2_def by simp
  ultimately have ok: "session_mismatch sid role step (Some owner) ref paid s2 = None" by simp
  define s3 where "s3 = s2\<lparr>cf_status := USED, cf_decided := or_now env2 (cf_decided s2)\<rparr>"
  have s3: "cf_id s3 = cf_id s" "cf_status s3 = USED" by (simp_all add: s3_def s2)
  have "map_of (cf_sessions st2) (cf_id s) = Some s2" by (simp add: st2_def s2 map_of_put_row)
  with s(8,10,11) ok intime(2) s2 assms(5)
  have "assert_step_allowed env2 sid role step (Some (cf_id s)) auto_allowed (Some owner) paid True ref st2 =
      (persist_sessions (put_session s3 st2), Inr (Owner_Confirmed g s3 True))"
    by (simp add: assert_step_allowed_def Let_def s3_def)
  moreover have "map_of (cf_saved (persist_sessions (put_session s3 st2))) (cf_id s) = Some s3" by (simp add: s3 map_of_put_row)
  ultimately show ?thesis using yes s3(2) by blast
qed

theorem confirmed_question_is_accepted_witness:
  "\<exists>st st2 s2 st3 s3 g. decide_confirmation_session demo_confirmation_env ''cfm_0'' True None (Some ''bob'') st = (st2, Inr s2) \<and>
    assert_step_allowed demo_confirmation_env ''hotel_booking'' ''buyer'' ''cancel'' (Some ''cfm_0'') False (Some ''bob'') (Some (Fin 5)) True None st2 =
      (st3, Inr (Owner_Confirmed g s3 True))"
proof -
  have "case create_confirmation_session demo_confirmation_env ''hotel_booking'' ''buyer'' ''cancel'' ''bob'' (Readable (Fin 5)) None False None new_confirmation_store of
      (st, Inr (Asked s g ttl)) \<Rightarrow> cf_id s = ''cfm_0'' \<and> session_deadline s = 1800 | _ \<Rightarrow> False" by code_simp
  then obtain st s g ttl where s: "create_confirmation_session demo_confirmation_env ''hotel_booking'' ''buyer'' ''cancel'' ''bob'' (Readable (Fin 5)) None False None
      new_confirmation_store = (st, Inr (Asked s g ttl))" "cf_id s = ''cfm_0''" "session_deadline s = 1800"
    by (auto split: prod.splits sum.splits created_session.splits)
  have *: "strip ''bob'' \<noteq> []" "oc_now demo_confirmation_env = 0" by code_simp+
  have "\<not> exceeds (Fin 5) (Fin 5)" by simp
  with confirmed_question_is_accepted [OF s(1) *(1), of demo_confirmation_env demo_confirmation_env "Some (Fin 5)" None] s(2,3) *(2)
  show ?thesis by (auto simp del: exceeds.simps) blast
qed

text \<open>
  The check of a settlement does not look at the task: a confirmation that lets one task of a client settle lets any other
  task of the client settle in its place, although the question names the task.
\<close>

theorem confirmation_serves_any_task:
  assumes "assert_settle_confirmation env app_env tid hint client escrow cid st = (st', Inr r)"
  shows "assert_settle_confirmation env app_env tid' hint client escrow cid st = (st', Inr r)"
proof -
  obtain st1 r1 where "assert_step_allowed env (strip hint) ''buyer'' ''buyer_accept_settle'' cid False (Some client) (Some (Fin escrow)) True None st = (st1, r1)"
    by fastforce
  with assms show ?thesis by (cases r1) (auto simp: assert_settle_confirmation_def Let_def split: if_splits sum.splits prod.splits)
qed

theorem confirmation_serves_any_task_witness:
  "\<exists>st st' r. assert_settle_confirmation demo_confirmation_env (Some ''production'') ''t2'' ''hotel_booking'' ''bob'' 100 (Some ''cfm_0'') st = (st', Inr (Some r))"
proof -
  define st where "st = snd (confirmation_exec (take 2 demo_confirmation_calls) new_confirmation_store)"
  have "case assert_settle_confirmation demo_confirmation_env (Some ''production'') ''t1'' ''hotel_booking'' ''bob'' 100 (Some ''cfm_0'') st of
      (st', Inr (Some r)) \<Rightarrow> True | _ \<Rightarrow> False" unfolding st_def by code_simp
  then obtain st' r where "assert_settle_confirmation demo_confirmation_env (Some ''production'') ''t1'' ''hotel_booking'' ''bob'' 100 (Some ''cfm_0'') st = (st', Inr (Some r))"
    by (auto split: prod.splits sum.splits option.splits)
  from confirmation_serves_any_task [OF this, of "''t2''"] show ?thesis by blast
qed

end
