(* ===== verification/Accept_Fulfillment.thy ===== *)
theory Accept_Fulfillment
  imports Owner_Confirmation
begin

text \<open>
  The seller's side of an order (\<^verbatim>\<open>services/accept_fulfillment.py\<close>): a seller who lets the question for an order expire, or says no,
  gets an entry in a ledger; with more of them the rules get stricter, and an order the seller accepts arms a liability. The routes of
  \<^verbatim>\<open>api/routes/confirmations.py\<close> and the seller's step of \<^verbatim>\<open>services/intent_fulfillment.py\<close> are composed of these operations and of the
  confirmation sessions. The catalog is \<^verbatim>\<open>packages/evidence-schema/accept-fulfillment.v1.json\<close>, given here in full. In the rules of a
  scene a missing key is \<open>None\<close>. \<open>hits\<close> are the calls that lower the reputation of a seller, in their order; the file of the ledger and
  the notes for display are left out.
\<close>

section \<open>Rules\<close>

record accept_threshold =
  at_count :: int
  at_tier :: string
  at_mult :: rat
  at_force :: bool
  at_scale :: rat
  at_demote :: bool

record breach_rules =
  br_armed :: "bool option"
  br_bond :: "int option"
  br_comp :: "int option"
  br_cure :: "int option"

record accept_rules =
  ar_ttl :: "int option"
  ar_on_timeout :: "string option"
  ar_delta_timeout :: "rat option"
  ar_delta_reject :: "rat option"
  ar_max_hit :: "rat option"
  ar_thresholds :: "accept_threshold list"
  ar_breach :: breach_rules
  ar_high_risk :: "bool option"
  ar_force :: "bool option"

record accept_catalog =
  ac_defaults :: accept_rules
  ac_scenes :: "(string \<times> accept_rules) list"

definition shipped_accept_catalog :: accept_catalog where
  "shipped_accept_catalog = \<lparr>
     ac_defaults =
          \<lparr>ar_ttl = Some 1800, ar_on_timeout = Some ''cancel_intent'', ar_delta_timeout = Some (- 2),
           ar_delta_reject = Some (- 3), ar_max_hit = Some 5,
           ar_thresholds = [\<lparr>at_count = 3, at_tier = ''elevated'', at_mult = 3 / 2, at_force = True, at_scale = 3 / 4, at_demote = False\<rparr>,
             \<lparr>at_count = 7, at_tier = ''strict'', at_mult = 5 / 2, at_force = True, at_scale = 1 / 2, at_demote = False\<rparr>,
             \<lparr>at_count = 15, at_tier = ''restricted'', at_mult = 4, at_force = True, at_scale = 7 / 20, at_demote = True\<rparr>],
           ar_breach = \<lparr>br_armed = Some True, br_bond = Some 500, br_comp = Some 1000, br_cure = Some 0\<rparr>,
           ar_high_risk = None, ar_force = None\<rparr>,
     ac_scenes =
      [(''food_delivery'',
          \<lparr>ar_ttl = Some 300, ar_on_timeout = Some ''cancel_and_rediscover'', ar_delta_timeout = Some (- 2),
           ar_delta_reject = Some (- 2), ar_max_hit = None,
           ar_thresholds = [],
           ar_breach = \<lparr>br_armed = None, br_bond = Some 300, br_comp = Some 800, br_cure = Some 600\<rparr>,
           ar_high_risk = None, ar_force = None\<rparr>),
       (''ride_hailing'',
          \<lparr>ar_ttl = Some 120, ar_on_timeout = Some ''cancel_and_rediscover'', ar_delta_timeout = Some (- 2),
           ar_delta_reject = Some (- 3), ar_max_hit = None,
           ar_thresholds = [],
           ar_breach = \<lparr>br_armed = None, br_bond = Some 400, br_comp = Some 1000, br_cure = Some 300\<rparr>,
           ar_high_risk = None, ar_force = None\<rparr>),
       (''hotel_booking'',
          \<lparr>ar_ttl = Some 900, ar_on_timeout = Some ''cancel_intent'', ar_delta_timeout = None,
           ar_delta_reject = None, ar_max_hit = None,
           ar_thresholds = [],
           ar_breach = \<lparr>br_armed = None, br_bond = Some 800, br_comp = Some 1500, br_cure = Some 3600\<rparr>,
           ar_high_risk = None, ar_force = None\<rparr>),
       (''flight_booking'',
          \<lparr>ar_ttl = Some 900, ar_on_timeout = Some ''cancel_intent'', ar_delta_timeout = None,
           ar_delta_reject = None, ar_max_hit = None,
           ar_thresholds = [],
           ar_breach = \<lparr>br_armed = None, br_bond = Some 1000, br_comp = Some 2000, br_cure = Some 1800\<rparr>,
           ar_high_risk = None, ar_force = None\<rparr>),
       (''logistics_delivery'',
          \<lparr>ar_ttl = Some 1800, ar_on_timeout = Some ''cancel_and_rediscover'', ar_delta_timeout = None,
           ar_delta_reject = None, ar_max_hit = None,
           ar_thresholds = [],
           ar_breach = \<lparr>br_armed = None, br_bond = Some 600, br_comp = Some 1200, br_cure = Some 7200\<rparr>,
           ar_high_risk = None, ar_force = None\<rparr>),
       (''b2b_procurement'',
          \<lparr>ar_ttl = Some 86400, ar_on_timeout = Some ''cancel_intent'', ar_delta_timeout = Some (- 3),
           ar_delta_reject = Some (- 4), ar_max_hit = None,
           ar_thresholds = [],
           ar_breach = \<lparr>br_armed = None, br_bond = Some 1000, br_comp = Some 2000, br_cure = Some 86400\<rparr>,
           ar_high_risk = None, ar_force = None\<rparr>),
       (''data_api_billing'',
          \<lparr>ar_ttl = Some 600, ar_on_timeout = Some ''cancel_intent'', ar_delta_timeout = None,
           ar_delta_reject = None, ar_max_hit = None,
           ar_thresholds = [],
           ar_breach = \<lparr>br_armed = None, br_bond = Some 500, br_comp = Some 1000, br_cure = Some 0\<rparr>,
           ar_high_risk = None, ar_force = None\<rparr>),
       (''api_tool_call'',
          \<lparr>ar_ttl = Some 300, ar_on_timeout = Some ''cancel_and_rediscover'', ar_delta_timeout = None,
           ar_delta_reject = None, ar_max_hit = None,
           ar_thresholds = [],
           ar_breach = \<lparr>br_armed = None, br_bond = Some 300, br_comp = Some 800, br_cure = Some 0\<rparr>,
           ar_high_risk = None, ar_force = None\<rparr>),
       (''software_development'',
          \<lparr>ar_ttl = Some 172800, ar_on_timeout = Some ''cancel_intent'', ar_delta_timeout = Some (- 3),
           ar_delta_reject = None, ar_max_hit = None,
           ar_thresholds = [],
           ar_breach = \<lparr>br_armed = None, br_bond = Some 1200, br_comp = Some 2500, br_cure = Some 259200\<rparr>,
           ar_high_risk = None, ar_force = None\<rparr>),
       (''design_creative'',
          \<lparr>ar_ttl = Some 86400, ar_on_timeout = Some ''cancel_intent'', ar_delta_timeout = None,
           ar_delta_reject = None, ar_max_hit = None,
           ar_thresholds = [],
           ar_breach = \<lparr>br_armed = None, br_bond = Some 800, br_comp = Some 1500, br_cure = Some 86400\<rparr>,
           ar_high_risk = None, ar_force = None\<rparr>),
       (''consulting_advisory'',
          \<lparr>ar_ttl = Some 86400, ar_on_timeout = Some ''cancel_intent'', ar_delta_timeout = None,
           ar_delta_reject = None, ar_max_hit = None,
           ar_thresholds = [],
           ar_breach = \<lparr>br_armed = None, br_bond = Some 800, br_comp = Some 1500, br_cure = Some 86400\<rparr>,
           ar_high_risk = None, ar_force = None\<rparr>),
       (''content_creation'',
          \<lparr>ar_ttl = Some 43200, ar_on_timeout = Some ''cancel_and_rediscover'', ar_delta_timeout = None,
           ar_delta_reject = None, ar_max_hit = None,
           ar_thresholds = [],
           ar_breach = \<lparr>br_armed = None, br_bond = Some 500, br_comp = Some 1200, br_cure = Some 43200\<rparr>,
           ar_high_risk = None, ar_force = None\<rparr>),
       (''manufacturing'',
          \<lparr>ar_ttl = Some 172800, ar_on_timeout = Some ''cancel_intent'', ar_delta_timeout = Some (- 4),
           ar_delta_reject = Some (- 4), ar_max_hit = None,
           ar_thresholds = [],
           ar_breach = \<lparr>br_armed = None, br_bond = Some 1500, br_comp = Some 3000, br_cure = Some 259200\<rparr>,
           ar_high_risk = None, ar_force = None\<rparr>),
       (''real_estate_services'',
          \<lparr>ar_ttl = Some 86400, ar_on_timeout = Some ''cancel_intent'', ar_delta_timeout = None,
           ar_delta_reject = None, ar_max_hit = None,
           ar_thresholds = [],
           ar_breach = \<lparr>br_armed = None, br_bond = Some 1000, br_comp = Some 2000, br_cure = Some 86400\<rparr>,
           ar_high_risk = None, ar_force = None\<rparr>),
       (''financial_services'',
          \<lparr>ar_ttl = Some 3600, ar_on_timeout = Some ''cancel_intent'', ar_delta_timeout = Some (- 4),
           ar_delta_reject = Some (- 5), ar_max_hit = None,
           ar_thresholds = [],
           ar_breach = \<lparr>br_armed = None, br_bond = Some 2000, br_comp = Some 3000, br_cure = Some 0\<rparr>,
           ar_high_risk = Some True, ar_force = Some True\<rparr>),
       (''marketing_advertising'',
          \<lparr>ar_ttl = Some 43200, ar_on_timeout = Some ''cancel_intent'', ar_delta_timeout = None,
           ar_delta_reject = None, ar_max_hit = None,
           ar_thresholds = [],
           ar_breach = \<lparr>br_armed = None, br_bond = Some 700, br_comp = Some 1500, br_cure = Some 43200\<rparr>,
           ar_high_risk = None, ar_force = None\<rparr>),
       (''education_training'',
          \<lparr>ar_ttl = Some 43200, ar_on_timeout = Some ''cancel_and_rediscover'', ar_delta_timeout = None,
           ar_delta_reject = None, ar_max_hit = None,
           ar_thresholds = [],
           ar_breach = \<lparr>br_armed = None, br_bond = Some 600, br_comp = Some 1200, br_cure = Some 86400\<rparr>,
           ar_high_risk = None, ar_force = None\<rparr>),
       (''healthcare_medical'',
          \<lparr>ar_ttl = Some 1800, ar_on_timeout = Some ''cancel_intent'', ar_delta_timeout = Some (- 5),
           ar_delta_reject = Some (- 5), ar_max_hit = None,
           ar_thresholds = [],
           ar_breach = \<lparr>br_armed = None, br_bond = Some 2500, br_comp = Some 3500, br_cure = Some 0\<rparr>,
           ar_high_risk = Some True, ar_force = Some True\<rparr>)]\<rparr>"

text \<open>A key of the scene replaces the one of the defaults.\<close>

definition override :: "'a option \<Rightarrow> 'a option \<Rightarrow> 'a option" where
  "override dflt x = (case x of None \<Rightarrow> dflt | Some v \<Rightarrow> Some v)"

definition no_rules :: accept_rules where
  "no_rules = \<lparr>ar_ttl = None, ar_on_timeout = None, ar_delta_timeout = None, ar_delta_reject = None, ar_max_hit = None, ar_thresholds = [],
     ar_breach = \<lparr>br_armed = None, br_bond = None, br_comp = None, br_cure = None\<rparr>, ar_high_risk = None, ar_force = None\<rparr>"

definition accept_scene_policy :: "accept_catalog \<Rightarrow> string \<Rightarrow> accept_rules" where
  "accept_scene_policy cat sid =
     (let d = ac_defaults cat; sc = (case map_of (ac_scenes cat) sid of None \<Rightarrow> no_rules | Some r \<Rightarrow> r); db = ar_breach d; sb = ar_breach sc in
      \<lparr>ar_ttl = override (ar_ttl d) (ar_ttl sc), ar_on_timeout = override (ar_on_timeout d) (ar_on_timeout sc),
       ar_delta_timeout = override (ar_delta_timeout d) (ar_delta_timeout sc), ar_delta_reject = override (ar_delta_reject d) (ar_delta_reject sc),
       ar_max_hit = override (ar_max_hit d) (ar_max_hit sc), ar_thresholds = (if ar_thresholds sc = [] then ar_thresholds d else ar_thresholds sc),
       ar_breach = \<lparr>br_armed = override (br_armed db) (br_armed sb), br_bond = override (br_bond db) (br_bond sb),
                    br_comp = override (br_comp db) (br_comp sb), br_cure = override (br_cure db) (br_cure sb)\<rparr>,
       ar_high_risk = override (ar_high_risk d) (ar_high_risk sc), ar_force = override (ar_force d) (ar_force sc)\<rparr>)"

text \<open>\<open>x or d\<close> of a number that may be missing.\<close>

definition or_default :: "('a :: zero) option \<Rightarrow> 'a \<Rightarrow> 'a" where
  "or_default x d = (case x of None \<Rightarrow> d | Some v \<Rightarrow> if v = 0 then d else v)"

definition int_of :: "rat \<Rightarrow> int" where
  "int_of x = (if 0 \<le> x then \<lfloor>x\<rfloor> else \<lceil>x\<rceil>)"

text \<open>The last threshold that the count has reached. High risk scenes always ask the owner.\<close>

definition threshold_for_count :: "accept_catalog \<Rightarrow> int \<Rightarrow> string \<Rightarrow> accept_threshold" where
  "threshold_for_count cat n sid =
     (let pol = accept_scene_policy cat sid; force = (ar_force pol = Some True);
          start = \<lparr>at_count = 0, at_tier = ''normal'', at_mult = 1, at_force = force, at_scale = 1, at_demote = False\<rparr>;
          step = (\<lambda>act t. if at_count t \<le> n
                          then \<lparr>at_count = at_count t, at_tier = (if at_tier t = [] then ''elevated'' else at_tier t), at_mult = or_default (Some (at_mult t)) 1,
                                at_force = (at_force t \<or> force), at_scale = or_default (Some (at_scale t)) 1, at_demote = at_demote t\<rparr>
                          else act);
          act = foldl step start (sort_key at_count (ar_thresholds pol))
      in if ar_high_risk pol = Some True \<or> force then act\<lparr>at_force := True\<rparr> else act)"

definition TIER_RANK :: "(string \<times> int) list" where
  "TIER_RANK = [(''normal'', 3), (''elevated'', 2), (''strict'', 1), (''restricted'', 0)]"

section \<open>The ledger of sellers\<close>

record scene_counts =
  sc_non_confirm :: int
  sc_timeout :: int
  sc_reject :: int

record seller_entry =
  se_non_confirm :: int
  se_timeout :: int
  se_reject :: int
  se_confirm :: int
  se_delta :: rat
  se_last :: "int option"
  se_scenes :: "(string \<times> scene_counts) list"

datatype accept_outcome = Non_Confirm | Confirmed_Order

datatype accept_reason = Timeout | Reject | Accept

record accept_event =
  ae_id :: nat
  ae_outcome :: accept_outcome
  ae_reason :: accept_reason
  ae_seller :: string
  ae_scene :: string
  ae_ref :: "string option"
  ae_session :: "string option"
  ae_amount :: "py_float option"
  ae_delta :: "rat option"
  ae_at :: int
  ae_after :: "int option"

record accept_ledger =
  sellers :: "(string \<times> seller_entry) list"
  accept_events :: "accept_event list"

datatype accept_error = AcceptFulfillmentError string

record accept_env =
  ae_env :: confirmation_env
  ae_rules :: accept_catalog

definition new_seller_entry :: seller_entry where
  "new_seller_entry = \<lparr>se_non_confirm = 0, se_timeout = 0, se_reject = 0, se_confirm = 0, se_delta = 0, se_last = None, se_scenes = []\<rparr>"

definition new_accept_ledger :: accept_ledger where
  "new_accept_ledger = \<lparr>sellers = [], accept_events = []\<rparr>"

definition entry_of :: "string \<Rightarrow> accept_ledger \<Rightarrow> seller_entry" where
  "entry_of seller l = (case map_of (sellers l) seller of None \<Rightarrow> new_seller_entry | Some e \<Rightarrow> e)"

text \<open>The entry of a profile is looked up under the stripped name, and made if it is missing.\<close>

definition seller_entry_of :: "string \<Rightarrow> accept_ledger \<Rightarrow> accept_ledger \<times> (accept_error + seller_entry)" where
  "seller_entry_of seller l =
     (let sid = strip seller in
      if sid = [] then (l, Inl (AcceptFulfillmentError ''seller_id required''))
      else case map_of (sellers l) sid of
        Some e \<Rightarrow> (l, Inr e)
      | None \<Rightarrow> (l\<lparr>sellers := put_row sid new_seller_entry (sellers l)\<rparr>, Inr new_seller_entry))"

record seller_profile =
  sp_non_confirm :: int
  sp_timeout :: int
  sp_reject :: int
  sp_confirm :: int
  sp_rank :: int
  sp_delta :: rat
  sp_threshold :: accept_threshold
  sp_last :: "int option"

definition seller_risk_profile :: "accept_catalog \<Rightarrow> string \<Rightarrow> string \<Rightarrow> accept_ledger \<Rightarrow> accept_ledger \<times> (accept_error + seller_profile)" where
  "seller_risk_profile cat seller sid l =
     (case seller_entry_of seller l of
        (l', Inl e) \<Rightarrow> (l', Inl e)
      | (l', Inr e) \<Rightarrow>
          (let t = threshold_for_count cat (se_non_confirm e) sid in
           (l', Inr \<lparr>sp_non_confirm = se_non_confirm e, sp_timeout = se_timeout e, sp_reject = se_reject e, sp_confirm = se_confirm e,
                     sp_rank = (case map_of TIER_RANK (at_tier t) of None \<Rightarrow> 3 | Some r \<Rightarrow> r), sp_delta = se_delta e, sp_threshold = t, sp_last = se_last e\<rparr>)))"

definition seller_requires_forced_confirm :: "accept_catalog \<Rightarrow> string \<Rightarrow> string \<Rightarrow> accept_ledger \<Rightarrow> accept_ledger \<times> (accept_error + bool)" where
  "seller_requires_forced_confirm cat seller sid l = map_prod id (map_sum id (at_force \<circ> sp_threshold)) (seller_risk_profile cat seller sid l)"

definition scene_accept_ttl_seconds :: "accept_catalog \<Rightarrow> string \<Rightarrow> string option \<Rightarrow> accept_ledger \<Rightarrow> accept_ledger \<times> (accept_error + int)" where
  "scene_accept_ttl_seconds cat sid seller l =
     (let ttl = or_default (ar_ttl (accept_scene_policy cat sid)) 1800 in
      case seller of
        None \<Rightarrow> (l, Inr ttl)
      | Some x \<Rightarrow>
          if x = [] then (l, Inr ttl)
          else map_prod id (map_sum id (\<lambda>p. max 60 (int_of (of_int ttl * at_scale (sp_threshold p))))) (seller_risk_profile cat x sid l))"

text \<open>The event that is already there for a session.\<close>

definition find_event :: "string option \<Rightarrow> (accept_event \<Rightarrow> bool) \<Rightarrow> accept_ledger \<Rightarrow> accept_event option" where
  "find_event session P l =
     (case session of
        None \<Rightarrow> None
      | Some s \<Rightarrow> if s = [] then None else find (\<lambda>e. ae_session e = Some s \<and> P e) (accept_events l))"

definition reputation_delta :: "accept_catalog \<Rightarrow> string \<Rightarrow> accept_reason \<Rightarrow> rat" where
  "reputation_delta cat sid reason =
     (let pol = accept_scene_policy cat sid; max_hit = or_default (ar_max_hit pol) 5;
          d = (if reason = Timeout then or_default (ar_delta_timeout pol) (- 2) else or_default (ar_delta_reject pol) (- 3))
      in max (- max_hit) (min 0 d))"

definition count_non_confirm :: "accept_reason \<Rightarrow> string \<Rightarrow> rat \<Rightarrow> int \<Rightarrow> seller_entry \<Rightarrow> seller_entry" where
  "count_non_confirm reason sid delta now e =
     (let sc = (case map_of (se_scenes e) sid of None \<Rightarrow> \<lparr>sc_non_confirm = 0, sc_timeout = 0, sc_reject = 0\<rparr> | Some c \<Rightarrow> c) in
      e\<lparr>se_non_confirm := se_non_confirm e + 1,
        se_timeout := (if reason = Timeout then se_timeout e + 1 else se_timeout e),
        se_reject := (if reason = Timeout then se_reject e else se_reject e + 1),
        se_delta := se_delta e + delta, se_last := Some now,
        se_scenes := put_row sid (sc\<lparr>sc_non_confirm := sc_non_confirm sc + 1,
                                     sc_timeout := (if reason = Timeout then sc_timeout sc + 1 else sc_timeout sc),
                                     sc_reject := (if reason = Timeout then sc_reject sc else sc_reject sc + 1)\<rparr>) (se_scenes e)\<rparr>)"

text \<open>With more than 5000 events the last 4000 are kept.\<close>

definition trim_events :: "accept_event list \<Rightarrow> accept_event list" where
  "trim_events es = (if 5000 < int (length es) then drop (length es - nat 4000) es else es)"

record non_confirm_result =
  nc_idempotent :: bool
  nc_event :: accept_event
  nc_delta :: rat
  nc_profile :: seller_profile

definition record_seller_non_confirm ::
    "accept_env \<Rightarrow> string \<Rightarrow> string \<Rightarrow> string option \<Rightarrow> accept_reason \<Rightarrow> string option \<Rightarrow> py_float option \<Rightarrow> accept_ledger \<Rightarrow>
     accept_ledger \<times> (accept_error + non_confirm_result)" where
  "record_seller_non_confirm env seller sid ref reason session amount l =
     (if reason \<notin> {Timeout, Reject} then (l, Inl (AcceptFulfillmentError ''reason must be timeout|reject''))
      else
        let delta = reputation_delta (ae_rules env) sid reason; now = seconds (oc_now (ae_env env));
            old = find_event session (\<lambda>e. ae_reason e = reason \<and> ae_outcome e = Non_Confirm) l;
            entry = count_non_confirm reason sid delta now (entry_of seller l);
            event = \<lparr>ae_id = length (accept_events l) + 1, ae_outcome = Non_Confirm, ae_reason = reason, ae_seller = seller, ae_scene = sid, ae_ref = ref,
                     ae_session = session, ae_amount = amount, ae_delta = Some delta, ae_at = now, ae_after = Some (se_non_confirm entry)\<rparr>;
            l1 = (case old of
                    Some e \<Rightarrow> l
                  | None \<Rightarrow> l\<lparr>sellers := put_row seller entry (sellers l), accept_events := trim_events (accept_events l @ [event])\<rparr>)
        in case seller_risk_profile (ae_rules env) seller sid l1 of
             (l2, Inl e) \<Rightarrow> (l2, Inl e)
           | (l2, Inr p) \<Rightarrow>
               (l2, Inr (case old of
                           Some e \<Rightarrow> \<lparr>nc_idempotent = True, nc_event = e, nc_delta = or_default (ae_delta e) delta, nc_profile = p\<rparr>
                         | None \<Rightarrow> \<lparr>nc_idempotent = False, nc_event = event, nc_delta = delta, nc_profile = p\<rparr>)))"

section \<open>Liability\<close>

record breach_liability =
  bl_armed :: bool
  bl_amount :: rat
  bl_mult :: rat
  bl_base_bps :: int
  bl_bond_bps :: int
  bl_bond :: rat
  bl_comp_bps :: int
  bl_comp :: rat
  bl_cure :: int

definition arm_post_confirm_liability ::
    "accept_env \<Rightarrow> string \<Rightarrow> string \<Rightarrow> rat \<Rightarrow> accept_ledger \<Rightarrow> accept_ledger \<times> (accept_error + breach_liability)" where
  "arm_post_confirm_liability env seller sid amount l =
     (let b = ar_breach (accept_scene_policy (ae_rules env) sid) in
      case seller_risk_profile (ae_rules env) seller sid l of
        (l', Inl e) \<Rightarrow> (l', Inl e)
      | (l', Inr p) \<Rightarrow>
          (let mult = at_mult (sp_threshold p); base = or_default (br_bond b) 500; comp = or_default (br_comp b) 1000;
               bond_bps = round_half_even (of_int base * mult); comp_bps = round_half_even (of_int comp * mult); amt = max 0 amount
           in (l', Inr \<lparr>bl_armed = (br_armed b \<noteq> Some False), bl_amount = amt, bl_mult = mult, bl_base_bps = base, bl_bond_bps = bond_bps,
                        bl_bond = py_round (amt * of_int bond_bps / 10000) 6, bl_comp_bps = comp_bps, bl_comp = py_round (amt * of_int comp_bps / 10000) 6,
                        bl_cure = or_default (br_cure b) 0\<rparr>)))"

definition compute_breach_compensation ::
    "accept_env \<Rightarrow> string \<Rightarrow> string \<Rightarrow> rat \<Rightarrow> rat \<Rightarrow> accept_ledger \<Rightarrow> accept_ledger \<times> (accept_error + breach_liability \<times> rat)" where
  "compute_breach_compensation env seller sid amount fraction l =
     map_prod id (map_sum id (\<lambda>b. (b, py_round (bl_comp b * max 0 (min 1 fraction)) 6))) (arm_post_confirm_liability env seller sid amount l)"

record confirm_result =
  cr_idempotent :: bool
  cr_event :: accept_event
  cr_liability :: breach_liability
  cr_profile :: seller_profile

definition record_seller_confirm ::
    "accept_env \<Rightarrow> string \<Rightarrow> string \<Rightarrow> string option \<Rightarrow> string option \<Rightarrow> rat \<Rightarrow> accept_ledger \<Rightarrow> accept_ledger \<times> (accept_error + confirm_result)" where
  "record_seller_confirm env seller sid ref session amount l =
     (let now = seconds (oc_now (ae_env env)); old = find_event session (\<lambda>e. ae_outcome e = Confirmed_Order) l;
          entry = (let e = entry_of seller l in e\<lparr>se_confirm := se_confirm e + 1, se_last := Some now\<rparr>);
          event = \<lparr>ae_id = length (accept_events l) + 1, ae_outcome = Confirmed_Order, ae_reason = Accept, ae_seller = seller, ae_scene = sid, ae_ref = ref,
                   ae_session = session, ae_amount = Some (Fin amount), ae_delta = None, ae_at = now, ae_after = None\<rparr>;
          l1 = (case old of Some e \<Rightarrow> l | None \<Rightarrow> l\<lparr>sellers := put_row seller entry (sellers l), accept_events := accept_events l @ [event]\<rparr>)
      in case arm_post_confirm_liability env seller sid amount l1 of
           (l2, Inl e) \<Rightarrow> (l2, Inl e)
         | (l2, Inr b) \<Rightarrow>
             (case seller_risk_profile (ae_rules env) seller sid l2 of
                (l3, Inl e) \<Rightarrow> (l3, Inl e)
              | (l3, Inr p) \<Rightarrow> (l3, Inr \<lparr>cr_idempotent = (old \<noteq> None), cr_event = (case old of Some e \<Rightarrow> e | None \<Rightarrow> event), cr_liability = b, cr_profile = p\<rparr>)))"

section \<open>Expired questions\<close>

record accept_state =
  questions :: confirmation_store
  seller_ledger :: accept_ledger
  hits :: "(string \<times> rat) list"

definition new_accept_state :: accept_state where
  "new_accept_state = \<lparr>questions = new_confirmation_store, seller_ledger = new_accept_ledger, hits = []\<rparr>"

text \<open>The result of a recorded timeout has its change of reputation in \<open>to_delta\<close>, that of one recorded before in \<open>to_event\<close>.\<close>

record timeout_result =
  to_seller :: string
  to_on_timeout :: string
  to_delta :: "rat option"
  to_event :: "rat option"
  to_idempotent :: bool

definition scene_or_api :: "string \<Rightarrow> string" where
  "scene_or_api sid = (if sid = [] then ''api_tool_call'' else sid)"

definition timeout_of :: "accept_env \<Rightarrow> confirmation_session \<Rightarrow> non_confirm_result \<Rightarrow> bool \<Rightarrow> timeout_result" where
  "timeout_of env s r again =
     \<lparr>to_seller = cf_owner s,
      to_on_timeout = (case ar_on_timeout (accept_scene_policy (ae_rules env) (scene_or_api (cf_scene s))) of
                         None \<Rightarrow> ''cancel_intent'' | Some x \<Rightarrow> if x = [] then ''cancel_intent'' else x),
      to_delta = Some (nc_delta r), to_event = None, to_idempotent = again\<rparr>"

definition process_expired_seller_session ::
    "accept_env \<Rightarrow> string \<Rightarrow> accept_state \<Rightarrow> accept_state \<times> (accept_error + timeout_result option)" where
  "process_expired_seller_session env cid st =
     (case get_confirmation_session (ae_env env) cid (questions st) of
        (q, Inl e) \<Rightarrow> (st\<lparr>questions := q\<rparr>, Inr None)
      | (q, Inr s) \<Rightarrow>
          (let st1 = st\<lparr>questions := q\<rparr>; again = (cf_status s = CANCELLED \<and> cf_cancel s = Some ''seller_accept_timeout'') in
           if cf_role s \<noteq> ''seller'' \<or> cf_step s \<noteq> ''accept_order'' then (st1, Inr None)
           else if \<not> again \<and> cf_status s \<noteq> EXPIRED then (st1, Inr None)
           else case record_seller_non_confirm env (cf_owner s) (scene_or_api (cf_scene s)) (cf_ref s) Timeout (Some cid) (cf_max s) (seller_ledger st1) of
             (l, Inl e) \<Rightarrow> (st1\<lparr>seller_ledger := l\<rparr>, Inl e)
           | (l, Inr r) \<Rightarrow>
               (let st2 = st1\<lparr>seller_ledger := l\<rparr>;
                    q2 = (if again then q else fst (mark_session_expired_cancelled (ae_env env) cid ''seller_accept_timeout'' q))
                in (st2\<lparr>questions := q2\<rparr>, Inr (Some (timeout_of env s r again))))))"

text \<open>An error of the ledger leaves what was processed before it.\<close>

fun expire_each_accept :: "accept_env \<Rightarrow> string list \<Rightarrow> accept_state \<Rightarrow> accept_state \<times> (accept_error + timeout_result list)" where
  "expire_each_accept env [] st = (st, Inr [])"
| "expire_each_accept env (cid # cids) st =
     (case get_confirmation_session (ae_env env) cid (questions st) of
        (q, Inl e) \<Rightarrow> expire_each_accept env cids (st\<lparr>questions := q\<rparr>)
      | (q, Inr s) \<Rightarrow>
          if cf_status s \<noteq> EXPIRED then expire_each_accept env cids (st\<lparr>questions := q\<rparr>)
          else case process_expired_seller_session env cid (st\<lparr>questions := q\<rparr>) of
            (st1, Inl e) \<Rightarrow> (st1, Inl e)
          | (st1, Inr out) \<Rightarrow>
              (case expire_each_accept env cids st1 of
                 (st2, Inl e) \<Rightarrow> (st2, Inl e)
               | (st2, Inr outs) \<Rightarrow> (st2, Inr (case out of None \<Rightarrow> outs | Some x \<Rightarrow> x # outs))))"

definition expire_pending_seller_accepts :: "accept_env \<Rightarrow> int \<Rightarrow> accept_state \<Rightarrow> accept_state \<times> (accept_error + timeout_result list)" where
  "expire_pending_seller_accepts env limit st =
     (case list_pending_seller_accept_sessions (ae_env env) limit (questions st) of
        (q, ss) \<Rightarrow> expire_each_accept env (filter (\<lambda>k. k \<noteq> []) (map cf_id ss)) (st\<lparr>questions := q\<rparr>))"

fun first_expired :: "accept_env \<Rightarrow> string list \<Rightarrow> accept_state \<Rightarrow> accept_state \<times> (accept_error + timeout_result option)" where
  "first_expired env [] st = (st, Inr None)"
| "first_expired env (cid # cids) st =
     (case get_confirmation_session (ae_env env) cid (questions st) of
        (q, Inl e) \<Rightarrow> first_expired env cids (st\<lparr>questions := q\<rparr>)
      | (q, Inr s) \<Rightarrow>
          if cf_status s = EXPIRED then process_expired_seller_session env cid (st\<lparr>questions := q\<rparr>)
          else first_expired env cids (st\<lparr>questions := q\<rparr>))"

definition check_interaction_seller_timeout ::
    "accept_env \<Rightarrow> string \<Rightarrow> string option \<Rightarrow> string \<Rightarrow> string option \<Rightarrow> accept_state \<Rightarrow> accept_state \<times> (accept_error + timeout_result option)" where
  "check_interaction_seller_timeout env seller ref sid session st =
     (case (if nonempty_arg session then process_expired_seller_session env (the session) st else (st, Inr None)) of
        (st1, Inl e) \<Rightarrow> (st1, Inl e)
      | (st1, Inr (Some x)) \<Rightarrow> (st1, Inr (Some x))
      | (st1, Inr None) \<Rightarrow>
          if \<not> nonempty_arg ref then (st1, Inr None)
          else case find (\<lambda>e. ae_seller e = seller \<and> ae_ref e = ref \<and> ae_reason e = Timeout \<and> ae_outcome e = Non_Confirm) (rev (accept_events (seller_ledger st1))) of
            Some e \<Rightarrow>
              (case seller_risk_profile (ae_rules env) seller sid (seller_ledger st1) of
                 (l, Inl err) \<Rightarrow> (st1\<lparr>seller_ledger := l\<rparr>, Inl err)
               | (l, Inr p) \<Rightarrow>
                   (st1\<lparr>seller_ledger := l\<rparr>,
                    Inr (Some \<lparr>to_seller = seller, to_on_timeout = ''cancel_intent'', to_delta = None, to_event = ae_delta e, to_idempotent = True\<rparr>)))
          | None \<Rightarrow>
              (case list_pending_seller_accept_sessions (ae_env env) 200 (questions st1) of
                 (q, ss) \<Rightarrow>
                   first_expired env (filter (\<lambda>k. k \<noteq> []) (map cf_id (filter (\<lambda>s. cf_owner s = seller \<and> cf_ref s = ref) ss))) (st1\<lparr>questions := q\<rparr>)))"

section \<open>The routes of the confirmations\<close>

text \<open>
  \<open>record_seller_non_confirm_reputation\<close> is called with the reported change, or a default for none; the score it leaves is
  \<open>lower_score\<close>.
\<close>

definition lower_score :: "rat \<Rightarrow> rat \<Rightarrow> rat" where
  "lower_score score delta = max 0 (score + max (- 5) (min 0 delta))"

definition hit :: "string \<Rightarrow> rat option \<Rightarrow> rat \<Rightarrow> accept_state \<Rightarrow> accept_state" where
  "hit seller delta dflt st = st\<lparr>hits := hits st @ [(seller, or_default delta dflt)]\<rparr>"

definition asked_in_vain :: "confirmation_session \<Rightarrow> bool" where
  "asked_in_vain s \<longleftrightarrow> cf_role s = ''seller'' \<and> cf_step s = ''accept_order'' \<and> cf_status s = EXPIRED"

datatype session_answer = Session_Now confirmation_session | Session_Timed_Out timeout_result

definition unexpected :: "accept_error \<Rightarrow> http_error" where
  "unexpected e = (case e of AcceptFulfillmentError m \<Rightarrow> UnhandledValueError m)"

definition get_owner_confirmation_session :: "accept_env \<Rightarrow> string \<Rightarrow> accept_state \<Rightarrow> accept_state \<times> (http_error + session_answer)" where
  "get_owner_confirmation_session env cid st =
     (case get_confirmation_session (ae_env env) cid (questions st) of
        (q, Inl e) \<Rightarrow> (st\<lparr>questions := q\<rparr>, Inl (HTTPException 404 ''unknown confirmation session''))
      | (q, Inr s) \<Rightarrow>
          (let st1 = st\<lparr>questions := q\<rparr> in
           if asked_in_vain s
           then (case process_expired_seller_session env cid st1 of
                   (st2, Inl e) \<Rightarrow> (st2, Inl (unexpected e))
                 | (st2, Inr None) \<Rightarrow> (st2, Inr (Session_Now s))
                 | (st2, Inr (Some x)) \<Rightarrow> (hit (cf_owner s) (to_delta x) (- 2) st2, Inr (Session_Timed_Out x)))
           else (st1, Inr (Session_Now s))))"

text \<open>The error texts in which the word \<open>EXPIRED\<close> occurs.\<close>

definition says_expired :: "confirmation_error \<Rightarrow> bool" where
  "says_expired e \<longleftrightarrow> (case e of Session_Expired \<Rightarrow> True | Session_Already EXPIRED \<Rightarrow> True | Unknown_Session cid \<Rightarrow> contains_str cid ''EXPIRED'' | _ \<Rightarrow> False)"

definition decide_and_record :: "accept_env \<Rightarrow> string \<Rightarrow> bool \<Rightarrow> string \<Rightarrow> string option \<Rightarrow> accept_state \<Rightarrow> accept_state \<times> (http_error + session_answer)" where
  "decide_and_record env cid confirm actor msg st =
     (case decide_confirmation_session (ae_env env) cid confirm msg (Some actor) (questions st) of
        (q, Inl e) \<Rightarrow>
          (let st1 = st\<lparr>questions := q\<rparr>; bad = HTTPException 400 ''confirmation refused'' in
           if says_expired e
           then (case process_expired_seller_session env cid st1 of
                   (st2, Inl err) \<Rightarrow> (st2, Inl (unexpected err))
                 | (st2, Inr None) \<Rightarrow> (st2, Inl bad)
                 | (st2, Inr (Some x)) \<Rightarrow> (st2, Inr (Session_Timed_Out x)))
           else (st1, Inl bad))
      | (q, Inr s) \<Rightarrow>
          (let st1 = st\<lparr>questions := q\<rparr> in
           if \<not> confirm \<and> cf_role s = ''seller'' \<and> cf_step s = ''accept_order''
           then let seller = (if cf_owner s = [] then actor else cf_owner s) in
                case record_seller_non_confirm env seller (cf_scene s) (cf_ref s) Reject (Some cid) (cf_max s) (seller_ledger st1) of
                  (l, Inl err) \<Rightarrow> (st1\<lparr>seller_ledger := l\<rparr>, Inl (unexpected err))
                | (l, Inr r) \<Rightarrow> (hit seller (Some (nc_delta r)) (- 3) (st1\<lparr>seller_ledger := l\<rparr>), Inr (Session_Now s))
           else (st1, Inr (Session_Now s))))"

definition decide_owner_confirmation_session ::
    "accept_env \<Rightarrow> string \<Rightarrow> bool \<Rightarrow> string \<Rightarrow> string option \<Rightarrow> accept_state \<Rightarrow> accept_state \<times> (http_error + session_answer)" where
  "decide_owner_confirmation_session env cid confirm actor msg st =
     (case get_confirmation_session (ae_env env) cid (questions st) of
        (q, Inl e) \<Rightarrow> decide_and_record env cid confirm actor msg (st\<lparr>questions := q\<rparr>)
      | (q, Inr s) \<Rightarrow>
          (let st1 = st\<lparr>questions := q\<rparr> in
           if asked_in_vain s
           then (case process_expired_seller_session env cid st1 of
                   (st2, Inl e) \<Rightarrow> (st2, Inl (unexpected e))
                 | (st2, Inr None) \<Rightarrow> decide_and_record env cid confirm actor msg st2
                 | (st2, Inr (Some x)) \<Rightarrow> (hit (cf_owner s) (to_delta x) (- 2) st2, Inr (Session_Timed_Out x)))
           else decide_and_record env cid confirm actor msg st1))"

definition expire_pending_seller_accepts_route :: "accept_env \<Rightarrow> accept_state \<Rightarrow> accept_state \<times> (http_error + timeout_result list)" where
  "expire_pending_seller_accepts_route env st =
     (case expire_pending_seller_accepts env 200 st of
        (st1, Inl e) \<Rightarrow> (st1, Inl (unexpected e))
      | (st1, Inr outs) \<Rightarrow>
          (foldl (\<lambda>st x. if to_seller x = [] then st else hit (to_seller x) (to_delta x) (- 2) st) st1 outs, Inr outs))"

text \<open>A client cannot switch the automation on.\<close>

definition create_owner_confirmation_session ::
    "accept_env \<Rightarrow> string \<Rightarrow> string \<Rightarrow> string \<Rightarrow> string \<Rightarrow> context_amount \<Rightarrow> string option \<Rightarrow> accept_state \<Rightarrow> accept_state \<times> (http_error + created_session)" where
  "create_owner_confirmation_session env sid role step owner amount ref st =
     (case create_confirmation_session (ae_env env) sid role step owner amount ref False None (questions st) of
        (q, Inl e) \<Rightarrow> (st\<lparr>questions := q\<rparr>, Inl (HTTPException 400 ''confirmation policy''))
      | (q, Inr a) \<Rightarrow> (st\<lparr>questions := q\<rparr>, Inr a))"

definition assert_confirmation_gate ::
    "accept_env \<Rightarrow> string \<Rightarrow> string \<Rightarrow> string \<Rightarrow> string option \<Rightarrow> string option \<Rightarrow> py_float option \<Rightarrow> bool \<Rightarrow> string option \<Rightarrow> accept_state \<Rightarrow>
     accept_state \<times> (http_error + step_allowed)" where
  "assert_confirmation_gate env sid role step cid owner amount consume ref st =
     (case assert_step_allowed (ae_env env) sid role step cid False owner amount consume ref (questions st) of
        (q, Inl e) \<Rightarrow> (st\<lparr>questions := q\<rparr>, Inl (HTTPException 403 ''confirmation required''))
      | (q, Inr a) \<Rightarrow> (st\<lparr>questions := q\<rparr>, Inr a))"


end
