(* ===== verification/Fulfill_Gate.thy ===== *)
theory Fulfill_Gate
  imports Accept_Fulfillment
begin

text \<open>
  The confirmations an order passes in \<^verbatim>\<open>fulfill_intent\<close> (\<^verbatim>\<open>services/intent_fulfillment.py\<close>): the buyer's steps of the scene, the
  lock of the important fields, the use of the buyer's confirmation, and the step of the seller. Whether a saved automation policy covers the
  amount (for buyer and seller) and whether the important fields are locked are arguments. Discovery before these steps and the contract and
  settlement after them are not part of it.
\<close>

section \<open>The buyer\<close>

record fulfill_args =
  fu_scene :: string
  fu_buyer :: string
  fu_seller :: string
  fu_amount :: rat
  fu_session :: "string option"
  fu_seller_session :: "string option"
  fu_require :: bool
  fu_buyer_auto :: bool
  fu_seller_auto :: bool
  fu_fields_locked :: bool

definition interaction_ref_of :: "fulfill_args \<Rightarrow> string" where
  "interaction_ref_of a = ''fulfill:'' @ fu_buyer a @ '':'' @ fu_seller a"

text \<open>
  A confirmed session for the step is accepted; the one for \<open>accept_order\<close> is used later. What \<open>assert_step_allowed\<close> refuses counts as
  not applied.
\<close>

definition apply_confirmation :: "confirmation_env \<Rightarrow> fulfill_args \<Rightarrow> string \<Rightarrow> confirmation_store \<Rightarrow> confirmation_store \<times> bool" where
  "apply_confirmation env a step st =
     (if \<not> nonempty_arg (fu_session a) then (st, False)
      else case get_confirmation_session env (the (fu_session a)) st of
        (st1, Inl e) \<Rightarrow> (st1, False)
      | (st1, Inr s) \<Rightarrow>
          if cf_step s = step \<and> cf_status s = CONFIRMED
          then (case assert_step_allowed env (fu_scene a) ''buyer'' step (fu_session a) (fu_buyer_auto a) (Some (fu_buyer a)) (Some (Fin (fu_amount a)))
                       (step \<noteq> ''accept_order'') (Some (interaction_ref_of a)) st1 of
                  (st2, Inl e) \<Rightarrow> (st2, False)
                | (st2, Inr ok) \<Rightarrow> (st2, True))
          else (st1, False))"

datatype buyer_gate = Buyer_Awaiting created_session | Buyer_Passed "string option"

fun buyer_steps ::
    "confirmation_env \<Rightarrow> fulfill_args \<Rightarrow> string list \<Rightarrow> string list \<Rightarrow> string option \<Rightarrow> confirmation_store \<Rightarrow> confirmation_store \<times> (confirmation_error + buyer_gate)" where
  "buyer_steps env a every [] deferred st = (st, Inr (Buyer_Passed deferred))"
| "buyer_steps env a every (step # steps) deferred st =
     (case step_already_satisfied env (fu_scene a) ''buyer'' step (fu_buyer a) (Some (interaction_ref_of a)) (fu_buyer_auto a) st of
        (st1, Inl e) \<Rightarrow> (st1, Inl e)
      | (st1, Inr True) \<Rightarrow> buyer_steps env a every steps deferred st1
      | (st1, Inr False) \<Rightarrow>
          (case apply_confirmation env a step st1 of
             (st2, True) \<Rightarrow> buyer_steps env a every steps (if step = ''accept_order'' then fu_session a else deferred) st2
           | (st2, False) \<Rightarrow>
               (case create_confirmation_session env (fu_scene a) ''buyer'' step (fu_buyer a) (Readable (Fin (fu_amount a))) (Some (interaction_ref_of a))
                       (fu_buyer_auto a) None st2 of
                  (st3, Inl e) \<Rightarrow> (st3, Inl e)
                | (st3, Inr (Skipped g)) \<Rightarrow> buyer_steps env a every steps deferred st3
                | (st3, Inr asked) \<Rightarrow>
                    (case next_required_confirm_step env (fu_scene a) ''buyer'' every (fu_buyer a) (Some (interaction_ref_of a)) (fu_buyer_auto a) st3 of
                       (st4, Inl e) \<Rightarrow> (st4, Inl e)
                     | (st4, Inr nxt) \<Rightarrow> (st4, Inr (Buyer_Awaiting asked))))))"

section \<open>The seller\<close>

datatype seller_gate = Seller_Cancelled timeout_result | Seller_Awaiting created_session int | Seller_Passed breach_liability

datatype fulfill_error = Policy_Error confirmation_error | Accept_Error accept_error | Override_Forbidden | Scene_Unknown

definition armed :: "accept_env \<Rightarrow> fulfill_args \<Rightarrow> accept_state \<Rightarrow> accept_state \<times> (fulfill_error + seller_gate)" where
  "armed env a st =
     (case arm_post_confirm_liability env (fu_seller a) (fu_scene a) (fu_amount a) (seller_ledger st) of
        (l, Inl e) \<Rightarrow> (st\<lparr>seller_ledger := l\<rparr>, Inl (Accept_Error e))
      | (l, Inr b) \<Rightarrow> (st\<lparr>seller_ledger := l\<rparr>, Inr (Seller_Passed b)))"

text \<open>What the given session of the seller does: it has timed out, it is used and the order recorded, or it does not apply.\<close>

definition apply_seller_session :: "accept_env \<Rightarrow> fulfill_args \<Rightarrow> bool \<Rightarrow> accept_state \<Rightarrow> accept_state \<times> (fulfill_error + seller_gate option)" where
  "apply_seller_session env a auto_allowed st =
     (if \<not> nonempty_arg (fu_seller_session a) then (st, Inr None)
      else
        let cid = the (fu_seller_session a); ref = Some (interaction_ref_of a) in
        case get_confirmation_session (ae_env env) cid (questions st) of
          (q, Inl e) \<Rightarrow>
            (if says_expired e
             then (case check_interaction_seller_timeout env (fu_seller a) ref (fu_scene a) (Some cid) (st\<lparr>questions := q\<rparr>) of
                     (st1, Inl err) \<Rightarrow> (st1, Inl (Accept_Error err))
                   | (st1, Inr None) \<Rightarrow> (st1, Inr None)
                   | (st1, Inr (Some x)) \<Rightarrow> (hit (fu_seller a) (to_delta x) (- 2) st1, Inr (Some (Seller_Cancelled x))))
             else (st\<lparr>questions := q\<rparr>, Inr None))
        | (q, Inr s) \<Rightarrow>
            (let st1 = st\<lparr>questions := q\<rparr> in
             if cf_status s \<in> {EXPIRED, CANCELLED}
             then (case check_interaction_seller_timeout env (fu_seller a) ref (fu_scene a) (Some cid) st1 of
                     (st2, Inl err) \<Rightarrow> (st2, Inl (Accept_Error err))
                   | (st2, Inr None) \<Rightarrow> (st2, Inr None)
                   | (st2, Inr (Some x)) \<Rightarrow> (hit (fu_seller a) (to_delta x) (- 2) st2, Inr (Some (Seller_Cancelled x))))
             else (case assert_step_allowed (ae_env env) (fu_scene a) ''seller'' ''accept_order'' (Some cid) auto_allowed (Some (fu_seller a))
                          (Some (Fin (fu_amount a))) True ref q of
                     (q1, Inl e) \<Rightarrow> (st\<lparr>questions := q1\<rparr>, Inr None)
                   | (q1, Inr ok) \<Rightarrow>
                       (case record_seller_confirm env (fu_seller a) (fu_scene a) ref (Some cid) (fu_amount a) (seller_ledger st) of
                          (l, Inl err) \<Rightarrow> (st\<lparr>questions := q1, seller_ledger := l\<rparr>, Inl (Accept_Error err))
                        | (l, Inr r) \<Rightarrow> (st\<lparr>questions := q1, seller_ledger := l\<rparr>, Inr (Some (Seller_Passed (cr_liability r))))))))"

definition seller_step :: "accept_env \<Rightarrow> fulfill_args \<Rightarrow> accept_state \<Rightarrow> accept_state \<times> (fulfill_error + seller_gate)" where
  "seller_step env a st =
     (case seller_requires_forced_confirm (ae_rules env) (fu_seller a) (fu_scene a) (seller_ledger st) of
        (l, Inl e) \<Rightarrow> (st\<lparr>seller_ledger := l\<rparr>, Inl (Accept_Error e))
      | (l, Inr force) \<Rightarrow>
          (let cat = oc_catalog (ae_env env); ref = Some (interaction_ref_of a);
               must = (fu_require a \<and> (seller_must_confirm_accept cat (fu_scene a) \<or> force));
               auto_allowed = (\<not> is_high_risk_scene cat (fu_scene a) \<and> \<not> force \<and> fu_seller_auto a) in
           case check_interaction_seller_timeout env (fu_seller a) ref (fu_scene a) (fu_seller_session a) (st\<lparr>seller_ledger := l\<rparr>) of
             (st1, Inl e) \<Rightarrow> (st1, Inl (Accept_Error e))
           | (st1, Inr (Some x)) \<Rightarrow> (hit (fu_seller a) (Some (or_default (to_delta x) (or_default (to_event x) (- 2)))) (- 2) st1, Inr (Seller_Cancelled x))
           | (st1, Inr None) \<Rightarrow>
               if \<not> must then armed env a st1
               else case step_already_satisfied (ae_env env) (fu_scene a) ''seller'' ''accept_order'' (fu_seller a) ref auto_allowed (questions st1) of
                 (q, Inl e) \<Rightarrow> (st1\<lparr>questions := q\<rparr>, Inl (Policy_Error e))
               | (q, Inr True) \<Rightarrow> armed env a (st1\<lparr>questions := q\<rparr>)
               | (q, Inr False) \<Rightarrow>
                   (case apply_seller_session env a auto_allowed (st1\<lparr>questions := q\<rparr>) of
                      (st2, Inl e) \<Rightarrow> (st2, Inl e)
                    | (st2, Inr (Some g)) \<Rightarrow> (st2, Inr g)
                    | (st2, Inr None) \<Rightarrow>
                        (case scene_accept_ttl_seconds (ae_rules env) (fu_scene a) (Some (fu_seller a)) (seller_ledger st2) of
                           (l2, Inl e) \<Rightarrow> (st2\<lparr>seller_ledger := l2\<rparr>, Inl (Accept_Error e))
                         | (l2, Inr ttl) \<Rightarrow>
                             (case create_confirmation_session (ae_env env) (fu_scene a) ''seller'' ''accept_order'' (fu_seller a) (Readable (Fin (fu_amount a))) ref
                                     auto_allowed (Some ttl) (questions st2) of
                                (q2, Inl e) \<Rightarrow> (st2\<lparr>seller_ledger := l2, questions := q2\<rparr>, Inl (Policy_Error e))
                              | (q2, Inr (Skipped g)) \<Rightarrow> armed env a (st2\<lparr>seller_ledger := l2, questions := q2\<rparr>)
                              | (q2, Inr asked) \<Rightarrow> (st2\<lparr>seller_ledger := l2, questions := q2\<rparr>, Inr (Seller_Awaiting asked ttl)))))))"

section \<open>The order\<close>

datatype fulfill_result = Await_Buyer created_session | Await_Fields | Seller_Result seller_gate

definition fulfill_confirmations :: "accept_env \<Rightarrow> string option \<Rightarrow> fulfill_args \<Rightarrow> accept_state \<Rightarrow> accept_state \<times> (fulfill_error + fulfill_result)" where
  "fulfill_confirmations env app_env a0 st =
     (let cat = oc_catalog (ae_env env); scene = fu_scene a0; risky = is_high_risk_scene cat scene;
          a = a0\<lparr>fu_buyer_auto := fu_require a0 \<and> \<not> risky \<and> fu_buyer_auto a0\<rparr>; every = buyer_fulfill_confirm_steps cat scene in
      if map_of (ca_scenes cat) scene = None then (st, Inl Scene_Unknown)
      else if \<not> fu_require a \<and> (risky \<or> \<not> allow_demo_confirmation_bypass app_env) then (st, Inl Override_Forbidden)
      else case (if fu_require a then buyer_steps (ae_env env) a every every None (questions st) else (questions st, Inr (Buyer_Passed None))) of
        (q, Inl e) \<Rightarrow> (st\<lparr>questions := q\<rparr>, Inl (Policy_Error e))
      | (q, Inr (Buyer_Awaiting asked)) \<Rightarrow> (st\<lparr>questions := q\<rparr>, Inr (Await_Buyer asked))
      | (q, Inr (Buyer_Passed deferred)) \<Rightarrow>
          if \<not> fu_fields_locked a then (st\<lparr>questions := q\<rparr>, Inr Await_Fields)
          else case (if fu_require a \<and> nonempty_arg deferred
                     then assert_step_allowed (ae_env env) scene ''buyer'' ''accept_order'' deferred (fu_buyer_auto a) (Some (fu_buyer a)) (Some (Fin (fu_amount a)))
                            True (Some (interaction_ref_of a)) q
                     else (q, Inr (Auto_Allowed \<lparr>ga_mode = [], ga_effective = [], ga_needs = False\<rparr>))) of
            (q1, Inl e) \<Rightarrow> (st\<lparr>questions := q1\<rparr>, Inl (Policy_Error e))
          | (q1, Inr ok) \<Rightarrow>
              (case seller_step env a (st\<lparr>questions := q1\<rparr>) of
                 (st1, Inl e) \<Rightarrow> (st1, Inl e)
               | (st1, Inr g) \<Rightarrow> (st1, Inr (Seller_Result g))))"

text \<open>The environment of the examples: the shipped catalogs, at a given time.\<close>

definition demo_accept_env :: "int \<Rightarrow> accept_env" where
  "demo_accept_env now = \<lparr>ae_env = \<lparr>oc_now = now, oc_catalog = shipped_catalog, oc_token = show_nat\<rparr>, ae_rules = shipped_accept_catalog\<rparr>"

end
