(* ===== verification/Fulfill_Properties.thy ===== *)
theory Fulfill_Properties
  imports Fulfill_Gate Confirmation_System
begin

text \<open>What the confirmations of an order allow: the reference of an order names its buyer and its seller and nothing else.\<close>

section \<open>The buyer\<close>

lemma covers_marked: "covers sid role step owner ref s \<Longrightarrow> marked s s' \<Longrightarrow> covers sid role step owner ref s'"
  by (auto simp: covers_def marked_def)

lemma row_marked_fwd: "list_all2 row_marked xs ys \<Longrightarrow> (k, s) \<in> set xs \<Longrightarrow> \<exists>s'. (k, s') \<in> set ys \<and> marked s s'"
  by (induction rule: list_all2_induct) auto

lemma find_used_True: "(k, s) \<in> set xs \<Longrightarrow> cf_status s = USED \<Longrightarrow> P s \<Longrightarrow> snd (find_used now P xs)"
  by (induction now P xs rule: find_used.induct) (auto simp: expire_if_needed_def Let_def split: prod.split)

definition all_used :: "fulfill_args \<Rightarrow> string list \<Rightarrow> confirmation_store \<Rightarrow> bool" where
  "all_used a steps st \<longleftrightarrow>
     (\<forall>step \<in> set steps. \<exists>(k, s) \<in> set (cf_sessions st). covers (fu_scene a) ''buyer'' step (fu_buyer a) (Some (interaction_ref_of a)) s)"

lemma satisfied_when_used:
  assumes "all_used a (step # steps) st"
  obtains st' where "step_already_satisfied env (fu_scene a) ''buyer'' step (fu_buyer a) (Some (interaction_ref_of a)) auto_allowed st = (st', Inr True)"
    and "all_used a (step # steps) st'"
proof -
  obtain k s where ks: "(k, s) \<in> set (cf_sessions st)" "covers (fu_scene a) ''buyer'' step (fu_buyer a) (Some (interaction_ref_of a)) s"
    using assms by (auto simp: all_used_def)
  have "strip (lower ''buyer'') = ''buyer''" by code_simp
  then obtain g where gate: "resolve_gate (oc_catalog env) (fu_scene a) ''buyer'' step auto_allowed = Inr g" by (simp add: resolve_gate_def Let_def)
  have used: "snd (find_used (oc_now env) (covers (fu_scene a) ''buyer'' step (fu_buyer a) (Some (interaction_ref_of a))) (cf_sessions st))"
    by (rule find_used_True [OF ks(1)]) (use ks(2) in \<open>simp_all add: covers_def\<close>)
  obtain st' r where run: "step_already_satisfied env (fu_scene a) ''buyer'' step (fu_buyer a) (Some (interaction_ref_of a)) auto_allowed st = (st', r)" by fastforce
  have "r = Inr True" using run gate used by (auto simp: step_already_satisfied_def split: if_splits prod.splits)
  moreover have "all_used a (step # steps) st'"
  proof -
    have m: "list_all2 row_marked (cf_sessions st) (cf_sessions st')" using satisfied_marks [OF run] by blast
    have "\<exists>(k, s) \<in> set (cf_sessions st'). covers (fu_scene a) ''buyer'' x (fu_buyer a) (Some (interaction_ref_of a)) s" if x: "x \<in> set (step # steps)" for x
    proof -
      obtain k s where "(k, s) \<in> set (cf_sessions st)" "covers (fu_scene a) ''buyer'' x (fu_buyer a) (Some (interaction_ref_of a)) s"
        using assms x by (auto simp: all_used_def)
      with row_marked_fwd [OF m] covers_marked show ?thesis by blast
    qed
    then show ?thesis by (simp add: all_used_def)
  qed
  ultimately show ?thesis using run that by simp
qed


definition demo_order :: "string \<Rightarrow> rat \<Rightarrow> string option \<Rightarrow> fulfill_args" where
  "demo_order scene amount session =
     \<lparr>fu_scene = scene, fu_buyer = ''b'', fu_seller = ''s'', fu_amount = amount, fu_session = session, fu_seller_session = None, fu_require = True,
      fu_buyer_auto = False, fu_seller_auto = False, fu_fields_locked = True\<rparr>"

text \<open>An order of food for 20 that was confirmed.\<close>

definition demo_paid :: confirmation_store where
  "demo_paid =
     (let env = demo_accept_env 0;
          q1 = fst (buyer_steps (ae_env env) (demo_order ''food_delivery'' 20 None) [''accept_order''] [''accept_order''] None new_confirmation_store);
          q2 = fst (decide_confirmation_session (ae_env env) ''cfm_0'' True None (Some ''b'') q1)
      in fst (assert_step_allowed (ae_env env) ''food_delivery'' ''buyer'' ''accept_order'' (Some ''cfm_0'') False (Some ''b'') (Some (Fin 20)) True
                (Some ''fulfill:b:s'') q2))"


section \<open>The seller\<close>

lemma profile_keeps_events: "seller_risk_profile cat seller sid l = (l', r) \<Longrightarrow> accept_events l' = accept_events l"
  by (auto simp: seller_risk_profile_def seller_entry_of_def Let_def split: if_splits option.splits sum.splits prod.splits)

lemma profile_defined: "strip seller \<noteq> [] \<Longrightarrow> \<exists>l' p. seller_risk_profile cat seller sid l = (l', Inr p)"
  by (auto simp: seller_risk_profile_def seller_entry_of_def Let_def split: option.splits)


text \<open>A seller is asked for an order and lets the question expire.\<close>

definition demo_timed_out :: accept_state where
  "demo_timed_out =
     fst (expire_pending_seller_accepts_route (demo_accept_env (10 ^ 13))
            (fst (seller_step (demo_accept_env 0) (demo_order ''software_development'' 20 None) new_accept_state)))"


end
