(* ===== verification/Accept_System.thy ===== *)
theory Accept_System
  imports Fulfill_Gate Confirmation_System
begin

text \<open>
  The runs of the confirmation routes and of the confirmations of orders together: what they do to sessions and ledger is a sequence of
  the moves of \<open>accept_move\<close>, and the moves keep the invariant that every entry against a seller belongs to one session that he refused or
  let expire.
\<close>

section \<open>Sessions over a run\<close>

definition sessions_ok :: "(nat \<Rightarrow> string) \<Rightarrow> confirmation_store \<Rightarrow> bool" where
  "sessions_ok token q \<longleftrightarrow> (\<exists>tr. store_ok token tr q)"

definition later :: "confirmation_session \<Rightarrow> confirmation_session \<Rightarrow> bool" where
  "later s s' \<longleftrightarrow> same_question s s' \<and>
     (cf_status s \<notin> {PENDING, CONFIRMED} \<longrightarrow> cf_status s' = cf_status s \<or> cf_status s = EXPIRED \<and> cf_status s' = CANCELLED)"

definition advances :: "confirmation_store \<Rightarrow> confirmation_store \<Rightarrow> bool" where
  "advances q q' \<longleftrightarrow> (\<forall>k s. map_of (cf_saved q) k = Some s \<longrightarrow> (\<exists>s'. map_of (cf_saved q') k = Some s' \<and> later s s'))"

definition session_move :: "(nat \<Rightarrow> string) \<Rightarrow> confirmation_store \<Rightarrow> confirmation_store \<Rightarrow> bool" where
  "session_move token q q' \<longleftrightarrow> (sessions_ok token q \<longrightarrow> sessions_ok token q' \<and> advances q q')"

lemma later_trans: "later s t \<Longrightarrow> later t u \<Longrightarrow> later s u"
  by (auto simp: later_def same_question_def)

lemma later_marked: "marked s s' \<Longrightarrow> later s s'"
  by (auto simp: later_def dest: marked_question) (auto simp: marked_def)

lemma advances_refl [simp]: "advances q q"
  by (auto simp: advances_def later_def)

lemma advances_trans: "advances q q1 \<Longrightarrow> advances q1 q2 \<Longrightarrow> advances q q2"
  unfolding advances_def by (meson later_trans)

lemma session_move_refl [simp]: "session_move token q q"
  by (simp add: session_move_def)

lemma session_move_trans: "session_move token q q1 \<Longrightarrow> session_move token q1 q2 \<Longrightarrow> session_move token q q2"
  unfolding session_move_def by (meson advances_trans)

lemma row_marked_lookup: "list_all2 row_marked xs ys \<Longrightarrow> map_of xs k = Some s \<Longrightarrow> \<exists>s'. map_of ys k = Some s' \<and> marked s s'"
  by (induction rule: list_all2_induct) (auto split: if_splits)

lemma advances_mark:
  assumes "store_ok token tr q" and "list_all2 row_marked (cf_sessions q) (cf_sessions q')" and "cf_saved q' \<in> {cf_saved q, cf_sessions q'}"
  shows "advances q q'"
proof -
  have rows: "list_all2 row_marked (cf_saved q) (cf_sessions q')" using assms(1,2) row_marked_trans by (auto simp: store_ok_def)
  show ?thesis
    using assms(3)
  proof (elim insertE emptyE)
    assume "cf_saved q' = cf_saved q"
    then show ?thesis by (auto simp: advances_def later_def)
  next
    assume "cf_saved q' = cf_sessions q'"
    with rows show ?thesis unfolding advances_def by (auto dest!: row_marked_lookup intro: later_marked)
  qed
qed

lemma advances_put:
  assumes "store_ok token tr q" and "cf_sessions q' = put_row (cf_id s') s' (cf_sessions q)" and "cf_saved q' = cf_sessions q'"
    and "\<And>s0. map_of (cf_sessions q) (cf_id s') = Some s0 \<Longrightarrow> later s0 s'"
  shows "advances q q'"
  unfolding advances_def
proof (intro allI impI)
  fix k s
  assume k: "map_of (cf_saved q) k = Some s"
  have "list_all2 row_marked (cf_saved q) (cf_sessions q)" using assms(1) by (simp add: store_ok_def)
  from row_marked_lookup [OF this k] obtain s0 where s0: "map_of (cf_sessions q) k = Some s0" "marked s s0" by blast
  show "\<exists>s'. map_of (cf_saved q') k = Some s' \<and> later s s'"
  proof (cases "k = cf_id s'")
    case True
    with s0 assms(4) [of s0] later_trans [OF later_marked [OF s0(2)]] show ?thesis by (simp add: assms(2,3) map_of_put_row)
  next
    case False
    with s0 later_marked [OF s0(2)] show ?thesis by (simp add: assms(2,3) map_of_put_row)
  qed
qed

lemma ok_of_trace: "store_ok token (tr @ xs) q \<Longrightarrow> sessions_ok token q"
  by (auto simp: sessions_ok_def)

lemma expired_move:
  assumes "map_of (cf_sessions q) k = Some s"
  shows "session_move token q (persist_sessions (put_session (expire_if_needed now s) q))"
  unfolding session_move_def
proof
  assume "sessions_ok token q"
  then obtain tr where ok: "store_ok token tr q" by (auto simp: sessions_ok_def)
  have id: "cf_id s = k" by (rule lookup_ok(2) [OF ok assms])
  have "advances q (persist_sessions (put_session (expire_if_needed now s) q))"
    by (rule advances_put [OF ok, of _ "expire_if_needed now s"]) (use assms id in \<open>auto intro: later_marked\<close>)
  with expired_ok [OF ok assms, of Other_Answer] show "sessions_ok token (persist_sessions (put_session (expire_if_needed now s) q)) \<and>
      advances q (persist_sessions (put_session (expire_if_needed now s) q))" by (auto intro: ok_of_trace)
qed

lemma mark_move:
  assumes "list_all2 row_marked (cf_sessions q) (cf_sessions q')" and "cf_drawn q' = cf_drawn q" and "cf_saved q' \<in> {cf_saved q, cf_sessions q'}"
  shows "session_move token q q'"
  unfolding session_move_def
proof
  assume "sessions_ok token q"
  then obtain tr where ok: "store_ok token tr q" by (auto simp: sessions_ok_def)
  have "store_ok token (tr @ [(undefined, Other_Answer)]) q'" by (rule store_ok_mark [OF ok assms]) simp
  with advances_mark [OF ok assms(1,3)] show "sessions_ok token q' \<and> advances q q'" by (auto intro: ok_of_trace)
qed

lemma look_move: "get_confirmation_session env cid q = (q', r) \<Longrightarrow> session_move token q q'"
  using expired_move by (auto simp: get_confirmation_session_def Let_def split: option.splits if_splits)

lemma list_pending_move: "list_pending_seller_accept_sessions env limit q = (q', r) \<Longrightarrow> session_move token q q'"
  by (rule mark_move) (auto simp: list_pending_seller_accept_sessions_def dest: pending_marked split: prod.splits)

lemma satisfied_move: "step_already_satisfied env sid role step owner ref auto_allowed q = (q', r) \<Longrightarrow> session_move token q q'"
  by (rule mark_move) (auto dest: satisfied_marks)

lemma next_step_move: "next_required_confirm_step env sid role steps owner ref auto_allowed q = (q', r) \<Longrightarrow> session_move token q q'"
  by (rule mark_move) (auto dest: next_step_marks)

lemma create_move:
  assumes "create_confirmation_session env sid role step owner amount ref auto_allowed ttl q = (q', r)" and "inj (oc_token env)"
  shows "session_move (oc_token env) q q'"
  unfolding session_move_def
proof
  assume "sessions_ok (oc_token env) q"
  then obtain tr where ok: "store_ok (oc_token env) tr q" by (auto simp: sessions_ok_def)
  have "sessions_ok (oc_token env) q'" by (rule ok_of_trace [OF create_ok [OF ok assms(2) refl assms(1), of Other_Answer]]) simp
  moreover have "advances q q'"
    using assms(1)
  proof (cases rule: create_cases)
    case (2 s)
    have "cf_id s \<notin> fst ` set (cf_saved q)" unfolding 2(2) by (rule fresh_id [OF ok assms(2)])
    then have new: "map_of (cf_sessions q) (cf_id s) = None" using store_ok_rows(3) [OF ok] by (simp add: map_of_eq_None_iff)
    show ?thesis by (rule advances_put [OF ok]) (use 2(1) new in auto)
  qed simp
  ultimately show "sessions_ok (oc_token env) q' \<and> advances q q'" by blast
qed

lemma cancel_move:
  assumes "mark_session_expired_cancelled env cid reason q = (q', r)"
  shows "session_move token q q'"
  unfolding session_move_def
proof
  assume "sessions_ok token q"
  then obtain tr where ok: "store_ok token tr q" by (auto simp: sessions_ok_def)
  have "sessions_ok token q'" by (rule ok_of_trace [OF cancel_ok [OF ok assms, of Other_Answer]]) simp
  moreover have "advances q q'"
    using assms
  proof (cases rule: cancel_cases)
    case (2 s0 s)
    have "later s0 s" using 2(2,4,5) by (auto simp: later_def expire_if_needed_def split: if_splits)
    then show ?thesis by (intro advances_put [OF ok]) (use 2 lookup_ok(2) [OF ok 2(1)] in auto)
  qed simp
  ultimately show "sessions_ok token q' \<and> advances q q'" by blast
qed

lemma decide_move:
  assumes "decide_confirmation_session env cid confirm msg actor q = (q', r)"
  shows "session_move token q q'"
  unfolding session_move_def
proof
  assume "sessions_ok token q"
  then obtain tr where ok: "store_ok token tr q" by (auto simp: sessions_ok_def)
  have "sessions_ok token q'" by (rule ok_of_trace [OF decide_ok [OF ok assms]])
  moreover have "advances q q'"
    using assms
  proof (cases rule: decide_cases)
    case (2 s0)
    from expired_move [OF 2(1), of token "oc_now env"] ok 2(2) show ?thesis by (auto simp: session_move_def sessions_ok_def)
  next
    case (3 s0 s)
    have "later s0 s" using 3(2,4) by (auto simp: later_def expire_if_needed_def same_question_def split: if_splits)
    then show ?thesis using 3(1,4,6) lookup_ok(2) [OF ok 3(1)] by (intro advances_put [OF ok, of _ s]) (auto simp: same_question_def)
  qed simp
  ultimately show "sessions_ok token q' \<and> advances q q'" by blast
qed

lemma assert_move:
  assumes "assert_step_allowed env sid role step cid auto_allowed owner amount consume ref q = (q', r)"
  shows "session_move token q q'"
  unfolding session_move_def
proof
  assume "sessions_ok token q"
  then obtain tr where ok: "store_ok token tr q" by (auto simp: sessions_ok_def)
  have "sessions_ok token q'" by (rule ok_of_trace [OF assert_ok [OF ok assms, of "Allowed r"]]) (simp add: used_by_def)
  moreover have "advances q q'"
    using ok assms
  proof (cases rule: assert_cases)
    case (expired c s0)
    from expired_move [OF expired(1), of token "oc_now env"] ok expired(2) show ?thesis by (auto simp: session_move_def sessions_ok_def)
  next
    case (used c s0 s g)
    have "later s0 s" using used(3,4) by (auto simp: later_def same_question_def)
    then show ?thesis using used(2,4,7) lookup_ok(2) [OF ok used(2)] by (intro advances_put [OF ok, of _ s]) (auto simp: same_question_def)
  qed simp
  ultimately show "sessions_ok token q' \<and> advances q q'" by blast
qed

text \<open>What a look or a decision tells is also in the file.\<close>

lemma look_saved:
  assumes "sessions_ok token q" and "get_confirmation_session env cid q = (q', Inr s)" and "cf_status s \<notin> {PENDING, CONFIRMED}"
  shows "map_of (cf_saved q') cid = Some s" and "cid \<noteq> []"
proof -
  obtain tr where ok: "store_ok token tr q" using assms(1) by (auto simp: sessions_ok_def)
  obtain s0 where s0: "map_of (cf_sessions q) cid = Some s0" "s = expire_if_needed (oc_now env) s0"
    "q' = (if cf_status s = EXPIRED then persist_sessions (put_session s q) else q)"
    using assms(2) by (auto simp: get_confirmation_session_def Let_def split: option.splits if_splits)
  note row = lookup_ok [OF ok s0(1)]
  from row(1) show "cid \<noteq> []" by (auto simp: session_ok_def)
  show "map_of (cf_saved q') cid = Some s"
  proof (cases "cf_status s = EXPIRED")
    case True
    have "cf_id s = cid" using s0(2) row(2) by simp
    with True s0(3) show ?thesis by (simp add: map_of_put_row)
  next
    case False
    then have same: "s = s0" using expire_kept s0(2) by metis
    have keys: "list_all2 row_marked (cf_saved q) (cf_sessions q)" "distinct (map fst (cf_saved q))" using ok by (simp_all add: store_ok_def)
    obtain s1 where s1: "(cid, s1) \<in> set (cf_saved q)" "marked s1 s0" using row_marked_row [OF keys(1) map_of_SomeD [OF s0(1)]] by blast
    then have "s1 = s0" using False same by (auto simp: marked_def)
    with s1(1) keys(2) have "map_of (cf_saved q) cid = Some s0" by simp
    with False s0(3) same show ?thesis by simp
  qed
qed

lemma rejection_saved:
  assumes "sessions_ok token q" and "decide_confirmation_session env cid False msg actor q = (q', Inr s)"
  shows "map_of (cf_saved q') cid = Some s" and "cf_status s = REJECTED" and "cid \<noteq> []" and "cf_owner s \<noteq> []"
proof -
  obtain tr where ok: "store_ok token tr q" using assms(1) by (auto simp: sessions_ok_def)
  have "map_of (cf_saved q') cid = Some s \<and> cf_status s = REJECTED \<and> cid \<noteq> [] \<and> cf_owner s \<noteq> []"
    using assms(2)
  proof (cases rule: decide_cases)
    case (3 s0 t)
    have id: "cf_id t = cid" "t = s" "cf_owner t = cf_owner s0" using 3(4,7) lookup_ok(2) [OF ok 3(1)] by (auto simp: same_question_def)
    have "strip [] = []" by (simp add: strip_def)
    with 3(8) id have "cf_owner s \<noteq> []" by metis
    moreover have "cid \<noteq> []" using lookup_ok(1) [OF ok 3(1)] by (auto simp: session_ok_def)
    ultimately show ?thesis using 3(5,6) id by (simp add: map_of_put_row)
  qed auto
  then show "map_of (cf_saved q') cid = Some s" and "cf_status s = REJECTED" and "cid \<noteq> []" and "cf_owner s \<noteq> []" by blast+
qed

section \<open>The ledger\<close>

definition against :: "accept_event \<Rightarrow> bool" where
  "against e \<longleftrightarrow> ae_outcome e = Non_Confirm"

definition counts_of :: "string \<Rightarrow> accept_ledger \<Rightarrow> int \<times> int \<times> int" where
  "counts_of x l = (let e = entry_of x l in (se_non_confirm e, se_timeout e, se_reject e))"

definition ledger_quiet :: "accept_ledger \<Rightarrow> accept_ledger \<Rightarrow> bool" where
  "ledger_quiet l l' \<longleftrightarrow> filter against (accept_events l') = filter against (accept_events l) \<and> (\<forall>x. counts_of x l' = counts_of x l)"

lemma ledger_quiet_refl [simp]: "ledger_quiet l l"
  by (simp add: ledger_quiet_def)

lemma ledger_quiet_trans: "ledger_quiet l l1 \<Longrightarrow> ledger_quiet l1 l2 \<Longrightarrow> ledger_quiet l l2"
  by (simp add: ledger_quiet_def)

lemma record_quiet_entry:
  assumes "se_non_confirm e = se_non_confirm (entry_of seller l)" and "se_timeout e = se_timeout (entry_of seller l)"
    and "se_reject e = se_reject (entry_of seller l)" and "filter against evs = filter against (accept_events l)"
  shows "ledger_quiet l (l\<lparr>sellers := put_row seller e (sellers l), accept_events := evs\<rparr>)"
proof -
  have "entry_of x (l\<lparr>sellers := put_row seller e (sellers l), accept_events := evs\<rparr>) = (if x = seller then e else entry_of x l)" for x
    by (simp add: entry_of_def map_of_put_row)
  with assms show ?thesis by (simp add: ledger_quiet_def counts_of_def Let_def)
qed

lemma profile_quiet: "seller_risk_profile cat seller sid l = (l', r) \<Longrightarrow> ledger_quiet l l' \<and> accept_events l' = accept_events l"
  by (auto simp: seller_risk_profile_def seller_entry_of_def Let_def ledger_quiet_def counts_of_def entry_of_def map_of_put_row
      split: if_splits option.splits sum.splits prod.splits)

lemma armed_quiet: "arm_post_confirm_liability env seller sid amount l = (l', r) \<Longrightarrow> ledger_quiet l l'"
  by (auto simp: arm_post_confirm_liability_def Let_def dest: profile_quiet split: prod.splits sum.splits)

lemma confirm_quiet:
  assumes "record_seller_confirm env seller sid ref session amount l = (l', r)"
  shows "ledger_quiet l l'"
proof -
  define now where "now = seconds (oc_now (ae_env env))"
  define entry where "entry = (let e = entry_of seller l in e\<lparr>se_confirm := se_confirm e + 1, se_last := Some now\<rparr>)"
  define event where "event = \<lparr>ae_id = length (accept_events l) + 1, ae_outcome = Confirmed_Order, ae_reason = Accept, ae_seller = seller, ae_scene = sid,
    ae_ref = ref, ae_session = session, ae_amount = Some (Fin amount), ae_delta = None, ae_at = now, ae_after = None\<rparr>"
  define old where "old = find_event session (\<lambda>e. ae_outcome e = Confirmed_Order) l"
  define l1 where "l1 = (case old of Some e \<Rightarrow> l | None \<Rightarrow> l\<lparr>sellers := put_row seller entry (sellers l), accept_events := accept_events l @ [event]\<rparr>)"
  have "ledger_quiet l (l\<lparr>sellers := put_row seller entry (sellers l), accept_events := accept_events l @ [event]\<rparr>)"
    by (rule record_quiet_entry) (simp_all add: entry_def event_def against_def Let_def)
  then have first: "ledger_quiet l l1" by (simp add: l1_def split: option.split)
  obtain l2 r2 where arm: "arm_post_confirm_liability env seller sid amount l1 = (l2, r2)" by fastforce
  have "ledger_quiet l2 l'"
    using assms arm unfolding record_seller_confirm_def Let_def now_def [symmetric]
    unfolding entry_def [unfolded Let_def, symmetric] event_def [symmetric] old_def [symmetric] l1_def [symmetric]
    by (auto dest: profile_quiet split: sum.splits prod.splits)
  with first armed_quiet [OF arm] show ?thesis by (blast intro: ledger_quiet_trans)
qed

text \<open>An entry against a seller: it is the first of its session and reason, and his counts go up with it.\<close>

definition bump :: "accept_reason \<Rightarrow> int \<times> int \<times> int \<Rightarrow> int \<times> int \<times> int" where
  "bump reason c = (case c of (n, t, r) \<Rightarrow> (n + 1, if reason = Timeout then t + 1 else t, if reason = Timeout then r else r + 1))"

definition recorded :: "string \<Rightarrow> accept_reason \<Rightarrow> string \<Rightarrow> accept_ledger \<Rightarrow> accept_ledger \<Rightarrow> bool" where
  "recorded seller reason cid l l' \<longleftrightarrow>
     (\<exists>ev. against ev \<and> ae_session ev = Some cid \<and> ae_seller ev = seller \<and> ae_reason ev = reason \<and>
        (\<forall>e \<in> set (accept_events l). against e \<and> ae_reason e = reason \<longrightarrow> ae_session e \<noteq> Some cid) \<and>
        accept_events l' = trim_events (accept_events l @ [ev])) \<and>
     (\<forall>x. counts_of x l' = (if x = seller then bump reason (counts_of x l) else counts_of x l))"

lemma find_event_None: "find_event (Some cid) P l = None \<Longrightarrow> cid \<noteq> [] \<Longrightarrow> e \<in> set (accept_events l) \<Longrightarrow> P e \<Longrightarrow> ae_session e \<noteq> Some cid"
  by (auto simp: find_event_def find_None_iff)

lemma counts_count_non_confirm:
  "counts_of x (l\<lparr>sellers := put_row seller (count_non_confirm reason sid d now (entry_of seller l)) (sellers l), accept_events := evs\<rparr>) =
     (if x = seller then bump reason (counts_of x l) else counts_of x l)"
proof -
  have "entry_of x (l\<lparr>sellers := put_row seller e (sellers l), accept_events := evs\<rparr>) = (if x = seller then e else entry_of x l)" for e
    by (simp add: entry_of_def map_of_put_row)
  then show ?thesis by (simp add: counts_of_def count_non_confirm_def bump_def Let_def)
qed

lemma non_confirm_recorded:
  assumes "record_seller_non_confirm env seller sid ref reason (Some cid) amount l = (l', r)" and "reason \<in> {Timeout, Reject}" and "cid \<noteq> []"
  shows "ledger_quiet l l' \<or> recorded seller reason cid l l'"
proof -
  define delta where "delta = reputation_delta (ae_rules env) sid reason"
  define now where "now = seconds (oc_now (ae_env env))"
  define old where "old = find_event (Some cid) (\<lambda>e. ae_reason e = reason \<and> ae_outcome e = Non_Confirm) l"
  define entry where "entry = count_non_confirm reason sid delta now (entry_of seller l)"
  define event where "event = \<lparr>ae_id = length (accept_events l) + 1, ae_outcome = Non_Confirm, ae_reason = reason, ae_seller = seller, ae_scene = sid,
    ae_ref = ref, ae_session = Some cid, ae_amount = amount, ae_delta = Some delta, ae_at = now, ae_after = Some (se_non_confirm entry)\<rparr>"
  define l1 where "l1 = (case old of Some e \<Rightarrow> l | None \<Rightarrow> l\<lparr>sellers := put_row seller entry (sellers l), accept_events := trim_events (accept_events l @ [event])\<rparr>)"
  obtain l2 p where profile: "seller_risk_profile (ae_rules env) seller sid l1 = (l2, p)" by fastforce
  have l': "l' = l2"
    using assms(1,2) profile unfolding record_seller_non_confirm_def Let_def delta_def [symmetric] now_def [symmetric] old_def [symmetric]
    unfolding entry_def [symmetric] unfolding event_def [symmetric] l1_def [symmetric] by (auto split: sum.splits)
  note quiet = profile_quiet [OF profile, folded l']
  show ?thesis
  proof (cases old)
    case (Some e)
    with quiet show ?thesis by (simp add: l1_def)
  next
    case None
    then have l1: "l1 = l\<lparr>sellers := put_row seller entry (sellers l), accept_events := trim_events (accept_events l @ [event])\<rparr>" by (simp add: l1_def)
    have "ae_session e \<noteq> Some cid" if "e \<in> set (accept_events l)" "against e" "ae_reason e = reason" for e
      using find_event_None [OF None [unfolded old_def] assms(3) that(1)] that(2,3) by (simp add: against_def)
    moreover have "counts_of x l1 = (if x = seller then bump reason (counts_of x l) else counts_of x l)" for x
      unfolding l1 entry_def by (rule counts_count_non_confirm)
    moreover have "against event" "ae_session event = Some cid" "ae_seller event = seller" "ae_reason event = reason"
      by (simp_all add: event_def against_def)
    moreover have "accept_events l' = trim_events (accept_events l @ [event])" using quiet l1 by simp
    ultimately show ?thesis using quiet unfolding recorded_def ledger_quiet_def by metis
  qed
qed

section \<open>The invariant\<close>

text \<open>Every entry against a seller stands for one question to him, which he refused or let expire; the counts of a seller add up.\<close>

definition answers :: "accept_event \<Rightarrow> string \<Rightarrow> confirmation_session \<Rightarrow> bool" where
  "answers e k s \<longleftrightarrow> ae_session e = Some k \<and> cf_owner s = ae_seller e \<and> cf_role s = ''seller'' \<and> cf_step s = ''accept_order'' \<and>
     (ae_reason e = Timeout \<and> cf_status s \<in> {EXPIRED, CANCELLED} \<or> ae_reason e = Reject \<and> cf_status s = REJECTED)"

definition events_ok :: "confirmation_store \<Rightarrow> accept_ledger \<Rightarrow> bool" where
  "events_ok q l \<longleftrightarrow> distinct (map ae_session (filter against (accept_events l))) \<and>
     (\<forall>e \<in> set (accept_events l). against e \<longrightarrow> (\<exists>k s. map_of (cf_saved q) k = Some s \<and> answers e k s))"

definition counts_ok :: "accept_ledger \<Rightarrow> bool" where
  "counts_ok l \<longleftrightarrow> (\<forall>x. case counts_of x l of (n, t, r) \<Rightarrow>
     n = t + r \<and> 0 \<le> t \<and> 0 \<le> r \<and> int (length (filter (\<lambda>e. against e \<and> ae_seller e = x) (accept_events l))) \<le> n)"

definition accept_inv :: "(nat \<Rightarrow> string) \<Rightarrow> accept_state \<Rightarrow> bool" where
  "accept_inv token st \<longleftrightarrow> sessions_ok token (questions st) \<and> events_ok (questions st) (seller_ledger st) \<and> counts_ok (seller_ledger st)"

lemma answers_later: "answers e k s \<Longrightarrow> later s s' \<Longrightarrow> answers e k s'"
  by (auto simp: answers_def later_def same_question_def)

lemma count_by_seller: "filter (\<lambda>e. against e \<and> ae_seller e = x) es = filter (\<lambda>e. ae_seller e = x) (filter against es)"
  by (induction es) auto

lemma events_okD:
  assumes "events_ok q l" and "e \<in> set (accept_events l)" and "against e"
  obtains k s where "map_of (cf_saved q) k = Some s" and "answers e k s"
  using assms unfolding events_ok_def by blast

lemma accept_inv_quiet:
  assumes "accept_inv token st" and "ledger_quiet (seller_ledger st) l"
  shows "accept_inv token (st\<lparr>seller_ledger := l\<rparr>)"
proof -
  have f: "filter against (accept_events l) = filter against (accept_events (seller_ledger st))" using assms(2) by (simp add: ledger_quiet_def)
  from arg_cong [OF f, of set] have "(e \<in> set (accept_events l) \<and> against e) = (e \<in> set (accept_events (seller_ledger st)) \<and> against e)" for e by auto
  with f have "events_ok (questions st) l = events_ok (questions st) (seller_ledger st)" unfolding events_ok_def by auto
  moreover have "counts_ok l = counts_ok (seller_ledger st)"
    using assms(2) f unfolding counts_ok_def count_by_seller ledger_quiet_def by simp
  ultimately show ?thesis using assms(1) by (simp add: accept_inv_def)
qed

lemma accept_inv_move:
  assumes "accept_inv token st" and "session_move token (questions st) q"
  shows "accept_inv token (st\<lparr>questions := q\<rparr>)"
proof -
  have q: "sessions_ok token q" "advances (questions st) q" using assms by (simp_all add: accept_inv_def session_move_def)
  have "\<exists>k s. map_of (cf_saved q) k = Some s \<and> answers e k s" if e: "e \<in> set (accept_events (seller_ledger st))" "against e" for e
  proof -
    obtain k s where "map_of (cf_saved (questions st)) k = Some s" "answers e k s"
      by (rule events_okD [of "questions st", OF _ e]) (use assms(1) in \<open>simp add: accept_inv_def\<close>)
    with q(2) answers_later show ?thesis unfolding advances_def by blast
  qed
  with q(1) assms(1) show ?thesis by (simp add: accept_inv_def events_ok_def)
qed

lemma accept_inv_hit: "accept_inv token (hit seller d dflt st) = accept_inv token st"
  by (simp add: accept_inv_def hit_def)

lemma trim_drop: "\<exists>n. trim_events es = drop n es"
  by (metis trim_events_def drop0)

lemma filter_drop: "\<exists>m. filter P (drop n xs) = drop m (filter P xs)"
proof (induction xs arbitrary: n)
  case (Cons x xs)
  show ?case
  proof (cases n)
    case 0
    then show ?thesis by (intro exI [of _ 0]) simp
  next
    case (Suc k)
    obtain m where "filter P (drop k xs) = drop m (filter P xs)" using Cons.IH by blast
    with Suc show ?thesis by (intro exI [of _ "if P x then Suc m else m"]) simp
  qed
qed simp

lemma filter_trim: obtains m where "filter P (trim_events es) = drop m (filter P es)"
  using trim_drop [of es] filter_drop [of P] by metis

text \<open>The entry for a question that is in the file as refused or expired.\<close>

lemma accept_inv_record:
  assumes "accept_inv token st" and "recorded (cf_owner s) reason cid (seller_ledger st) l" and "map_of (cf_saved (questions st)) cid = Some s"
    and "cf_role s = ''seller''" and "cf_step s = ''accept_order''"
    and "reason = Timeout \<and> cf_status s \<in> {EXPIRED, CANCELLED} \<or> reason = Reject \<and> cf_status s = REJECTED"
  shows "accept_inv token (st\<lparr>seller_ledger := l\<rparr>)"
proof -
  let ?l = "seller_ledger st"
  obtain ev where ev: "against ev" "ae_session ev = Some cid" "ae_seller ev = cf_owner s" "ae_reason ev = reason"
      "\<And>e. e \<in> set (accept_events ?l) \<Longrightarrow> against e \<Longrightarrow> ae_reason e = reason \<Longrightarrow> ae_session e \<noteq> Some cid"
      "accept_events l = trim_events (accept_events ?l @ [ev])"
    and counts: "\<And>x. counts_of x l = (if x = cf_owner s then bump reason (counts_of x ?l) else counts_of x ?l)"
    using assms(2) unfolding recorded_def by blast
  have here: "answers ev cid s" using ev(2-4) assms(4-6) by (auto simp: answers_def)
  have old: "events_ok (questions st) ?l" using assms(1) by (simp add: accept_inv_def)
  have new: "ae_session e \<noteq> Some cid" if e: "e \<in> set (accept_events ?l)" "against e" for e
  proof
    assume "ae_session e = Some cid"
    moreover obtain k s1 where "map_of (cf_saved (questions st)) k = Some s1" "answers e k s1" by (rule events_okD [OF old e])
    ultimately have "answers e cid s" using assms(3) by (auto simp: answers_def)
    then have "ae_reason e = reason" using assms(6) by (auto simp: answers_def)
    with ev(5) [OF e] \<open>ae_session e = Some cid\<close> show False by simp
  qed
  obtain m where m: "filter against (accept_events l) = drop m (filter against (accept_events ?l) @ [ev])"
    unfolding ev(6) by (rule filter_trim [of against "accept_events ?l @ [ev]"]) (simp add: ev(1))
  have "distinct (map ae_session (filter against (accept_events ?l) @ [ev]))" using old new unfolding events_ok_def by (auto simp: ev(2) dest: sym)
  then have "distinct (map ae_session (filter against (accept_events l)))" by (simp only: m drop_map distinct_drop flip: drop_map)
  moreover have "\<exists>k s. map_of (cf_saved (questions st)) k = Some s \<and> answers e k s" if e: "e \<in> set (accept_events l)" "against e" for e
  proof -
    have "e \<in> set (drop m (filter against (accept_events ?l) @ [ev]))" using e m [symmetric] by simp
    from in_set_dropD [OF this] old here assms(3) show ?thesis by (auto simp: events_ok_def)
  qed
  ultimately have "events_ok (questions st) l" by (simp add: events_ok_def)
  moreover have "counts_ok l"
    unfolding counts_ok_def count_by_seller
  proof
    fix x
    obtain j where j: "filter (\<lambda>e. ae_seller e = x) (filter against (accept_events l)) =
        drop j (filter (\<lambda>e. ae_seller e = x) (filter against (accept_events ?l) @ [ev]))" using m filter_drop by metis
    have "int (length (filter (\<lambda>e. ae_seller e = x) (filter against (accept_events l)))) \<le>
        int (length (filter (\<lambda>e. ae_seller e = x) (filter against (accept_events ?l)))) + (if x = cf_owner s then 1 else 0)"
      unfolding j using ev(3) by auto
    with assms(1) counts [of x] show "case counts_of x l of (n, t, r) \<Rightarrow> n = t + r \<and> 0 \<le> t \<and> 0 \<le> r \<and>
        int (length (filter (\<lambda>e. ae_seller e = x) (filter against (accept_events l)))) \<le> n"
      unfolding accept_inv_def counts_ok_def count_by_seller by (auto simp: bump_def split: prod.splits if_splits dest!: spec [of _ x])
  qed
  ultimately show ?thesis using assms(1) by (simp add: accept_inv_def)
qed

section \<open>Every operation keeps it\<close>

lemma accept_inv_look:
  assumes "accept_inv token st" and "get_confirmation_session env cid (questions st) = (q, r)"
  shows "accept_inv token (st\<lparr>questions := q\<rparr>)"
  by (rule accept_inv_move [OF assms(1) look_move [OF assms(2)]])

lemma accept_inv_non_confirm:
  assumes "accept_inv token st" and "record_seller_non_confirm env (cf_owner s) sid ref reason (Some cid) amount (seller_ledger st) = (l, r)"
    and "map_of (cf_saved (questions st)) cid = Some s" and "cid \<noteq> []" and "cf_role s = ''seller''" and "cf_step s = ''accept_order''"
    and "reason = Timeout \<and> cf_status s \<in> {EXPIRED, CANCELLED} \<or> reason = Reject \<and> cf_status s = REJECTED"
  shows "accept_inv token (st\<lparr>seller_ledger := l\<rparr>)"
proof -
  have "reason \<in> {Timeout, Reject}" using assms(7) by blast
  from non_confirm_recorded [OF assms(2) this assms(4)] show ?thesis
    using accept_inv_quiet [OF assms(1)] accept_inv_record [OF assms(1) _ assms(3,5-7)] by blast
qed

lemma process_inv:
  assumes "process_expired_seller_session env cid st = (st', r)" and "accept_inv token st"
  shows "accept_inv token st'"
proof -
  obtain q x where look: "get_confirmation_session (ae_env env) cid (questions st) = (q, x)" by fastforce
  define st1 where "st1 = st\<lparr>questions := q\<rparr>"
  have inv1: "accept_inv token st1" unfolding st1_def by (rule accept_inv_look [OF assms(2) look])
  show ?thesis
  proof (cases x)
    case (Inl e)
    with assms(1) look inv1 show ?thesis by (simp add: process_expired_seller_session_def st1_def)
  next
    case (Inr s)
    define again where "again = (cf_status s = CANCELLED \<and> cf_cancel s = Some ''seller_accept_timeout'')"
    show ?thesis
    proof (cases "cf_role s = ''seller'' \<and> cf_step s = ''accept_order'' \<and> (again \<or> cf_status s = EXPIRED)")
      case False
      then have "st' = st1"
        using assms(1) look Inr unfolding process_expired_seller_session_def by (auto simp: Let_def st1_def again_def split: if_splits)
      with inv1 show ?thesis by simp
    next
      case True
      obtain l y where rec: "record_seller_non_confirm env (cf_owner s) (scene_or_api (cf_scene s)) (cf_ref s) Timeout (Some cid) (cf_max s) (seller_ledger st1) = (l, y)"
        by fastforce
      have over: "cf_status s \<in> {EXPIRED, CANCELLED}" using True by (auto simp: again_def)
      have "sessions_ok token (questions st)" using assms(2) by (simp add: accept_inv_def)
      note saved = look_saved [OF this look [unfolded Inr]]
      have inv2: "accept_inv token (st1\<lparr>seller_ledger := l\<rparr>)"
        by (rule accept_inv_non_confirm [OF inv1 rec]) (use True over saved in \<open>auto simp: st1_def\<close>)
      obtain q2 z where cancel: "mark_session_expired_cancelled (ae_env env) cid ''seller_accept_timeout'' q = (q2, z)" by fastforce
      have "accept_inv token (st1\<lparr>seller_ledger := l, questions := q2\<rparr>)"
        using accept_inv_move [OF inv2, of q2] cancel_move [OF cancel] by (simp add: st1_def)
      moreover have "st' = st1\<lparr>seller_ledger := l\<rparr> \<or> st' = st1\<lparr>seller_ledger := l, questions := q2\<rparr>"
        using assms(1) look Inr True rec cancel unfolding process_expired_seller_session_def
        by (auto simp: Let_def st1_def again_def split: sum.splits if_splits)
      ultimately show ?thesis using inv2 by blast
    qed
  qed
qed

lemma expire_each_inv: "expire_each_accept env cids st = (st', r) \<Longrightarrow> accept_inv token st \<Longrightarrow> accept_inv token st'"
proof (induction cids arbitrary: st st' r)
  case (Cons cid cids)
  obtain q x where look: "get_confirmation_session (ae_env env) cid (questions st) = (q, x)" by fastforce
  note inv1 = accept_inv_look [OF Cons.prems(2) look]
  obtain st1 y where first: "process_expired_seller_session env cid (st\<lparr>questions := q\<rparr>) = (st1, y)" by fastforce
  note inv2 = process_inv [OF first inv1]
  from Cons.prems(1) look first inv2 show ?case
    by (auto split: sum.splits if_splits prod.splits intro: Cons.IH [OF _ inv1] Cons.IH [OF _ inv2])
qed simp

lemma first_expired_inv: "first_expired env cids st = (st', r) \<Longrightarrow> accept_inv token st \<Longrightarrow> accept_inv token st'"
proof (induction cids arbitrary: st)
  case (Cons cid cids)
  obtain q x where look: "get_confirmation_session (ae_env env) cid (questions st) = (q, x)" by fastforce
  note inv1 = accept_inv_look [OF Cons.prems(2) look]
  from Cons.prems(1) look show ?case
    by (auto split: sum.splits if_splits intro: Cons.IH [OF _ inv1] process_inv [OF _ inv1])
qed simp

lemma expire_pending_inv:
  assumes "expire_pending_seller_accepts env limit st = (st', r)" and "accept_inv token st"
  shows "accept_inv token st'"
proof -
  obtain q ss where list: "list_pending_seller_accept_sessions (ae_env env) limit (questions st) = (q, ss)" by fastforce
  from assms(1) list expire_each_inv [OF _ accept_inv_move [OF assms(2) list_pending_move [OF list]]]
  show ?thesis by (simp add: expire_pending_seller_accepts_def)
qed

lemma check_timeout_inv:
  assumes "check_interaction_seller_timeout env seller ref sid session st = (st', r)" and "accept_inv token st"
  shows "accept_inv token st'"
proof -
  obtain st1 x where first: "(if nonempty_arg session then process_expired_seller_session env (the session) st else (st, Inr None)) = (st1, x)" by fastforce
  have inv1: "accept_inv token st1" using first process_inv assms(2) by (auto split: if_splits)
  obtain l y where profile: "seller_risk_profile (ae_rules env) seller sid (seller_ledger st1) = (l, y)" by fastforce
  have inv2: "accept_inv token (st1\<lparr>seller_ledger := l\<rparr>)" by (rule accept_inv_quiet [OF inv1]) (use profile_quiet [OF profile] in blast)
  obtain q ss where list: "list_pending_seller_accept_sessions (ae_env env) 200 (questions st1) = (q, ss)" by fastforce
  note inv3 = accept_inv_move [OF inv1 list_pending_move [OF list]]
  from assms(1) inv1 inv2 show ?thesis
    unfolding check_interaction_seller_timeout_def first
    by (auto simp: profile list split: sum.splits option.splits if_splits dest: first_expired_inv [OF _ inv3])
qed

lemma decide_and_record_inv:
  assumes "decide_and_record env cid confirm actor msg st = (st', r)" and "accept_inv token st"
  shows "accept_inv token st'"
proof -
  obtain q x where run: "decide_confirmation_session (ae_env env) cid confirm msg (Some actor) (questions st) = (q, x)" by fastforce
  define st1 where "st1 = st\<lparr>questions := q\<rparr>"
  have inv1: "accept_inv token st1" unfolding st1_def by (rule accept_inv_move [OF assms(2) decide_move [OF run]])
  obtain st2 y where over: "process_expired_seller_session env cid st1 = (st2, y)" by fastforce
  note inv2 = process_inv [OF over inv1]
  show ?thesis
  proof (cases x)
    case (Inl e)
    with assms(1) run over inv1 inv2 show ?thesis
      unfolding decide_and_record_def by (auto simp: Let_def st1_def [symmetric] split: if_splits sum.splits option.splits)
  next
    case (Inr s)
    show ?thesis
    proof (cases "\<not> confirm \<and> cf_role s = ''seller'' \<and> cf_step s = ''accept_order''")
      case False
      then have "st' = st1"
        using assms(1) run Inr unfolding decide_and_record_def by (auto simp: Let_def st1_def split: if_splits)
      with inv1 show ?thesis by simp
    next
      case True
      have "sessions_ok token (questions st)" using assms(2) by (simp add: accept_inv_def)
      note saved = rejection_saved [OF this, of "ae_env env" cid msg "Some actor" q s]
      have run': "decide_confirmation_session (ae_env env) cid False msg (Some actor) (questions st) = (q, Inr s)" using run Inr True by simp
      obtain l z where rec: "record_seller_non_confirm env (cf_owner s) (cf_scene s) (cf_ref s) Reject (Some cid) (cf_max s) (seller_ledger st1) = (l, z)" by fastforce
      have inv3: "accept_inv token (st1\<lparr>seller_ledger := l\<rparr>)"
        by (rule accept_inv_non_confirm [OF inv1 rec]) (use True saved [OF run'] in \<open>auto simp: st1_def\<close>)
      with assms(1) run' rec True saved(4) [OF run'] show ?thesis
        unfolding decide_and_record_def by (auto simp: Let_def st1_def [symmetric] accept_inv_hit split: sum.splits)
    qed
  qed
qed

section \<open>The routes\<close>

lemma look_route_inv:
  assumes "get_owner_confirmation_session env cid st = (st', r)" and "accept_inv token st"
  shows "accept_inv token st'"
proof -
  obtain q x where look: "get_confirmation_session (ae_env env) cid (questions st) = (q, x)" by fastforce
  define st1 where "st1 = st\<lparr>questions := q\<rparr>"
  have inv1: "accept_inv token st1" unfolding st1_def by (rule accept_inv_look [OF assms(2) look])
  obtain st2 y where over: "process_expired_seller_session env cid st1 = (st2, y)" by fastforce
  from assms(1) look over inv1 process_inv [OF over inv1] show ?thesis
    unfolding get_owner_confirmation_session_def
    by (auto simp: Let_def accept_inv_hit st1_def [symmetric] split: sum.splits option.splits if_splits)
qed

lemma decide_route_inv:
  assumes "decide_owner_confirmation_session env cid confirm actor msg st = (st', r)" and "accept_inv token st"
  shows "accept_inv token st'"
proof -
  obtain q x where look: "get_confirmation_session (ae_env env) cid (questions st) = (q, x)" by fastforce
  define st1 where "st1 = st\<lparr>questions := q\<rparr>"
  have inv1: "accept_inv token st1" unfolding st1_def by (rule accept_inv_look [OF assms(2) look])
  obtain st2 y where over: "process_expired_seller_session env cid st1 = (st2, y)" by fastforce
  note inv2 = process_inv [OF over inv1]
  from assms(1) look over inv2 decide_and_record_inv [OF _ inv1] decide_and_record_inv [OF _ inv2] show ?thesis
    unfolding decide_owner_confirmation_session_def
    by (auto simp: Let_def accept_inv_hit st1_def [symmetric] split: sum.splits option.splits if_splits)
qed

lemma foldl_hit_inv: "accept_inv token (foldl (\<lambda>st x. if to_seller x = [] then st else hit (to_seller x) (to_delta x) (- 2) st) st outs) = accept_inv token st"
  by (induction outs arbitrary: st) (simp_all add: accept_inv_hit)

lemma expire_route_inv: "expire_pending_seller_accepts_route env st = (st', r) \<Longrightarrow> accept_inv token st \<Longrightarrow> accept_inv token st'"
  using expire_pending_inv by (auto simp: expire_pending_seller_accepts_route_def foldl_hit_inv split: prod.splits sum.splits)

lemma create_route_inv:
  assumes "create_owner_confirmation_session env sid role step owner amount ref st = (st', r)" and "accept_inv (oc_token (ae_env env)) st"
    and "inj (oc_token (ae_env env))"
  shows "accept_inv (oc_token (ae_env env)) st'"
proof -
  obtain q x where run: "create_confirmation_session (ae_env env) sid role step owner amount ref False None (questions st) = (q, x)" by fastforce
  have "st' = st\<lparr>questions := q\<rparr>" using assms(1) run unfolding create_owner_confirmation_session_def by (auto split: sum.splits)
  with accept_inv_move [OF assms(2) create_move [OF run assms(3)]] show ?thesis by simp
qed

lemma gate_route_inv:
  assumes "assert_confirmation_gate env sid role step cid owner amount consume ref st = (st', r)" and "accept_inv token st"
  shows "accept_inv token st'"
proof -
  obtain q x where run: "assert_step_allowed (ae_env env) sid role step cid False owner amount consume ref (questions st) = (q, x)" by fastforce
  have "st' = st\<lparr>questions := q\<rparr>" using assms(1) run unfolding assert_confirmation_gate_def by (auto split: sum.splits)
  with accept_inv_move [OF assms(2) assert_move [OF run]] show ?thesis by simp
qed

section \<open>The confirmations of an order\<close>

lemma apply_confirmation_move:
  assumes "apply_confirmation env a step q = (q', r)"
  shows "session_move token q q'"
proof -
  obtain q1 x where look: "get_confirmation_session env (the (fu_session a)) q = (q1, x)" by fastforce
  obtain q2 y where use: "assert_step_allowed env (fu_scene a) ''buyer'' step (fu_session a) (fu_buyer_auto a) (Some (fu_buyer a)) (Some (Fin (fu_amount a)))
      (step \<noteq> ''accept_order'') (Some (interaction_ref_of a)) q1 = (q2, y)" by fastforce
  note moves = look_move [OF look, of token] session_move_trans [OF look_move [OF look] assert_move [OF use], of token]
  have "q' \<in> {q, q1, q2}" using assms unfolding apply_confirmation_def look by (auto simp: use split: sum.splits if_splits)
  with moves show ?thesis by auto
qed

lemma buyer_steps_move:
  assumes "buyer_steps env a every steps deferred q = (q', r)" and "inj (oc_token env)"
  shows "session_move (oc_token env) q q'"
  using assms(1)
proof (induction steps arbitrary: deferred q)
  case (Cons step steps)
  obtain q1 x where sat: "step_already_satisfied env (fu_scene a) ''buyer'' step (fu_buyer a) (Some (interaction_ref_of a)) (fu_buyer_auto a) q = (q1, x)" by fastforce
  obtain q2 y where use: "apply_confirmation env a step q1 = (q2, y)" by fastforce
  obtain q3 z where ask: "create_confirmation_session env (fu_scene a) ''buyer'' step (fu_buyer a) (Readable (Fin (fu_amount a))) (Some (interaction_ref_of a))
      (fu_buyer_auto a) None q2 = (q3, z)" by fastforce
  obtain q4 w where rest: "next_required_confirm_step env (fu_scene a) ''buyer'' every (fu_buyer a) (Some (interaction_ref_of a)) (fu_buyer_auto a) q3 = (q4, w)" by fastforce
  note m1 = satisfied_move [OF sat, of "oc_token env"]
  note m2 = session_move_trans [OF m1 apply_confirmation_move [OF use]]
  note m3 = session_move_trans [OF m2 create_move [OF ask assms(2)]]
  note m4 = session_move_trans [OF m3 next_step_move [OF rest]]
  from Cons.prems m1 m3 m4 Cons.IH session_move_trans [OF m1 Cons.IH] session_move_trans [OF m2 Cons.IH] session_move_trans [OF m3 Cons.IH] show ?case
    by (auto simp: sat use ask rest split: sum.splits if_splits bool.splits created_session.splits)
qed simp

lemma armed_inv: "armed env a st = (st', r) \<Longrightarrow> accept_inv token st \<Longrightarrow> accept_inv token st'"
  unfolding armed_def by (auto split: prod.splits sum.splits intro: accept_inv_quiet armed_quiet)

lemma seller_session_inv:
  assumes "apply_seller_session env a auto_allowed st = (st', r)" and "accept_inv token st"
  shows "accept_inv token st'"
proof (cases "nonempty_arg (fu_seller_session a)")
  case True
  define cid where "cid = the (fu_seller_session a)"
  define ref where "ref = Some (interaction_ref_of a)"
  obtain q x where look: "get_confirmation_session (ae_env env) cid (questions st) = (q, x)" by fastforce
  define st1 where "st1 = st\<lparr>questions := q\<rparr>"
  have inv1: "accept_inv token st1" unfolding st1_def by (rule accept_inv_look [OF assms(2) look])
  obtain st2 y where over: "check_interaction_seller_timeout env (fu_seller a) ref (fu_scene a) (Some cid) st1 = (st2, y)" by fastforce
  note inv2 = check_timeout_inv [OF over inv1]
  obtain q1 z where use: "assert_step_allowed (ae_env env) (fu_scene a) ''seller'' ''accept_order'' (Some cid) auto_allowed (Some (fu_seller a))
      (Some (Fin (fu_amount a))) True ref q = (q1, z)" by fastforce
  have inv3: "accept_inv token (st\<lparr>questions := q1\<rparr>)" using accept_inv_move [OF inv1, of q1] assert_move [OF use] by (simp add: st1_def)
  obtain l w where yes: "record_seller_confirm env (fu_seller a) (fu_scene a) ref (Some cid) (fu_amount a) (seller_ledger st) = (l, w)" by fastforce
  have inv4: "accept_inv token (st\<lparr>questions := q1, seller_ledger := l\<rparr>)"
    using accept_inv_quiet [OF inv3, of l] confirm_quiet [OF yes] by simp
  have "st' \<in> {st1, st2, hit (fu_seller a) (to_delta (the (projr y))) (- 2) st2, st\<lparr>questions := q1\<rparr>, st\<lparr>questions := q1, seller_ledger := l\<rparr>}"
    using assms(1) True look over use yes unfolding apply_seller_session_def Let_def cid_def [symmetric] ref_def [symmetric]
    by (auto simp: st1_def split: sum.splits option.splits if_splits)
  with inv1 inv2 inv3 inv4 show ?thesis by (auto simp: accept_inv_hit)
next
  case False
  with assms show ?thesis by (simp add: apply_seller_session_def)
qed

lemma profile_inv:
  assumes "accept_inv token st" and "seller_risk_profile cat seller sid (seller_ledger st) = (l, r)"
  shows "accept_inv token (st\<lparr>seller_ledger := l\<rparr>)"
  by (rule accept_inv_quiet [OF assms(1)]) (use profile_quiet [OF assms(2)] in blast)

lemma ttl_inv:
  assumes "accept_inv token st" and "scene_accept_ttl_seconds cat sid (Some seller) (seller_ledger st) = (l, r)"
  shows "accept_inv token (st\<lparr>seller_ledger := l\<rparr>)"
proof (cases "seller = []")
  case True
  with assms(2) accept_inv_quiet [OF assms(1), of l] show ?thesis by (simp add: scene_accept_ttl_seconds_def)
next
  case False
  obtain l' r' where profile: "seller_risk_profile cat seller sid (seller_ledger st) = (l', r')" by fastforce
  with assms(2) False have "l' = l" by (simp add: scene_accept_ttl_seconds_def Let_def)
  with profile_inv [OF assms(1) profile] show ?thesis by simp
qed

lemma seller_step_inv:
  assumes "seller_step env a st = (st', r)" and "accept_inv (oc_token (ae_env env)) st" and "inj (oc_token (ae_env env))"
  shows "accept_inv (oc_token (ae_env env)) st'"
proof -
  define ref where "ref = Some (interaction_ref_of a)"
  obtain l0 p where profile: "seller_risk_profile (ae_rules env) (fu_seller a) (fu_scene a) (seller_ledger st) = (l0, p)" by fastforce
  define st0 where "st0 = st\<lparr>seller_ledger := l0\<rparr>"
  have inv0: "accept_inv (oc_token (ae_env env)) st0" unfolding st0_def by (rule profile_inv [OF assms(2) profile])
  show ?thesis
  proof (cases p)
    case (Inl e)
    with assms(1) profile inv0 show ?thesis by (simp add: seller_step_def seller_requires_forced_confirm_def st0_def)
  next
    case (Inr pr)
    define force where "force = at_force (sp_threshold pr)"
    define must where "must = (fu_require a \<and> (seller_must_confirm_accept (oc_catalog (ae_env env)) (fu_scene a) \<or> force))"
    define auto_allowed where "auto_allowed = (\<not> is_high_risk_scene (oc_catalog (ae_env env)) (fu_scene a) \<and> \<not> force \<and> fu_seller_auto a)"
    obtain st1 y where over: "check_interaction_seller_timeout env (fu_seller a) ref (fu_scene a) (fu_seller_session a) st0 = (st1, y)" by fastforce
    note inv1 = check_timeout_inv [OF over inv0]
    obtain q z where sat: "step_already_satisfied (ae_env env) (fu_scene a) ''seller'' ''accept_order'' (fu_seller a) ref auto_allowed (questions st1) = (q, z)" by fastforce
    note inv2 = accept_inv_move [OF inv1 satisfied_move [OF sat]]
    obtain st2 w where use: "apply_seller_session env a auto_allowed (st1\<lparr>questions := q\<rparr>) = (st2, w)" by fastforce
    note inv3 = seller_session_inv [OF use inv2]
    obtain l2 v where ttl: "scene_accept_ttl_seconds (ae_rules env) (fu_scene a) (Some (fu_seller a)) (seller_ledger st2) = (l2, v)" by fastforce
    note inv4 = ttl_inv [OF inv3 ttl]
    define ttl_of where "ttl_of = projr v"
    obtain q2 u where ask: "create_confirmation_session (ae_env env) (fu_scene a) ''seller'' ''accept_order'' (fu_seller a) (Readable (Fin (fu_amount a))) ref
        auto_allowed (Some ttl_of) (questions st2) = (q2, u)" by fastforce
    have inv5: "accept_inv (oc_token (ae_env env)) (st2\<lparr>seller_ledger := l2, questions := q2\<rparr>)"
      using accept_inv_move [OF inv4, of q2] create_move [OF ask assms(3)] by simp
    from assms(1) profile Inr over sat use ttl ask inv1 inv2 inv3 inv4 inv5 armed_inv [OF _ inv1] armed_inv [OF _ inv2] armed_inv [OF _ inv5] show ?thesis
      unfolding seller_step_def seller_requires_forced_confirm_def st0_def [symmetric] ref_def [symmetric]
      by (auto simp: Let_def force_def [symmetric] must_def [symmetric] auto_allowed_def [symmetric] ttl_of_def st0_def [symmetric] accept_inv_hit
          split: sum.splits option.splits bool.splits if_splits created_session.splits)
  qed
qed

lemma fulfill_inv:
  assumes "fulfill_confirmations env app_env a0 st = (st', r)" and "accept_inv (oc_token (ae_env env)) st" and "inj (oc_token (ae_env env))"
  shows "accept_inv (oc_token (ae_env env)) st'"
proof -
  define a where "a = a0\<lparr>fu_buyer_auto := fu_require a0 \<and> \<not> is_high_risk_scene (oc_catalog (ae_env env)) (fu_scene a0) \<and> fu_buyer_auto a0\<rparr>"
  define every where "every = buyer_fulfill_confirm_steps (oc_catalog (ae_env env)) (fu_scene a0)"
  obtain q x where buyer: "(if fu_require a then buyer_steps (ae_env env) a every every None (questions st) else (questions st, Inr (Buyer_Passed None))) = (q, x)"
    by fastforce
  have m1: "session_move (oc_token (ae_env env)) (questions st) q" using buyer buyer_steps_move [OF _ assms(3)] by (auto split: if_splits)
  note inv1 = accept_inv_move [OF assms(2) m1]
  define deferred where "deferred = (case x of Inr (Buyer_Passed d) \<Rightarrow> d | _ \<Rightarrow> None)"
  obtain q1 y where use: "(if fu_require a \<and> nonempty_arg deferred
      then assert_step_allowed (ae_env env) (fu_scene a0) ''buyer'' ''accept_order'' deferred (fu_buyer_auto a) (Some (fu_buyer a)) (Some (Fin (fu_amount a)))
             True (Some (interaction_ref_of a)) q
      else (q, Inr (Auto_Allowed \<lparr>ga_mode = [], ga_effective = [], ga_needs = False\<rparr>))) = (q1, y)" by fastforce
  have m2: "session_move (oc_token (ae_env env)) q q1" using use assert_move by (auto split: if_splits)
  have inv2: "accept_inv (oc_token (ae_env env)) (st\<lparr>questions := q1\<rparr>)" using accept_inv_move [OF inv1, of q1] m2 by simp
  obtain st2 z where seller: "seller_step env a (st\<lparr>questions := q1\<rparr>) = (st2, z)" by fastforce
  note inv3 = seller_step_inv [OF seller inv2 assms(3)]
  have "st' \<in> {st, st\<lparr>questions := q\<rparr>, st\<lparr>questions := q1\<rparr>, st2}"
    using assms(1) unfolding fulfill_confirmations_def Let_def a_def [symmetric] every_def [symmetric] buyer
    using use seller by (auto simp: deferred_def split: sum.splits if_splits buyer_gate.splits)
  with assms(2) inv1 inv2 inv3 show ?thesis by auto
qed

section \<open>Runs\<close>

text \<open>
  The requests that change sessions or ledger, each at its own time and with its own catalogs. Only the names of new sessions come from one
  source for the whole run. A restart reads the sessions from their file.
\<close>

datatype accept_call =
    Look_Up string
  | Say string bool string "string option"
  | Expire_All
  | Put_Question string string string string context_amount "string option"
  | Pass_Gate string string string "string option" "string option" "py_float option" bool "string option"
  | Order "string option" fulfill_args
  | Reboot

fun accept_do :: "accept_env \<Rightarrow> accept_call \<Rightarrow> accept_state \<Rightarrow> accept_state" where
  "accept_do env (Look_Up cid) st = fst (get_owner_confirmation_session env cid st)"
| "accept_do env (Say cid confirm actor msg) st = fst (decide_owner_confirmation_session env cid confirm actor msg st)"
| "accept_do env Expire_All st = fst (expire_pending_seller_accepts_route env st)"
| "accept_do env (Put_Question sid role step owner amount ref) st = fst (create_owner_confirmation_session env sid role step owner amount ref st)"
| "accept_do env (Pass_Gate sid role step cid owner amount consume ref) st = fst (assert_confirmation_gate env sid role step cid owner amount consume ref st)"
| "accept_do env (Order app_env a) st = fst (fulfill_confirmations env app_env a st)"
| "accept_do env Reboot st = st\<lparr>questions := load_sessions (questions st)\<rparr>"

inductive accept_step :: "(nat \<Rightarrow> string) \<Rightarrow> accept_state \<Rightarrow> accept_state \<Rightarrow> bool" for token :: "nat \<Rightarrow> string" where
  request: "oc_token (ae_env env) = token \<Longrightarrow> accept_step token st (accept_do env c st)"

inductive_cases accept_stepE: "accept_step token st st'"

lemma load_move: "session_move token q (load_sessions q)"
proof -
  have "store_ok token tr (load_sessions q)" if "store_ok token tr q" for tr using that by (simp add: store_ok_def load_sessions_def row_marked_refl)
  moreover have "advances q (load_sessions q)" by (auto simp: advances_def load_sessions_def later_def)
  ultimately show ?thesis unfolding session_move_def sessions_ok_def by blast
qed

lemma accept_do_inv:
  assumes "accept_inv (oc_token (ae_env env)) st" and "inj (oc_token (ae_env env))"
  shows "accept_inv (oc_token (ae_env env)) (accept_do env c st)"
proof (cases c)
  case (Look_Up cid)
  then show ?thesis using look_route_inv [OF _ assms(1)] by (simp add: eq_fst_iff) (metis prod.collapse)
next
  case (Say cid confirm actor msg)
  then show ?thesis using decide_route_inv [OF _ assms(1)] by simp (metis prod.collapse)
next
  case Expire_All
  then show ?thesis using expire_route_inv [OF _ assms(1)] by simp (metis prod.collapse)
next
  case (Put_Question sid role step owner amount ref)
  then show ?thesis using create_route_inv [OF _ assms] by simp (metis prod.collapse)
next
  case (Pass_Gate sid role step cid owner amount consume ref)
  then show ?thesis using gate_route_inv [OF _ assms(1)] by simp (metis prod.collapse)
next
  case (Order app_env a)
  then show ?thesis using fulfill_inv [OF _ assms] by simp (metis prod.collapse)
next
  case Reboot
  then show ?thesis using accept_inv_move [OF assms(1) load_move] by simp
qed

lemma accept_inv_new: "accept_inv token new_accept_state"
proof -
  have "store_ok token [] new_confirmation_store" by (simp add: store_ok_def new_confirmation_store_def uses_def)
  then have "sessions_ok token new_confirmation_store" unfolding sessions_ok_def by blast
  then show ?thesis
    by (simp add: accept_inv_def new_accept_state_def new_accept_ledger_def events_ok_def counts_ok_def counts_of_def entry_of_def new_seller_entry_def)
qed

interpretation accept: step_invariant "accept_step token" "\<lambda>st. inj token \<longrightarrow> accept_inv token st" for token
  by unfold_locales (auto elim!: accept_stepE intro: accept_do_inv)

end
