(* ===== verification/Accept_Properties.thy ===== *)
theory Accept_Properties
  imports Accept_System
begin

text \<open>What the ledger of sellers shows of the questions they were asked.\<close>

definition demo_question_run :: accept_state where
  "demo_question_run =
     accept_do (demo_accept_env (10 ^ 13)) (Look_Up ''cfm_0'')
       (accept_do (demo_accept_env (10 ^ 13)) Expire_All
         (accept_do (demo_accept_env 0)
           (Put_Question ''software_development'' ''seller'' ''accept_order'' ''s'' (Readable (Fin 20)) (Some ''fulfill:b:s'')) new_accept_state))"

lemma demo_question_runs: "(accept_step show_nat)\<^sup>*\<^sup>* new_accept_state demo_question_run"
proof -
  have token: "oc_token (ae_env (demo_accept_env now)) = show_nat" for now by (simp add: demo_accept_env_def)
  show ?thesis unfolding demo_question_run_def
    by (rule rtranclp.rtrancl_into_rtrancl [OF rtranclp.rtrancl_into_rtrancl [OF rtranclp.rtrancl_into_rtrancl [OF rtranclp.rtrancl_refl]]];
        rule accept_step.request [OF token])
qed



end
