(* ===== verification/Runtime_Keys.thy ===== *)
theory Runtime_Keys
  imports Route_Base
begin

text \<open>
  The keys of the agents (\<^verbatim>\<open>services/runtime_key_service.py\<close>), their daily spending (\<^verbatim>\<open>services/runtime_daily_spend.py\<close>), the saved
  automation policies (\<^verbatim>\<open>services/agent_automation_policy.py\<close>, \<^verbatim>\<open>services/human_not_present_policy.py\<close>), the signed messages and the
  wallets of the owners (\<^verbatim>\<open>services/runtime_wallet.py\<close>, \<^verbatim>\<open>services/identity_wallet_binding.py\<close>), and the API keys of
  \<^verbatim>\<open>api/middleware/auth.py\<close>. HMAC, the recovery of a signer, random strings, and the printing of floats and dates are fields of the
  environment. Times are in microseconds, the monotonic clock is in seconds; a request reads each clock once.
\<close>

section \<open>State\<close>

record runtime_key =
  rk_secret_hash :: string
  rk_wallet :: string
  rk_identity :: string
  rk_profile :: "string option"
  rk_permissions :: "string list"
  rk_single :: rat
  rk_daily :: rat
  rk_expire :: int
  rk_agent :: string
  rk_binding :: "string option"
  rk_status :: string
  rk_created :: int
  rk_revoked :: "int option"

record automation_policy =
  po_auto_enabled :: bool
  po_single :: rat
  po_daily :: rat
  po_permissions :: "string list"
  po_high_risk_mode :: string
  po_acknowledged :: bool
  po_preauth :: bool
  po_task_types :: "string list"
  po_precision_min :: "rat option"
  po_precision_max :: "rat option"
  po_trusted :: "string list"
  po_code_ttl :: int
  po_boundary :: "string option"
  po_auto_accept :: bool
  po_auto_execute :: bool
  po_unattended :: bool
  po_version :: int
  po_updated_at :: int
  po_updated_by :: "string option"

record sub_identity =
  si_parent :: string
  si_status :: string

record voucher_request =
  vr_buyer :: string
  vr_seller :: string
  vr_amount :: rat
  vr_currency :: string
  vr_credits :: rat
  vr_task_type :: string
  vr_task_hash :: string
  vr_rule_hash :: string
  vr_evidence_hash :: string
  vr_expiry :: int
  vr_nonce :: string
  vr_signature :: string
  vr_buyer_sub :: "string option"
  vr_seller_sub :: "string option"
  vr_rule_spec :: "json option"
  vr_wallet :: "string option"
  vr_profile :: "string option"

record runtime_db =
  rt_routes :: route_db
  rt_keys :: "(string \<times> runtime_key) list"
  rt_daily :: "((string \<times> string) \<times> rat) list"
  rt_policies :: "(string \<times> automation_policy) list"
  rt_wallets :: "(string \<times> string option) list"
  rt_subs :: "(string \<times> sub_identity) list"
  rt_nonces :: "(string \<times> string) list"
  rt_events :: "voucher_event list"

text \<open>The memory of the process: the nonces of each key with their times, and the spending of a key on a day.\<close>

record runtime_proc =
  rp_routes :: route_proc
  rp_replay :: "(string \<times> (string \<times> rat) list) list"
  rp_daily :: "((string \<times> string) \<times> rat) list"

type_synonym 'a runtime = "(runtime_db, runtime_proc, 'a) handler"

record runtime_env =
  base :: request_env
  mono :: rat
  today :: string
  fresh_key_id :: string
  fresh_secret :: string
  fresh_voucher_id :: string
  app_secret :: string
  hmac_hex :: "string \<Rightarrow> string \<Rightarrow> string"
  recover :: "string \<Rightarrow> string \<Rightarrow> string option"
  show_float :: "rat \<Rightarrow> string"
  iso_time :: "int \<Rightarrow> string"
  spend_persist :: bool
  policy_required :: bool
  wallet_required :: bool
  wallet_auto_bind :: bool
  ledger_actor_required :: bool
  auth_enforced :: bool
  api_keys :: "(string \<times> string) list"
  minted_key :: "string \<Rightarrow> string \<Rightarrow> bool"
  dev_fallback :: bool
  env_name :: string
  task_ready :: "string \<Rightarrow> string \<Rightarrow> http_error + unit"
  ingest_edge :: "string \<Rightarrow> string \<Rightarrow> string \<Rightarrow> http_error + unit"
  buyer_commitment :: "voucher_request \<Rightarrow> http_error + unit"
  sign_progress :: "(string \<times> string) list \<Rightarrow> string"

section \<open>Secrets and tokens\<close>

definition server_material :: "runtime_env \<Rightarrow> string" where
  "server_material env = app_secret env @ '':karma_runtime_key_v1''"

definition hash_runtime_secret :: "runtime_env \<Rightarrow> string \<Rightarrow> string \<Rightarrow> string" where
  "hash_runtime_secret env key_id secret = hmac_hex env (server_material env) (key_id @ '':'' @ secret)"

definition verify_runtime_secret :: "runtime_env \<Rightarrow> string \<Rightarrow> string \<Rightarrow> string \<Rightarrow> bool" where
  "verify_runtime_secret env key_id secret secret_hash \<longleftrightarrow> hash_runtime_secret env key_id secret = secret_hash"

definition starts_with :: "string \<Rightarrow> string \<Rightarrow> bool" where
  "starts_with s p \<longleftrightarrow> take (length p) s = p"

definition all_hex :: "string \<Rightarrow> bool" where
  "all_hex s \<longleftrightarrow> list_all (\<lambda>c. c \<in> set ''0123456789abcdef'') (lower s)"

definition parse_runtime_key_token :: "string \<Rightarrow> http_error + (string \<times> string)" where
  "parse_runtime_key_token token =
     (let raw = strip token; bad = Inl (HTTPException 401 ''invalid runtime key format'') in
      if \<not> starts_with raw ''KRM_RT_'' then bad
      else
        let rest = drop 7 raw in
        case index_of CHR ''_'' rest of
          None \<Rightarrow> bad
        | Some sep \<Rightarrow>
            (let key_id = take sep rest; secret = drop (sep + 1) rest in
             if length key_id \<noteq> 32 \<or> \<not> all_hex key_id then Inl (HTTPException 401 ''invalid runtime key id segment'')
             else if length secret \<noteq> 64 \<or> \<not> all_hex secret then Inl (HTTPException 401 ''invalid runtime key secret segment'')
             else Inr (key_id, lower secret)))"

definition runtime_token :: "string \<Rightarrow> string \<Rightarrow> string" where
  "runtime_token key_id secret = ''KRM_RT_'' @ key_id @ ''_'' @ secret"

section \<open>Permissions\<close>

definition ALLOWED_PERMISSIONS :: "string list" where
  "ALLOWED_PERMISSIONS =
     [''request_voucher'', ''verify_voucher'', ''submit_receipt'', ''update_progress'', ''request_settlement'', ''sync_task_status'']"

text \<open>Stripped, without repetition and without empty names, in order.\<close>

definition clean_permissions :: "string list \<Rightarrow> string list" where
  "clean_permissions perms = sort (remdups (filter (\<lambda>p. p \<noteq> []) (map strip perms)))"

definition unknown_permission :: "string list \<Rightarrow> http_error + unit" where
  "unknown_permission perms =
     (case find (\<lambda>p. p \<notin> set ALLOWED_PERMISSIONS) perms of
        Some p \<Rightarrow> Inl (HTTPException 400 (''unknown or disallowed permission: '' @ p))
      | None \<Rightarrow> Inr ())"

definition normalize_permissions :: "string list \<Rightarrow> http_error + string list" where
  "normalize_permissions perms =
     (let out = clean_permissions perms in
      case unknown_permission out of
        Inl e \<Rightarrow> Inl e
      | Inr _ \<Rightarrow> if out = [] then Inl (HTTPException 400 ''permissions must be a non-empty subset of allowed scopes'') else Inr out)"

record runtime_context =
  cx_key :: string
  cx_identity :: string
  cx_profile :: "string option"
  cx_wallet :: string
  cx_permissions :: "string list"
  cx_single :: rat
  cx_daily :: rat
  cx_expire :: int
  cx_agent :: string
  cx_status :: string

definition assert_permission :: "runtime_context \<Rightarrow> string \<Rightarrow> unit runtime" where
  "assert_permission ctx permission = require (permission \<in> set (cx_permissions ctx)) 403 (''runtime key missing permission: '' @ permission)"

section \<open>Nonces\<close>

definition values_at :: "('k \<times> 'v list) list \<Rightarrow> 'k \<Rightarrow> 'v list" where
  "values_at t k = (case map_of t k of None \<Rightarrow> [] | Some xs \<Rightarrow> xs)"

text \<open>
  Nonces older than ten minutes leave the bucket of the key; a known one is refused; of more than 2000 the first go. What
  leaves the bucket has left it also when the nonce is refused.
\<close>

definition nonce_check :: "rat \<Rightarrow> string \<Rightarrow> (string \<times> rat) list \<Rightarrow> (string \<times> rat) list \<times> bool" where
  "nonce_check clock tag bucket =
     (let live = dropWhile (\<lambda>(t, since). 600 < clock - since) bucket in
      if tag \<in> fst ` set live then (live, False)
      else let longer = live @ [(tag, clock)] in (drop (length longer - 2000) longer, True))"

definition check_replay_nonce :: "runtime_env \<Rightarrow> string \<Rightarrow> string \<Rightarrow> string \<Rightarrow> unit runtime" where
  "check_replay_nonce env key_id endpoint nonce d p =
     (if nonce = [] \<or> 128 < length nonce then (d, p, Inl (HTTPException 400 ''client_nonce is required (max 128 chars)''))
      else case nonce_check (mono env) (endpoint @ '':'' @ nonce) (values_at (rp_replay p) key_id) of
        (bucket, fresh) \<Rightarrow>
          (d, p\<lparr>rp_replay := put_row key_id bucket (rp_replay p)\<rparr>,
           if fresh then Inr () else Inl (HTTPException 409 ''duplicate client_nonce (replay protection)'')))"

section \<open>Spending\<close>

definition amount_at :: "('k \<times> rat) list \<Rightarrow> 'k \<Rightarrow> rat" where
  "amount_at t k = (case map_of t k of None \<Rightarrow> 0 | Some x \<Rightarrow> x)"

definition check_single_and_daily_limits :: "rat \<Rightarrow> rat \<Rightarrow> rat \<Rightarrow> rat \<Rightarrow> http_error + unit" where
  "check_single_and_daily_limits amount single daily used =
     (if amount \<le> 0 then Inl (HTTPException 400 ''amount must be positive'')
      else if single + 1 / 10 ^ 9 < amount then Inl (HTTPException 403 ''amount exceeds runtime key single_limit'')
      else if daily + 1 / 10 ^ 9 < used + amount then Inl (HTTPException 403 ''amount exceeds runtime key daily_limit'')
      else Inr ())"

definition get_daily_used :: "runtime_env \<Rightarrow> string \<Rightarrow> runtime_proc \<Rightarrow> rat" where
  "get_daily_used env key_id p = amount_at (rp_daily p) (key_id, today env)"

definition record_daily_spend :: "runtime_env \<Rightarrow> string \<Rightarrow> rat \<Rightarrow> runtime_proc \<Rightarrow> runtime_proc" where
  "record_daily_spend env key_id amount p = p\<lparr>rp_daily := put_row (key_id, today env) (get_daily_used env key_id p + amount) (rp_daily p)\<rparr>"

definition get_daily_used_async :: "runtime_env \<Rightarrow> string \<Rightarrow> rat runtime" where
  "get_daily_used_async env key_id d p =
     (d, p, Inr (if \<not> spend_persist env then get_daily_used env key_id p
                 else case map_of (rt_daily d) (key_id, today env) of Some x \<Rightarrow> x | None \<Rightarrow> get_daily_used env key_id p))"

definition record_daily_spend_async :: "runtime_env \<Rightarrow> string \<Rightarrow> rat \<Rightarrow> unit runtime" where
  "record_daily_spend_async env key_id amount d p =
     (let p' = record_daily_spend env key_id amount p in
      if \<not> spend_persist env then (d, p', Inr ())
      else (d\<lparr>rt_daily := put_row (key_id, today env) (amount_at (rt_daily d) (key_id, today env) + amount) (rt_daily d)\<rparr>, p', Inr ()))"

section \<open>Key records\<close>

text \<open>A key is valid for 30 seconds after its end.\<close>

definition load_active_context :: "runtime_env \<Rightarrow> string \<Rightarrow> runtime_context runtime" where
  "load_active_context env token d p =
     (d, p,
      case parse_runtime_key_token token of
        Inl e \<Rightarrow> Inl e
      | Inr (key_id, secret) \<Rightarrow>
          (case map_of (rt_keys d) key_id of
             None \<Rightarrow> Inl (HTTPException 401 ''invalid or revoked runtime key'')
           | Some row \<Rightarrow>
               if rk_status row \<noteq> ''active'' then Inl (HTTPException 401 ''invalid or revoked runtime key'')
               else if \<not> verify_runtime_secret env key_id secret (rk_secret_hash row) then Inl (HTTPException 401 ''invalid runtime key'')
               else if rk_expire row + 30 * 10 ^ 6 < now (base env) then Inl (HTTPException 401 ''runtime key expired'')
               else Inr \<lparr>cx_key = key_id, cx_identity = rk_identity row, cx_profile = rk_profile row, cx_wallet = rk_wallet row,
                         cx_permissions = rk_permissions row, cx_single = rk_single row, cx_daily = rk_daily row, cx_expire = rk_expire row,
                         cx_agent = rk_agent row, cx_status = rk_status row\<rparr>))"

text \<open>\<open>(x or "").strip() or None\<close>\<close>

definition stripped_option :: "string option \<Rightarrow> string option" where
  "stripped_option x = (case x of None \<Rightarrow> None | Some s \<Rightarrow> if strip s = [] then None else Some (strip s))"

record key_wishes =
  kw_wallet :: string
  kw_identity :: string
  kw_signature :: string
  kw_permissions :: "string list"
  kw_single :: rat
  kw_daily :: rat
  kw_expire :: int
  kw_agent :: string
  kw_binding :: "string option"
  kw_profile :: "string option"

definition new_key_row :: "runtime_env \<Rightarrow> key_wishes \<Rightarrow> string list \<Rightarrow> runtime_key" where
  "new_key_row env w perms =
     \<lparr>rk_secret_hash = hash_runtime_secret env (fresh_key_id env) (fresh_secret env), rk_wallet = strip (kw_wallet w), rk_identity = strip (kw_identity w),
      rk_profile = stripped_option (kw_profile w), rk_permissions = perms, rk_single = kw_single w, rk_daily = kw_daily w, rk_expire = kw_expire w,
      rk_agent = (if strip (kw_agent w) = [] then ''agent'' else strip (kw_agent w)), rk_binding = stripped_option (kw_binding w), rk_status = ''active'',
      rk_created = now (base env), rk_revoked = None\<rparr>"

definition create_runtime_key_record :: "runtime_env \<Rightarrow> key_wishes \<Rightarrow> (string \<times> string \<times> runtime_key) runtime" where
  "create_runtime_key_record env w =
     and_then (require (0 < kw_single w \<and> 0 < kw_daily w) 400 ''single_limit and daily_limit must be > 0'') (\<lambda>_.
     and_then (require (kw_single w \<le> kw_daily w + 1 / 10 ^ 9) 400 ''daily_limit must be >= single_limit'') (\<lambda>_.
     and_then (check (normalize_permissions (kw_permissions w))) (\<lambda>perms.
     and_then (read_db rt_keys) (\<lambda>keys.
     if map_of keys (fresh_key_id env) \<noteq> None then refuse UnhandledIntegrityError
     else
       let row = new_key_row env w perms in
       and_then (write_db (\<lambda>d. d\<lparr>rt_keys := put_row (fresh_key_id env) row keys\<rparr>)) (\<lambda>_.
       give (runtime_token (fresh_key_id env) (fresh_secret env), fresh_key_id env, row))))))"

definition revoke_runtime_key :: "runtime_env \<Rightarrow> string \<Rightarrow> runtime_key option runtime" where
  "revoke_runtime_key env key_id d p =
     (case map_of (rt_keys d) key_id of
        None \<Rightarrow> (d, p, Inr None)
      | Some row \<Rightarrow>
          if rk_status row = ''active''
          then let row' = row\<lparr>rk_status := ''revoked'', rk_revoked := Some (now (base env))\<rparr>
               in (d\<lparr>rt_keys := put_row key_id row' (rt_keys d)\<rparr>, p, Inr (Some row'))
          else (d, p, Inr (Some row)))"

definition list_runtime_keys_for_identity :: "string \<Rightarrow> runtime_db \<Rightarrow> (string \<times> runtime_key) list" where
  "list_runtime_keys_for_identity iden d = sort_key (\<lambda>(k, r). - rk_created r) (filter (\<lambda>(k, r). rk_identity r = iden) (rt_keys d))"

section \<open>Automation policies\<close>

definition HNP_MAX_SINGLE_LIMIT :: rat where "HNP_MAX_SINGLE_LIMIT = 50"
definition HNP_MAX_DAILY_LIMIT :: rat where "HNP_MAX_DAILY_LIMIT = 200"
definition HNP_SPEND_MULTIPLIER :: rat where "HNP_SPEND_MULTIPLIER = 1 / 2"
definition HIGH_RISK_MODES :: "string list" where "HIGH_RISK_MODES = [''always'', ''above_single'', ''off'']"

definition assert_human_not_present_policy_fields :: "bool \<Rightarrow> bool \<Rightarrow> rat \<Rightarrow> rat \<Rightarrow> bool \<Rightarrow> http_error + unit" where
  "assert_human_not_present_policy_fields unattended auto_enabled single daily acknowledged =
     (if \<not> unattended then Inr ()
      else if \<not> acknowledged then Inl (HTTPException 400 ''responsibility_acknowledged required for human_not_present_allowed'')
      else if \<not> auto_enabled then Inl (HTTPException 400 ''auto_enabled must be true when human_not_present_allowed is set'')
      else if HNP_MAX_SINGLE_LIMIT + 1 / 10 ^ 9 < single then Inl (HTTPException 400 ''human_not_present single_limit too high'')
      else if HNP_MAX_DAILY_LIMIT + 1 / 10 ^ 9 < daily then Inl (HTTPException 400 ''human_not_present daily_limit too high'')
      else Inr ())"

definition effective_spending_limits :: "automation_policy \<Rightarrow> rat \<times> rat" where
  "effective_spending_limits po =
     (if po_unattended po
      then (min (po_single po) HNP_MAX_SINGLE_LIMIT * HNP_SPEND_MULTIPLIER, min (po_daily po) HNP_MAX_DAILY_LIMIT * HNP_SPEND_MULTIPLIER)
      else (po_single po, po_daily po))"

definition get_automation_policy :: "string \<Rightarrow> automation_policy option runtime" where
  "get_automation_policy iden = read_db (\<lambda>d. map_of (rt_policies d) iden)"

text \<open>The version and the time of \<open>po\<close> are not used.\<close>

definition upsert_automation_policy :: "runtime_env \<Rightarrow> string \<Rightarrow> automation_policy \<Rightarrow> automation_policy runtime" where
  "upsert_automation_policy env iden po =
     and_then (check (assert_human_not_present_policy_fields (po_unattended po) (po_auto_enabled po) (po_single po) (po_daily po) (po_acknowledged po))) (\<lambda>_.
     and_then (require (0 < po_single po \<and> 0 < po_daily po) 400 ''single_limit and daily_limit must be > 0'') (\<lambda>_.
     and_then (require (po_single po \<le> po_daily po + 1 / 10 ^ 9) 400 ''daily_limit must be >= single_limit'') (\<lambda>_.
     and_then (require (po_high_risk_mode po \<in> set HIGH_RISK_MODES) 400 ''high_risk_mode'') (\<lambda>_.
     and_then (require ((po_auto_enabled po \<or> po_preauth po) \<longrightarrow> po_acknowledged po) 400 ''responsibility_acknowledged must be true'') (\<lambda>_.
     and_then (require (case (po_precision_min po, po_precision_max po) of (Some lo, Some hi) \<Rightarrow> lo \<le> hi + 1 / 10 ^ 9 | _ \<Rightarrow> True) 400
                 ''task_precision_max must be >= task_precision_min'') (\<lambda>_.
     and_then (require (60 \<le> po_code_ttl po) 400 ''payment_code_ttl_seconds must be >= 60'') (\<lambda>_.
     and_then (check (if po_auto_enabled po then normalize_permissions (po_permissions po)
                      else case unknown_permission (clean_permissions (po_permissions po)) of
                        Inl e \<Rightarrow> Inl e | Inr _ \<Rightarrow> Inr (clean_permissions (po_permissions po)))) (\<lambda>perms.
     and_then (get_automation_policy iden) (\<lambda>old.
     let row = po\<lparr>po_permissions := perms, po_version := (case old of None \<Rightarrow> 1 | Some r \<Rightarrow> po_version r + 1), po_updated_at := now (base env)\<rparr> in
     and_then (write_db (\<lambda>d. d\<lparr>rt_policies := put_row iden row (rt_policies d)\<rparr>)) (\<lambda>_. give row))))))))))"

definition assert_runtime_key_matches_policy :: "automation_policy \<Rightarrow> string list \<Rightarrow> rat \<Rightarrow> rat \<Rightarrow> http_error + unit" where
  "assert_runtime_key_matches_policy po permissions single daily =
     (if \<not> po_auto_enabled po then Inl (HTTPException 403 ''AI automation disabled'')
      else if \<not> po_acknowledged po then Inl (HTTPException 403 ''responsibility boundary not acknowledged in automation policy'')
      else case normalize_permissions permissions of
        Inl e \<Rightarrow> Inl e
      | Inr wanted \<Rightarrow>
          if sort wanted \<noteq> sort (po_permissions po) then Inl (HTTPException 403 ''runtime key permissions must match saved automation policy'')
          else if po_single po + 1 / 10 ^ 9 < single then Inl (HTTPException 403 ''single_limit exceeds saved automation policy'')
          else if po_daily po + 1 / 10 ^ 9 < daily then Inl (HTTPException 403 ''daily_limit exceeds saved automation policy'')
          else Inr ())"

section \<open>Messages and wallets\<close>

definition sorted_names :: "string list \<Rightarrow> string list" where
  "sorted_names = sort"

definition build_create_key_message :: "runtime_env \<Rightarrow> key_wishes \<Rightarrow> string" where
  "build_create_key_message env w =
     join [char_of (10 :: nat)]
       [''Karma Runtime Key Create'', ''karma_identity_id:'' @ kw_identity w, ''wallet_address:'' @ kw_wallet w,
        ''permissions:'' @ join '','' (sorted_names (kw_permissions w)), ''single_limit:'' @ show_float env (kw_single w),
        ''daily_limit:'' @ show_float env (kw_daily w), ''expire_time:'' @ iso_time env (kw_expire w), ''agent_name:'' @ kw_agent w,
        ''agent_binding:'' @ (case kw_binding w of None \<Rightarrow> [] | Some b \<Rightarrow> b)]"

definition build_revoke_key_message :: "string \<Rightarrow> string \<Rightarrow> string \<Rightarrow> string" where
  "build_revoke_key_message key_id iden wallet =
     join [char_of (10 :: nat)] [''Karma Runtime Key Revoke'', ''key_id:'' @ key_id, ''karma_identity_id:'' @ iden, ''wallet_address:'' @ wallet]"

definition build_list_keys_message :: "string \<Rightarrow> string \<Rightarrow> string \<Rightarrow> string" where
  "build_list_keys_message iden wallet nonce =
     join [char_of (10 :: nat)] [''Karma Runtime Key List'', ''karma_identity_id:'' @ iden, ''wallet_address:'' @ wallet, ''client_nonce:'' @ nonce]"

text \<open>A signature of the wrong length fails like one that names no signer.\<close>

definition normalize_sig :: "string \<Rightarrow> string option" where
  "normalize_sig sig =
     (let s = strip sig; t = (if starts_with s ''0x'' then drop 2 s else s) in if length t \<noteq> 130 then None else Some t)"

definition verify_personal_message :: "runtime_env \<Rightarrow> string \<Rightarrow> string \<Rightarrow> string \<Rightarrow> http_error + unit" where
  "verify_personal_message env message wallet sig =
     (let wa = strip wallet in
      if \<not> starts_with wa ''0x'' \<or> length wa \<noteq> 42 then Inl (HTTPException 400 ''wallet_address must be a 0x-prefixed 20-byte address'')
      else case Option.bind (normalize_sig sig) (recover env message) of
        None \<Rightarrow> Inl (HTTPException 400 ''wallet_signature verification failed'')
      | Some signer \<Rightarrow> if lower signer \<noteq> lower wa then Inl (HTTPException 403 ''wallet_signature does not match wallet_address'') else Inr ())"

definition norm_wallet :: "string \<Rightarrow> string" where
  "norm_wallet addr = lower (strip addr)"

text \<open>Of the profile of an identity only the bound wallet; the ledger of its reputation is not modelled.\<close>

definition ensure_profile :: "string \<Rightarrow> string option runtime" where
  "ensure_profile iden d p =
     (case map_of (rt_wallets d) iden of
        Some w \<Rightarrow> (d, p, Inr w)
      | None \<Rightarrow> (d\<lparr>rt_wallets := put_row iden None (rt_wallets d)\<rparr>, p, Inr None))"

definition ensure_wallet_authorized_for_runtime_key :: "runtime_env \<Rightarrow> string \<Rightarrow> string \<Rightarrow> unit runtime" where
  "ensure_wallet_authorized_for_runtime_key env iden wallet_address =
     (if \<not> wallet_required env \<and> \<not> wallet_auto_bind env then give ()
      else
        let wallet = norm_wallet wallet_address in
        and_then (require (starts_with wallet ''0x'' \<and> 10 \<le> length wallet) 400 ''invalid wallet_address'') (\<lambda>_.
        and_then (ensure_profile (strip iden)) (\<lambda>stored.
        let bound = (case stored of None \<Rightarrow> [] | Some w \<Rightarrow> norm_wallet w) in
        if bound = []
        then if wallet_auto_bind env then write_db (\<lambda>d. d\<lparr>rt_wallets := put_row (strip iden) (Some wallet) (rt_wallets d)\<rparr>)
             else require (\<not> wallet_required env) 403 ''identity has no bound wallet''
        else require (bound = wallet) 403 ''wallet_address does not match bound wallet for this karma_identity_id'')))"

section \<open>API keys\<close>

text \<open>\<open>karma_<agent>_<secret>\<close>; the agent ends at the first underscore.\<close>

definition parse_api_key :: "string \<Rightarrow> (string \<times> string) option" where
  "parse_api_key key =
     (if \<not> starts_with key ''karma_'' then None
      else let rest = drop 6 key in map_option (\<lambda>i. (take i rest, drop (i + 1) rest)) (index_of CHR ''_'' rest))"

definition agent_char :: "char \<Rightarrow> bool" where
  "agent_char c = (let n = char_code c in 48 \<le> n \<and> n \<le> 57 \<or> 65 \<le> n \<and> n \<le> 90 \<or> 97 \<le> n \<and> n \<le> 122)"

text \<open>The pattern of agent names; its \<open>$\<close> also matches in front of a final newline.\<close>

definition agent_name_ok :: "string \<Rightarrow> bool" where
  "agent_name_ok s =
     (let t = (if s \<noteq> [] \<and> char_code (last s) = 10 then butlast s else s)
      in 2 \<le> length t \<and> length t \<le> 64 \<and> agent_char (hd t) \<and> list_all (\<lambda>c. agent_char c \<or> c = CHR ''_'' \<or> c = CHR ''-'') (tl t))"

definition validate_api_key :: "runtime_env \<Rightarrow> string \<Rightarrow> string option" where
  "validate_api_key env key =
     (case parse_api_key key of
        None \<Rightarrow> None
      | Some (agent, secret) \<Rightarrow>
          if \<not> agent_name_ok agent then None
          else case map_of (api_keys env) agent of
            Some expected \<Rightarrow> if secret = expected then Some agent else None
          | None \<Rightarrow>
              if minted_key env agent secret then Some agent
              else if dev_fallback env \<and> \<not> auth_enforced env \<and> lower (env_name env) \<in> {''development'', ''dev'', ''local'', ''test''} \<and> 12 \<le> length secret
              then Some agent else None)"

text \<open>The key that the gateway makes for the routes it calls, and the request it makes with it.\<close>

definition dev_api_key :: "string \<Rightarrow> string" where
  "dev_api_key actor = ''karma_'' @ actor @ ''_devruntimekey12''"

definition synthetic_request :: "runtime_env \<Rightarrow> string \<Rightarrow> string \<Rightarrow> request_env" where
  "synthetic_request env actor path = (base env)\<lparr>caller := validate_api_key env (dev_api_key actor), url_path := path\<rparr>"

end
