(* ===== verification/Runtime_Gateway.thy ===== *)
theory Runtime_Gateway
  imports Runtime_Keys Settlement_Routes
begin

text \<open>
  The routes of the vouchers (\<^verbatim>\<open>api/routes/vouchers.py\<close>) and the gateway of the agents (\<^verbatim>\<open>api/routes/runtime_gateway.py\<close>), which serves
  the requests of a key by calling the routes of vouchers, progress and settlements with a request of its own. The bodies are
  validated. What \<^verbatim>\<open>services/voucher_buyer_commitment.py\<close>, the responsibility graph and the readiness of a task say is a field of the
  environment. The routes that only read and the one for execution receipts are left out.
\<close>

definition on_routes :: "'a route \<Rightarrow> 'a runtime" where
  "on_routes r d p = (case r (rt_routes d) (rp_routes p) of (d', p', out) \<Rightarrow> (d\<lparr>rt_routes := d'\<rparr>, p\<lparr>rp_routes := p'\<rparr>, out))"

section \<open>Vouchers\<close>

definition ledger_party_binding_active :: "runtime_env \<Rightarrow> bool" where
  "ledger_party_binding_active env \<longleftrightarrow> ledger_actor_required env \<and> auth_enforced env"

definition require_ledger_identity :: "runtime_env \<Rightarrow> request_env \<Rightarrow> string \<Rightarrow> http_error + unit" where
  "require_ledger_identity env rq iden =
     (if \<not> ledger_party_binding_active env then Inr ()
      else case require_actor rq of
        Inl e \<Rightarrow> Inl e
      | Inr a \<Rightarrow> if a \<noteq> iden then Inl (HTTPException 403 ''authenticated actor must match the target identity for this ledger operation'')
                 else Inr ())"

definition validate_sub_identity_binding :: "string \<Rightarrow> string option \<Rightarrow> string \<Rightarrow> unit runtime" where
  "validate_sub_identity_binding parent sub role d p =
     (d, p,
      case sub of
        None \<Rightarrow> Inr ()
      | Some s \<Rightarrow>
          (case map_of (rt_subs d) s of
             None \<Rightarrow> Inl (HTTPException 404 (role @ '' sub-identity not found: '' @ s))
           | Some row \<Rightarrow>
               if si_parent row \<noteq> parent then Inl (HTTPException 409 (role @ '' sub-identity parent mismatch''))
               else if si_status row \<noteq> ''active'' then Inl (HTTPException 409 (role @ '' sub-identity is not active''))
               else Inr ()))"

definition new_voucher :: "runtime_env \<Rightarrow> voucher_request \<Rightarrow> voucher" where
  "new_voucher env b =
     \<lparr>voucher_id = fresh_voucher_id env, buyer_identity_id = vr_buyer b, seller_identity_id = vr_seller b, bill_credit_amount = vr_credits b,
      v_amount = vr_amount b, v_currency = vr_currency b, v_task_type = vr_task_type b, expiry_time = vr_expiry b, v_status = ''created'',
      accepted_at = None, rejection_reason = None, rejected_at = None, rejected_by_identity_id = None, v_profile_id = vr_profile b,
      v_progress_rule_spec = vr_rule_spec b\<rparr>"

text \<open>The nonce of a buyer and the id of a voucher are unique.\<close>

definition insert_voucher :: "runtime_env \<Rightarrow> voucher_request \<Rightarrow> voucher runtime" where
  "insert_voucher env b d p =
     (if (vr_buyer b, vr_nonce b) \<in> set (rt_nonces d) \<or> map_of (vouchers (rt_routes d)) (fresh_voucher_id env) \<noteq> None
      then (d, p, Inl (HTTPException 409 ''duplicate voucher nonce for this buyer''))
      else
        let v = new_voucher env b in
        (d\<lparr>rt_routes := (rt_routes d)\<lparr>vouchers := put_row (fresh_voucher_id env) v (vouchers (rt_routes d))\<rparr>,
           rt_nonces := rt_nonces d @ [(vr_buyer b, vr_nonce b)],
           rt_events := rt_events d @
             [\<lparr>ev_voucher_id = fresh_voucher_id env, ev_type = ''voucher.created'', ev_actor = vr_buyer b, ev_target = vr_seller b,
               ev_payload = [(''amount'', show_float env (vr_amount b)), (''task_type'', vr_task_type b),
                             (''bill_credit_amount'', show_float env (vr_credits b))]\<rparr>]\<rparr>, p, Inr v))"

definition credits_suffice :: "voucher_request \<Rightarrow> runtime_db \<Rightarrow> bool" where
  "credits_suffice b d \<longleftrightarrow>
     (case map_of (capacities (rt_routes d)) (vr_buyer b) of None \<Rightarrow> False | Some c \<Rightarrow> vr_credits b \<le> available_credits c)"

text \<open>\<open>rq\<close> is the request that carries the caller.\<close>

definition create_voucher :: "runtime_env \<Rightarrow> request_env \<Rightarrow> voucher_request \<Rightarrow> voucher runtime" where
  "create_voucher env rq b =
     and_then (on_routes (allowed ''new_authorization'')) (\<lambda>_.
     and_then (on_routes (audit_anchor rq)) (\<lambda>_.
     and_then (check (validate_public_url_segment ''buyer_identity_id'' (vr_buyer b))) (\<lambda>_.
     and_then (check (validate_public_url_segment ''seller_identity_id'' (vr_seller b))) (\<lambda>_.
     and_then (check (valid_opt ''buyer_sub_identity_id'' (vr_buyer_sub b))) (\<lambda>_.
     and_then (check (valid_opt ''seller_sub_identity_id'' (vr_seller_sub b))) (\<lambda>_.
     and_then (check (validate_public_url_segment ''nonce'' (vr_nonce b))) (\<lambda>_.
     and_then (check (validate_public_url_segment ''task_type'' (vr_task_type b))) (\<lambda>_.
     and_then (check (require_ledger_identity env rq (vr_buyer b))) (\<lambda>_.
     and_then (require (0 < vr_amount b \<and> 0 < vr_credits b) 400 ''amount and bill_credit_amount must be > 0'') (\<lambda>_.
     and_then (require (now rq < vr_expiry b) 400 ''expiry_time must be in the future'') (\<lambda>_.
     and_then (read_db (credits_suffice b)) (\<lambda>enough.
     and_then (require enough 409 ''insufficient buyer available credits'') (\<lambda>_.
     and_then (case named (vr_profile b) of
                 None \<Rightarrow> give ()
               | Some pid \<Rightarrow> and_then (on_routes (on_quotas (spend_profile_credits (now rq) pid (vr_credits b)))) (\<lambda>_. give ())) (\<lambda>_.
     and_then (validate_sub_identity_binding (vr_buyer b) (vr_buyer_sub b) ''buyer'') (\<lambda>_.
     and_then (validate_sub_identity_binding (vr_seller b) (vr_seller_sub b) ''seller'') (\<lambda>_.
     and_then (check (buyer_commitment env b)) (\<lambda>_.
     insert_voucher env b)))))))))))))))))"

record voucher_check =
  vc_expired :: bool
  vc_used :: bool
  vc_amount_matches :: bool
  vc_seller_matches :: bool
  vc_capacity :: bool
  vc_can_start :: bool
  vc_accepted :: bool
  vc_reserved :: bool

definition voucher_result :: "int \<Rightarrow> string \<Rightarrow> rat option \<Rightarrow> capacity option \<Rightarrow> voucher \<Rightarrow> voucher_check" where
  "voucher_result clock seller expected cap row =
     (let expired = (expiry_time row \<le> clock); used = (v_status row \<in> {''used'', ''cancelled''}); seller_ok = (seller_identity_id row = seller);
          amount_ok = (case expected of None \<Rightarrow> True | Some x \<Rightarrow> \<bar>v_amount row - x\<bar> < 1 / 10 ^ 9);
          enough = (case cap of None \<Rightarrow> False | Some c \<Rightarrow> bill_credit_amount row \<le> available_credits c);
          accepted = (v_status row = ''accepted'');
          reserved = (case cap of None \<Rightarrow> False | Some c \<Rightarrow> accepted \<and> bill_credit_amount row \<le> reserved_credits c + 1 / 10 ^ 9)
      in \<lparr>vc_expired = expired, vc_used = used, vc_amount_matches = amount_ok, vc_seller_matches = seller_ok, vc_capacity = enough,
          vc_can_start = (\<not> expired \<and> \<not> used \<and> seller_ok \<and> amount_ok \<and> (if accepted then reserved else enough)), vc_accepted = accepted,
          vc_reserved = reserved\<rparr>)"

definition load_voucher :: "string \<Rightarrow> voucher runtime" where
  "load_voucher vid d p =
     (d, p, case map_of (vouchers (rt_routes d)) vid of None \<Rightarrow> Inl (HTTPException 404 (''Voucher '' @ vid @ '' not found'')) | Some v \<Rightarrow> Inr v)"

definition verify_voucher :: "runtime_env \<Rightarrow> request_env \<Rightarrow> string \<Rightarrow> string \<Rightarrow> rat option \<Rightarrow> voucher_check runtime" where
  "verify_voucher env rq vid seller expected =
     and_then (check (validate_public_url_segment ''voucher_id'' vid)) (\<lambda>_.
     and_then (check (validate_public_url_segment ''seller_identity_id'' seller)) (\<lambda>_.
     and_then (load_voucher vid) (\<lambda>row.
     and_then (check (require_ledger_identity env rq seller)) (\<lambda>_.
     and_then (read_db (\<lambda>d. map_of (capacities (rt_routes d)) (buyer_identity_id row))) (\<lambda>cap.
     give (voucher_result (now rq) seller expected cap row))))))"

definition on_voucher :: "(unit voucher_db, safety_mode, http_error, voucher) request \<Rightarrow> string \<Rightarrow> voucher \<Rightarrow> voucher runtime" where
  "on_voucher req vid v d p =
     (case req \<lparr>ledger = capacities (rt_routes d), voucher_row = v, voucher_events = rt_events d, graph = ()\<rparr> (fst (rp_routes p)) of
        (db, m, out) \<Rightarrow>
          (d\<lparr>rt_routes := (rt_routes d)\<lparr>capacities := ledger db, vouchers := put_row vid (voucher_row db) (vouchers (rt_routes d))\<rparr>,
             rt_events := voucher_events db\<rparr>,
           p\<lparr>rp_routes := (m, snd (rp_routes p))\<rparr>, out))"

definition accept_voucher :: "runtime_env \<Rightarrow> request_env \<Rightarrow> string \<Rightarrow> string \<Rightarrow> voucher runtime" where
  "accept_voucher env rq vid seller =
     and_then (check (validate_public_url_segment ''voucher_id'' vid)) (\<lambda>_.
     and_then (check (validate_public_url_segment ''seller_identity_id'' seller)) (\<lambda>_.
     and_then (on_routes (allowed ''new_authorization'')) (\<lambda>_.
     and_then (on_routes (audit_anchor rq)) (\<lambda>_.
     and_then (check (require_ledger_identity env rq seller)) (\<lambda>_.
     and_then (load_voucher vid) (\<lambda>row.
     on_voucher (accept_voucher_row (\<lambda>b s v g. ingest_edge env b s v) (now rq) seller ''api'') vid row))))))"

section \<open>Keys\<close>

definition match_saved_policy :: "runtime_env \<Rightarrow> key_wishes \<Rightarrow> unit runtime" where
  "match_saved_policy env w =
     (if \<not> policy_required env then give ()
      else and_then (get_automation_policy (kw_identity w)) (\<lambda>saved.
           case saved of
             None \<Rightarrow> refuse (HTTPException 403 ''automation policy not saved'')
           | Some po \<Rightarrow> check (assert_runtime_key_matches_policy po (kw_permissions w) (kw_single w) (kw_daily w))))"

definition runtime_create_key :: "runtime_env \<Rightarrow> key_wishes \<Rightarrow> (string \<times> string \<times> runtime_key) runtime" where
  "runtime_create_key env w =
     and_then (check (validate_public_url_segment ''karma_identity_id'' (kw_identity w))) (\<lambda>_.
     and_then (check (valid_opt ''profile_id'' (kw_profile w))) (\<lambda>_.
     and_then (check (verify_personal_message env (build_create_key_message env w) (kw_wallet w) (kw_signature w))) (\<lambda>_.
     and_then (match_saved_policy env w) (\<lambda>_.
     and_then (ensure_wallet_authorized_for_runtime_key env (kw_identity w) (kw_wallet w)) (\<lambda>_.
     create_runtime_key_record env w)))))"

definition runtime_revoke_key :: "runtime_env \<Rightarrow> string \<Rightarrow> string \<Rightarrow> string \<Rightarrow> string \<Rightarrow> unit runtime" where
  "runtime_revoke_key env key_id wallet iden sig =
     and_then (check (validate_public_url_segment ''key_id'' key_id)) (\<lambda>_.
     and_then (check (validate_public_url_segment ''karma_identity_id'' iden)) (\<lambda>_.
     and_then (check (verify_personal_message env (build_revoke_key_message key_id iden wallet) wallet sig)) (\<lambda>_.
     and_then (read_db (\<lambda>d. map_of (rt_keys d) key_id)) (\<lambda>found.
     case found of
       None \<Rightarrow> refuse (HTTPException 404 ''runtime key not found for identity'')
     | Some row \<Rightarrow>
         if rk_identity row \<noteq> iden then refuse (HTTPException 404 ''runtime key not found for identity'')
         else if lower (rk_wallet row) \<noteq> lower (strip wallet) then refuse (HTTPException 403 ''wallet does not own this runtime key'')
         else and_then (revoke_runtime_key env key_id) (\<lambda>_. give ())))))"

text \<open>The nonce of the list is in the signed message, but it is not kept.\<close>

definition runtime_list_keys :: "runtime_env \<Rightarrow> string \<Rightarrow> string \<Rightarrow> string \<Rightarrow> string \<Rightarrow> (string \<times> runtime_key) list runtime" where
  "runtime_list_keys env wallet iden sig nonce =
     and_then (check (validate_public_url_segment ''karma_identity_id'' iden)) (\<lambda>_.
     and_then (check (validate_public_url_segment ''client_nonce'' nonce)) (\<lambda>_.
     and_then (check (verify_personal_message env (build_list_keys_message iden wallet nonce) wallet sig)) (\<lambda>_.
     read_db (list_runtime_keys_for_identity iden))))"

section \<open>Requests of the agents\<close>

definition get_runtime_context :: "runtime_env \<Rightarrow> string option \<Rightarrow> runtime_context runtime" where
  "get_runtime_context env header =
     (case header of
        None \<Rightarrow> refuse (HTTPException 401 ''X-Karma-Runtime-Key header is required'')
      | Some h \<Rightarrow> if strip h = [] then refuse (HTTPException 401 ''X-Karma-Runtime-Key header is required'')
                  else load_active_context env (strip h))"

definition with_profile :: "runtime_context \<Rightarrow> voucher_request \<Rightarrow> voucher_request" where
  "with_profile ctx b = (if named (cx_profile ctx) \<noteq> None \<and> named (vr_profile b) = None then b\<lparr>vr_profile := cx_profile ctx\<rparr> else b)"

definition runtime_request_voucher :: "runtime_env \<Rightarrow> string option \<Rightarrow> string \<Rightarrow> voucher_request \<Rightarrow> voucher runtime" where
  "runtime_request_voucher env header nonce b0 =
     and_then (get_runtime_context env header) (\<lambda>ctx.
     and_then (assert_permission ctx ''request_voucher'') (\<lambda>_.
     and_then (require (vr_buyer b0 = cx_identity ctx) 403 ''voucher buyer_identity_id must match runtime key identity'') (\<lambda>_.
     let b = with_profile ctx b0 in
     and_then (check_replay_nonce env (cx_key ctx) ''request-voucher'' nonce) (\<lambda>_.
     and_then (get_daily_used_async env (cx_key ctx)) (\<lambda>used.
     and_then (check (check_single_and_daily_limits (vr_amount b) (cx_single ctx) (cx_daily ctx) used)) (\<lambda>_.
     and_then (create_voucher env (synthetic_request env (cx_identity ctx) ''/runtime/request-voucher'') b) (\<lambda>out.
     and_then (record_daily_spend_async env (cx_key ctx) (vr_amount b)) (\<lambda>_.
     give out))))))))"

definition resolve_task_id_for_voucher :: "string \<Rightarrow> string option runtime" where
  "resolve_task_id_for_voucher vid d p =
     (d, p, case filter (\<lambda>r. r_voucher_id r = Some vid) (settlements (rt_routes d)) of
              [] \<Rightarrow> Inr None | [r] \<Rightarrow> Inr (Some (r_task_id r)) | _ \<Rightarrow> Inl (UnhandledValueError ''multiple rows''))"

definition runtime_check_voucher :: "runtime_env \<Rightarrow> string option \<Rightarrow> string \<Rightarrow> string \<Rightarrow> rat option \<Rightarrow> voucher_check runtime" where
  "runtime_check_voucher env header vid nonce expected =
     and_then (get_runtime_context env header) (\<lambda>ctx.
     and_then (assert_permission ctx ''verify_voucher'') (\<lambda>_.
     and_then (check (validate_public_url_segment ''voucher_id'' vid)) (\<lambda>_.
     and_then (check_replay_nonce env (cx_key ctx) ''check-voucher'' nonce) (\<lambda>_.
     and_then (resolve_task_id_for_voucher vid) (\<lambda>tid.
     and_then (case named tid of None \<Rightarrow> give () | Some t \<Rightarrow> check (task_ready env t (cx_identity ctx))) (\<lambda>_.
     verify_voucher env (synthetic_request env (cx_identity ctx) ''/runtime/check-voucher'') vid (cx_identity ctx) expected))))))"

definition runtime_update_progress :: "runtime_env \<Rightarrow> string option \<Rightarrow> progress_row \<Rightarrow> progress_row runtime" where
  "runtime_update_progress env header r =
     and_then (get_runtime_context env header) (\<lambda>ctx.
     and_then (assert_permission ctx ''update_progress'') (\<lambda>_.
     and_then (require (pr_seller r = cx_identity ctx) 403 ''seller_identity_id must match runtime key identity'') (\<lambda>_.
     and_then (check (task_ready env (pr_task_id r) (cx_identity ctx))) (\<lambda>_.
     let sig = sign_progress env [(''runtime_progress_binding'', cx_key ctx), (''progress_receipt_id'', pr_id r), (''task_id'', pr_task_id r),
                                  (''evidence_hash'', pr_evidence_hash r), (''runtime_log_hash'', pr_runtime_hash r)]
     in on_routes (submit_progress_receipt (synthetic_request env (cx_identity ctx) ''/runtime/update-progress'') (r\<lparr>pr_signature := ''runtime:'' @ sig\<rparr>))))))"

datatype settlement_wish = Submit_Delivery | Buyer_Accept | Partial "rat option"

definition stored_settlement :: "string \<Rightarrow> settlement_state runtime" where
  "stored_settlement tid d p =
     (d, p, case postgres_get tid (settlements (rt_routes d)) of
              Inl e \<Rightarrow> Inl (unhandled e)
            | Inr None \<Rightarrow> Inl (HTTPException 404 ''settlement not found'')
            | Inr (Some st) \<Rightarrow> Inr st)"

definition runtime_request_settlement :: "runtime_env \<Rightarrow> string option \<Rightarrow> string \<Rightarrow> settlement_wish \<Rightarrow> string \<Rightarrow> settlement_state runtime" where
  "runtime_request_settlement env header tid kind nonce =
     and_then (get_runtime_context env header) (\<lambda>ctx.
     and_then (assert_permission ctx ''request_settlement'') (\<lambda>_.
     and_then (check (validate_public_url_segment ''task_id'' tid)) (\<lambda>_.
     and_then (check_replay_nonce env (cx_key ctx) ''request-settlement'' nonce) (\<lambda>_.
     and_then (check (task_ready env tid (cx_identity ctx))) (\<lambda>_.
     and_then (stored_settlement tid) (\<lambda>st.
     let path = ''/runtime/request-settlement''; worker = (case worker_agent_id st of None \<Rightarrow> [] | Some w \<Rightarrow> w); buyer = client_agent_id st in
     case kind of
       Submit_Delivery \<Rightarrow>
         and_then (require (cx_identity ctx = worker) 403 ''submit_delivery requires worker identity'') (\<lambda>_.
         on_routes (submit_settlement (synthetic_request env (if worker = [] then cx_identity ctx else worker) path) tid))
     | Buyer_Accept \<Rightarrow>
         and_then (require (cx_identity ctx = buyer) 403 ''buyer_accept requires buyer identity'') (\<lambda>_.
         on_routes (buyer_accept_settlement (synthetic_request env buyer path) tid None))
     | Partial pct \<Rightarrow>
         and_then (require (cx_identity ctx = buyer) 403 ''partial settlement requires buyer identity'') (\<lambda>_.
         case pct of
           None \<Rightarrow> refuse (HTTPException 400 ''settled_value_percent required for partial'')
         | Some x \<Rightarrow>
             if x \<le> 0 \<or> 100 < x then refuse (UnhandledValueError ''settled_value_percent'')
             else on_routes (partial_settlement (synthetic_request env buyer path) tid x None))))))))"

end
