(* ===== verification/Runtime_System.thy ===== *)
theory Runtime_System
  imports Runtime_Gateway
begin

text \<open>
  Runs of the gateway: what a request changes of the keys and of the spending, and the invariant that the spending of a key on a day is the
  sum of the vouchers made with it and stays within its limit.
\<close>

section \<open>Steps that leave keys and spending alone\<close>

definition quiet :: "'a runtime \<Rightarrow> bool" where
  "quiet m \<longleftrightarrow> (\<forall>d p d' p' r. m d p = (d', p', r) \<longrightarrow> rt_keys d' = rt_keys d \<and> rt_daily d' = rt_daily d \<and> rp_daily p' = rp_daily p)"

named_theorems quiets \<open>steps that leave keys and spending alone\<close>

lemma quietD: "quiet m \<Longrightarrow> m d p = (d', p', r) \<Longrightarrow> rt_keys d' = rt_keys d \<and> rt_daily d' = rt_daily d \<and> rp_daily p' = rp_daily p"
  unfolding quiet_def by blast

lemma quiet_basic [quiets]:
  "quiet (give a)" "quiet (refuse e)" "quiet (check r)" "quiet (require b code detail)" "quiet (read_db f)"
  by (simp_all add: quiet_def give_def refuse_def check_def require_def read_db_def)

lemma quiet_and_then [quiets]: "quiet m \<Longrightarrow> (\<And>a. quiet (f a)) \<Longrightarrow> quiet (and_then m f)"
  unfolding quiet_def and_then_def by (auto split: prod.splits sum.splits) metis+

lemma quiet_if [quiets]: "(b \<Longrightarrow> quiet m) \<Longrightarrow> (\<not> b \<Longrightarrow> quiet m') \<Longrightarrow> quiet (if b then m else m')"
  by simp

lemma quiet_option [quiets]: "quiet m \<Longrightarrow> (\<And>x. quiet (f x)) \<Longrightarrow> quiet (case y of None \<Rightarrow> m | Some x \<Rightarrow> f x)"
  by (cases y) simp_all

lemma quiet_let [quiets]: "(\<And>x. quiet (f x)) \<Longrightarrow> quiet (let x = y in f x)"
  by simp

lemma quiet_wish [quiets]: "quiet a \<Longrightarrow> quiet b \<Longrightarrow> (\<And>x. quiet (c x)) \<Longrightarrow> quiet (case k of Submit_Delivery \<Rightarrow> a | Buyer_Accept \<Rightarrow> b | Partial x \<Rightarrow> c x)"
  by (cases k) simp_all

lemma quiet_on_routes [quiets]: "quiet (on_routes r)"
  by (auto simp: quiet_def on_routes_def split: prod.splits)

lemma quiet_on_voucher [quiets]: "quiet (on_voucher req vid v)"
  by (auto simp: quiet_def on_voucher_def split: prod.splits)

lemma quiet_steps [quiets]:
  "quiet (load_active_context env token)" "quiet (get_automation_policy iden)" "quiet (ensure_profile iden)" "quiet (validate_sub_identity_binding a s role)"
  "quiet (insert_voucher env b)" "quiet (load_voucher vid)" "quiet (resolve_task_id_for_voucher vid)" "quiet (stored_settlement tid)"
  "quiet (check_replay_nonce env k ep nonce)" "quiet (get_daily_used_async env k)" "quiet (assert_permission ctx perm)"
  by (auto simp: quiet_def load_active_context_def get_automation_policy_def ensure_profile_def validate_sub_identity_binding_def insert_voucher_def
      load_voucher_def resolve_task_id_for_voucher_def stored_settlement_def check_replay_nonce_def get_daily_used_async_def assert_permission_def
      read_db_def require_def Let_def split: option.splits if_splits prod.splits)

lemma quiet_context [quiets]: "quiet (get_runtime_context env header)"
  unfolding get_runtime_context_def by (intro quiets)

lemma quiet_create_voucher [quiets]: "quiet (create_voucher env rq b)"
  unfolding create_voucher_def by (intro quiets)

lemma quiet_verify [quiets]: "quiet (verify_voucher env rq vid seller expected)"
  unfolding verify_voucher_def by (intro quiets)

lemma quiet_wallet [quiets]: "quiet (ensure_wallet_authorized_for_runtime_key env iden wallet)"
proof -
  have "quiet (write_db (\<lambda>d. d\<lparr>rt_wallets := f d\<rparr>))" for f by (simp add: quiet_def write_db_def)
  then show ?thesis unfolding ensure_wallet_authorized_for_runtime_key_def by (intro quiets)
qed

lemma quiet_policy [quiets]: "quiet (match_saved_policy env w)"
  unfolding match_saved_policy_def by (intro quiets)

lemma quiet_upsert [quiets]: "quiet (upsert_automation_policy env iden po)"
proof -
  have "quiet (write_db (\<lambda>d. d\<lparr>rt_policies := f d\<rparr>))" for f by (simp add: quiet_def write_db_def)
  then show ?thesis unfolding upsert_automation_policy_def by (intro quiets)
qed

lemma quiet_requests [quiets]:
  "quiet (accept_voucher env rq vid seller)" "quiet (runtime_list_keys env wallet iden sig nonce)" "quiet (runtime_check_voucher env header vid nonce expected)"
  "quiet (runtime_update_progress env header r)" "quiet (runtime_request_settlement env header tid kind nonce)"
  unfolding accept_voucher_def runtime_list_keys_def runtime_check_voucher_def runtime_update_progress_def runtime_request_settlement_def
  by (intro quiets)+

section \<open>Requests that change keys or spending\<close>

text \<open>A request that makes a voucher: what held before it, and what it leaves.\<close>

lemma request_voucher_Inr:
  assumes "runtime_request_voucher env header nonce b0 d p = (d', p', Inr v)"
  obtains ctx b d1 p1 p2 used where "get_runtime_context env header d p = (d, p, Inr ctx)" and "b = with_profile ctx b0"
    and "''request_voucher'' \<in> set (cx_permissions ctx)" and "vr_buyer b0 = cx_identity ctx"
    and "check_replay_nonce env (cx_key ctx) ''request-voucher'' nonce d p = (d, p1, Inr ())"
    and "get_daily_used_async env (cx_key ctx) d p1 = (d, p1, Inr used)"
    and "check_single_and_daily_limits (vr_amount b) (cx_single ctx) (cx_daily ctx) used = Inr ()"
    and "create_voucher env (synthetic_request env (cx_identity ctx) ''/runtime/request-voucher'') b d p1 = (d1, p2, Inr v)"
    and "record_daily_spend_async env (cx_key ctx) (vr_amount b) d1 p2 = (d', p', Inr ())"
proof -
  have ctx: "d1 = d \<and> p1 = p" if "get_runtime_context env header d p = (d1, p1, r)" for d1 p1 r
    using that by (auto simp: get_runtime_context_def refuse_def load_active_context_def split: option.splits if_splits)
  have nonce: "d1 = d" if "check_replay_nonce env k ep nonce d p = (d1, p1, r)" for d1 p1 r k ep
    using that by (auto simp: check_replay_nonce_def split: if_splits prod.splits)
  have used: "d1 = d \<and> p1 = p" if "get_daily_used_async env k d p = (d1, p1, r)" for d1 p1 r k p
    using that by (simp add: get_daily_used_async_def)
  obtain ctx da pa db pb dc pc used where steps: "get_runtime_context env header d p = (da, pa, Inr ctx)" "''request_voucher'' \<in> set (cx_permissions ctx)"
    "vr_buyer b0 = cx_identity ctx" "check_replay_nonce env (cx_key ctx) ''request-voucher'' nonce da pa = (db, pb, Inr ())"
    "get_daily_used_async env (cx_key ctx) db pb = (dc, pc, Inr used)"
    "check_single_and_daily_limits (vr_amount (with_profile ctx b0)) (cx_single ctx) (cx_daily ctx) used = Inr ()"
    "\<exists>d1 p2. create_voucher env (synthetic_request env (cx_identity ctx) ''/runtime/request-voucher'') (with_profile ctx b0) dc pc = (d1, p2, Inr v) \<and>
      record_daily_spend_async env (cx_key ctx) (vr_amount (with_profile ctx b0)) d1 p2 = (d', p', Inr ())"
    using assms unfolding runtime_request_voucher_def Let_def assert_permission_def returns by (simp split del: if_split) blast
  with ctx nonce used have "da = d" "pa = p" "db = d" "dc = d" "pc = pb" by metis+
  with steps that show ?thesis by blast
qed

lemma limits_Inr:
  "check_single_and_daily_limits amount single daily used = Inr () \<longleftrightarrow> 0 < amount \<and> amount \<le> single + 1 / 10 ^ 9 \<and> used + amount \<le> daily + 1 / 10 ^ 9"
  by (simp add: check_single_and_daily_limits_def not_le not_less)

lemma context_row:
  assumes "get_runtime_context env header d p = (d', p', Inr ctx)"
  obtains h kid secret row where "header = Some h" and "parse_runtime_key_token (strip h) = Inr (kid, secret)" and "map_of (rt_keys d) kid = Some row"
    and "rk_status row = ''active''" and "hash_runtime_secret env kid secret = rk_secret_hash row" and "now (base env) \<le> rk_expire row + 30 * 10 ^ 6"
    and "ctx = \<lparr>cx_key = kid, cx_identity = rk_identity row, cx_profile = rk_profile row, cx_wallet = rk_wallet row, cx_permissions = rk_permissions row,
                cx_single = rk_single row, cx_daily = rk_daily row, cx_expire = rk_expire row, cx_agent = rk_agent row, cx_status = rk_status row\<rparr>"
  using assms that unfolding get_runtime_context_def load_active_context_def verify_runtime_secret_def
  by (auto simp: refuse_def not_less split: option.splits if_splits sum.splits prod.splits)

lemma create_key_keys:
  assumes "runtime_create_key env w d p = (d', p', r)"
  shows "rt_daily d' = rt_daily d \<and> rp_daily p' = rp_daily p \<and>
    (rt_keys d' = rt_keys d \<or> map_of (rt_keys d) (fresh_key_id env) = None \<and>
       (\<exists>perms. rt_keys d' = put_row (fresh_key_id env) (new_key_row env w perms) (rt_keys d)))"
proof -
  define m where "m = and_then (check (validate_public_url_segment ''karma_identity_id'' (kw_identity w))) (\<lambda>_.
     and_then (check (valid_opt ''profile_id'' (kw_profile w))) (\<lambda>_.
     and_then (check (verify_personal_message env (build_create_key_message env w) (kw_wallet w) (kw_signature w))) (\<lambda>_.
     and_then (match_saved_policy env w) (\<lambda>_. ensure_wallet_authorized_for_runtime_key env (kw_identity w) (kw_wallet w)))))"
  have eq: "runtime_create_key env w = and_then m (\<lambda>_. create_runtime_key_record env w)"
    unfolding runtime_create_key_def m_def and_then_def by (auto simp: fun_eq_iff split: prod.splits sum.splits)
  have m: "quiet m" unfolding m_def by (intro quiets)
  have rec: "rt_daily d2 = rt_daily d1 \<and> rp_daily p2 = rp_daily p1 \<and>
      (rt_keys d2 = rt_keys d1 \<or> map_of (rt_keys d1) (fresh_key_id env) = None \<and>
         (\<exists>perms. rt_keys d2 = put_row (fresh_key_id env) (new_key_row env w perms) (rt_keys d1)))"
    if "create_runtime_key_record env w d1 p1 = (d2, p2, x)" for d1 p1 d2 p2 x
    using that unfolding create_runtime_key_record_def
    by (auto simp: and_then_def require_def check_def read_db_def write_db_def give_def refuse_def Let_def split: sum.splits prod.splits if_splits)
  obtain d1 p1 x where run: "m d p = (d1, p1, x)" by (metis prod_cases3)
  note before = quietD [OF m run]
  show ?thesis
  proof (cases x)
    case (Inl e)
    with assms run before show ?thesis unfolding eq and_then_def by auto
  next
    case (Inr u)
    with assms run have "create_runtime_key_record env w d1 p1 = (d', p', r)" unfolding eq and_then_def by simp
    from rec [OF this] before show ?thesis by auto
  qed
qed

lemma revoke_keys:
  assumes "runtime_revoke_key env key_id wallet iden sig d p = (d', p', r)"
  shows "rt_daily d' = rt_daily d \<and> rp_daily p' = rp_daily p \<and>
    (rt_keys d' = rt_keys d \<or> (\<exists>row t. map_of (rt_keys d) key_id = Some row \<and> rk_status row = ''active'' \<and>
       rt_keys d' = put_row key_id (row\<lparr>rk_status := ''revoked'', rk_revoked := t\<rparr>) (rt_keys d)))"
  using assms unfolding runtime_revoke_key_def
  by (auto simp: and_then_def require_def check_def read_db_def give_def refuse_def revoke_runtime_key_def Let_def split: sum.splits prod.splits if_splits option.splits)

section \<open>Runs\<close>

datatype runtime_call =
    Create_Key key_wishes
  | Revoke_Key string string string string
  | List_Keys string string string string
  | Save_Policy string automation_policy
  | Request_Voucher "string option" string voucher_request
  | Check_Voucher "string option" string string "rat option"
  | Accept_Voucher request_env string string
  | Update_Progress "string option" progress_row
  | Request_Settlement "string option" string settlement_wish string
  | New_Process safety_mode

definition done_by :: "'a runtime \<Rightarrow> runtime_db \<Rightarrow> runtime_proc \<Rightarrow> runtime_db \<times> runtime_proc" where
  "done_by m d p = (case in_session m d p of (d', p', out) \<Rightarrow> (d', p'))"

fun runtime_do :: "runtime_env \<Rightarrow> runtime_call \<Rightarrow> runtime_db \<Rightarrow> runtime_proc \<Rightarrow> runtime_db \<times> runtime_proc" where
  "runtime_do env (Create_Key w) d p = done_by (runtime_create_key env w) d p"
| "runtime_do env (Revoke_Key key_id wallet iden sig) d p = done_by (runtime_revoke_key env key_id wallet iden sig) d p"
| "runtime_do env (List_Keys wallet iden sig nonce) d p = done_by (runtime_list_keys env wallet iden sig nonce) d p"
| "runtime_do env (Save_Policy iden po) d p = done_by (upsert_automation_policy env iden po) d p"
| "runtime_do env (Request_Voucher header nonce b) d p = done_by (runtime_request_voucher env header nonce b) d p"
| "runtime_do env (Check_Voucher header vid nonce expected) d p = done_by (runtime_check_voucher env header vid nonce expected) d p"
| "runtime_do env (Accept_Voucher rq vid seller) d p = done_by (accept_voucher env rq vid seller) d p"
| "runtime_do env (Update_Progress header r) d p = done_by (runtime_update_progress env header r) d p"
| "runtime_do env (Request_Settlement header tid kind nonce) d p = done_by (runtime_request_settlement env header tid kind nonce) d p"
| "runtime_do env (New_Process m) d p = (d, \<lparr>rp_routes = (m, []), rp_replay = [], rp_daily = []\<rparr>)"

text \<open>What a request spends: the key, the day and the amount of the voucher that it makes.\<close>

definition spends :: "runtime_env \<Rightarrow> runtime_call \<Rightarrow> runtime_db \<Rightarrow> runtime_proc \<Rightarrow> (string \<times> string \<times> rat) list" where
  "spends env c d p =
     (case c of
        Request_Voucher header nonce b \<Rightarrow>
          (case (get_runtime_context env header d p, runtime_request_voucher env header nonce b d p) of
             ((_, _, Inr ctx), (_, _, Inr v)) \<Rightarrow> [(cx_key ctx, today env, v_amount v)]
           | _ \<Rightarrow> [])
      | _ \<Rightarrow> [])"

text \<open>Every process of a run keeps the spending in the database. The list has the spending of the requests, in their order.\<close>

inductive runtime_run :: "(string \<times> string \<times> rat) list \<Rightarrow> runtime_db \<Rightarrow> runtime_proc \<Rightarrow> bool" where
  start: "rt_daily d = [] \<Longrightarrow> rp_daily p = [] \<Longrightarrow> runtime_run [] d p"
| step: "runtime_run sl d p \<Longrightarrow> spend_persist env \<Longrightarrow> runtime_do env c d p = (d', p') \<Longrightarrow> runtime_run (sl @ spends env c d p) d' p'"

definition spent_by :: "(string \<times> string \<times> rat) list \<Rightarrow> string \<Rightarrow> string \<Rightarrow> rat" where
  "spent_by sl k day = sum_list (map (\<lambda>(k', day', x). if k' = k \<and> day' = day then x else 0) sl)"

lemma spent_by_snoc [simp]: "spent_by [] k day = 0" "spent_by (sl @ [(k', day', x)]) k day = spent_by sl k day + (if k' = k \<and> day' = day then x else 0)"
  by (auto simp: spent_by_def)

section \<open>The spending of a key\<close>

definition spend_inv :: "(string \<times> string \<times> rat) list \<Rightarrow> runtime_db \<Rightarrow> runtime_proc \<Rightarrow> bool" where
  "spend_inv sl d p \<longleftrightarrow>
     (\<forall>k day. amount_at (rt_daily d) (k, day) = spent_by sl k day \<and> 0 \<le> spent_by sl k day \<and> 0 \<le> amount_at (rp_daily p) (k, day) \<and>
        (spent_by sl k day \<noteq> 0 \<longrightarrow> (\<exists>row. map_of (rt_keys d) k = Some row \<and> spent_by sl k day \<le> rk_daily row + 1 / 10 ^ 9)))"

text \<open>Keys are made, and then only revoked.\<close>

definition keys_grow :: "(string \<times> runtime_key) list \<Rightarrow> (string \<times> runtime_key) list \<Rightarrow> bool" where
  "keys_grow ks ks' \<longleftrightarrow> (\<forall>k row. map_of ks k = Some row \<longrightarrow>
     (\<exists>row'. map_of ks' k = Some row' \<and> (row' = row \<or> rk_status row = ''active'' \<and> (\<exists>t. row' = row\<lparr>rk_status := ''revoked'', rk_revoked := t\<rparr>))))"

lemma keys_grow_refl [simp]: "keys_grow ks ks"
  by (simp add: keys_grow_def)

lemma done_by_cases:
  assumes "done_by m d p = (d', p')"
  obtains r d1 where "m d p = (d1, p', r)" and "d' = (case r of Inl e \<Rightarrow> d | Inr a \<Rightarrow> d1)"
  using assms by (cases "m d p") (auto simp: done_by_def in_session_def split: sum.splits)

lemma done_by_quiet:
  assumes "done_by m d p = (d', p')" and "quiet m"
  shows "rt_keys d' = rt_keys d \<and> rt_daily d' = rt_daily d \<and> rp_daily p' = rp_daily p"
  using assms(1) by (rule done_by_cases) (use quietD [OF assms(2)] in \<open>auto split: sum.splits\<close>)

lemma request_voucher_keys:
  assumes "runtime_request_voucher env header nonce b d p = (d', p', Inr v)"
  shows "rt_keys d' = rt_keys d"
  using assms
proof (rule request_voucher_Inr)
  fix ctx b1 d1 p1 p2 used
  assume "create_voucher env (synthetic_request env (cx_identity ctx) ''/runtime/request-voucher'') b1 d p1 = (d1, p2, Inr v)"
    and "record_daily_spend_async env (cx_key ctx) (vr_amount b1) d1 p2 = (d', p', Inr ())"
  with quietD [OF quiet_create_voucher] show "rt_keys d' = rt_keys d"
    by (auto simp: record_daily_spend_async_def Let_def split: if_splits)
qed

lemma runtime_do_keys:
  assumes "runtime_do env c d p = (d', p')"
  shows "keys_grow (rt_keys d) (rt_keys d')"
proof (cases c)
  case (Create_Key w)
  with assms have "done_by (runtime_create_key env w) d p = (d', p')" by simp
  then show ?thesis by (rule done_by_cases) (auto dest!: create_key_keys simp: keys_grow_def map_of_put_row split: sum.splits)
next
  case (Revoke_Key key_id wallet iden sig)
  with assms have "done_by (runtime_revoke_key env key_id wallet iden sig) d p = (d', p')" by simp
  then show ?thesis by (rule done_by_cases) (auto dest!: revoke_keys simp: keys_grow_def map_of_put_row split: sum.splits, blast)
next
  case (Request_Voucher header nonce b)
  with assms have "done_by (runtime_request_voucher env header nonce b) d p = (d', p')" by simp
  then show ?thesis by (rule done_by_cases) (auto dest: request_voucher_keys split: sum.splits)
qed (use assms in \<open>auto dest!: done_by_quiet intro: quiet_requests quiet_upsert\<close>)

lemma amount_at_put: "amount_at (put_row k x t) k' = (if k' = k then x else amount_at t k')"
  by (simp add: amount_at_def map_of_put_row)

text \<open>A step that spends nothing.\<close>

lemma spend_inv_quiet:
  assumes "spend_inv sl d p" and "rt_daily d' = rt_daily d" and "\<And>k. 0 \<le> amount_at (rp_daily p') k" and "keys_grow (rt_keys d) (rt_keys d')"
  shows "spend_inv sl d' p'"
  unfolding spend_inv_def
proof (intro allI conjI impI)
  fix k day
  note old = assms(1) [unfolded spend_inv_def, rule_format, of k day]
  show "amount_at (rt_daily d') (k, day) = spent_by sl k day" "0 \<le> spent_by sl k day" using old assms(2) by simp_all
  show "0 \<le> amount_at (rp_daily p') (k, day)" by (rule assms(3))
  assume "spent_by sl k day \<noteq> 0"
  with old obtain row where row: "map_of (rt_keys d) k = Some row" "spent_by sl k day \<le> rk_daily row + 1 / 10 ^ 9" by blast
  from assms(4) row(1) obtain row' where "map_of (rt_keys d') k = Some row'" "rk_daily row' = rk_daily row" by (fastforce simp: keys_grow_def)
  with row(2) show "\<exists>row. map_of (rt_keys d') k = Some row \<and> spent_by sl k day \<le> rk_daily row + 1 / 10 ^ 9" by auto
qed

text \<open>What is used on a day, as the check sees it, covers what was spent.\<close>

lemma used_covers:
  assumes "spend_inv sl d p" and "spend_persist env" and "get_daily_used_async env k d p = (d', p', Inr used)"
  shows "spent_by sl k (today env) \<le> used"
proof -
  note old = assms(1) [unfolded spend_inv_def, rule_format, of k "today env"]
  show ?thesis
  proof (cases "map_of (rt_daily d) (k, today env)")
    case None
    then have "spent_by sl k (today env) = 0" using old by (simp add: amount_at_def)
    moreover have "used = get_daily_used env k p" using assms(2,3) None by (auto simp: get_daily_used_async_def)
    ultimately show ?thesis using old by (simp add: get_daily_used_def)
  next
    case (Some x)
    with assms(2,3) old show ?thesis by (simp add: get_daily_used_async_def amount_at_def)
  qed
qed

lemma new_voucher_amount: "create_voucher env rq b d p = (d', p', Inr v) \<Longrightarrow> v = new_voucher env b"
  unfolding create_voucher_def by (auto simp: returns insert_voucher_def Let_def split: if_splits)

lemma with_profile_simps [simp]: "vr_amount (with_profile ctx b) = vr_amount b" "vr_buyer (with_profile ctx b) = vr_buyer b" "vr_credits (with_profile ctx b) = vr_credits b"
  by (simp_all add: with_profile_def)

text \<open>A voucher that a key makes.\<close>

lemma spend_inv_voucher:
  assumes "spend_inv sl d p" and "spend_persist env" and "runtime_request_voucher env header nonce b d p = (d', p', Inr v)"
  obtains ctx where "get_runtime_context env header d p = (d, p, Inr ctx)" and "spend_inv (sl @ [(cx_key ctx, today env, v_amount v)]) d' p'"
  using assms(3)
proof (rule request_voucher_Inr)
  fix ctx b1 d1 p1 p2 used
  assume ctx: "get_runtime_context env header d p = (d, p, Inr ctx)" and b1: "b1 = with_profile ctx b"
    and nonce: "check_replay_nonce env (cx_key ctx) ''request-voucher'' nonce d p = (d, p1, Inr ())"
    and used: "get_daily_used_async env (cx_key ctx) d p1 = (d, p1, Inr used)"
    and limits: "check_single_and_daily_limits (vr_amount b1) (cx_single ctx) (cx_daily ctx) used = Inr ()"
    and made: "create_voucher env (synthetic_request env (cx_identity ctx) ''/runtime/request-voucher'') b1 d p1 = (d1, p2, Inr v)"
    and rec: "record_daily_spend_async env (cx_key ctx) (vr_amount b1) d1 p2 = (d', p', Inr ())"
  let ?k = "cx_key ctx" and ?day = "today env" and ?x = "vr_amount b1"
  have keep: "rp_daily p1 = rp_daily p" "rt_keys d1 = rt_keys d" "rt_daily d1 = rt_daily d" "rp_daily p2 = rp_daily p1"
    using quietD [OF quiet_steps(9) nonce] quietD [OF quiet_create_voucher made] by simp_all
  obtain row where row: "map_of (rt_keys d) ?k = Some row" "cx_daily ctx = rk_daily row" by (rule context_row [OF ctx]) auto
  have inv1: "spend_inv sl d p1" using assms(1) keep(1) by (simp add: spend_inv_def)
  have bound: "0 < ?x" "spent_by sl ?k ?day + ?x \<le> rk_daily row + 1 / 10 ^ 9"
    using limits used_covers [OF inv1 assms(2) used] row(2) unfolding limits_Inr by linarith+
  have d': "rt_keys d' = rt_keys d" "rt_daily d' = put_row (?k, ?day) (amount_at (rt_daily d) (?k, ?day) + ?x) (rt_daily d)"
    "rp_daily p' = put_row (?k, ?day) (amount_at (rp_daily p) (?k, ?day) + ?x) (rp_daily p)"
    using rec assms(2) keep by (auto simp: record_daily_spend_async_def record_daily_spend_def get_daily_used_def Let_def)
  have v: "v_amount v = ?x" using new_voucher_amount [OF made] by (simp add: new_voucher_def)
  have "spend_inv (sl @ [(?k, ?day, ?x)]) d' p'"
    unfolding spend_inv_def
  proof (intro allI conjI impI)
    fix k day
    note old = assms(1) [unfolded spend_inv_def, rule_format, of k day]
    show "amount_at (rt_daily d') (k, day) = spent_by (sl @ [(?k, ?day, ?x)]) k day" "0 \<le> spent_by (sl @ [(?k, ?day, ?x)]) k day"
      "0 \<le> amount_at (rp_daily p') (k, day)" using old bound(1) by (auto simp: d' amount_at_put)
    assume "spent_by (sl @ [(?k, ?day, ?x)]) k day \<noteq> 0"
    with old bound(2) row(1) d'(1) show "\<exists>row. map_of (rt_keys d') k = Some row \<and> spent_by (sl @ [(?k, ?day, ?x)]) k day \<le> rk_daily row + 1 / 10 ^ 9"
      by (auto split: if_splits)
  qed
  with ctx v that show ?thesis by simp
qed

lemma and_then_Inl:
  "and_then m f d p = (d2, p2, Inl e) \<longleftrightarrow> m d p = (d2, p2, Inl e) \<or> (\<exists>d1 p1 a. m d p = (d1, p1, Inr a) \<and> f a d1 p1 = (d2, p2, Inl e))"
  by (auto simp: and_then_def split: prod.splits sum.splits)

lemma request_voucher_Inl: "runtime_request_voucher env header nonce b d p = (d', p', Inl e) \<Longrightarrow> rp_daily p' = rp_daily p"
  unfolding runtime_request_voucher_def Let_def and_then_Inl
  by (auto simp: record_daily_spend_async_def give_def Let_def dest!: quietD [OF quiet_context] quietD [OF quiet_steps(11)] quietD [OF quiet_steps(9)]
      quietD [OF quiet_steps(10)] quietD [OF quiet_create_voucher] quietD [OF quiet_basic(3)] quietD [OF quiet_basic(4)] split: if_splits)

lemma spends_none: "(\<And>header nonce b. c \<noteq> Request_Voucher header nonce b) \<Longrightarrow> spends env c d p = []"
  by (cases c) (auto simp: spends_def)

lemma runtime_do_daily:
  assumes "runtime_do env c d p = (d', p')" and "\<And>header nonce b. c \<noteq> Request_Voucher header nonce b"
  shows "rt_daily d' = rt_daily d" and "rp_daily p' \<in> {rp_daily p, []}"
proof -
  have "rt_daily d' = rt_daily d \<and> rp_daily p' \<in> {rp_daily p, []}"
  proof (cases c)
    case (Create_Key w)
    with assms have "done_by (runtime_create_key env w) d p = (d', p')" by simp
    then show ?thesis by (rule done_by_cases) (auto dest!: create_key_keys split: sum.splits)
  next
    case (Revoke_Key key_id wallet iden sig)
    with assms have "done_by (runtime_revoke_key env key_id wallet iden sig) d p = (d', p')" by simp
    then show ?thesis by (rule done_by_cases) (auto dest!: revoke_keys split: sum.splits)
  qed (use assms in \<open>auto dest!: done_by_quiet intro: quiet_requests quiet_upsert\<close>)
  then show "rt_daily d' = rt_daily d" and "rp_daily p' \<in> {rp_daily p, []}" by simp_all
qed

lemma spend_inv_step:
  assumes "runtime_do env c d p = (d', p')" and "spend_inv sl d p" and "spend_persist env"
  shows "spend_inv (sl @ spends env c d p) d' p'"
proof (cases "\<exists>header nonce b. c = Request_Voucher header nonce b")
  case False
  then have none: "\<And>header nonce b. c \<noteq> Request_Voucher header nonce b" by blast
  have mem: "0 \<le> amount_at (rp_daily p') k" for k
    using runtime_do_daily(2) [OF assms(1) none] assms(2) by (cases k) (auto simp: spend_inv_def amount_at_def)
  show ?thesis
    unfolding spends_none [OF none] append_Nil2
    by (rule spend_inv_quiet [OF assms(2) runtime_do_daily(1) [OF assms(1) none] mem runtime_do_keys [OF assms(1)]])
next
  case True
  then obtain header nonce b where c: "c = Request_Voucher header nonce b" by blast
  obtain d1 r where run: "runtime_request_voucher env header nonce b d p = (d1, p', r)" "d' = (case r of Inl e \<Rightarrow> d | Inr v \<Rightarrow> d1)"
    using assms(1) unfolding c runtime_do.simps by (rule done_by_cases)
  show ?thesis
  proof (cases r)
    case (Inl e)
    then have "spends env c d p = []" using run c by (auto simp: spends_def split: prod.splits sum.splits)
    moreover have "rp_daily p' = rp_daily p" using request_voucher_Inl run(1) Inl by blast
    ultimately show ?thesis using run(2) Inl assms(2) by (simp add: spend_inv_def)
  next
    case (Inr v)
    obtain ctx where ctx: "get_runtime_context env header d p = (d, p, Inr ctx)" "spend_inv (sl @ [(cx_key ctx, today env, v_amount v)]) d1 p'"
      by (rule spend_inv_voucher [OF assms(2,3) run(1) [unfolded Inr]])
    have "spends env c d p = [(cx_key ctx, today env, v_amount v)]" using run(1) Inr ctx(1) by (simp add: spends_def c)
    with ctx(2) run(2) Inr show ?thesis by simp
  qed
qed

lemma runtime_run_inv: "runtime_run sl d p \<Longrightarrow> spend_inv sl d p"
proof (induction rule: runtime_run.induct)
  case (start d p)
  then show ?case by (simp add: spend_inv_def amount_at_def)
qed (blast intro: spend_inv_step)

text \<open>Rows of keys over a run.\<close>

definition runtime_step :: "runtime_db \<times> runtime_proc \<Rightarrow> runtime_db \<times> runtime_proc \<Rightarrow> bool" where
  "runtime_step s s' \<longleftrightarrow> (\<exists>env c. runtime_do env c (fst s) (snd s) = s')"

definition dead_key :: "string \<Rightarrow> runtime_db \<times> runtime_proc \<Rightarrow> bool" where
  "dead_key k s \<longleftrightarrow> (\<exists>row. map_of (rt_keys (fst s)) k = Some row \<and> rk_status row \<noteq> ''active'')"

lemma dead_key_step:
  assumes "runtime_step s s'" and "dead_key k s"
  shows "dead_key k s'"
proof -
  obtain env c where "runtime_do env c (fst s) (snd s) = (fst s', snd s')" using assms(1) by (auto simp: runtime_step_def)
  note grow = runtime_do_keys [OF this]
  obtain row where "map_of (rt_keys (fst s)) k = Some row" "rk_status row \<noteq> ''active''" using assms(2) by (auto simp: dead_key_def)
  with grow have "map_of (rt_keys (fst s')) k = Some row" by (fastforce simp: keys_grow_def)
  with \<open>rk_status row \<noteq> ''active''\<close> show ?thesis by (simp add: dead_key_def)
qed

interpretation runtime_keys: step_invariant runtime_step "dead_key k" for k
  by unfold_locales (rule dead_key_step)

end
