(* ===== verification/Runtime_Nonces.thy ===== *)
theory Runtime_Nonces
  imports Runtime_Keys
begin

text \<open>
  How far the protection against replays goes: what is in the bucket of a key is an end of the history of its accepted nonces, and what is no
  longer in it is older than ten minutes or has 2000 later ones.
\<close>

section \<open>One bucket\<close>

definition bucket_ok :: "(string \<times> rat) list \<Rightarrow> (string \<times> rat) list \<Rightarrow> rat \<Rightarrow> bool" where
  "bucket_ok h b t \<longleftrightarrow> (\<exists>n \<le> length h. b = drop n h \<and> (\<forall>i < n. 600 < t - snd (h ! i) \<or> i + 2000 < length h))"

definition spaced :: "(string \<times> rat) list \<Rightarrow> bool" where
  "spaced h \<longleftrightarrow> (\<forall>i j. i < j \<longrightarrow> j < length h \<longrightarrow> fst (h ! i) = fst (h ! j) \<longrightarrow> 600 < snd (h ! j) - snd (h ! i) \<or> i + 2000 < j)"

lemma bucket_ok_later: "bucket_ok h b t \<Longrightarrow> t \<le> t' \<Longrightarrow> bucket_ok h b t'"
  unfolding bucket_ok_def by force

lemma bucket_ok_nil [simp]: "bucket_ok [] [] t"
  by (simp add: bucket_ok_def)

text \<open>The old nonces leave the bucket.\<close>

lemma bucket_ok_live:
  assumes "bucket_ok h b t" and "t \<le> clock"
  shows "bucket_ok h (dropWhile (\<lambda>(x, since). 600 < clock - since) b) clock"
proof -
  define old where "old = (\<lambda>(x :: string, since). 600 < clock - since)"
  obtain n where n: "n \<le> length h" "b = drop n h" "\<And>i. i < n \<Longrightarrow> 600 < t - snd (h ! i) \<or> i + 2000 < length h" using assms(1) by (auto simp: bucket_ok_def)
  define m where "m = length (takeWhile old b)"
  have m: "m \<le> length b" by (simp add: m_def length_takeWhile_le)
  have "dropWhile old b = drop (n + m) h" by (simp add: m_def dropWhile_eq_drop n(2) add.commute)
  moreover have "n + m \<le> length h" using m n(1,2) by simp
  moreover have "600 < clock - snd (h ! i) \<or> i + 2000 < length h" if "i < n + m" for i
  proof (cases "i < n")
    case True
    with n(3) [OF True] assms(2) show ?thesis by auto
  next
    case False
    then have i: "i - n < m" "h ! i = b ! (i - n)" using that n(1,2) by simp_all
    have "takeWhile old b ! (i - n) = b ! (i - n)" by (rule takeWhile_nth) (use i(1) in \<open>simp add: m_def\<close>)
    moreover have "takeWhile old b ! (i - n) \<in> set (takeWhile old b)" by (rule nth_mem) (use i(1) in \<open>simp add: m_def\<close>)
    ultimately have "old (h ! i)" using set_takeWhileD i(2) by metis
    then show ?thesis by (simp add: old_def split_def)
  qed
  ultimately show ?thesis unfolding bucket_ok_def old_def by blast
qed

lemma bucket_ok_add:
  assumes "bucket_ok h b clock"
  shows "bucket_ok (h @ [x]) (drop (length (b @ [x]) - 2000) (b @ [x])) clock"
proof -
  obtain n where n: "n \<le> length h" "b = drop n h" "\<And>i. i < n \<Longrightarrow> 600 < clock - snd (h ! i) \<or> i + 2000 < length h" using assms by (auto simp: bucket_ok_def)
  define k where "k = length (b @ [x]) - 2000"
  have b: "b @ [x] = drop n (h @ [x])" using n(1,2) by simp
  have "600 < clock - snd ((h @ [x]) ! i) \<or> i + 2000 < length (h @ [x])" if i: "i < n + k" for i
  proof (cases "i < n")
    case True
    with n(1) have "(h @ [x]) ! i = h ! i" by (simp add: nth_append)
    with n(3) [OF True] show ?thesis by auto
  next
    case False
    have "length b = length h - n" using n(2) by simp
    with i False n(1) have "i + 2000 < length h + 1" unfolding k_def by simp
    then show ?thesis by simp
  qed
  moreover have "n + k \<le> length (h @ [x])" using n(1,2) by (simp add: k_def)
  moreover have "drop k (b @ [x]) = drop (n + k) (h @ [x])" unfolding b drop_drop by (simp only: add.commute)
  ultimately show ?thesis unfolding bucket_ok_def k_def by blast
qed

lemma bucket_ok_fresh:
  assumes "bucket_ok h b clock" and "tag \<notin> fst ` set b" and "i < length h" and "fst (h ! i) = tag"
  shows "600 < clock - snd (h ! i) \<or> i + 2000 < length h"
proof -
  obtain n where n: "n \<le> length h" "b = drop n h" "\<And>i. i < n \<Longrightarrow> 600 < clock - snd (h ! i) \<or> i + 2000 < length h" using assms(1) by (auto simp: bucket_ok_def)
  have "i < n"
  proof (rule ccontr)
    assume "\<not> i < n"
    then have "h ! i = b ! (i - n)" "i - n < length b" using n(1,2) assms(3) by simp_all
    then have "h ! i \<in> set b" by simp
    with assms(2,4) show False by (metis image_eqI)
  qed
  with n(3) show ?thesis by blast
qed

lemma spaced_add:
  assumes "spaced h" and "\<And>i. i < length h \<Longrightarrow> fst (h ! i) = tag \<Longrightarrow> 600 < clock - snd (h ! i) \<or> i + 2000 < length h"
  shows "spaced (h @ [(tag, clock)])"
  using assms unfolding spaced_def by (auto simp: nth_append less_Suc_eq)

lemma nonce_check_ok:
  assumes "nonce_check clock tag b = (b', fresh)" and "bucket_ok h b t" and "t \<le> clock" and "spaced h"
  shows "bucket_ok (if fresh then h @ [(tag, clock)] else h) b' clock \<and> spaced (if fresh then h @ [(tag, clock)] else h)"
proof -
  define live where "live = dropWhile (\<lambda>(x, since). 600 < clock - since) b"
  have live: "bucket_ok h live clock" unfolding live_def by (rule bucket_ok_live [OF assms(2,3)])
  show ?thesis
  proof (cases "tag \<in> fst ` set live")
    case True
    with assms(1,4) live show ?thesis by (simp add: nonce_check_def live_def [symmetric] Let_def)
  next
    case False
    with assms(1) have "fresh" "b' = drop (length (live @ [(tag, clock)]) - 2000) (live @ [(tag, clock)])"
      by (auto simp: nonce_check_def live_def [symmetric] Let_def)
    moreover have "spaced (h @ [(tag, clock)])" by (rule spaced_add [OF assms(4)]) (rule bucket_ok_fresh [OF live False])
    ultimately show ?thesis using bucket_ok_add [OF live] by simp
  qed
qed

section \<open>A process\<close>

text \<open>The accepted nonces of a process since its start, with the time of its last check.\<close>

inductive nonce_history :: "(string \<times> string \<times> rat) list \<Rightarrow> runtime_proc \<Rightarrow> rat \<Rightarrow> bool" where
  start: "rp_replay p = [] \<Longrightarrow> nonce_history [] p t"
| check: "nonce_history h p t \<Longrightarrow> t \<le> mono env \<Longrightarrow> check_replay_nonce env k endpoint nonce d p = (d', p', out) \<Longrightarrow>
    nonce_history (if isl out then h else h @ [(k, endpoint @ '':'' @ nonce, mono env)]) p' (mono env)"

definition of_key :: "string \<Rightarrow> (string \<times> string \<times> rat) list \<Rightarrow> (string \<times> rat) list" where
  "of_key k h = map snd (filter (\<lambda>(k', x). k' = k) h)"

lemma of_key_simps [simp]:
  "of_key k [] = []" "of_key k (x # h) = (if fst x = k then snd x # of_key k h else of_key k h)" "of_key k (h @ h') = of_key k h @ of_key k h'"
  by (auto simp: of_key_def)

lemma nonce_history_ok: "nonce_history h p t \<Longrightarrow> bucket_ok (of_key k h) (values_at (rp_replay p) k) t \<and> spaced (of_key k h)"
proof (induction arbitrary: k rule: nonce_history.induct)
  case (start p t)
  then show ?case by (simp add: values_at_def spaced_def)
next
  case (check h p t env key endpoint nonce d d' p' out)
  show ?case
  proof (cases "nonce = [] \<or> 128 < length nonce")
    case True
    then have "p' = p" "isl out" using check.hyps(3) by (auto simp: check_replay_nonce_def)
    with check.IH [of k] check.hyps(2) show ?thesis by (auto intro: bucket_ok_later)
  next
    case False
    obtain b fresh where run: "nonce_check (mono env) (endpoint @ '':'' @ nonce) (values_at (rp_replay p) key) = (b, fresh)" by fastforce
    have p': "rp_replay p' = put_row key b (rp_replay p)" and out: "isl out = (\<not> fresh)"
      using check.hyps(3) False run by (auto simp: check_replay_nonce_def)
    show ?thesis
    proof (cases "k = key")
      case True
      from nonce_check_ok [OF run _ check.hyps(2), of "of_key key h"] check.IH [of key] True p' out show ?thesis
        by (auto simp: values_at_def map_of_put_row)
    next
      case False
      with check.IH [of k] check.hyps(2) p' show ?thesis by (auto simp: values_at_def map_of_put_row intro: bucket_ok_later)
    qed
  qed
qed

end
