(* ===== verification/Runtime_Properties.thy ===== *)
theory Runtime_Properties
  imports Runtime_System Runtime_Nonces
begin

text \<open>The properties of the keys of the agents and of the gateway that serves them.\<close>

section \<open>Tokens\<close>

lemma hex_char:
  assumes "lower_char c \<in> set ''0123456789abcdef''"
  shows "c \<noteq> CHR ''_''" and "\<not> is_space c"
proof -
  show "c \<noteq> CHR ''_''" using assms by (auto simp: lower_char_def char_code_def)
  have "48 \<le> char_code x" if "x \<in> set ''0123456789abcdef''" for x using that by (auto simp: char_code_def)
  with assms show "\<not> is_space c" by (fastforce simp: lower_char_def is_space_def split: if_splits)
qed

lemma all_hex_char: "all_hex s \<Longrightarrow> c \<in> set s \<Longrightarrow> c \<noteq> CHR ''_'' \<and> \<not> is_space c"
  using hex_char by (auto simp: all_hex_def lower_def list_all_iff)

lemma strip_id: "s \<noteq> [] \<Longrightarrow> \<not> is_space (hd s) \<Longrightarrow> \<not> is_space (last s) \<Longrightarrow> strip s = s"
proof -
  assume s: "s \<noteq> []" "\<not> is_space (hd s)" "\<not> is_space (last s)"
  then have "dropWhile is_space s = s" "dropWhile is_space (rev s) = rev s" by (simp_all add: dropWhile_eq_self_iff hd_rev)
  then show "strip s = s" by (simp add: strip_def)
qed

lemma index_of_append: "x \<notin> set xs \<Longrightarrow> index_of x (xs @ x # ys) = Some (length xs)"
  by (induction xs) auto

lemma parse_runtime_token:
  assumes "length kid = 32" and "all_hex kid" and "length sec = 64" and "all_hex sec" and "lower sec = sec"
  shows "strip (runtime_token kid sec) = runtime_token kid sec" and "parse_runtime_key_token (runtime_token kid sec) = Inr (kid, sec)"
proof -
  have "sec \<noteq> []" using assms(3) by auto
  then have "\<not> is_space (last sec)" using all_hex_char [OF assms(4)] by simp
  moreover have "\<not> is_space CHR ''K''" by code_simp
  ultimately show strip: "strip (runtime_token kid sec) = runtime_token kid sec"
    using \<open>sec \<noteq> []\<close> by (intro strip_id) (simp_all add: runtime_token_def)
  have "CHR ''_'' \<notin> set kid" using all_hex_char [OF assms(2)] by blast
  then have "index_of CHR ''_'' (kid @ CHR ''_'' # sec) = Some 32" using index_of_append [of "CHR ''_''" kid sec] assms(1) by simp
  then show "parse_runtime_key_token (runtime_token kid sec) = Inr (kid, sec)"
    using assms unfolding parse_runtime_key_token_def strip by (simp add: runtime_token_def starts_with_def Let_def)
qed

lemma context_of_token:
  assumes "length kid = 32" and "all_hex kid" and "length sec = 64" and "all_hex sec" and "lower sec = sec"
    and "map_of (rt_keys d) kid = Some row" and "rk_status row = ''active''" and "rk_secret_hash row = hash_runtime_secret env kid sec"
    and "now (base env) \<le> rk_expire row + 30 * 10 ^ 6"
  shows "get_runtime_context env (Some (runtime_token kid sec)) d p =
    (d, p, Inr \<lparr>cx_key = kid, cx_identity = rk_identity row, cx_profile = rk_profile row, cx_wallet = rk_wallet row, cx_permissions = rk_permissions row,
      cx_single = rk_single row, cx_daily = rk_daily row, cx_expire = rk_expire row, cx_agent = rk_agent row, cx_status = rk_status row\<rparr>)"
  using assms parse_runtime_token [OF assms(1-5)]
  by (simp add: get_runtime_context_def load_active_context_def verify_runtime_secret_def runtime_token_def)

lemma request_voucher_I:
  assumes "get_runtime_context env header d p = (d, p, Inr ctx)" and "''request_voucher'' \<in> set (cx_permissions ctx)" and "vr_buyer b = cx_identity ctx"
    and "check_replay_nonce env (cx_key ctx) ''request-voucher'' nonce d p = (d, p1, Inr ())"
    and "get_daily_used_async env (cx_key ctx) d p1 = (d, p1, Inr used)"
    and "check_single_and_daily_limits (vr_amount b) (cx_single ctx) (cx_daily ctx) used = Inr ()"
    and "create_voucher env (synthetic_request env (cx_identity ctx) ''/runtime/request-voucher'') (with_profile ctx b) d p1 = (d1, p2, Inr v)"
    and "record_daily_spend_async env (cx_key ctx) (vr_amount b) d1 p2 = (d', p', Inr ())"
  shows "runtime_request_voucher env header nonce b d p = (d', p', Inr v)"
  using assms unfolding runtime_request_voucher_def Let_def assert_permission_def returns by (simp split del: if_split)

lemma record_spend_Inr: "\<exists>d' p'. record_daily_spend_async env k x d p = (d', p', Inr ())"
  by (simp add: record_daily_spend_async_def Let_def)

section \<open>An example\<close>

definition demo_request_env :: "int \<Rightarrow> request_env" where
  "demo_request_env t =
     \<lparr>now = t, caller = None, url_path = ''/runtime'', party_binding = False, confirm_requires_buyer = True, lock_requires_pending = False,
      block_payment_cycles = True, payout_requires_receipt = True, progress_requires_signature = False, max_future_skew_seconds = 60,
      max_past_hours = 24, env_settlement_mode = ''offchain'', env_chain_id = None, env_contract = None, sha256 = (\<lambda>bs. bs),
      delivery_gate = (\<lambda>_ _ _. Inr ()), owner_gate = (\<lambda>_ _. Inr ()), auto_gate = (\<lambda>_. Inr ()), follow_up = (\<lambda>_ _. Inr ())\<rparr>"

text \<open>In the example a MAC is its message, and one wallet signs everything.\<close>

abbreviation demo_wallet :: string where "demo_wallet \<equiv> ''0x'' @ replicate 40 CHR ''1''"
abbreviation demo_kid :: string where "demo_kid \<equiv> replicate 32 CHR ''a''"
abbreviation demo_sec :: string where "demo_sec \<equiv> replicate 64 CHR ''b''"

definition demo_runtime_env :: "bool \<Rightarrow> int \<Rightarrow> string \<Rightarrow> runtime_env" where
  "demo_runtime_env enforce t vid =
     \<lparr>base = demo_request_env t, mono = of_int t, today = ''2026-01-01'', fresh_key_id = demo_kid, fresh_secret = demo_sec,
      fresh_voucher_id = vid, app_secret = ''s'', hmac_hex = (\<lambda>m x. x), recover = (\<lambda>m s. Some demo_wallet), show_float = (\<lambda>_. ''1.0''),
      iso_time = (\<lambda>_. ''2026''), spend_persist = True, policy_required = False, wallet_required = False, wallet_auto_bind = False,
      ledger_actor_required = True, auth_enforced = enforce, api_keys = [], minted_key = (\<lambda>_ _. False), dev_fallback = True, env_name = ''dev'',
      task_ready = (\<lambda>_ _. Inr ()), ingest_edge = (\<lambda>_ _ _. Inr ()), buyer_commitment = (\<lambda>_. Inr ()), sign_progress = (\<lambda>_. ''sig'')\<rparr>"

text \<open>A key of bob for 10 at once and 15 a day.\<close>

definition demo_wishes :: key_wishes where
  "demo_wishes =
     \<lparr>kw_wallet = demo_wallet, kw_identity = ''bob'', kw_signature = replicate 130 CHR ''0'', kw_permissions = [''request_voucher''],
      kw_single = 10, kw_daily = 15, kw_expire = 10 ^ 12, kw_agent = ''a'', kw_binding = None, kw_profile = None\<rparr>"

definition demo_row :: runtime_key where
  "demo_row = new_key_row (demo_runtime_env False 0 ''v'') demo_wishes [''request_voucher'']"

definition demo_runtime_db :: "(string \<times> runtime_key) list \<Rightarrow> runtime_db" where
  "demo_runtime_db keys =
     \<lparr>rt_routes = \<lparr>settlements = [], transitions = [],
        capacities = [(''bob'', (empty_capacity 0)\<lparr>total_locked_usdc := 1000, total_bill_credits := 1000, available_credits := 1000\<rparr>)],
        vouchers = [], quotas = [], receipts = [], evidence_bundles = [], progress_rows = [], contracts = []\<rparr>,
      rt_keys = keys, rt_daily = [], rt_policies = [], rt_wallets = [], rt_subs = [], rt_nonces = [], rt_events = []\<rparr>"

definition demo_runtime_proc :: runtime_proc where
  "demo_runtime_proc = \<lparr>rp_routes = (initial_safety_mode, []), rp_replay = [], rp_daily = []\<rparr>"

definition demo_voucher_request :: "rat \<Rightarrow> rat \<Rightarrow> voucher_request" where
  "demo_voucher_request amount credits =
     \<lparr>vr_buyer = ''bob'', vr_seller = ''sue'', vr_amount = amount, vr_currency = ''USDC'', vr_credits = credits, vr_task_type = ''t'', vr_task_hash = ''h'',
      vr_rule_hash = ''h'', vr_evidence_hash = ''h'', vr_expiry = 10 ^ 12, vr_nonce = ''n1'', vr_signature = ''s'', vr_buyer_sub = None,
      vr_seller_sub = None, vr_rule_spec = None, vr_wallet = None, vr_profile = None\<rparr>"

lemma demo_hex: "all_hex demo_kid" "all_hex demo_sec" "lower demo_sec = demo_sec"
proof -
  have "lower_char CHR ''a'' = CHR ''a''" "lower_char CHR ''b'' = CHR ''b''" by code_simp+
  then show "all_hex demo_kid" "all_hex demo_sec" "lower demo_sec = demo_sec" by (simp_all add: all_hex_def lower_def list_all_iff)
qed

definition demo_ctx :: runtime_context where
  "demo_ctx = \<lparr>cx_key = demo_kid, cx_identity = ''bob'', cx_profile = None, cx_wallet = strip demo_wallet, cx_permissions = [''request_voucher''],
     cx_single = 10, cx_daily = 15, cx_expire = 10 ^ 12, cx_agent = ''a'', cx_status = ''active''\<rparr>"

lemma demo_context:
  assumes "map_of (rt_keys d) demo_kid = Some demo_row" and "t \<le> 10 ^ 12"
  shows "get_runtime_context (demo_runtime_env enforce t vid) (Some (runtime_token demo_kid demo_sec)) d p = (d, p, Inr demo_ctx)"
proof -
  have "strip ''bob'' = ''bob''" "strip ''a'' = ''a''" by code_simp+
  then have row: "rk_status demo_row = ''active''" "rk_identity demo_row = ''bob''" "rk_profile demo_row = None" "rk_wallet demo_row = strip demo_wallet"
    "rk_permissions demo_row = [''request_voucher'']" "rk_single demo_row = 10" "rk_daily demo_row = 15" "rk_expire demo_row = 10 ^ 12" "rk_agent demo_row = ''a''"
    "rk_secret_hash demo_row = hash_runtime_secret (demo_runtime_env enforce t vid) demo_kid demo_sec"
    by (simp_all add: demo_row_def new_key_row_def demo_wishes_def demo_runtime_env_def hash_runtime_secret_def stripped_option_def)
  have t: "now (base (demo_runtime_env enforce t vid)) \<le> rk_expire demo_row + 30 * 10 ^ 6"
    using assms(2) row(8) by (simp add: demo_runtime_env_def demo_request_env_def)
  have len: "length demo_kid = 32" "length demo_sec = 64" by simp_all
  show ?thesis
    using context_of_token [OF len(1) demo_hex(1) len(2) demo_hex(2,3) assms(1) row(1) row(10) t] row by (simp add: demo_ctx_def)
qed

lemma create_voucher_I:
  assumes "assert_runtime_operation_allowed (fst (rp_routes p)) ''new_authorization'' = Inr ()"
    and "audit_capacity_anchor_and_maybe_trip (now rq) (Some ''system'') (capacities (rt_routes d)) (fst (rp_routes p)) = (m, Inr ())"
    and "safe_segment (vr_buyer b)" and "safe_segment (vr_seller b)" and "safe_segment (vr_nonce b)" and "safe_segment (vr_task_type b)"
    and "vr_buyer_sub b = None" and "vr_seller_sub b = None" and "require_ledger_identity env rq (vr_buyer b) = Inr ()"
    and "0 < vr_amount b" and "0 < vr_credits b" and "now rq < vr_expiry b" and "credits_suffice b d" and "named (vr_profile b) = None"
    and "buyer_commitment env b = Inr ()" and "(vr_buyer b, vr_nonce b) \<notin> set (rt_nonces d)" and "map_of (vouchers (rt_routes d)) (fresh_voucher_id env) = None"
  shows "\<exists>d' p'. create_voucher env rq b d p = (d', p', Inr (new_voucher env b)) \<and> rp_replay p' = rp_replay p"
proof -
  have named: "named None = None" by (simp add: named_def)
  show ?thesis
    using assms unfolding create_voucher_def
    by (simp add: and_then_def check_def require_def read_db_def give_def on_routes_def allowed_def audit_anchor_def validate_public_url_segment_def
        valid_opt_def named validate_sub_identity_binding_def insert_voucher_def Let_def credits_suffice_def)
qed

abbreviation demo_env_1 :: runtime_env where "demo_env_1 \<equiv> demo_runtime_env False 2 ''v1''"
abbreviation demo_db_1 :: runtime_db where "demo_db_1 \<equiv> demo_runtime_db [(demo_kid, demo_row)]"
abbreviation demo_token :: string where "demo_token \<equiv> runtime_token demo_kid demo_sec"

lemma demo_create:
  assumes "0 < credits" and "credits \<le> 1000" and "rp_routes p = (initial_safety_mode, [])"
  shows "\<exists>d' p'. create_voucher demo_env_1 (synthetic_request demo_env_1 ''bob'' path) (demo_voucher_request 10 credits) (demo_runtime_db keys) p =
    (d', p', Inr (new_voucher demo_env_1 (demo_voucher_request 10 credits)))"
proof -
  have allowed: "assert_runtime_operation_allowed initial_safety_mode ''new_authorization'' = Inr ()" by code_simp
  have audit: "\<exists>m. audit_capacity_anchor_and_maybe_trip 2 (Some ''system'') (capacities (rt_routes (demo_runtime_db keys))) initial_safety_mode = (m, Inr ())"
    by (simp add: audit_capacity_anchor_and_maybe_trip_def demo_runtime_db_def sum_of_def empty_capacity_def Let_def)
  then obtain m where m: "audit_capacity_anchor_and_maybe_trip 2 (Some ''system'') (capacities (rt_routes (demo_runtime_db keys))) initial_safety_mode = (m, Inr ())" ..
  have safe: "safe_segment ''bob''" "safe_segment ''sue''" "safe_segment ''n1''" "safe_segment ''t''" by code_simp+
  have "\<exists>d' p'. create_voucher demo_env_1 (synthetic_request demo_env_1 ''bob'' path) (demo_voucher_request 10 credits) (demo_runtime_db keys) p =
      (d', p', Inr (new_voucher demo_env_1 (demo_voucher_request 10 credits))) \<and> rp_replay p' = rp_replay p"
    by (rule create_voucher_I)
      (use allowed m safe assms in \<open>simp_all add: synthetic_request_def demo_runtime_env_def demo_request_env_def demo_voucher_request_def demo_runtime_db_def
         require_ledger_identity_def ledger_party_binding_active_def credits_suffice_def named_def\<close>)
  then show ?thesis by blast
qed

lemma demo_request:
  assumes "0 < credits" and "credits \<le> 1000"
  shows "\<exists>d' p' v. runtime_request_voucher demo_env_1 (Some demo_token) ''nonce-001'' (demo_voucher_request 10 credits) demo_db_1 demo_runtime_proc =
    (d', p', Inr v) \<and> v_amount v = 10 \<and> bill_credit_amount v = credits"
proof -
  have ctx: "get_runtime_context demo_env_1 (Some demo_token) demo_db_1 demo_runtime_proc = (demo_db_1, demo_runtime_proc, Inr demo_ctx)"
    by (rule demo_context) (simp_all add: demo_runtime_db_def)
  define p1 where "p1 = demo_runtime_proc\<lparr>rp_replay := [(demo_kid, [(''request-voucher:nonce-001'', 2)])]\<rparr>"
  have nonce: "check_replay_nonce demo_env_1 (cx_key demo_ctx) ''request-voucher'' ''nonce-001'' demo_db_1 demo_runtime_proc = (demo_db_1, p1, Inr ())"
    by (simp add: check_replay_nonce_def nonce_check_def values_at_def put_row_def p1_def demo_runtime_proc_def demo_ctx_def demo_runtime_env_def Let_def)
  have used: "get_daily_used_async demo_env_1 (cx_key demo_ctx) demo_db_1 p1 = (demo_db_1, p1, Inr 0)"
    by (simp add: get_daily_used_async_def get_daily_used_def amount_at_def p1_def demo_runtime_proc_def demo_runtime_db_def demo_runtime_env_def)
  have limits: "check_single_and_daily_limits (vr_amount (demo_voucher_request 10 credits)) (cx_single demo_ctx) (cx_daily demo_ctx) 0 = Inr ()"
    by (simp add: check_single_and_daily_limits_def demo_voucher_request_def demo_ctx_def)
  have same: "with_profile demo_ctx (demo_voucher_request 10 credits) = demo_voucher_request 10 credits" "cx_identity demo_ctx = ''bob''"
    "''request_voucher'' \<in> set (cx_permissions demo_ctx)" "vr_buyer (demo_voucher_request 10 credits) = ''bob''"
    by (simp_all add: with_profile_def demo_ctx_def named_def demo_voucher_request_def)
  have p1: "rp_routes p1 = (initial_safety_mode, [])" by (simp add: p1_def demo_runtime_proc_def)
  obtain d1 p2 where made: "create_voucher demo_env_1 (synthetic_request demo_env_1 (cx_identity demo_ctx) ''/runtime/request-voucher'')
      (with_profile demo_ctx (demo_voucher_request 10 credits)) demo_db_1 p1 = (d1, p2, Inr (new_voucher demo_env_1 (demo_voucher_request 10 credits)))"
    unfolding same(1,2) using demo_create [OF assms p1] by blast
  obtain d' p' where rec: "record_daily_spend_async demo_env_1 (cx_key demo_ctx) (vr_amount (demo_voucher_request 10 credits)) d1 p2 = (d', p', Inr ())"
    using record_spend_Inr by blast
  have "vr_buyer (demo_voucher_request 10 credits) = cx_identity demo_ctx" using same(2,4) by simp
  from request_voucher_I [OF ctx same(3) this nonce used limits made rec] show ?thesis
    by (auto simp: new_voucher_def demo_voucher_request_def)
qed

lemma demo_runs: "\<exists>d p. runtime_run [(demo_kid, ''2026-01-01'', 10)] d p"
proof -
  let ?c = "Request_Voucher (Some demo_token) ''nonce-001'' (demo_voucher_request 10 10)"
  obtain d p v where run: "runtime_request_voucher demo_env_1 (Some demo_token) ''nonce-001'' (demo_voucher_request 10 10) demo_db_1 demo_runtime_proc =
      (d, p, Inr v)" "v_amount v = 10" using demo_request [of 10] by auto
  have ctx: "get_runtime_context demo_env_1 (Some demo_token) demo_db_1 demo_runtime_proc = (demo_db_1, demo_runtime_proc, Inr demo_ctx)"
    by (rule demo_context) (simp_all add: demo_runtime_db_def)
  have sp: "spends demo_env_1 ?c demo_db_1 demo_runtime_proc = [(demo_kid, ''2026-01-01'', 10)]"
    using run ctx by (simp add: spends_def demo_ctx_def demo_runtime_env_def)
  have "runtime_run [] demo_db_1 demo_runtime_proc" by (rule runtime_run.start) (simp_all add: demo_runtime_db_def demo_runtime_proc_def)
  moreover have "spend_persist demo_env_1" by (simp add: demo_runtime_env_def)
  moreover have "runtime_do demo_env_1 ?c demo_db_1 demo_runtime_proc = (d, p)" using run by (simp add: done_by_def in_session_def)
  ultimately have "runtime_run ([] @ spends demo_env_1 ?c demo_db_1 demo_runtime_proc) d p" by (rule runtime_run.step)
  with sp show ?thesis by auto
qed

section \<open>Limits\<close>





text \<open>
  C35. A new key opens the gateway: the token that the creation returns is accepted until the end of the key, and stands for the identity,
  the limits and the permissions that were signed for.
\<close>

theorem created_key_opens:
  assumes "runtime_create_key env w d p = (d1, p1, Inr (token, kid, row))" and "length (fresh_key_id env) = 32" and "all_hex (fresh_key_id env)"
    and "length (fresh_secret env) = 64" and "all_hex (fresh_secret env)" and "lower (fresh_secret env) = fresh_secret env"
    and "app_secret env2 = app_secret env" and "hmac_hex env2 = hmac_hex env" and "now (base env2) \<le> kw_expire w + 30 * 10 ^ 6"
  shows "\<exists>ctx. get_runtime_context env2 (Some token) d1 p2 = (d1, p2, Inr ctx) \<and> cx_identity ctx = strip (kw_identity w) \<and>
    cx_single ctx = kw_single w \<and> cx_daily ctx = kw_daily w \<and> normalize_permissions (kw_permissions w) = Inr (cx_permissions ctx)"
proof -
  obtain perms where perms: "normalize_permissions (kw_permissions w) = Inr perms" "row = new_key_row env w perms"
    "token = runtime_token (fresh_key_id env) (fresh_secret env)" "map_of (rt_keys d1) (fresh_key_id env) = Some row"
    using assms(1) unfolding runtime_create_key_def create_runtime_key_record_def
    by (auto simp: returns map_of_put_row Let_def split: if_splits)
  have row: "rk_status row = ''active''" "rk_secret_hash row = hash_runtime_secret env2 (fresh_key_id env) (fresh_secret env)"
    "now (base env2) \<le> rk_expire row + 30 * 10 ^ 6"
    using assms(7-9) by (simp_all add: perms(2) new_key_row_def hash_runtime_secret_def server_material_def)
  from context_of_token [OF assms(2-6) perms(4) row] perms show ?thesis by (simp add: new_key_row_def)
qed

lemma demo_create_key:
  "\<exists>d p row. runtime_create_key demo_env_1 demo_wishes (demo_runtime_db []) demo_runtime_proc = (d, p, Inr (demo_token, demo_kid, row))"
proof -
  have safe: "safe_segment ''bob''" and perms: "normalize_permissions [''request_voucher''] = Inr [''request_voucher'']" by code_simp+
  have ends: "\<not> is_space CHR ''0''" "\<not> is_space CHR ''1''" by code_simp+
  have "strip demo_wallet = demo_wallet" "strip (replicate 130 CHR ''0'') = replicate 130 CHR ''0''" using ends by (simp_all add: strip_id)
  then have signed: "verify_personal_message demo_env_1 msg demo_wallet (replicate 130 CHR ''0'') = Inr ()" for msg
    by (simp add: verify_personal_message_def normalize_sig_def starts_with_def demo_runtime_env_def Let_def numeral_eq_Suc)
  show ?thesis
    using safe perms signed
    by (simp add: runtime_create_key_def create_runtime_key_record_def and_then_def check_def require_def read_db_def write_db_def give_def
        validate_public_url_segment_def valid_opt_def named_def match_saved_policy_def ensure_wallet_authorized_for_runtime_key_def demo_wishes_def
        demo_runtime_env_def demo_runtime_db_def Let_def)
qed

theorem created_key_opens_witness:
  "\<exists>d p row ctx. runtime_create_key demo_env_1 demo_wishes (demo_runtime_db []) demo_runtime_proc = (d, p, Inr (demo_token, demo_kid, row)) \<and>
     get_runtime_context demo_env_1 (Some demo_token) d p = (d, p, Inr ctx) \<and> cx_daily ctx = 15"
proof -
  obtain d p row where run: "runtime_create_key demo_env_1 demo_wishes (demo_runtime_db []) demo_runtime_proc = (d, p, Inr (demo_token, demo_kid, row))"
    using demo_create_key by blast
  have env: "fresh_key_id demo_env_1 = demo_kid" "fresh_secret demo_env_1 = demo_sec" "kw_daily demo_wishes = 15" "now (base demo_env_1) \<le> kw_expire demo_wishes + 30 * 10 ^ 6"
    by (simp_all add: demo_runtime_env_def demo_request_env_def demo_wishes_def)
  from created_key_opens [OF run, of demo_env_1 p] env demo_hex run show ?thesis by auto
qed

text \<open>
  A revoked key never opens the gateway again: after every sequence of requests, of new keys and of restarts, no token is accepted for a key
  that was not active at the beginning.
\<close>

theorem revoked_key_is_dead:
  assumes "runtime_step\<^sup>*\<^sup>* (d, p) (d', p')" and "map_of (rt_keys d) k = Some row" and "rk_status row \<noteq> ''active''"
    and "get_runtime_context env header d' p' = (d2, p2, Inr ctx)"
  shows "cx_key ctx \<noteq> k"
proof
  assume k: "cx_key ctx = k"
  have "dead_key k (d, p)" using assms(2,3) by (simp add: dead_key_def)
  from runtime_keys.inv_run [OF assms(1) this] have dead: "dead_key k (d', p')" .
  show False
    using assms(4)
  proof (rule context_row)
    fix h kid secret row
    assume "map_of (rt_keys d') kid = Some row" "rk_status row = ''active''"
      "ctx = \<lparr>cx_key = kid, cx_identity = rk_identity row, cx_profile = rk_profile row, cx_wallet = rk_wallet row, cx_permissions = rk_permissions row,
        cx_single = rk_single row, cx_daily = rk_daily row, cx_expire = rk_expire row, cx_agent = rk_agent row, cx_status = rk_status row\<rparr>"
    with dead k show False by (simp add: dead_key_def)
  qed
qed

theorem revoked_key_is_dead_witness:
  "\<exists>ctx d. map_of (rt_keys d) ''k'' \<noteq> None \<and> get_runtime_context demo_env_1 (Some demo_token) d demo_runtime_proc = (d, demo_runtime_proc, Inr ctx) \<and> cx_key ctx \<noteq> ''k''"
proof -
  define d where "d = demo_runtime_db [(demo_kid, demo_row), (''k'', demo_row\<lparr>rk_status := ''revoked''\<rparr>)]"
  have "length ''k'' \<noteq> length demo_kid" by simp
  then have "''k'' \<noteq> demo_kid" by metis
  then have rows: "map_of (rt_keys d) demo_kid = Some demo_row" "map_of (rt_keys d) ''k'' = Some (demo_row\<lparr>rk_status := ''revoked''\<rparr>)"
    by (simp_all add: d_def demo_runtime_db_def)
  have ctx: "get_runtime_context demo_env_1 (Some demo_token) d demo_runtime_proc = (d, demo_runtime_proc, Inr demo_ctx)"
    by (rule demo_context [OF rows(1)]) simp
  from revoked_key_is_dead [OF rtranclp.rtrancl_refl rows(2) _ ctx] rows(2) ctx show ?thesis by auto
qed

section \<open>Nonces\<close>



section \<open>Two faults of the gateway\<close>

lemma synthetic_caller:
  assumes "auth_enforced env" and "\<And>agent secret. parse_api_key (dev_api_key iden) = Some (agent, secret) \<Longrightarrow> map_of (api_keys env) agent \<noteq> Some secret \<and> \<not> minted_key env agent secret"
  shows "caller (synthetic_request env iden path) = None"
  using assms(1) assms(2) [of "fst (the (parse_api_key (dev_api_key iden)))" "snd (the (parse_api_key (dev_api_key iden)))"]
  by (auto simp: synthetic_request_def validate_api_key_def split: option.splits prod.splits)

lemma on_routes_fails:
  assumes "\<And>x y x' y' s. r x y \<noteq> (x', y', Inr s)"
  shows "on_routes r d p \<noteq> (d', p', Inr s)"
proof
  assume ok: "on_routes r d p = (d', p', Inr s)"
  obtain x y z where "r (rt_routes d) (rp_routes p) = (x, y, z)" by (metis prod_cases3)
  with ok assms [of "rt_routes d" "rp_routes p" x y s] show False by (simp add: on_routes_def)
qed

text \<open>
  C39. With the checks that production asks for, the gateway serves nobody: when the parties of a request are enforced, the key that the gateway makes
  up for its own requests names no caller unless its fixed secret was configured or handed out, so that no agent gets a voucher and no settlement moves.
\<close>

theorem enforced_gateway_refuses:
  assumes "auth_enforced env" and "ledger_actor_required env" and "party_binding (base env)"
    and "\<forall>iden agent secret. parse_api_key (dev_api_key iden) = Some (agent, secret) \<longrightarrow> map_of (api_keys env) agent \<noteq> Some secret \<and> \<not> minted_key env agent secret"
  shows "runtime_request_voucher env header nonce b d p \<noteq> (d', p', Inr v) \<and> runtime_request_settlement env header tid kind nonce d p \<noteq> (d', p', Inr st)"
proof (intro conjI notI)
  have nobody: "caller (synthetic_request env iden path) = None" for iden path by (rule synthetic_caller) (use assms in blast)+
  have binding: "party_binding (synthetic_request env iden path)" for iden path using assms(3) by (simp add: synthetic_request_def)
  show False if "runtime_request_voucher env header nonce b d p = (d', p', Inr v)"
    using that
  proof (rule request_voucher_Inr)
    fix ctx b1 d1 p1 p2 used
    assume "create_voucher env (synthetic_request env (cx_identity ctx) ''/runtime/request-voucher'') b1 d p1 = (d1, p2, Inr v)"
    then have "require_ledger_identity env (synthetic_request env (cx_identity ctx) ''/runtime/request-voucher'') (vr_buyer b1) = Inr ()"
      unfolding create_voucher_def by (auto simp: returns)
    with nobody assms(1,2) show False by (simp add: require_ledger_identity_def ledger_party_binding_active_def require_actor_def)
  qed
  have worker: "require_worker (synthetic_request env iden path) s \<noteq> Inr ()" and buyer: "require_buyer (synthetic_request env iden path) s \<noteq> Inr ()" for iden path s
    using nobody binding by (simp_all add: require_worker_def require_buyer_def require_actor_def)
  show False if "runtime_request_settlement env header tid kind nonce d p = (d', p', Inr st)"
  proof -
    have no: "submit_settlement (synthetic_request env iden path) tid x y \<noteq> (x', y', Inr s)" "buyer_accept_settlement (synthetic_request env iden path) tid None x y \<noteq> (x', y', Inr s)"
      "partial_settlement (synthetic_request env iden path) tid pct None x y \<noteq> (x', y', Inr s)" for iden path x y x' y' s pct
      using worker buyer by (auto simp: submit_settlement_def buyer_accept_settlement_def partial_settlement_def returns)
    have gone: "on_routes (submit_settlement (synthetic_request env iden path) tid) x y \<noteq> (x', y', Inr s)"
      "on_routes (buyer_accept_settlement (synthetic_request env iden path) tid None) x y \<noteq> (x', y', Inr s)"
      "on_routes (partial_settlement (synthetic_request env iden path) tid pct None) x y \<noteq> (x', y', Inr s)" for iden path x y x' y' s pct
      by (intro on_routes_fails no)+
    from that show False
      unfolding runtime_request_settlement_def Let_def returns by (cases kind) (auto simp: returns gone split: option.splits if_splits)
  qed
qed

theorem enforced_gateway_refuses_witness:
  "runtime_request_voucher ((demo_runtime_env True 2 ''v1'')\<lparr>base := (demo_request_env 2)\<lparr>party_binding := True\<rparr>\<rparr>) (Some demo_token) ''nonce-001''
     (demo_voucher_request 10 10) demo_db_1 demo_runtime_proc \<noteq> (demo_db_1, demo_runtime_proc, Inr (new_voucher demo_env_1 (demo_voucher_request 10 10)))"
proof -
  define env where "env = (demo_runtime_env True 2 ''v1'')\<lparr>base := (demo_request_env 2)\<lparr>party_binding := True\<rparr>\<rparr>"
  have "auth_enforced env" "ledger_actor_required env" "party_binding (base env)" "api_keys env = []" "minted_key env = (\<lambda>_ _. False)"
    by (simp_all add: env_def demo_runtime_env_def)
  with enforced_gateway_refuses [of env "Some demo_token" "''nonce-001''" "demo_voucher_request 10 10" demo_db_1 demo_runtime_proc]
  show ?thesis unfolding env_def by simp
qed

lemma sub_identity_Inr [returns]:
  "validate_sub_identity_binding parent sub role d p = (d', p', Inr u) \<longleftrightarrow> d' = d \<and> p' = p \<and> snd (snd (validate_sub_identity_binding parent sub role d p)) = Inr ()"
  by (auto simp: validate_sub_identity_binding_def split: option.splits)

lemma allowed_Inr [returns]:
  "on_routes (allowed op) d p = (d', p', Inr u) \<longleftrightarrow> d' = d \<and> p' = p \<and> assert_runtime_operation_allowed (fst (rp_routes p)) op = Inr ()"
  by (auto simp: on_routes_def allowed_def)

lemma audit_Inr [returns]:
  "on_routes (audit_anchor rq) d p = (d', p', Inr u) \<longleftrightarrow> d' = d \<and>
     (\<exists>m. audit_capacity_anchor_and_maybe_trip (now rq) (Some ''system'') (capacities (rt_routes d)) (fst (rp_routes p)) = (m, Inr ()) \<and>
        p' = p\<lparr>rp_routes := (m, snd (rp_routes p))\<rparr>)"
  by (auto simp: on_routes_def audit_anchor_def split: prod.splits)

lemma create_voucher_steps:
  assumes "named (vr_profile b) = None"
  shows "create_voucher env rq b d p = (d1, p1, Inr v) \<longleftrightarrow>
     assert_runtime_operation_allowed (fst (rp_routes p)) ''new_authorization'' = Inr () \<and>
     (\<exists>m p2. audit_capacity_anchor_and_maybe_trip (now rq) (Some ''system'') (capacities (rt_routes d)) (fst (rp_routes p)) = (m, Inr ()) \<and>
       p2 = p\<lparr>rp_routes := (m, snd (rp_routes p))\<rparr> \<and> safe_segment (vr_buyer b) \<and> safe_segment (vr_seller b) \<and>
       valid_opt ''buyer_sub_identity_id'' (vr_buyer_sub b) = Inr () \<and> valid_opt ''seller_sub_identity_id'' (vr_seller_sub b) = Inr () \<and>
       safe_segment (vr_nonce b) \<and> safe_segment (vr_task_type b) \<and> require_ledger_identity env rq (vr_buyer b) = Inr () \<and>
       0 < vr_amount b \<and> 0 < vr_credits b \<and> now rq < vr_expiry b \<and> credits_suffice b d \<and>
       snd (snd (validate_sub_identity_binding (vr_buyer b) (vr_buyer_sub b) ''buyer'' d p2)) = Inr () \<and>
       snd (snd (validate_sub_identity_binding (vr_seller b) (vr_seller_sub b) ''seller'' d p2)) = Inr () \<and>
       buyer_commitment env b = Inr () \<and> insert_voucher env b d p2 = (d1, p1, Inr v))"
proof -
  have segment: "validate_public_url_segment name s = Inr u \<longleftrightarrow> safe_segment s" for name s u by (simp add: validate_public_url_segment_def)
  show ?thesis
    unfolding create_voucher_def assms returns segment option.case by (simp split del: if_split) blast
qed

lemma create_voucher_credits:
  assumes "create_voucher env rq b d p = (d1, p1, Inr v)" and "named (vr_profile b) = None" and "0 < c" and "credits_suffice (b\<lparr>vr_credits := c\<rparr>) d"
    and "buyer_commitment env (b\<lparr>vr_credits := c\<rparr>) = Inr ()"
  shows "\<exists>d2. create_voucher env rq (b\<lparr>vr_credits := c\<rparr>) d p = (d2, p1, Inr (new_voucher env (b\<lparr>vr_credits := c\<rparr>))) \<and> rt_daily d2 = rt_daily d1"
proof -
  obtain m p2 where ins: "insert_voucher env b d p2 = (d1, p1, Inr v)" and p2: "p2 = p\<lparr>rp_routes := (m, snd (rp_routes p))\<rparr>"
    and audit: "audit_capacity_anchor_and_maybe_trip (now rq) (Some ''system'') (capacities (rt_routes d)) (fst (rp_routes p)) = (m, Inr ())"
    using assms(1) unfolding create_voucher_steps [OF assms(2)] by blast
  have "\<exists>d2. insert_voucher env (b\<lparr>vr_credits := c\<rparr>) d p2 = (d2, p1, Inr (new_voucher env (b\<lparr>vr_credits := c\<rparr>))) \<and> rt_daily d2 = rt_daily d1"
    using ins by (auto simp: insert_voucher_def Let_def split: if_splits)
  then show ?thesis
    using assms(1,3-5) audit p2 unfolding create_voucher_steps [OF assms(2)]
    by (subst create_voucher_steps) (auto simp: assms(2))
qed



end
