(* ===== verification/Spec2Isabelle.thy ===== *)
theory Spec2Isabelle
  imports Billing_Scenarios Billing_Sync Billing_Bridge Verifier_Attestation Verifier_Services Challenge_Window Settlement_Properties Arbitration_Properties Arbitration_Ops Delivery_Gate Identity_Properties Confirmation_Properties Fulfill_Properties Accept_Properties Runtime_Properties
begin

text \<open>
  Karma Trust-Chain: a verification library for the trade protocol of the repository. A buyer locks credits
  for a task, a worker executes it and leaves receipts, and the escrow is settled, refunded or divided. The
  parts of the program that carry this logic are modelled here; paths are relative to \<^verbatim>\<open>src/\<close>.

  \<^bold>\<open>Billing\<close> (\<^verbatim>\<open>packages/karma_billing\<close>). \<open>Billing_Schema\<close> has the enumerations, receipts and hashes of
  \<^verbatim>\<open>schema.py\<close>, \<open>Billing_Transitions\<close> the tables of \<^verbatim>\<open>state_transitions.py\<close>, \<open>Billing_Machine\<close> the state machine
  with its audit log (\<^verbatim>\<open>state_machine.py\<close>; its maps are the fields of the record \<open>billing_machine\<close>, one
  definition per method), \<open>Billing_Scenarios\<close> the registry and the five scenarios (\<^verbatim>\<open>scenarios/\<close>),
  \<open>Billing_Sync\<close> publication, Merkle accumulation and fan-out (\<^verbatim>\<open>sync_service.py\<close>) and \<open>Billing_Bridge\<close> the
  anchoring policy over an abstract receipt source (\<^verbatim>\<open>bridge.py\<close>). Shown: the audit log replays to the
  current state of each task, tasks can be settled from every state, accumulation and anchoring lose,
  repeat and reorder nothing, equal roots of equally many leaves exhibit a hash collision.

  \<^bold>\<open>Verifier network\<close> (\<^verbatim>\<open>decentralized_verifier\<close>). \<open>Verifier_Rules\<close> has the canonical JSON, the hashes and
  the two verification rules (\<^verbatim>\<open>rules/\<close>), \<open>Verifier_Attestation\<close> the EIP-712 payload, the pure Python signature
  check, the quorum and the node (\<^verbatim>\<open>attestation/\<close>, \<^verbatim>\<open>node/\<close>), \<open>Challenge_Window\<close> the windows that hold a
  settlement back (\<^verbatim>\<open>challenge/\<close>), \<open>Verifier_Services\<close> publication and background tasks. Shown: both rules
  accept exactly what their declarative specifications say, a quorum needs distinct registered
  verifiers with valid signatures of one hash, a window settles only after its end and undisputed.

  \<^bold>\<open>Settlement\<close> (\<^verbatim>\<open>core/settlement\<close>, \<^verbatim>\<open>db\<close>, \<^verbatim>\<open>services\<close>, \<^verbatim>\<open>api/routes\<close>). \<open>Settlement_Engine\<close> is the table of
  statuses (\<^verbatim>\<open>core/settlement/engine.py\<close>); \<open>Db_Session\<close> the session that commits or rolls a request back, with the
  steps handlers are composed of; \<open>Settlement_Store\<close> the stores and the audited transition; \<open>Capacity\<close> the
  ledger of locked credits with vouchers and the runtime safety mode; \<open>Profile_Capacity\<close> the quotas of role
  profiles; \<open>Settlement_Rules\<close> automatic arbitration, payout guard, progress curve and payment cycle guard.
  \<open>Route_Base\<close> and \<open>Settlement_Routes\<close> compose them to the handlers of \<^verbatim>\<open>settlement.py\<close> and \<^verbatim>\<open>progress.py\<close>, one
  definition per handler, in the order of its guards. \<open>Settlement_System\<close> states the abstract machine
  \<open>settlement_move\<close> and shows that every handler refines it; \<open>Settlement_Properties\<close> draws the
  consequences for all runs of requests.

  \<^bold>\<open>Arbitration\<close> (\<^verbatim>\<open>api/routes/arbitration.py\<close>). \<open>Arbitration_Pool\<close> has the handlers of the pool: joining, cases,
  assignment, material, votes and execution, composed like the settlement routes and over the same tables;
  \<open>Arbitration_Ops\<close> the operations reports. \<open>Arbitration_System\<close> and \<open>Arbitration_Properties\<close> treat the runs in which both kinds of
  requests are mixed: decided cases follow their votes, executed cases are paid as decided, and both together refine \<open>settlement_move\<close>.

  \<^bold>\<open>Delivery\<close> (\<^verbatim>\<open>services/delivery_verification.py\<close>). \<open>Delivery_Verification\<close> has the sessions with their events, proofs and
  capture challenges, \<open>Delivery_System\<close> what a verified session has in every run, \<open>Delivery_Gate\<close> the gate of the
  settlement routes and the properties: a verified delivery has met its requirements, an accepted settlement is delivered.

  \<^bold>\<open>Identity\<close> (\<^verbatim>\<open>services/identity_gateway\<close>). \<open>Trust_Ledger\<close> is the hash chain of events with its alerts and the table of
  credential transitions (\<^verbatim>\<open>state_machine.py\<close>), \<open>Identity_Store\<close> identities, credentials and bindings (\<^verbatim>\<open>store.py\<close>).
  \<open>Identity_System\<close> shows that every operation is a sequence of four moves on credentials and ledger (\<open>cmove\<close>), and
  \<open>Identity_Properties\<close> what follows for all runs: credentials agree with the ledger, a revoked one stays revoked, a binding
  with the right code succeeds.

  \<^bold>\<open>Confirmations\<close> (\<^verbatim>\<open>services/human_confirmation_policy.py\<close>, \<^verbatim>\<open>services/accept_fulfillment.py\<close>). \<open>Owner_Confirmation\<close> has the catalog
  of gates, the sessions in which an owner says yes or no, and the gate of the settlement routes;
  \<open>Confirmation_System\<close> relates memory, file and record of a run, \<open>Confirmation_Properties\<close> shows that a yes is used once and
  only for the question it answers. \<open>Accept_Fulfillment\<close> is the ledger of sellers who let orders expire, with the routes of the
  confirmations; \<open>Fulfill_Gate\<close> composes both to the confirmations an order passes in \<^verbatim>\<open>services/intent_fulfillment.py\<close>, and
  \<open>Fulfill_Properties\<close> shows what the reference of an order, which names buyer and seller only, lets through and blocks.
  \<open>Accept_System\<close> keeps the questions and the ledger of sellers of a run in step, and \<open>Accept_Properties\<close> shows that a seller is
  held to account once for each of his own questions.

  \<^bold>\<open>Agent runtimes\<close> (\<^verbatim>\<open>services/runtime_key_service.py\<close>, \<^verbatim>\<open>services/runtime_daily_spend.py\<close>, \<^verbatim>\<open>api/routes/runtime_gateway.py\<close>,
  \<^verbatim>\<open>api/routes/vouchers.py\<close>). \<open>Runtime_Keys\<close> has the keys with their limits, permissions and nonces, the saved automation policies,
  the signed messages of the owners and the API keys; \<open>Runtime_Gateway\<close> the voucher routes and the gateway that calls them and the
  settlement routes on behalf of an agent; its state is the record \<open>runtime_db\<close>, whose field \<open>rt_routes\<close> holds the tables of the other
  routes, and the memory of the process \<open>runtime_proc\<close>. \<open>Runtime_System\<close> shows which requests leave keys and spending alone and what all
  runs keep, \<open>Runtime_Nonces\<close> relates the bucket of nonces to the history of what was accepted, and \<open>Runtime_Properties\<close> states the
  consequences: what a key requests in a day stays within its limit, a voucher needs a live key with its permission, a nonce is not
  accepted again within ten minutes, a new key opens the gateway; and two ways in which the gateway does not do what it means to.

  \<^bold>\<open>Library.\<close> \<open>Prelude\<close> holds the locales for the two contracts most components promise (an invariant kept, a
  log that only grows), interpreted in the theories that provide them, and generic lemmas; \<open>Py_Std\<close> models what
  is used of the Python library: printing, hexadecimal, JSON with sorted keys, rounding half to even.

  \<^bold>\<open>Choices.\<close> Floats are exact rationals, so a claim about amounts holds up to the rounding errors of binary
  floats; rounding to cents is modelled as such. Strings are ASCII. Times are integers, and a request reads
  the clock once. A coroutine that holds a lock, or a request in a session, is one step. Hash functions, random
  identifiers, the chain and other external services are arguments; where a claim needs injectivity of a hash it
  exhibits the collision instead. A raise is \<open>Inl\<close>, an early return a branch. Every loop ends by structural
  recursion or by a proved measure (\<open>merkle_levels\<close>: the length of the level; \<open>reach_loop\<close>: unseen edges and
  stack); no definition uses fuel.

  \<^bold>\<open>Not modelled.\<close> The responsibility graph, discovery and parsing of intents, payment intents, reputation and
  monitoring services, of which the settlement routes see the verdict only (fields of \<open>request_env\<close>); of the runtime gateway the
  submission of execution receipts and the read routes, the readiness of a task being a field of \<open>runtime_env\<close>; in the order of
  \<^verbatim>\<open>fulfill_intent\<close> what comes before and after the confirmations; the SDKs, bots, agents, web front ends and scripts around the
  API; the Solidity contracts. The coroutine that polls the bridge for ever, HTTP requests, task queues, and the signing side of
  attestations are left out of the modelled parts. Files are modelled where a restart reads them back (trust ledger, identities,
  confirmation sessions), elsewhere a process runs without restart; random identifiers come from a stream without
  repetitions where a claim needs that.
\<close>

end
